(* ===== verification/Phx_Prelude.thy ===== *)
theory Phx_Prelude
  imports Main "HOL-Library.Word" "HOL-Library.List_Lexorder" "HOL-Library.Char_ord"
    "HOL-Library.Product_Lexorder" "HOL-Library.Monad_Syntax"
begin

text \<open>
  The prelude of the development: the machine types of the C++ sources, the error codes of
  \<^verbatim>\<open>errordef.h\<close>, the parts of the C and C++ standard library the sources use (decimal printing
  and scanning, \<^verbatim>\<open>memcpy\<close> of integers, \<^verbatim>\<open>std::map\<close>), and the lemmas on them that the components
  share. Results of type \<open>option\<close> are \<open>None\<close> where the C++ has no defined result: a read
  outside of a buffer, a failed \<^verbatim>\<open>assert\<close>, or a loop that does not end.
\<close>

unbundle bit_operations_syntax

named_theorems gtid_simps \<open>equations for GTID strings\<close>
named_theorems fs_simps \<open>equations for files and record storages\<close>
named_theorems sm_simps \<open>equations for the replicated state machine\<close>

section \<open>Machine types\<close>

type_synonym byte = "8 word"
type_synonym bytes = "8 word list"
type_synonym u8 = "8 word"
type_synonym u16 = "16 word"
type_synonym u32 = "32 word"
type_synonym u64 = "64 word"

section \<open>Error codes\<close>

text \<open>Return codes are C \<^verbatim>\<open>int\<close>s; several enumerators share a value, as in the source.\<close>

abbreviation (input) OK :: int where "OK \<equiv> 0"
abbreviation (input) DATA_EMPTY :: int where "DATA_EMPTY \<equiv> 1"
abbreviation (input) EVENT_EMPTY :: int where "EVENT_EMPTY \<equiv> 1"
abbreviation (input) MYSQL_USER_NOT_EXIST :: int where "MYSQL_USER_NOT_EXIST \<equiv> 1"
abbreviation (input) REQ_INVALUD :: int where "REQ_INVALUD \<equiv> 202"
abbreviation (input) PAXOS_BUFFER_FAIL :: int where "PAXOS_BUFFER_FAIL \<equiv> 400"
abbreviation (input) BUFFER_FAIL :: int where "BUFFER_FAIL \<equiv> 500"
abbreviation (input) GTID_FAIL :: int where "GTID_FAIL \<equiv> 501"
abbreviation (input) GTID_EVENT_FAIL :: int where "GTID_EVENT_FAIL \<equiv> 502"
abbreviation (input) GTID_CONFLICT :: int where "GTID_CONFLICT \<equiv> 503"
abbreviation (input) DATA_TOO_LARGE :: int where "DATA_TOO_LARGE \<equiv> 504"
abbreviation (input) USERINFO_CHANGE_DENIED :: int where "USERINFO_CHANGE_DENIED \<equiv> 911"
abbreviation (input) MASTER_INIT_FAIL :: int where "MASTER_INIT_FAIL \<equiv> 912"
abbreviation (input) EVENT_PARSE_FAIL :: int where "EVENT_PARSE_FAIL \<equiv> 1000"
abbreviation (input) ARG_FAIL :: int where "ARG_FAIL \<equiv> 1001"
abbreviation (input) MASTER_CONFLICT :: int where "MASTER_CONFLICT \<equiv> 2000"
abbreviation (input) SVR_ID_CONFIT :: int where "SVR_ID_CONFIT \<equiv> 2002"
abbreviation (input) EVENT_EXIST :: int where "EVENT_EXIST \<equiv> 3000"
abbreviation (input) MASTER_VERSION_CONFLICT :: int where "MASTER_VERSION_CONFLICT \<equiv> 4000"
abbreviation (input) NOT_MASTER :: int where "NOT_MASTER \<equiv> 4002"
abbreviation (input) MYSQL_NODATA :: int where "MYSQL_NODATA \<equiv> 5002"
abbreviation (input) DATA_ERR :: int where "DATA_ERR \<equiv> 5003"
abbreviation (input) FILE_FORBIDDEN :: int where "FILE_FORBIDDEN \<equiv> 8001"
abbreviation (input) NO_FILES :: int where "NO_FILES \<equiv> 8002"
abbreviation (input) SVR_FAIL :: int where "SVR_FAIL \<equiv> -1"
abbreviation (input) SLAVE_FAIL :: int where "SLAVE_FAIL \<equiv> -1000"
abbreviation (input) MASTER_FAIL :: int where "MASTER_FAIL \<equiv> -1001"
abbreviation (input) MASTER_PREPARING :: int where "MASTER_PREPARING \<equiv> -1003"
abbreviation (input) FILE_FAIL :: int where "FILE_FAIL \<equiv> -2001"
abbreviation (input) PAXOS_FAIL :: int where "PAXOS_FAIL \<equiv> -2500"
abbreviation (input) MYSQL_FAIL :: int where "MYSQL_FAIL \<equiv> -2600"
abbreviation (input) SOCKET_FAIL :: int where "SOCKET_FAIL \<equiv> -3000"

definition EVENT_HEARTBEAT :: u8 where [simp]: "EVENT_HEARTBEAT = 27"
definition EVENT_PERCONA_GTID :: u8 where [simp]: "EVENT_PERCONA_GTID = 33"
definition EVENT_PREVIOUS_GTIDS :: u8 where [simp]: "EVENT_PREVIOUS_GTIDS = 35"
definition EVENT_GTID :: u8 where [simp]: "EVENT_GTID = 162"

section \<open>Decimal numbers in strings\<close>

text \<open>\<^verbatim>\<open>sprintf("%lu")\<close> and \<^verbatim>\<open>sprintf("%u")\<close>: the decimal digits, most significant first.\<close>

definition digit_char :: "nat \<Rightarrow> char" where
  "digit_char d = char_of (48 + d)"

fun show_nat :: "nat \<Rightarrow> string" where
  "show_nat n = (if n < 10 then [digit_char n] else show_nat (n div 10) @ [digit_char (n mod 10)])"

declare show_nat.simps [simp del]

definition is_digit :: "char \<Rightarrow> bool" where
  "is_digit c \<longleftrightarrow> 48 \<le> (of_char c :: nat) \<and> (of_char c :: nat) \<le> 57"

definition digit_val :: "char \<Rightarrow> nat" where
  "digit_val c = of_char c - 48"

definition is_space :: "char \<Rightarrow> bool" where
  "is_space c \<longleftrightarrow> (of_char c :: nat) = 32 \<or> 9 \<le> (of_char c :: nat) \<and> (of_char c :: nat) \<le> 13"

text \<open>The value of a run of decimal digits.\<close>

definition digits_val :: "string \<Rightarrow> nat" where
  "digits_val ds = foldl (\<lambda>a c. 10 * a + digit_val c) 0 ds"

text \<open>
  \<^verbatim>\<open>sscanf(s, "%lu", &x)\<close>: white space, an optional sign, at least one digit; \<open>None\<close> is a
  matching failure, which leaves the variable alone. As the C library's \<^verbatim>\<open>strtoul\<close> does, a value
  that does not fit is \<^verbatim>\<open>ULONG_MAX\<close> and a minus sign negates in the unsigned type.
\<close>

definition scan_unsigned :: "string \<Rightarrow> nat option \<times> bool \<times> string" where
  "scan_unsigned s =
     (let t = dropWhile is_space s;
          neg = (t \<noteq> [] \<and> hd t = CHR ''-'');
          u = (if t \<noteq> [] \<and> (hd t = CHR ''-'' \<or> hd t = CHR ''+'') then tl t else t);
          ds = takeWhile is_digit u
      in (if ds = [] then None else Some (digits_val ds), neg, dropWhile is_digit u))"

definition sscanf_lu :: "string \<Rightarrow> u64 option" where
  "sscanf_lu s =
     (case scan_unsigned s of
        (None, _, _) \<Rightarrow> None
      | (Some n, neg, _) \<Rightarrow>
          Some (if 2 ^ 64 \<le> n then - 1 else if neg then - of_nat n else of_nat n))"

lemma unat_byte_less: "unat (b :: byte) < 256"
  using unsigned_less [of b] by simp

lemma unat_u64_less: "unat (w :: u64) < 18446744073709551616"
  using unsigned_less [of w] by simp

lemma unat_u32_less: "unat (w :: u32) < 4294967296"
  using unsigned_less [of w] by simp

lemma word_less_succ: "(a :: u64) \<noteq> - 1 \<Longrightarrow> a < a + 1"
proof -
  assume "a \<noteq> - 1"
  then have "a + 1 \<noteq> 0" by (simp add: eq_neg_iff_add_eq_0)
  then have "unat (a + 1) = Suc (unat a)" using unatSuc [of a] by (simp add: add.commute)
  then show ?thesis by (simp add: word_less_nat_alt)
qed

subsection \<open>Printing and scanning are inverse\<close>

lemma of_char_digit_char [simp]: "d < 10 \<Longrightarrow> of_char (digit_char d) = 48 + d"
  by (simp add: digit_char_def)

lemma is_digit_digit_char [simp]: "d < 10 \<Longrightarrow> is_digit (digit_char d)"
  by (simp add: is_digit_def)

lemma digit_val_digit_char [simp]: "d < 10 \<Longrightarrow> digit_val (digit_char d) = d"
  by (simp add: digit_val_def)

lemma digits_val_snoc [simp]: "digits_val (ds @ [c]) = 10 * digits_val ds + digit_val c"
  by (simp add: digits_val_def)

lemma show_nat_neq_Nil [simp]: "show_nat n \<noteq> []"
  by (subst show_nat.simps) simp

lemma show_nat_digits: "c \<in> set (show_nat n) \<Longrightarrow> is_digit c"
proof (induction n rule: show_nat.induct)
  case (1 n)
  then show ?case by (subst (asm) (2) show_nat.simps) (auto split: if_splits)
qed

lemma digits_val_show_nat [simp]: "digits_val (show_nat n) = n"
proof (induction n rule: show_nat.induct)
  case (1 n)
  show ?case
  proof (cases "n < 10")
    case True
    then show ?thesis by (simp add: show_nat.simps [of n] digits_val_def)
  next
    case False
    then show ?thesis by (simp add: show_nat.simps [of n] 1)
  qed
qed

lemma show_nat_inj [simp]: "show_nat m = show_nat n \<longleftrightarrow> m = n"
  by (metis digits_val_show_nat)

lemma length_show_nat_le: "n < 10 ^ k \<Longrightarrow> 0 < k \<Longrightarrow> length (show_nat n) \<le> k"
proof (induction k arbitrary: n)
  case (Suc k)
  show ?case
  proof (cases "n < 10")
    case True
    then show ?thesis by (simp add: show_nat.simps [of n])
  next
    case False
    with Suc.prems have "n div 10 < 10 ^ k" and "0 < k"
      by (auto simp: div_less_iff_less_mult mult.commute intro: Nat.gr0I)
    then have "length (show_nat (n div 10)) \<le> k" by (rule Suc.IH)
    with False show ?thesis by (simp add: show_nat.simps [of n])
  qed
qed simp

lemma hd_show_nat_digit: "is_digit (hd (show_nat n))"
  by (rule show_nat_digits [of _ n]) simp

lemma digit_not_space: "is_digit c \<Longrightarrow> \<not> is_space c"
  by (auto simp: is_digit_def is_space_def)

lemma digit_not_sign: "is_digit c \<Longrightarrow> c \<noteq> CHR ''-'' \<and> c \<noteq> CHR ''+'' \<and> c \<noteq> CHR '':''"
  by (auto simp: is_digit_def)

lemma dropWhile_hd_False: "xs \<noteq> [] \<Longrightarrow> \<not> P (hd xs) \<Longrightarrow> dropWhile P xs = xs"
  by (cases xs) auto

lemma scan_unsigned_show_nat:
  assumes "\<not> (rest \<noteq> [] \<and> is_digit (hd rest))"
  shows "scan_unsigned (show_nat n @ rest) = (Some n, False, rest)"
proof -
  have hd: "is_digit (hd (show_nat n @ rest))" by (simp add: hd_show_nat_digit)
  have ds: "dropWhile is_space (show_nat n @ rest) = show_nat n @ rest"
    using hd digit_not_space by (intro dropWhile_hd_False) auto
  have tk: "takeWhile is_digit (show_nat n @ rest) = show_nat n"
    using assms by (cases rest) (auto simp: takeWhile_append2 show_nat_digits takeWhile_tail)
  have dr: "dropWhile is_digit (show_nat n @ rest) = rest"
    using assms by (cases rest) (auto simp: dropWhile_append2 show_nat_digits)
  from hd digit_not_sign have "hd (show_nat n @ rest) \<noteq> CHR ''-''" "hd (show_nat n @ rest) \<noteq> CHR ''+''"
    by blast+
  with ds tk dr show ?thesis by (simp add: scan_unsigned_def Let_def)
qed

lemma sscanf_lu_show_nat [gtid_simps]:
  assumes "\<not> (rest \<noteq> [] \<and> is_digit (hd rest))"
  shows "sscanf_lu (show_nat (unat (w :: u64)) @ rest) = Some w"
  using unat_u64_less [of w] by (simp add: sscanf_lu_def scan_unsigned_show_nat [OF assms])

lemma sscanf_lu_show_nat0 [gtid_simps]: "sscanf_lu (show_nat (unat (w :: u64))) = Some w"
  using sscanf_lu_show_nat [of "[]" w] by simp

section \<open>Integers in byte buffers\<close>

text \<open>\<^verbatim>\<open>memcpy\<close> between an integer and a buffer, on a little-endian machine.\<close>

fun le_val :: "bytes \<Rightarrow> nat" where
  "le_val [] = 0"
| "le_val (b # bs) = unat b + 256 * le_val bs"

fun le_bytes :: "nat \<Rightarrow> nat \<Rightarrow> bytes" where
  "le_bytes 0 x = []"
| "le_bytes (Suc k) x = of_nat (x mod 256) # le_bytes k (x div 256)"

lemma length_le_bytes [simp]: "length (le_bytes k x) = k"
  by (induction k arbitrary: x) auto

lemma le_val_le_bytes: "le_val (le_bytes k x) = x mod 256 ^ k"
proof (induction k arbitrary: x)
  case (Suc k)
  have "unat (of_nat (x mod 256) :: byte) = x mod 256"
    by (simp add: unat_of_nat)
  with Suc show ?case by (simp add: mod_mult2_eq)
qed simp

lemma le_val_bound: "le_val bs < 256 ^ length bs"
proof (induction bs)
  case (Cons b bs)
  have "unat b < 256" by (rule unat_byte_less)
  with Cons show ?case by simp
qed simp

lemma le_val_le_bytes8 [fs_simps]: "x < 2 ^ 64 \<Longrightarrow> le_val (le_bytes 8 x) = x"
  by (simp add: le_val_le_bytes)

lemma le_bytes_le_val: "le_bytes (length bs) (le_val bs) = bs"
proof (induction bs)
  case (Cons b bs)
  have "unat b < 256" by (rule unat_byte_less)
  with Cons show ?case by (simp add: div_mult2_eq)
qed simp

text \<open>What a C function sees of a \<^verbatim>\<open>std::string\<close>.\<close>

definition c_str :: "string \<Rightarrow> string" where
  "c_str s = takeWhile (\<lambda>c. c \<noteq> CHR 0x00) s"

lemma c_str_id [gtid_simps]: "CHR 0x00 \<notin> set s \<Longrightarrow> c_str s = s"
  by (auto simp: c_str_def takeWhile_eq_all_conv)

text \<open>Strings hold bytes: \<^verbatim>\<open>std::string\<close> contents as characters and as bytes.\<close>

definition str_bytes :: "string \<Rightarrow> bytes" where
  "str_bytes s = map (\<lambda>c. of_nat (of_char c)) s"

definition bytes_str :: "bytes \<Rightarrow> string" where
  "bytes_str b = map (\<lambda>x. char_of (unat x)) b"

lemma bytes_str_inverse [simp]: "bytes_str (str_bytes s) = s"
proof -
  have "unat (of_nat (of_char c) :: 8 word) = of_char c" for c
    using nat_of_char_less_256 [of c] by (simp add: unat_of_nat)
  then show ?thesis by (simp add: bytes_str_def str_bytes_def comp_def)
qed

text \<open>Reading a range of memory: \<open>None\<close> is a read outside of the block.\<close>

definition rd :: "bytes \<Rightarrow> nat \<Rightarrow> nat \<Rightarrow> bytes option" where
  "rd mem off n = (if off + n \<le> length mem then Some (take n (drop off mem)) else None)"

lemma rd_Some [simp]: "off + n \<le> length mem \<Longrightarrow> rd mem off n = Some (take n (drop off mem))"
  by (simp add: rd_def)

lemma rd_eq_SomeD: "rd mem off n = Some bs \<Longrightarrow> length bs = n \<and> off + n \<le> length mem"
  by (auto simp: rd_def split: if_splits)

lemma rd_append [simp]: "off + n \<le> length xs \<Longrightarrow> rd (xs @ ys) off n = rd xs off n"
  by (simp add: rd_def)

section \<open>Ordered dictionaries\<close>

text \<open>
  \<^verbatim>\<open>std::map\<close> is an association list whose keys increase; iterating over the map visits the
  entries in the list's order.
\<close>

type_synonym ('k, 'v) smap = "('k \<times> 'v) list"

fun sm_put :: "'k::linorder \<Rightarrow> 'v \<Rightarrow> ('k, 'v) smap \<Rightarrow> ('k, 'v) smap" where
  "sm_put k v [] = [(k, v)]"
| "sm_put k v (e # m) =
     (if fst e < k then e # sm_put k v m
      else if fst e = k then (k, v) # m
      else (k, v) # e # m)"

abbreviation sm_keys :: "('k, 'v) smap \<Rightarrow> 'k list" where
  "sm_keys m \<equiv> map fst m"

definition sm_ok :: "('k::linorder, 'v) smap \<Rightarrow> bool" where
  "sm_ok m \<longleftrightarrow> sorted_wrt (<) (sm_keys m)"

lemma sm_ok_Nil [simp]: "sm_ok []"
  by (simp add: sm_ok_def)

lemma map_of_sm_put [simp]: "map_of (sm_put k v m) = (map_of m)(k \<mapsto> v)"
  by (induction m) auto

lemma sm_put_neq_Nil [simp]: "sm_put k v m \<noteq> []"
  by (cases m) auto

lemma set_sm_keys_put [simp]: "fst ` set (sm_put k v m) = insert k (fst ` set m)"
  by (induction m) auto

lemma sm_ok_put [simp]: "sm_ok m \<Longrightarrow> sm_ok (sm_put k v m)"
proof (induction m)
  case (Cons e m)
  then show ?case by (fastforce simp: sm_ok_def)
qed (simp add: sm_ok_def)

lemma set_sm_put_subset: "set (sm_put k v m) \<subseteq> insert (k, v) (set m)"
  by (induction m) auto

lemma find_last_append:
  "List.find P (xs @ ys) = (case List.find P xs of None \<Rightarrow> List.find P ys | Some x \<Rightarrow> Some x)"
  by (induction xs) auto

text \<open>The dictionary interface its clients rely on.\<close>

locale dictionary =
  fixes empty :: "'m"
    and put :: "'k \<Rightarrow> 'v \<Rightarrow> 'm \<Rightarrow> 'm"
    and find :: "'m \<Rightarrow> 'k \<Rightarrow> 'v option"
    and ok :: "'m \<Rightarrow> bool"
  assumes find_empty: "find empty k = None"
    and find_put: "ok m \<Longrightarrow> find (put k v m) = (find m)(k \<mapsto> v)"
    and ok_empty: "ok empty"
    and ok_put: "ok m \<Longrightarrow> ok (put k v m)"
begin

lemma ok_fold_put: "ok m \<Longrightarrow> ok (fold (\<lambda>x. put (key x) (val x)) xs m)"
  by (induction xs arbitrary: m) (auto simp: ok_put)

lemma find_fold_put:
  "ok m \<Longrightarrow> find (fold (\<lambda>x. put (key x) (val x)) xs m) k =
     (case List.find (\<lambda>x. key x = k) (rev xs) of None \<Rightarrow> find m k | Some x \<Rightarrow> Some (val x))"
proof (induction xs arbitrary: m)
  case (Cons x xs)
  then show ?case
    by (auto simp: ok_put find_put find_last_append split: option.splits)
qed simp

end

lemma sm_put_member:
  assumes "sm_ok m" "e \<in> set (sm_put k v m)" shows "e = (k, v) \<or> e \<in> set m \<and> fst e \<noteq> k"
proof -
  have "distinct (map fst (sm_put k v m))" using assms(1) sm_ok_put [of m k v] by (simp add: sm_ok_def strict_sorted_iff)
  from map_of_is_SomeI [OF this] assms(2) have "map_of (sm_put k v m) (fst e) = Some (snd e)"
    by (cases e) (simp del: map_of_sm_put)
  then show ?thesis using map_of_SomeD [of m "fst e" "snd e"] by (cases e) (auto split: if_splits)
qed

interpretation smd: dictionary "[]" sm_put "map_of" sm_ok
  by unfold_locales auto

end
