(* ===== verification/Ordered_Sets.thy ===== *)
theory Ordered_Sets
  imports Phx_Prelude
begin

text \<open>
  Containers ordered by a comparison the program supplies: \<^verbatim>\<open>std::set<T, Cmp>\<close> of the file
  manager and the key space of the index. A container is the list of its elements in order, an
  iterator is the suffix that starts at its element, and \<^verbatim>\<open>end()\<close> is the empty suffix. The locale
  states what the C++ library asks of a comparison (a strict weak ordering) and proves the
  container operations correct for every such comparison.
\<close>

definition os_lower :: "('a \<Rightarrow> 'b \<Rightarrow> bool) \<Rightarrow> 'b \<Rightarrow> 'a list \<Rightarrow> 'a list" where
  "os_lower lt k xs = dropWhile (\<lambda>e. lt e k) xs"

definition os_find :: "('a \<Rightarrow> 'a \<Rightarrow> bool) \<Rightarrow> 'a \<Rightarrow> 'a list \<Rightarrow> 'a list" where
  "os_find lt k xs =
     (case os_lower lt k xs of [] \<Rightarrow> [] | e # r \<Rightarrow> if lt k e then [] else e # r)"

definition os_insert :: "('a \<Rightarrow> 'a \<Rightarrow> bool) \<Rightarrow> 'a \<Rightarrow> 'a list \<Rightarrow> 'a list" where
  "os_insert lt x xs =
     takeWhile (\<lambda>e. lt e x) xs @
       (case os_lower lt x xs of [] \<Rightarrow> [x] | e # r \<Rightarrow> if lt x e then x # e # r else e # r)"

definition os_erase :: "('a \<Rightarrow> 'a \<Rightarrow> bool) \<Rightarrow> 'a \<Rightarrow> 'a list \<Rightarrow> 'a list" where
  "os_erase lt k xs =
     takeWhile (\<lambda>e. lt e k) xs @
       (case os_lower lt k xs of [] \<Rightarrow> [] | e # r \<Rightarrow> if lt k e then e # r else r)"

definition os_ok :: "('a \<Rightarrow> 'a \<Rightarrow> bool) \<Rightarrow> 'a list \<Rightarrow> bool" where
  "os_ok lt xs \<longleftrightarrow> sorted_wrt lt xs"

lemma os_ok_Nil [simp]: "os_ok lt []"
  by (simp add: os_ok_def)

lemma os_find_Nil [simp]: "os_find lt k [] = []"
  by (simp add: os_find_def os_lower_def)

lemma os_find_suffix: "\<exists>p. xs = p @ os_find lt k xs \<or> os_find lt k xs = []"
proof -
  have "xs = takeWhile (\<lambda>e. lt e k) xs @ os_lower lt k xs"
    by (simp add: os_lower_def)
  then show ?thesis
    by (auto simp: os_find_def split: list.split)
qed

lemma set_os_find: "set (os_find lt k xs) \<subseteq> set xs"
  by (auto simp: os_find_def os_lower_def split: list.splits if_splits dest: set_dropWhileD)
     (metis list.set_intros set_dropWhileD)+

lemma set_os_erase: "set (os_erase lt k xs) \<subseteq> set xs"
  by (auto simp: os_erase_def os_lower_def split: list.splits if_splits dest: set_takeWhileD)
     (metis list.set_intros set_dropWhileD)+

lemma set_os_insert: "set (os_insert lt x xs) \<subseteq> insert x (set xs)"
  by (auto simp: os_insert_def os_lower_def split: list.splits if_splits dest: set_takeWhileD)
     (metis list.set_intros set_dropWhileD)+

text \<open>A comparison that is a strict weak ordering on the elements that satisfy \<open>D\<close>.\<close>

locale strict_weak =
  fixes D :: "'a \<Rightarrow> bool" and lt :: "'a \<Rightarrow> 'a \<Rightarrow> bool"
  assumes irrefl: "D a \<Longrightarrow> \<not> lt a a"
    and trans: "D a \<Longrightarrow> D b \<Longrightarrow> D c \<Longrightarrow> lt a b \<Longrightarrow> lt b c \<Longrightarrow> lt a c"
    and incomp: "D a \<Longrightarrow> D b \<Longrightarrow> D c \<Longrightarrow> lt a c \<Longrightarrow> lt a b \<or> lt b c"
begin

definition eqv :: "'a \<Rightarrow> 'a \<Rightarrow> bool" where
  "eqv a b \<longleftrightarrow> \<not> lt a b \<and> \<not> lt b a"

lemma asym: "D a \<Longrightarrow> D b \<Longrightarrow> lt a b \<Longrightarrow> \<not> lt b a"
  using irrefl trans by blast

lemma eqv_refl: "D a \<Longrightarrow> eqv a a"
  by (simp add: eqv_def irrefl)

lemma eqv_sym: "eqv a b \<Longrightarrow> eqv b a"
  by (simp add: eqv_def)

lemma eqv_trans: "D a \<Longrightarrow> D b \<Longrightarrow> D c \<Longrightarrow> eqv a b \<Longrightarrow> eqv b c \<Longrightarrow> eqv a c"
  unfolding eqv_def using incomp by blast

lemma takeWhile_lt:
  assumes "os_ok lt (p @ q)" and "\<forall>e \<in> set p. lt e k" and "q = [] \<or> \<not> lt (hd q) k"
  shows "takeWhile (\<lambda>e. lt e k) (p @ q) = p" and "os_lower lt k (p @ q) = q"
  using assms(2,3) unfolding os_lower_def by (cases q; simp)+

text \<open>Every ordered container splits at a key into what is below it and what is not.\<close>

lemma split_at:
  assumes "os_ok lt xs" and "\<forall>e \<in> set xs. D e" and "D k"
  obtains p q where "xs = p @ q" and "\<forall>e \<in> set p. lt e k" and "\<forall>e \<in> set q. \<not> lt e k"
    and "takeWhile (\<lambda>e. lt e k) xs = p" and "os_lower lt k xs = q"
proof -
  let ?p = "takeWhile (\<lambda>e. lt e k) xs" and ?q = "dropWhile (\<lambda>e. lt e k) xs"
  have eq: "xs = ?p @ ?q" by simp
  have p: "\<forall>e \<in> set ?p. lt e k" by (auto dest: set_takeWhileD)
  have srtq: "sorted_wrt lt ?q"
    using assms(1) unfolding os_ok_def by (metis takeWhile_dropWhile_id sorted_wrt_append)
  have q: "\<not> lt e k" if e: "e \<in> set ?q" for e
  proof (cases ?q)
    case (Cons h t)
    have h: "\<not> lt h k" using Cons by (metis hd_dropWhile list.distinct(1) list.sel(1))
    have srt: "sorted_wrt lt (h # t)" using srtq by (simp only: Cons)
    have sub: "set ?q \<subseteq> set xs" by (auto dest: set_dropWhileD)
    have Dh: "D h" "D e" using assms(2) sub e by (auto simp only: Cons list.set)
    show ?thesis
    proof (cases "e = h")
      case False
      with srt e have "lt h e" by (auto simp only: Cons list.set sorted_wrt.simps)
      with h Dh assms(3) show ?thesis using trans by blast
    qed (simp add: h)
  next
    case Nil
    with e show ?thesis by (simp only: Nil list.set empty_iff)
  qed
  show thesis
  proof (rule that [of ?p ?q])
    show "\<forall>e \<in> set ?q. \<not> lt e k" using q by blast
  qed (use p in \<open>simp_all add: os_lower_def\<close>)
qed

lemma os_ok_insert:
  assumes "os_ok lt xs" and "\<forall>e \<in> set xs. D e" and "D x"
  shows "os_ok lt (os_insert lt x xs)"
proof -
  obtain p q where s: "xs = p @ q" "\<forall>e \<in> set p. lt e x" "\<forall>e \<in> set q. \<not> lt e x"
    "takeWhile (\<lambda>e. lt e x) xs = p" "os_lower lt x xs = q"
    by (rule split_at [OF assms])
  show ?thesis
  proof (cases q)
    case Nil
    with s(4,5) have "os_insert lt x xs = p @ [x]" by (simp only: os_insert_def list.case)
    with s(1,2) assms(1) Nil show ?thesis by (simp add: os_ok_def sorted_wrt_append)
  next
    case (Cons e r)
    show ?thesis
    proof (cases "lt x e")
      case True
      have srt: "sorted_wrt lt p" "sorted_wrt lt (e # r)" "\<forall>a \<in> set p. \<forall>b \<in> set (e # r). lt a b"
        using assms(1) s(1) Cons by (simp_all add: os_ok_def sorted_wrt_append)
      have D: "D x" "D e" "\<forall>b \<in> set r. D b" using assms s(1) Cons by auto
      have "\<forall>b \<in> set r. lt x b" using srt(2) D True by (auto intro: trans [of x e])
      moreover have "os_insert lt x xs = p @ x # e # r"
        using s(4,5) Cons True by (simp only: os_insert_def list.case if_True)
      ultimately show ?thesis using srt True s(2) by (auto simp: os_ok_def sorted_wrt_append)
    next
      case False
      then have "os_insert lt x xs = xs"
        using s(4,5) Cons by (simp only: os_insert_def list.case if_False) (simp add: s(1))
      with assms(1) show ?thesis by simp
    qed
  qed
qed

lemma os_ok_erase:
  assumes "os_ok lt xs" shows "os_ok lt (os_erase lt k xs)"
proof -
  have "xs = takeWhile (\<lambda>e. lt e k) xs @ os_lower lt k xs" by (simp add: os_lower_def)
  with assms have "sorted_wrt lt (takeWhile (\<lambda>e. lt e k) xs @ os_lower lt k xs)"
    by (simp add: os_ok_def)
  then show ?thesis
    by (auto simp: os_erase_def os_ok_def sorted_wrt_append split: list.splits)
qed

lemma os_ok_distinct:
  assumes "os_ok lt xs" and "\<forall>e \<in> set xs. D e" shows "distinct xs"
  using assms by (induction xs) (auto simp: os_ok_def dest: irrefl)

lemma os_erase_member:
  assumes "os_ok lt xs" and "\<forall>e \<in> set xs. D e" and "x \<in> set xs"
  shows "os_erase lt x xs = filter (\<lambda>e. e \<noteq> x) xs"
proof -
  obtain p q where s: "xs = p @ x # q" using assms(3) by (meson split_list)
  have p: "\<forall>e \<in> set p. lt e x" using assms(1) by (auto simp: s os_ok_def sorted_wrt_append)
  have x: "\<not> lt x x" using assms(2) irrefl by (auto simp: s)
  have t: "takeWhile (\<lambda>e. lt e x) xs = p" "os_lower lt x xs = x # q"
    unfolding s by (rule takeWhile_lt [OF assms(1) [unfolded s] p], simp add: x)+
  have "x \<notin> set p" "x \<notin> set q" using os_ok_distinct [OF assms(1,2)] by (auto simp: s)
  then have "filter (\<lambda>e. e \<noteq> x) p = p" "filter (\<lambda>e. e \<noteq> x) q = q" by (auto simp: filter_id_conv)
  then have "filter (\<lambda>e. e \<noteq> x) xs = p @ q" by (simp add: s)
  with t x show ?thesis by (simp only: os_erase_def list.case if_False)
qed

text \<open>Searching finds the element equivalent to the key, and only it.\<close>

lemma os_find_iff:
  assumes "os_ok lt xs" and "\<forall>e \<in> set xs. D e" and "D k"
  shows "os_find lt k xs \<noteq> [] \<longleftrightarrow> (\<exists>e \<in> set xs. eqv e k)"
proof -
  obtain p q where s: "xs = p @ q" "\<forall>e \<in> set p. lt e k" "\<forall>e \<in> set q. \<not> lt e k"
    "takeWhile (\<lambda>e. lt e k) xs = p" "os_lower lt k xs = q"
    by (rule split_at [OF assms])
  show ?thesis
  proof (cases q)
    case Nil
    with s(5) have "os_find lt k xs = []" by (simp add: os_find_def)
    with s(2) Nil show ?thesis by (auto simp: s(1) eqv_def)
  next
    case (Cons e r)
    have "\<not> eqv e' k" if "e' \<in> set r" "lt k e" for e'
    proof -
      have "lt e e'" using assms(1) that(1) by (auto simp: s(1) Cons os_ok_def sorted_wrt_append)
      moreover have "D e" "D e'" using assms(2) that(1) by (auto simp: s(1) Cons)
      ultimately have "lt k e'" using that(2) assms(3) trans by blast
      then show ?thesis by (simp add: eqv_def)
    qed
    moreover have "os_find lt k xs = (if lt k e then [] else e # r)"
      using s(5) Cons by (simp add: os_find_def)
    ultimately show ?thesis using s(2,3) by (auto simp: s(1) Cons eqv_def)
  qed
qed

lemma os_find_member:
  assumes "os_ok lt (p @ x # q)" and "\<forall>e \<in> set (p @ x # q). D e"
  shows "os_find lt x (p @ x # q) = x # q"
proof -
  have "\<forall>e \<in> set p. lt e x" using assms(1) by (auto simp: os_ok_def sorted_wrt_append)
  moreover have "\<not> lt x x" using assms(2) irrefl by auto
  ultimately have "os_lower lt x (p @ x # q) = x # q"
    by (intro takeWhile_lt(2) [OF assms(1)]) auto
  with \<open>\<not> lt x x\<close> show ?thesis by (simp add: os_find_def)
qed

lemma os_find_hd_eqv:
  assumes "os_ok lt xs" and "\<forall>e \<in> set xs. D e" and "D k" and "os_find lt k xs = e # r"
  shows "eqv e k"
proof -
  obtain p q where s: "xs = p @ q" "\<forall>e \<in> set p. lt e k" "\<forall>e \<in> set q. \<not> lt e k"
    "takeWhile (\<lambda>e. lt e k) xs = p" "os_lower lt k xs = q"
    by (rule split_at [OF assms(1-3)])
  from assms(4) have "q = e # r" "\<not> lt k e"
    by (simp_all add: os_find_def s(5) split: list.splits if_splits)
  with s(3) show ?thesis by (simp add: eqv_def)
qed

text \<open>Inserting below nothing and above everything appends.\<close>

lemma os_insert_last:
  assumes "\<forall>e \<in> set xs. lt e x" shows "os_insert lt x xs = xs @ [x]"
  using assms by (simp add: os_insert_def os_lower_def takeWhile_eq_all_conv [THEN iffD2]
      dropWhile_eq_Nil_conv [THEN iffD2])

lemma set_insert_new:
  assumes "os_ok lt xs" and "\<forall>e \<in> set xs. D e" and "D x" and "\<forall>e \<in> set xs. \<not> eqv e x"
  shows "set (os_insert lt x xs) = insert x (set xs)"
proof -
  obtain p q where s: "xs = p @ q" "\<forall>e \<in> set p. lt e x" "\<forall>e \<in> set q. \<not> lt e x"
    "takeWhile (\<lambda>e. lt e x) xs = p" "os_lower lt x xs = q"
    by (rule split_at [OF assms(1-3)])
  show ?thesis
  proof (cases q)
    case Nil
    with s(4,5) have "os_insert lt x xs = p @ [x]" by (simp only: os_insert_def list.case)
    with Nil show ?thesis by (simp add: s(1))
  next
    case (Cons e r)
    with s(1,3) assms(4) have "lt x e" by (auto simp: eqv_def)
    with s(4,5) Cons have "os_insert lt x xs = p @ x # e # r"
      by (simp only: os_insert_def list.case if_True)
    with Cons show ?thesis by (auto simp: s(1))
  qed
qed

end

end
