(* ===== verification/Gtid.thy ===== *)
theory Gtid
  imports Ordered_Sets
begin

text \<open>
  The GTID handler (\<^verbatim>\<open>core/mysql/gtid_handler.cpp\<close>) and the key order of the event index
  (\<^verbatim>\<open>EventComparator\<close> of \<^verbatim>\<open>core/storage/event_index.cpp\<close>). A pointer into a buffer is the memory
  block together with a position; the block of a \<^verbatim>\<open>std::string\<close> ends with its NUL.
\<close>

section \<open>Definitions\<close>

subsection \<open>GTID strings\<close>

text \<open>\<^verbatim>\<open>std::string::find\<close>; \<open>None\<close> is \<^verbatim>\<open>npos\<close>, which the callers see as -1.\<close>

fun str_find :: "char \<Rightarrow> string \<Rightarrow> nat option" where
  "str_find c [] = None"
| "str_find c (x # xs) = (if x = c then Some 0 else map_option Suc (str_find c xs))"

definition ParseGTID :: "string \<Rightarrow> string \<times> u64" where
  "ParseGTID gtid =
     (case str_find (CHR '':'') gtid of
        None \<Rightarrow> (gtid, 0)
      | Some pos \<Rightarrow>
          (take pos gtid,
           case sscanf_lu (drop (pos + 1) gtid) of None \<Rightarrow> 0 | Some seqno \<Rightarrow> seqno))"

definition GetUUIDByGTID :: "string \<Rightarrow> string" where
  "GetUUIDByGTID gtid =
     (case str_find (CHR '':'') gtid of None \<Rightarrow> gtid | Some pos \<Rightarrow> take pos gtid)"

text \<open>The text is printed into a buffer of 128 chars; a longer one is undefined.\<close>

definition GenGTID :: "string \<Rightarrow> u64 \<Rightarrow> string option" where
  "GenGTID uuid seqno =
     (let s = c_str uuid @ '':'' @ show_nat (unat seqno)
      in if length s < 128 then Some s else None)"

definition GTIDCmp :: "string \<Rightarrow> string \<Rightarrow> int" where
  "GTIDCmp gtid1 gtid2 =
     (let res1 = ParseGTID gtid1; res2 = ParseGTID gtid2
      in if res1 = res2 then 0 else if res1 < res2 then -1 else 1)"

definition EventComparator_Compare :: "string \<Rightarrow> string \<Rightarrow> int" where
  "EventComparator_Compare a b =
     (let key1 = ParseGTID a; key2 = ParseGTID b
      in if fst key1 = fst key2
         then (if snd key1 = snd key2 then 0 else if snd key1 < snd key2 then -1 else 1)
         else if fst key1 < fst key2 then -1 else 1)"

definition hex_char :: "nat \<Rightarrow> char" where
  "hex_char d = ''0123456789abcdef'' ! d"

definition bytes_per_section :: "nat list" where
  "bytes_per_section = [4, 2, 2, 2, 6]"

definition hex_byte :: "byte \<Rightarrow> string" where
  "hex_byte b = [hex_char (unat b div 16), hex_char (unat b mod 16)]"

text \<open>The sections of a UUID, the separator in front of every section but the first.\<close>

fun GenUUID_sections :: "nat list \<Rightarrow> bytes \<Rightarrow> string list" where
  "GenUUID_sections [] u = []"
| "GenUUID_sections (n # ns) u = concat (map hex_byte (take n u)) # GenUUID_sections ns (drop n u)"

definition GenUUID :: "bytes \<Rightarrow> string" where
  "GenUUID bytes_arg =
     (case GenUUID_sections bytes_per_section bytes_arg of
        [] \<Rightarrow> []
      | s # ss \<Rightarrow> s @ concat (map (\<lambda>t. ''-'' @ t) ss))"

subsection \<open>Events\<close>

record EventInfo =
  ei_event_type :: u8
  ei_gtid :: string
  ei_seq_no :: u64
  ei_domain_id :: u32
  ei_server_id :: u32
  ei_commit_id :: u64
  ei_time_stamp :: u32
  ei_event_size :: u32
  ei_previous_gtidlist :: "(string \<times> string) list"

definition EventInfo_init :: EventInfo where
  "EventInfo_init = \<lparr>ei_event_type = 0, ei_gtid = [], ei_seq_no = 0, ei_domain_id = 0,
     ei_server_id = 0, ei_commit_id = 0, ei_time_stamp = 0, ei_event_size = 0,
     ei_previous_gtidlist = []\<rparr>"

definition GetBuffer :: "bytes \<Rightarrow> nat \<Rightarrow> nat \<Rightarrow> (nat \<times> nat) option" where
  "GetBuffer mem pos value_size = map_option (\<lambda>bs. (le_val bs, pos + value_size)) (rd mem pos value_size)"

definition GenGTID_info :: "EventInfo \<Rightarrow> string" where
  "GenGTID_info info =
     show_nat (unat (ei_domain_id info)) @ ''-'' @ show_nat (unat (ei_server_id info)) @ ''-'' @
     show_nat (unat (ei_seq_no info))"

definition GetMariaDBGTID :: "bytes \<Rightarrow> nat \<Rightarrow> EventInfo \<Rightarrow> (nat \<times> EventInfo) option" where
  "GetMariaDBGTID mem pos info = do {
     (seq_no, pos) \<leftarrow> GetBuffer mem pos 8;
     (domain_id, pos) \<leftarrow> GetBuffer mem pos 4;
     let info = info\<lparr>ei_seq_no := of_nat seq_no, ei_domain_id := of_nat domain_id\<rparr>;
     (flags2, _) \<leftarrow> GetBuffer mem pos 1;
     if (of_nat flags2 :: u8) AND 2 \<noteq> 0
     then do {
       (commit_id, _) \<leftarrow> GetBuffer mem (pos + 1) 8;
       let info = info\<lparr>ei_commit_id := of_nat commit_id\<rparr>;
       Some (pos + 1, info\<lparr>ei_gtid := GenGTID_info info\<rparr>)
     }
     else Some (pos, info\<lparr>ei_gtid := GenGTID_info info\<rparr>)
   }"

definition GetPerconaGTID :: "bytes \<Rightarrow> nat \<Rightarrow> u64 \<Rightarrow> EventInfo \<Rightarrow> (nat \<times> EventInfo) option" where
  "GetPerconaGTID mem pos sz info =
     (if 24 < sz
      then do {
        sid \<leftarrow> rd mem (pos + 1) 16;
        (seq_no, pos) \<leftarrow> GetBuffer mem (pos + 1 + 16) 8;
        gtid \<leftarrow> GenGTID (GenUUID sid) (of_nat seq_no);
        Some (pos, info\<lparr>ei_seq_no := of_nat seq_no, ei_gtid := gtid\<rparr>)
      }
      else Some (pos, info))"

text \<open>The loops of \<^verbatim>\<open>ParsePreviousGTIDEvent\<close>: the intervals of one sid, then the sids.\<close>

fun ParsePrevious_intervals ::
  "bytes \<Rightarrow> string \<Rightarrow> nat \<Rightarrow> nat \<Rightarrow> (string \<times> string) list \<Rightarrow> (nat \<times> (string \<times> string) list) option"
where
  "ParsePrevious_intervals mem uuid n pos acc =
     (if n = 0 then Some (pos, acc)
      else do {
        (start, pos) \<leftarrow> GetBuffer mem pos 8;
        (fin, pos) \<leftarrow> GetBuffer mem pos 8;
        let fin = unat (of_nat fin - 1 :: u64);
        ParsePrevious_intervals mem uuid (n - 1) pos
          (acc @ [(uuid @ '':'' @ show_nat start @ ''-'' @ show_nat fin,
                   uuid @ '':'' @ show_nat fin)])
      })"

fun ParsePrevious_sids ::
  "bytes \<Rightarrow> nat \<Rightarrow> u64 \<Rightarrow> nat \<Rightarrow> nat \<Rightarrow> (string \<times> string) list
     \<Rightarrow> (int \<times> nat \<times> (string \<times> string) list) option"
where
  "ParsePrevious_sids mem buffer len n pos acc =
     (if n = 0 then Some (OK, pos, acc)
      else if len - of_nat (pos - buffer) < 16 + 8 then Some (EVENT_PARSE_FAIL, pos, acc)
      else do {
        sid \<leftarrow> rd mem pos 16;
        (sid_no_num, pos) \<leftarrow> GetBuffer mem (pos + 16) 8;
        (pos, acc) \<leftarrow> ParsePrevious_intervals mem (GenUUID sid) sid_no_num pos acc;
        ParsePrevious_sids mem buffer len (n - 1) pos acc
      })"

declare ParsePrevious_intervals.simps [simp del] ParsePrevious_sids.simps [simp del]

definition ParsePreviousGTIDEvent ::
  "bytes \<Rightarrow> nat \<Rightarrow> u64 \<Rightarrow> EventInfo \<Rightarrow> (int \<times> EventInfo) option" where
  "ParsePreviousGTIDEvent mem buffer len info = do {
     (sid_num, pos) \<leftarrow> GetBuffer mem buffer 8;
     (ret, pos, previous) \<leftarrow>
       ParsePrevious_sids mem buffer len sid_num pos (ei_previous_gtidlist info);
     let info = info\<lparr>ei_previous_gtidlist := previous\<rparr>;
     if ret \<noteq> OK then Some (ret, info)
     else if of_nat (pos - buffer) \<noteq> len then Some (EVENT_PARSE_FAIL, info)
     else Some (OK, info)
   }"

definition ParsePreviousGTIDCommand ::
  "bytes \<Rightarrow> nat \<Rightarrow> u64 \<Rightarrow> EventInfo \<Rightarrow> (int \<times> EventInfo) option" where
  "ParsePreviousGTIDCommand mem buffer len info = do {
     (binlog_flag, pos) \<leftarrow> GetBuffer mem buffer 2;
     (server_id, pos) \<leftarrow> GetBuffer mem pos 4;
     (name_info_size, pos) \<leftarrow> GetBuffer mem pos 4;
     (binlog_info_size, pos) \<leftarrow> GetBuffer mem (pos + name_info_size) 8;
     (data_size, pos) \<leftarrow> GetBuffer mem pos 4;
     if pos + data_size \<noteq> buffer + unat len then Some (BUFFER_FAIL, info)
     else ParsePreviousGTIDEvent mem pos (of_nat data_size) info
   }"

definition ParseEvent :: "bytes \<Rightarrow> nat \<Rightarrow> u64 \<Rightarrow> EventInfo \<Rightarrow> (int \<times> EventInfo) option" where
  "ParseEvent mem buffer buffer_len info =
     (if 13 > buffer_len then Some (EVENT_PARSE_FAIL, info)
      else do {
        (timestamp, pos) \<leftarrow> GetBuffer mem buffer 4;
        (event_type, pos) \<leftarrow> GetBuffer mem pos 1;
        (server_id, pos) \<leftarrow> GetBuffer mem pos 4;
        (event_size, pos) \<leftarrow> GetBuffer mem pos 4;
        let event_type = (of_nat event_type :: u8);
        if 200 \<le> event_type then Some (EVENT_PARSE_FAIL, info)
        else do {
          let pos = buffer + 19;
          let info = info\<lparr>ei_time_stamp := of_nat timestamp, ei_event_size := of_nat event_size,
            ei_event_type := event_type, ei_server_id := of_nat server_id\<rparr>;
          if event_type = EVENT_GTID then
            (if 30 < buffer_len then map_option (\<lambda>(_, i). (0, i)) (GetMariaDBGTID mem pos info)
             else Some (0, info))
          else if event_type = EVENT_PERCONA_GTID then
            map_option (\<lambda>(_, i). (0, i)) (GetPerconaGTID mem pos (buffer_len - 19) info)
          else if event_type = EVENT_PREVIOUS_GTIDS then
            map_option (\<lambda>(_, i). (0, i)) (ParsePreviousGTIDEvent mem pos (buffer_len - 19) info)
          else Some (0, info)
        }
      })"

text \<open>
  \<^verbatim>\<open>ParseEventList\<close>: the result is the return code with the three output vectors and strings,
  which keep what was pushed before an error.
\<close>

function ParseEventList_loop ::
  "bytes \<Rightarrow> nat \<Rightarrow> bool \<Rightarrow> nat \<Rightarrow> bytes list \<times> string \<times> string list
     \<Rightarrow> (int \<times> bytes list \<times> string \<times> string list) option"
where
  "ParseEventList_loop mem end_pos need_charset pos (event_list, max_gtid, gtid_list) =
     (if pos < end_pos then
        (case ParseEvent mem pos (of_nat (end_pos - pos)) EventInfo_init of
           None \<Rightarrow> None
         | Some (ret, info) \<Rightarrow>
             if ret \<noteq> 0 then Some (ret, event_list, max_gtid, gtid_list)
             else if pos + 13 > end_pos then Some (EVENT_PARSE_FAIL, event_list, max_gtid, gtid_list)
             else
               let event_size = unat (ei_event_size info)
               in if event_size = 0 \<or> pos + event_size > end_pos
                  then Some (EVENT_PARSE_FAIL, event_list, max_gtid, gtid_list)
                  else
                    let ev = take event_size (drop pos mem)
                    in ParseEventList_loop mem end_pos need_charset (pos + event_size)
                         (event_list @ [if need_charset then 0 # ev else ev],
                          if ei_gtid info \<noteq> [] then ei_gtid info else max_gtid,
                          gtid_list @ [ei_gtid info]))
      else if pos \<noteq> end_pos then Some (EVENT_PARSE_FAIL, event_list, max_gtid, gtid_list)
      else Some (OK, event_list, max_gtid, gtid_list))"
  by pat_completeness auto
termination
  by (relation "measure (\<lambda>(mem, end_pos, need_charset, pos, acc). end_pos - pos)") auto

declare ParseEventList_loop.simps [simp del]

definition ParseEventList ::
  "bytes \<Rightarrow> bool \<Rightarrow> string \<Rightarrow> (int \<times> bytes list \<times> string \<times> string list) option" where
  "ParseEventList buffer need_charset max_gtid =
     ParseEventList_loop (buffer @ [0]) (length buffer) need_charset 0 ([], max_gtid, [])"

definition GetEventHeaderSize :: nat where
  "GetEventHeaderSize = 1"

section \<open>GTID strings\<close>

lemma str_find_None [gtid_simps]: "str_find c s = None \<longleftrightarrow> c \<notin> set s"
  by (induction s) auto

lemma str_find_append [gtid_simps]: "c \<notin> set s \<Longrightarrow> str_find c (s @ c # t) = Some (length s)"
  by (induction s) auto

lemma str_find_SomeD: "str_find c s = Some n \<Longrightarrow> c \<notin> set (take n s)"
  by (induction s arbitrary: n) (auto split: if_splits)

lemma GetUUIDByGTID_fst: "GetUUIDByGTID g = fst (ParseGTID g)"
  by (simp add: GetUUIDByGTID_def ParseGTID_def split: option.splits)

lemma GetUUIDByGTID_no_colon: "CHR '':'' \<notin> set (GetUUIDByGTID g)"
  by (auto simp: GetUUIDByGTID_def gtid_simps split: option.splits dest: str_find_SomeD)

definition uuid_ok :: "string \<Rightarrow> bool" where
  "uuid_ok uuid \<longleftrightarrow> CHR '':'' \<notin> set uuid \<and> CHR 0x00 \<notin> set uuid \<and> length uuid \<le> 106"

lemma length_show_u64: "length (show_nat (unat (n :: u64))) \<le> 20"
  using unat_u64_less [of n] by (intro length_show_nat_le) auto

lemma GenGTID_ok [gtid_simps]:
  "uuid_ok uuid \<Longrightarrow> GenGTID uuid n = Some (uuid @ CHR '':'' # show_nat (unat n))"
  using length_show_u64 [of n] by (auto simp: GenGTID_def uuid_ok_def c_str_id Let_def)

lemma ParseGTID_print [gtid_simps]:
  "CHR '':'' \<notin> set uuid \<Longrightarrow> ParseGTID (uuid @ CHR '':'' # show_nat (unat n)) = (uuid, n)"
  by (simp add: ParseGTID_def gtid_simps)

text \<open>
  C32: printing a GTID from a uuid without colon or NUL that fits the 128 byte buffer and parsing
  the text gives the uuid and the 64-bit sequence number back.
\<close>

theorem ParseGTID_GenGTID:
  assumes "uuid_ok uuid"
  shows "\<exists>gtid. GenGTID uuid seqno = Some gtid \<and> ParseGTID gtid = (uuid, seqno) \<and>
    GetUUIDByGTID gtid = uuid"
  using assms by (simp add: GenGTID_ok GetUUIDByGTID_fst ParseGTID_print uuid_ok_def)

theorem ParseGTID_GenGTID_witness:
  "\<exists>gtid. GenGTID ''ab-cd'' 17 = Some gtid \<and> ParseGTID gtid = (''ab-cd'', 17) \<and>
    GetUUIDByGTID gtid = ''ab-cd''"
  by (rule ParseGTID_GenGTID) (simp add: uuid_ok_def)

subsection \<open>The order of GTIDs\<close>

lemma EventComparator_GTIDCmp: "EventComparator_Compare a b = GTIDCmp a b"
  by (auto simp: EventComparator_Compare_def GTIDCmp_def Let_def prod_eq_iff less_prod_def')

lemma GTIDCmp_less: "GTIDCmp a b < 0 \<longleftrightarrow> ParseGTID a < ParseGTID b"
  by (auto simp: GTIDCmp_def Let_def)

lemma GTIDCmp_eq: "GTIDCmp a b = 0 \<longleftrightarrow> ParseGTID a = ParseGTID b"
  by (auto simp: GTIDCmp_def Let_def)

definition gtid_less :: "string \<Rightarrow> string \<Rightarrow> bool" where
  "gtid_less a b \<longleftrightarrow> EventComparator_Compare a b < 0"

lemma gtid_less_iff: "gtid_less a b \<longleftrightarrow> ParseGTID a < ParseGTID b"
  by (simp add: gtid_less_def EventComparator_GTIDCmp GTIDCmp_less)

interpretation gtid_order: strict_weak "\<lambda>_. True" gtid_less
  by unfold_locales (auto simp: gtid_less_iff)

lemma EventComparator_laws:
  "EventComparator_Compare a b \<in> {- 1, 0, 1}"
  "EventComparator_Compare b a = - EventComparator_Compare a b"
  "EventComparator_Compare a b = 0 \<longleftrightarrow> ParseGTID a = ParseGTID b"
  by (auto simp: EventComparator_GTIDCmp GTIDCmp_def Let_def)

text \<open>
  The comparator the event index is ordered by is the GTID comparison of the handler; it is
  antisymmetric and transitive, its zero is equality of the parsed GTIDs, and on GTIDs of one uuid
  it is the numerical order of the sequence numbers.
\<close>

theorem EventComparator_order:
  "EventComparator_Compare a b = GTIDCmp a b \<and>
   EventComparator_Compare b a = - EventComparator_Compare a b \<and>
   (EventComparator_Compare a b = 0 \<longleftrightarrow> ParseGTID a = ParseGTID b) \<and>
   (EventComparator_Compare a b \<le> 0 \<longrightarrow> EventComparator_Compare b c \<le> 0 \<longrightarrow>
      EventComparator_Compare a c \<le> 0) \<and>
   (uuid_ok uuid \<longrightarrow>
      (EventComparator_Compare (the (GenGTID uuid m)) (the (GenGTID uuid n)) < 0 \<longleftrightarrow> m < n))"
proof -
  have le: "EventComparator_Compare x y \<le> 0 \<longleftrightarrow> ParseGTID x \<le> ParseGTID y" for x y
    by (auto simp: EventComparator_GTIDCmp GTIDCmp_def Let_def not_less)
  have "uuid_ok uuid \<longrightarrow>
      (EventComparator_Compare (the (GenGTID uuid m)) (the (GenGTID uuid n)) < 0 \<longleftrightarrow> m < n)"
    by (auto simp: GenGTID_ok ParseGTID_print uuid_ok_def EventComparator_GTIDCmp GTIDCmp_less)
  then show ?thesis
    using order.trans [of "ParseGTID a" "ParseGTID b" "ParseGTID c"]
    by (simp add: le EventComparator_laws(3) EventComparator_laws(2) [of b a] EventComparator_GTIDCmp [symmetric])
qed

theorem EventComparator_order_witness:
  "EventComparator_Compare ''u:9'' ''u:10'' \<le> 0 \<and> EventComparator_Compare ''u:10'' ''v:2'' \<le> 0 \<and>
   EventComparator_Compare ''u:9'' ''v:2'' \<le> 0 \<and> uuid_ok ''u'' \<and>
   EventComparator_Compare (the (GenGTID ''u'' 9)) (the (GenGTID ''u'' 10)) < 0"
proof -
  have "EventComparator_Compare ''u:9'' ''u:10'' \<le> 0" and "EventComparator_Compare ''u:10'' ''v:2'' \<le> 0"
    by (simp_all add: EventComparator_GTIDCmp GTIDCmp_def ParseGTID_def sscanf_lu_def scan_unsigned_def
        is_space_def is_digit_def digits_val_def digit_val_def)
  moreover have "uuid_ok ''u''" by (simp add: uuid_ok_def)
  ultimately show ?thesis
    using EventComparator_order [of "''u:9''" "''u:10''" "''v:2''" "''u''" 9 10] by simp
qed

subsection \<open>UUIDs\<close>

lemma hex_char_inj: "a < 16 \<Longrightarrow> b < 16 \<Longrightarrow> hex_char a = hex_char b \<Longrightarrow> a = b"
proof -
  have "\<forall>a\<in>{..<16}. \<forall>b\<in>{..<16}. hex_char a = hex_char b \<longrightarrow> a = b" by code_simp
  then show "a < 16 \<Longrightarrow> b < 16 \<Longrightarrow> hex_char a = hex_char b \<Longrightarrow> a = b" by simp
qed

lemma hex_char_range: "a < 16 \<Longrightarrow> hex_char a \<noteq> CHR ''-'' \<and> hex_char a \<noteq> CHR '':'' \<and> hex_char a \<noteq> CHR 0x00"
proof -
  have "\<forall>a\<in>{..<16}. hex_char a \<noteq> CHR ''-'' \<and> hex_char a \<noteq> CHR '':'' \<and> hex_char a \<noteq> CHR 0x00"
    by code_simp
  then show "a < 16 \<Longrightarrow> hex_char a \<noteq> CHR ''-'' \<and> hex_char a \<noteq> CHR '':'' \<and> hex_char a \<noteq> CHR 0x00"
    by simp
qed

lemma nibbles: "unat (b :: byte) div 16 < 16" "unat b mod 16 < 16"
  using unat_byte_less [of b] by (auto simp: div_less_iff_less_mult)

lemma hex_byte_inj: "hex_byte a = hex_byte b \<Longrightarrow> a = b"
proof -
  assume "hex_byte a = hex_byte b"
  then have "unat a div 16 = unat b div 16" "unat a mod 16 = unat b mod 16"
    by (auto simp: hex_byte_def nibbles hex_char_inj)
  then have "unat a = unat b" by (metis div_mult_mod_eq)
  then show "a = b" by (simp add: word_unat_eq_iff)
qed

lemma hex_byte_range: "c \<in> set (hex_byte b) \<Longrightarrow> c \<noteq> CHR ''-'' \<and> c \<noteq> CHR '':'' \<and> c \<noteq> CHR 0x00"
  using hex_char_range nibbles [of b] by (auto simp: hex_byte_def)

lemma hex_bytes_inj: "concat (map hex_byte xs) = concat (map hex_byte ys) \<Longrightarrow> xs = ys"
proof (induction xs arbitrary: ys)
  case Nil
  then show ?case by (cases ys) (auto simp: hex_byte_def)
next
  case (Cons x xs)
  then obtain y ys' where "ys = y # ys'" by (cases ys) (auto simp: hex_byte_def)
  with Cons show ?case by (auto simp: hex_byte_def [of x] hex_byte_def [of y] intro: hex_byte_inj)
qed

lemma filter_hex: "filter (\<lambda>c. c \<noteq> CHR ''-'') (concat (map hex_byte xs)) = concat (map hex_byte xs)"
  using hex_byte_range by (fastforce simp: filter_id_conv)

lemma filter_sections:
  "filter (\<lambda>c. c \<noteq> CHR ''-'') (concat (map (\<lambda>t. ''-'' @ t) (GenUUID_sections ns u))) =
     concat (map hex_byte (take (sum_list ns) u))"
  by (induction ns arbitrary: u) (auto simp: filter_hex take_add)

lemma GenUUID_hex:
  "filter (\<lambda>c. c \<noteq> CHR ''-'') (GenUUID u) = concat (map hex_byte (take 16 u))"
proof -
  have "concat (map hex_byte (take 16 u)) =
    concat (map hex_byte (take 4 u)) @ concat (map hex_byte (take 12 (drop 4 u)))"
    using take_add [of 4 12 u] by simp
  then show ?thesis
    using filter_sections [of "[2, 2, 2, 6]" "drop 4 u"]
    by (simp only: GenUUID_def bytes_per_section_def GenUUID_sections.simps(2) list.case
        filter_append filter_hex) simp
qed

lemma set_GenUUID: "set (GenUUID u) \<subseteq> insert (CHR ''-'') (\<Union>b\<in>set u. set (hex_byte b))"
  by (auto simp: GenUUID_def bytes_per_section_def dest!: in_set_takeD in_set_dropD)

lemma length_hex_bytes [simp]: "length (concat (map hex_byte xs)) = 2 * length xs"
  by (induction xs) (auto simp: hex_byte_def)

lemma length_GenUUID: "length u = 16 \<Longrightarrow> length (GenUUID u) = 36"
  by (simp add: GenUUID_def bytes_per_section_def)

lemma uuid_ok_GenUUID: "length u = 16 \<Longrightarrow> uuid_ok (GenUUID u)"
  using set_GenUUID [of u] hex_byte_range by (fastforce simp: uuid_ok_def length_GenUUID)

lemma GenUUID_inj: "length u = 16 \<Longrightarrow> length v = 16 \<Longrightarrow> GenUUID u = GenUUID v \<Longrightarrow> u = v"
  using GenUUID_hex [of u] GenUUID_hex [of v] hex_bytes_inj [of u v] by simp

section \<open>Events\<close>

lemma GetBuffer_at:
  "pos + n \<le> length mem \<Longrightarrow> GetBuffer mem pos n = Some (le_val (take n (drop pos mem)), pos + n)"
  by (simp add: GetBuffer_def)

lemma GetBuffer_if:
  "GetBuffer mem pos n =
     (if pos + n \<le> length mem then Some (le_val (take n (drop pos mem)), pos + n) else None)"
  by (simp add: GetBuffer_def rd_def)

lemma rd_window:
  "k + n \<le> length ev \<Longrightarrow> rd (pre @ ev @ post) (length pre + k) n = Some (take n (drop k ev))"
  by (simp add: rd_def)

lemma GetBuffer_window:
  "k + n \<le> length ev \<Longrightarrow>
     GetBuffer (pre @ ev @ post) (length pre + k) n = Some (le_val (take n (drop k ev)), length pre + (k + n))"
  by (simp add: GetBuffer_def rd_window)

lemma GetBuffer_window2:
  "c + k + n \<le> length ev \<Longrightarrow>
     GetBuffer (pre @ ev @ post) (c + (length pre + k)) n =
       Some (le_val (take n (drop (c + k) ev)), length pre + (c + k + n))"
  using GetBuffer_window [of "c + k" n ev pre post] by (simp add: ac_simps)

lemma GetMariaDBGTID_shift:
  assumes "GetMariaDBGTID ev k info = Some (p, i)"
  shows "GetMariaDBGTID (pre @ ev @ post) (length pre + k) info = Some (length pre + p, i)"
proof -
  from assms have "k + 13 \<le> length ev"
    by (auto simp: GetMariaDBGTID_def GetBuffer_if Let_def split: if_splits)
  with assms show ?thesis
    by (auto simp: GetMariaDBGTID_def Let_def add.assoc GetBuffer_window GetBuffer_window2 GetBuffer_if [of ev] split: if_splits)
qed

lemma GetPerconaGTID_shift:
  assumes "GetPerconaGTID ev k n info = Some (p, i)" and n: "24 < n" "24 < m"
  shows "GetPerconaGTID (pre @ ev @ post) (length pre + k) m info = Some (length pre + p, i)"
proof -
  from assms have "k + 25 \<le> length ev"
    by (auto simp: GetPerconaGTID_def GetBuffer_if bind_eq_Some_conv split: if_splits)
  with assms show ?thesis
    by (auto simp: GetPerconaGTID_def add.assoc GetBuffer_window GetBuffer_window2 rd_window GetBuffer_if [of ev]
        bind_eq_Some_conv)
qed

text \<open>
  A complete event: its header parses, carries its own length, and a GTID event has room for its
  body. (The intervals of a previous-GTIDs event are read with the length of the rest of the
  buffer, so such an event is not independent of what follows it.)
\<close>

definition event_ok :: "bytes \<Rightarrow> EventInfo \<Rightarrow> bool" where
  "event_ok ev info \<longleftrightarrow>
     13 \<le> length ev \<and> length ev < 2 ^ 32 \<and>
     ParseEvent ev 0 (of_nat (length ev)) EventInfo_init = Some (0, info) \<and>
     unat (ei_event_size info) = length ev \<and>
     ei_event_type info \<noteq> EVENT_PREVIOUS_GTIDS \<and>
     (ei_event_type info = EVENT_PERCONA_GTID \<longrightarrow> 44 \<le> length ev) \<and>
     (ei_event_type info = EVENT_GTID \<longrightarrow> 30 < length ev)"

lemma GetPerconaGTID_type: "GetPerconaGTID mem p n i = Some (q, j) \<Longrightarrow> ei_event_type j = ei_event_type i"
  by (auto simp: GetPerconaGTID_def bind_eq_Some_conv split: if_splits)

lemma GetMariaDBGTID_type: "GetMariaDBGTID mem p i = Some (q, j) \<Longrightarrow> ei_event_type j = ei_event_type i"
  by (auto simp: GetMariaDBGTID_def bind_eq_Some_conv Let_def split: if_splits)

lemma ParsePreviousGTIDEvent_type:
  "ParsePreviousGTIDEvent mem p n i = Some (q, j) \<Longrightarrow> ei_event_type j = ei_event_type i"
  by (auto simp: ParsePreviousGTIDEvent_def bind_eq_Some_conv Let_def split: if_splits)

lemma gt_24_sub_19: "44 \<le> unat n \<Longrightarrow> 24 < (n :: u64) - 19"
  by (simp add: word_less_nat_alt word_le_nat_alt unat_sub)

text \<open>The header fields and the type dispatch of \<^verbatim>\<open>ParseEvent\<close>, for a block that holds the header.\<close>

definition event_header :: "bytes \<Rightarrow> EventInfo \<Rightarrow> EventInfo" where
  "event_header ev info = info
     \<lparr>ei_time_stamp := of_nat (le_val (take 4 ev)), ei_event_size := of_nat (le_val (take 4 (drop 9 ev))),
      ei_event_type := ev ! 4, ei_server_id := of_nat (le_val (take 4 (drop 5 ev)))\<rparr>"

lemma le_val_1: "k < length ev \<Longrightarrow> (of_nat (le_val (take (Suc 0) (drop k ev))) :: u8) = ev ! k"
  by (simp add: Cons_nth_drop_Suc [symmetric])

lemma ParseEvent_window:
  assumes "13 \<le> length ev" "13 \<le> n"
  shows "ParseEvent (pre @ ev @ post) (length pre) n info =
    (let i = event_header ev info; mem = pre @ ev @ post; pos = length pre + 19
     in if 200 \<le> ev ! 4 then Some (EVENT_PARSE_FAIL, info)
        else if ev ! 4 = EVENT_GTID then
          (if 30 < n then map_option (\<lambda>(_, j). (0, j)) (GetMariaDBGTID mem pos i) else Some (0, i))
        else if ev ! 4 = EVENT_PERCONA_GTID then
          map_option (\<lambda>(_, j). (0, j)) (GetPerconaGTID mem pos (n - 19) i)
        else if ev ! 4 = EVENT_PREVIOUS_GTIDS then
          map_option (\<lambda>(_, j). (0, j)) (ParsePreviousGTIDEvent mem pos (n - 19) i)
        else Some (0, i))"
proof -
  note w = GetBuffer_window [of _ _ ev pre post]
  have "\<not> 13 > n" using assms by simp
  with assms(1) w [of 0 4] w [of 4 1] w [of 5 4] w [of 9 4] le_val_1 [of 4 ev] show ?thesis
    by (simp add: ParseEvent_def event_header_def Let_def)
qed

lemma ParseEvent_shift:
  assumes ok: "event_ok ev info" and n: "length ev \<le> unat n"
  shows "ParseEvent (pre @ ev @ post) (length pre) n EventInfo_init = Some (0, info)"
proof -
  let ?m = "of_nat (length ev) :: u64"
  have len: "13 \<le> length ev" "length ev < 2 ^ 32" using ok by (auto simp: event_ok_def)
  then have m: "unat ?m = length ev" by (simp add: unat_of_nat)
  with len n have "13 \<le> ?m" "13 \<le> n" by (auto simp: word_le_nat_alt)
  note big = ParseEvent_window [OF len(1) this(2), of pre post EventInfo_init]
    and small = ParseEvent_window [OF len(1) this(1), of "[]" "[]" EventInfo_init]
  have "ParseEvent ev 0 ?m EventInfo_init = Some (0, info)" using ok by (simp add: event_ok_def)
  note s = this [unfolded small [unfolded append_Nil append_Nil2 list.size(3) add_0] Let_def]
  have ty: "ei_event_type info = ev ! 4"
    using s by (auto simp: event_header_def split: if_splits
        dest!: GetMariaDBGTID_type GetPerconaGTID_type ParsePreviousGTIDEvent_type)
  then show ?thesis
    using s big ok m n
    by (auto simp: Let_def event_ok_def word_less_nat_alt [of 30] gt_24_sub_19
        split: if_splits dest: GetMariaDBGTID_shift [of ev 19 _ _ _ pre post]
          GetPerconaGTID_shift [of ev 19 _ _ _ _ "n - 19" pre post])
qed

subsection \<open>Event lists\<close>

text \<open>The last non-empty GTID of a list, or the given one when there is none.\<close>

definition last_gtid :: "string \<Rightarrow> string list \<Rightarrow> string" where
  "last_gtid = foldl (\<lambda>m g. if g \<noteq> [] then g else m)"

lemma last_gtid_simps [simp]:
  "last_gtid m [] = m" "last_gtid m (g # gs) = last_gtid (if g \<noteq> [] then g else m) gs"
  by (simp_all add: last_gtid_def)

definition charset_prefix :: "bool \<Rightarrow> bytes \<Rightarrow> bytes" where
  "charset_prefix need_charset ev = (if need_charset then 0 # ev else ev)"

lemma ParseEventList_loop_OK:
  assumes "ParseEventList_loop mem e nc pos (evs, mg, gl) = Some (0, evs', mg', gl')"
    and "pos \<le> e" "e \<le> length mem"
  shows "\<exists>new gs. evs' = evs @ map (charset_prefix nc) new \<and> gl' = gl @ gs \<and> mg' = last_gtid mg gs \<and>
    length gs = length new \<and> concat new = take (e - pos) (drop pos mem) \<and> [] \<notin> set new"
  using assms
proof (induction "e - pos" arbitrary: pos evs mg gl rule: less_induct)
  case less
  show ?case
  proof (cases "pos < e")
    case False
    with less.prems show ?thesis by (auto simp: ParseEventList_loop.simps)
  next
    case True
    with less.prems(1) obtain info where pe: "ParseEvent mem pos (of_nat (e - pos)) EventInfo_init = Some (0, info)"
      and sz: "unat (ei_event_size info) \<noteq> 0" "pos + unat (ei_event_size info) \<le> e" "pos + 13 \<le> e"
      by (subst (asm) ParseEventList_loop.simps) (auto simp: Let_def split: option.splits if_splits)
    define n where "n = unat (ei_event_size info)"
    define ev where "ev = take n (drop pos mem)"
    from less.prems(1) True pe sz have rec: "ParseEventList_loop mem e nc (pos + n)
        (evs @ [charset_prefix nc ev], if ei_gtid info \<noteq> [] then ei_gtid info else mg, gl @ [ei_gtid info]) =
        Some (0, evs', mg', gl')"
      by (subst (asm) ParseEventList_loop.simps) (simp add: Let_def n_def ev_def charset_prefix_def)
    have "\<exists>new gs. evs' = (evs @ [charset_prefix nc ev]) @ map (charset_prefix nc) new \<and>
        gl' = (gl @ [ei_gtid info]) @ gs \<and>
        mg' = last_gtid (if ei_gtid info \<noteq> [] then ei_gtid info else mg) gs \<and>
        length gs = length new \<and> concat new = take (e - (pos + n)) (drop (pos + n) mem) \<and> [] \<notin> set new"
      using True sz less.prems(3) by (intro less.hyps [OF _ rec]) (auto simp: n_def)
    then obtain new gs where "evs' = evs @ map (charset_prefix nc) (ev # new)"
      "gl' = gl @ ei_gtid info # gs" "mg' = last_gtid mg (ei_gtid info # gs)"
      "length gs = length new" "concat new = take (e - (pos + n)) (drop (pos + n) mem)" "[] \<notin> set new"
      by auto
    moreover have "take (e - pos) (drop pos mem) = ev @ take (e - (pos + n)) (drop (pos + n) mem)"
      using take_add [of n "e - (pos + n)" "drop pos mem"] sz by (simp add: ev_def n_def add.commute)
    moreover have "ev \<noteq> []" using sz less.prems(3) by (simp add: ev_def n_def)
    ultimately show ?thesis by (intro exI [of _ "ev # new"] exI [of _ "ei_gtid info # gs"]) auto
  qed
qed

lemma ParseEventList_loop_complete:
  assumes "list_all2 event_ok evs infos" and "length pre + length (concat evs) < 2 ^ 63"
  shows "ParseEventList_loop (pre @ concat evs @ post) (length pre + length (concat evs)) nc (length pre)
      (acc, mg, gl) =
    Some (0, acc @ map (charset_prefix nc) evs, last_gtid mg (map ei_gtid infos), gl @ map ei_gtid infos)"
  using assms
proof (induction evs infos arbitrary: pre acc mg gl rule: list_all2_induct)
  case Nil
  show ?case by (simp add: ParseEventList_loop.simps)
next
  case (Cons ev evs info infos)
  let ?mem = "pre @ concat (ev # evs) @ post" and ?e = "length pre + length (concat (ev # evs))"
  have len: "13 \<le> length ev" "unat (ei_event_size info) = length ev"
    using Cons(1) by (auto simp: event_ok_def)
  have "unat (of_nat (length ev + length (concat evs)) :: u64) = length ev + length (concat evs)"
    using Cons.prems by (simp add: unat_of_nat del: of_nat_add)
  then have pe: "ParseEvent ?mem (length pre) (of_nat (?e - length pre)) EventInfo_init = Some (0, info)"
    using ParseEvent_shift [OF Cons(1), of _ pre "concat evs @ post"] by simp
  have ev: "take (length ev) (drop (length pre) ?mem) = ev" by simp
  have "ParseEventList_loop ?mem ?e nc (length pre) (acc, mg, gl) =
    ParseEventList_loop ?mem ?e nc (length pre + length ev)
      (acc @ [charset_prefix nc ev], if ei_gtid info \<noteq> [] then ei_gtid info else mg, gl @ [ei_gtid info])"
    by (subst ParseEventList_loop.simps)
       (use len pe in \<open>auto simp: Let_def charset_prefix_def\<close>)
  then show ?case
    using Cons.IH [of "pre @ ev"] Cons.prems by (simp add: add.assoc)
qed

definition sample_event :: bytes where
  "sample_event = [1, 0, 0, 0, 2, 7, 0, 0, 0, 13, 0, 0, 0]"

definition sample_info :: EventInfo where
  "sample_info = EventInfo_init
     \<lparr>ei_time_stamp := 1, ei_event_size := 13, ei_event_type := 2, ei_server_id := 7\<rparr>"

lemma event_ok_sample: "event_ok sample_event sample_info"
  by (simp add: event_ok_def sample_event_def sample_info_def EventInfo_init_def ParseEvent_def
      GetBuffer_def rd_def)

text \<open>
  When \<^verbatim>\<open>ParseEventList\<close> returns OK it has cut the buffer into non-empty events: their
  concatenation is the buffer, every event has one GTID entry, and the maximum GTID reported is
  the last non-empty one.
\<close>

theorem ParseEventList_splits:
  assumes "ParseEventList buffer need_charset max_gtid = Some (OK, event_list, max_gtid', gtid_list)"
  shows "\<exists>events. event_list = map (charset_prefix need_charset) events \<and> concat events = buffer \<and>
    [] \<notin> set events \<and> length gtid_list = length events \<and> max_gtid' = last_gtid max_gtid gtid_list"
  using ParseEventList_loop_OK [OF assms [unfolded ParseEventList_def]] by fastforce

theorem ParseEventList_splits_witness:
  "\<exists>events. [sample_event, sample_event] = map (charset_prefix False) events \<and>
    concat events = sample_event @ sample_event \<and> [] \<notin> set events \<and>
    length ([[], []] :: string list) = length events \<and> '''' = last_gtid '''' ['''', '''']"
proof (rule ParseEventList_splits)
  show "ParseEventList (sample_event @ sample_event) False '''' =
      Some (OK, [sample_event, sample_event], '''', [[], []])"
    using ParseEventList_loop_complete
      [of "[sample_event, sample_event]" "[sample_info, sample_info]" "[]" "[0]" False "[]" "''''" "[]"]
      event_ok_sample
    by (simp add: ParseEventList_def sample_event_def sample_info_def EventInfo_init_def charset_prefix_def)
qed

text \<open>
  \<^verbatim>\<open>ParseEventList\<close> recovers the events of a buffer that is a concatenation of complete
  events, in order, with the GTID of each.
\<close>

theorem ParseEventList_concat:
  assumes "list_all2 event_ok events infos" and "length (concat events) < 2 ^ 63"
  shows "ParseEventList (concat events) need_charset max_gtid =
    Some (OK, map (charset_prefix need_charset) events, last_gtid max_gtid (map ei_gtid infos),
      map ei_gtid infos)"
  using ParseEventList_loop_complete [OF assms(1), of "[]" "[0]"] assms(2)
  by (simp add: ParseEventList_def)

theorem ParseEventList_concat_witness:
  "ParseEventList (concat [sample_event, sample_event]) True ''u:1'' =
    Some (OK, [0 # sample_event, 0 # sample_event], ''u:1'', ['''', ''''])"
  using ParseEventList_concat [of "[sample_event, sample_event]" "[sample_info, sample_info]" True "''u:1''"]
    event_ok_sample
  by (simp add: sample_event_def sample_info_def EventInfo_init_def charset_prefix_def)

subsection \<open>GTID events\<close>

text \<open>
  The layout of a Percona GTID event: the 19 byte header, a flag byte, the 16 byte sid and the
  sequence number.
\<close>

definition percona_event :: "u32 \<Rightarrow> u32 \<Rightarrow> bytes \<Rightarrow> byte \<Rightarrow> bytes \<Rightarrow> u64 \<Rightarrow> bytes \<Rightarrow> bytes" where
  "percona_event timestamp server_id header flag sid seq_no tail =
     le_bytes 4 (unat timestamp) @ [EVENT_PERCONA_GTID] @ le_bytes 4 (unat server_id) @
     le_bytes 4 (44 + length tail) @ header @ [flag] @ sid @ le_bytes 8 (unat seq_no) @ tail"

lemma le_val_u32: "(of_nat (le_val (le_bytes 4 (unat (w :: u32)))) :: u32) = w"
  using unat_u32_less [of w] by (simp add: le_val_le_bytes)

lemma le_val_u64: "(of_nat (le_val (le_bytes 8 (unat (w :: u64)))) :: u64) = w"
  using unat_u64_less [of w] by (simp add: le_val_le_bytes)

lemma le_val_size: "(of_nat (le_val (le_bytes 4 n)) :: u32) = of_nat n"
  by (simp add: le_val_le_bytes word_of_nat_eq_iff take_bit_eq_mod)

lemma percona_header:
  assumes "length header = 6" "length sid = 16"
  shows "event_header (percona_event ts svr header flag sid seq tail) info =
    info\<lparr>ei_time_stamp := ts, ei_event_size := of_nat (44 + length tail),
      ei_event_type := EVENT_PERCONA_GTID, ei_server_id := svr\<rparr>"
  using le_val_size [of "44 + length tail"]
  by (simp add: event_header_def percona_event_def le_val_u32 nth_append)

lemma ParseEvent_percona:
  assumes "length header = 6" "length sid = 16" "44 \<le> unat n"
  shows "ParseEvent (pre @ percona_event ts svr header flag sid seq tail @ post) (length pre) n info =
    Some (0, info\<lparr>ei_time_stamp := ts, ei_event_size := of_nat (44 + length tail),
      ei_event_type := EVENT_PERCONA_GTID, ei_server_id := svr, ei_seq_no := seq,
      ei_gtid := GenUUID sid @ CHR '':'' # show_nat (unat seq)\<rparr>)"
proof -
  let ?ev = "percona_event ts svr header flag sid seq tail"
  have l: "length ?ev = 44 + length tail" using assms by (simp add: percona_event_def)
  have ty: "?ev ! 4 = EVENT_PERCONA_GTID" by (simp add: percona_event_def nth_append)
  have "drop 20 ?ev = sid @ le_bytes 8 (unat seq) @ tail" "drop 36 ?ev = le_bytes 8 (unat seq) @ tail"
    using assms by (simp_all add: percona_event_def)
  then have "GetPerconaGTID (pre @ ?ev @ post) (length pre + 19) (n - 19) i =
      Some (length pre + 44, i\<lparr>ei_seq_no := seq, ei_gtid := GenUUID sid @ CHR '':'' # show_nat (unat seq)\<rparr>)" for i
    using assms l rd_window [of 20 16 ?ev pre post] GetBuffer_window2 [of 36 0 8 ?ev pre post]
    by (simp add: GetPerconaGTID_def gt_24_sub_19 le_val_u64 GenGTID_ok uuid_ok_GenUUID)
  then show ?thesis
    using ParseEvent_window [of ?ev n pre post info] ty l assms percona_header [OF assms(1,2)]
    by (simp add: Let_def word_le_nat_alt)
qed

text \<open>
  Parsing a Percona GTID event anywhere in a buffer reports its header fields and the GTID
  printed from its sid and sequence number, and two events with the same reported GTID have the
  same sid and sequence number.
\<close>

theorem ParseEvent_percona_gtid:
  assumes "length header = 6" "length sid = 16" "44 \<le> unat n" "length header' = 6" "length sid' = 16"
  shows "\<exists>i i'.
    ParseEvent (pre @ percona_event ts svr header flag sid seq tail @ post) (length pre) n EventInfo_init = Some (0, i) \<and>
    ParseEvent (pre @ percona_event ts' svr' header' flag' sid' seq' tail' @ post) (length pre) n EventInfo_init = Some (0, i') \<and>
    GenGTID (GenUUID sid) seq = Some (ei_gtid i) \<and> ei_server_id i = svr \<and> ei_time_stamp i = ts \<and>
    ParseGTID (ei_gtid i) = (GenUUID sid, seq) \<and>
    (ei_gtid i = ei_gtid i' \<longleftrightarrow> sid = sid' \<and> seq = seq')"
proof -
  have p: "ParseGTID (GenUUID s @ CHR '':'' # show_nat (unat q)) = (GenUUID s, q)" if "length s = 16" for s q
    using uuid_ok_GenUUID [OF that] by (simp add: ParseGTID_print uuid_ok_def)
  have "GenUUID sid @ CHR '':'' # show_nat (unat seq) = GenUUID sid' @ CHR '':'' # show_nat (unat seq')
      \<longleftrightarrow> sid = sid' \<and> seq = seq'"
  proof
    assume "GenUUID sid @ CHR '':'' # show_nat (unat seq) = GenUUID sid' @ CHR '':'' # show_nat (unat seq')"
    then have "(GenUUID sid, seq) = (GenUUID sid', seq')"
      by (simp only: p [OF assms(2), symmetric] p [OF assms(5), symmetric])
    then show "sid = sid' \<and> seq = seq'" using GenUUID_inj [OF assms(2,5)] by simp
  qed simp
  then show ?thesis
    using assms p [of sid seq] by (simp add: ParseEvent_percona GenGTID_ok uuid_ok_GenUUID)
qed

theorem ParseEvent_percona_gtid_witness:
  "\<exists>i i'.
    ParseEvent ([] @ percona_event 1 2 (replicate 6 0) 0 (replicate 16 3) 4 [] @ []) (length ([] :: bytes)) 44 EventInfo_init = Some (0, i) \<and>
    ParseEvent ([] @ percona_event 1 2 (replicate 6 0) 0 (replicate 16 3) 5 [] @ []) (length ([] :: bytes)) 44 EventInfo_init = Some (0, i') \<and>
    GenGTID (GenUUID (replicate 16 3)) 4 = Some (ei_gtid i) \<and> ei_server_id i = 2 \<and> ei_time_stamp i = 1 \<and>
    ParseGTID (ei_gtid i) = (GenUUID (replicate 16 3), 4) \<and>
    (ei_gtid i = ei_gtid i' \<longleftrightarrow> replicate 16 (3 :: byte) = replicate 16 3 \<and> (4 :: u64) = 5)"
  by (rule ParseEvent_percona_gtid) simp_all

end
