(* ===== verification/Directories.thy ===== *)
theory Directories
  imports Phx_Prelude
begin

text \<open>
  Making the directories of a path (\<^verbatim>\<open>Utils::CheckDir\<close> of \<^verbatim>\<open>phxcomm/utils/phx_utils.cpp\<close>), over the directories of a POSIX
  file system. A directory is known by whether its path is absolute and by the parts of its path, so that slashes that
  follow each other and slashes at the end make no difference; paths with dots and links are not resolved.
\<close>

section \<open>Paths\<close>

fun path_parts :: "string \<Rightarrow> string \<Rightarrow> string list" where
  "path_parts [] part = (if part = [] then [] else [part])"
| "path_parts (c # cs) part =
     (if c = CHR ''/'' then (if part = [] then path_parts cs [] else part # path_parts cs []) else path_parts cs (part @ [c]))"

definition path_key :: "string \<Rightarrow> bool \<times> string list" where
  "path_key p = (p \<noteq> [] \<and> hd p = CHR ''/'', path_parts p [])"

text \<open>The root and the working directory always exist.\<close>

definition is_dir :: "(bool \<times> string list \<Rightarrow> bool) \<Rightarrow> bool \<times> string list \<Rightarrow> bool" where
  "is_dir dirs k \<longleftrightarrow> snd k = [] \<or> dirs k"

text \<open>\<open>deny\<close>: where a directory cannot be made, for example because there is a file.\<close>

definition mkdir :: "(bool \<times> string list \<Rightarrow> bool) \<Rightarrow> string \<Rightarrow> (bool \<times> string list \<Rightarrow> bool) \<Rightarrow> int \<times> (bool \<times> string list \<Rightarrow> bool)" where
  "mkdir deny p dirs =
     (let k = path_key p
      in if is_dir dirs k \<or> \<not> is_dir dirs (fst k, butlast (snd k)) \<or> deny k then (-1, dirs) else (0, dirs(k := True)))"

section \<open>Making directories\<close>

text \<open>
  \<open>pre\<close> is the path up to the position of the loop, and \<open>rest\<close> what is behind it. The process ends when a
  directory cannot be made.
\<close>

function CheckDir_loop ::
  "(bool \<times> string list \<Rightarrow> bool) \<Rightarrow> string \<Rightarrow> string \<Rightarrow> (bool \<times> string list \<Rightarrow> bool) \<Rightarrow> (bool \<times> string list \<Rightarrow> bool) option" where
  "CheckDir_loop deny pre rest dirs =
     (if rest = [] then Some dirs
      else
        let name = takeWhile (\<lambda>c. c \<noteq> CHR ''/'') rest;
            check_dir = (if name = rest then pre @ rest else pre @ name @ ''/'');
            rest = drop (length name + 1) rest
        in if is_dir dirs (path_key check_dir) then CheckDir_loop deny check_dir rest dirs
           else case mkdir deny check_dir dirs of
             (ret, dirs) \<Rightarrow> if ret \<noteq> 0 then None else CheckDir_loop deny check_dir rest dirs)"
  by pat_completeness auto
termination by (relation "measure (\<lambda>(_, _, rest, _). length rest)") auto

definition CheckDir :: "(bool \<times> string list \<Rightarrow> bool) \<Rightarrow> string \<Rightarrow> (bool \<times> string list \<Rightarrow> bool) \<Rightarrow> (bool \<times> string list \<Rightarrow> bool) option" where
  "CheckDir deny dir dirs = CheckDir_loop deny [] dir dirs"

declare CheckDir_loop.simps [simp del]

section \<open>The directory exists afterwards\<close>

lemma path_parts_name: "CHR ''/'' \<notin> set name \<Longrightarrow> path_parts (name @ xs) part = path_parts xs (part @ name)"
  by (induction name arbitrary: part) auto

lemma path_parts_append: "pre = [] \<or> last pre = CHR ''/'' \<Longrightarrow> path_parts (pre @ xs) part = (if pre = [] then path_parts xs part else path_parts pre part @ path_parts xs [])"
  by (induction pre part rule: path_parts.induct) (auto split: if_splits)

lemma path_parts_step:
  assumes "pre = [] \<or> last pre = CHR ''/''" "CHR ''/'' \<notin> set name"
  shows "path_parts (pre @ name) [] = path_parts pre [] @ (if name = [] then [] else [name])"
    and "path_parts (pre @ name @ ''/'') [] = path_parts pre [] @ (if name = [] then [] else [name])"
  using assms path_parts_name [of name "[]" "[]"] path_parts_name [of name "''/''" "[]"] by (auto simp: path_parts_append)

lemma mkdir_next:
  assumes "pre = [] \<or> last pre = CHR ''/''" "CHR ''/'' \<notin> set name" "is_dir dirs (path_key pre)"
    and "check_dir = pre @ name \<or> check_dir = pre @ name @ ''/''" "\<not> is_dir dirs (path_key check_dir)" "\<not> deny (path_key check_dir)"
  shows "mkdir deny check_dir dirs = (0, dirs(path_key check_dir := True))"
proof -
  have p: "snd (path_key check_dir) = snd (path_key pre) @ (if name = [] then [] else [name])"
    using assms(4) path_parts_step [OF assms(1,2)] by (auto simp: path_key_def)
  have f: "pre \<noteq> [] \<Longrightarrow> fst (path_key check_dir) = fst (path_key pre)" using assms(4) by (auto simp: path_key_def)
  have "name \<noteq> []"
  proof
    assume "name = []"
    with p f assms(3,5) show False by (cases "pre = []") (auto simp: is_dir_def path_key_def prod_eq_iff)
  qed
  then have "butlast (snd (path_key check_dir)) = snd (path_key pre)" using p by simp
  then have "is_dir dirs (fst (path_key check_dir), butlast (snd (path_key check_dir)))"
    using assms(3) f by (cases "pre = []") (auto simp: is_dir_def path_key_def)
  with assms(5,6) show ?thesis by (simp add: mkdir_def Let_def)
qed

lemma CheckDir_loop_makes:
  assumes "\<forall>k. \<not> deny k" "pre = [] \<or> last pre = CHR ''/'' \<or> rest = []" "is_dir dirs (path_key pre)"
  shows "\<exists>dirs'. CheckDir_loop deny pre rest dirs = Some dirs' \<and> is_dir dirs' (path_key (pre @ rest)) \<and> (\<forall>k. dirs k \<longrightarrow> dirs' k)"
  using assms
proof (induction deny pre rest dirs rule: CheckDir_loop.induct)
  case (1 deny pre rest dirs)
  show ?case
  proof (cases "rest = []")
    case True
    with 1 show ?thesis by (simp add: CheckDir_loop.simps)
  next
    case False
    define name where "name = takeWhile (\<lambda>c. c \<noteq> CHR ''/'') rest"
    define c where "c = (if name = rest then pre @ rest else pre @ name @ ''/'')"
    define r where "r = drop (length name + 1) rest"
    define dirs1 where "dirs1 = (if is_dir dirs (path_key c) then dirs else dirs(path_key c := True))"
    have pre: "pre = [] \<or> last pre = CHR ''/''" using 1(4) False by simp
    have n: "CHR ''/'' \<notin> set name" unfolding name_def by (metis set_takeWhileD)
    have split: "name = rest \<and> r = [] \<or> rest = name @ CHR ''/'' # r"
    proof -
      have "rest = name @ dropWhile (\<lambda>c. c \<noteq> CHR ''/'') rest" by (simp add: name_def)
      then show ?thesis
        by (cases "dropWhile (\<lambda>c. c \<noteq> CHR ''/'') rest") (auto simp: r_def dest: dropWhile_eq_Cons_conv [THEN iffD1])
    qed
    have cr: "c @ r = pre @ rest" "c = [] \<or> last c = CHR ''/'' \<or> r = []" using split by (auto simp: c_def)
    have d1: "is_dir dirs1 (path_key c)" "\<And>k. dirs k \<Longrightarrow> dirs1 k" by (auto simp: dirs1_def is_dir_def)
    have m: "\<not> is_dir dirs (path_key c) \<Longrightarrow> mkdir deny c dirs = (0, dirs1)"
      using mkdir_next [OF pre n 1(5), of c deny] 1(3) by (auto simp: c_def dirs1_def)
    have "CheckDir_loop deny pre rest dirs = (if is_dir dirs (path_key c) then CheckDir_loop deny c r dirs
        else case mkdir deny c dirs of (ret, dirs) \<Rightarrow> if ret \<noteq> 0 then None else CheckDir_loop deny c r dirs)"
      unfolding c_def r_def name_def CheckDir_loop.simps [of deny pre rest dirs] Let_def by (simp only: False if_False)
    then have loop: "CheckDir_loop deny pre rest dirs = CheckDir_loop deny c r dirs1" using m by (auto simp: dirs1_def)
    have "\<exists>dirs'. CheckDir_loop deny c r dirs1 = Some dirs' \<and> is_dir dirs' (path_key (c @ r)) \<and> (\<forall>k. dirs1 k \<longrightarrow> dirs' k)"
    proof (cases "is_dir dirs (path_key c)")
      case True
      then show ?thesis using 1(1) [OF False name_def c_def r_def True 1(3) cr(2)] d1 by (simp add: dirs1_def)
    next
      case no: False
      show ?thesis by (rule 1(2) [OF False name_def c_def r_def no m [OF no, symmetric] _ 1(3) cr(2) d1(1)]) simp
    qed
    then show ?thesis using loop cr(1) d1(2) by auto
  qed
qed

text \<open>
  Where no directory is refused, the path is a directory afterwards, and no directory is lost.
\<close>

theorem CheckDir_makes:
  assumes "\<forall>k. \<not> deny k"
  shows "\<exists>dirs'. CheckDir deny dir dirs = Some dirs' \<and> is_dir dirs' (path_key dir) \<and> (\<forall>k. dirs k \<longrightarrow> dirs' k)"
  using CheckDir_loop_makes [OF assms, of "[]" dir dirs] by (simp add: CheckDir_def is_dir_def path_key_def)

text \<open>A directory that cannot be made ends the process.\<close>

lemma CheckDir_refused: "CheckDir (\<lambda>k. k = (True, [''d''])) ''/d/e'' (\<lambda>_. False) = None"
  by (simp add: CheckDir_def CheckDir_loop.simps mkdir_def is_dir_def path_key_def)

end
