(* ===== verification/Phx_Utils.thy ===== *)
theory Phx_Utils
  imports Phx_Prelude
begin

text \<open>
  The pure helpers of \<^verbatim>\<open>phxcomm/utils/phx_utils.cpp\<close>: server ids as IPv4 addresses and the
  running checksum of the event log. The directory helpers of that file are part of the file
  model.
\<close>

section \<open>Definitions\<close>

definition GetIP :: "u32 \<Rightarrow> string" where
  "GetIP svrid =
     show_nat (unat (drop_bit 24 svrid AND 0xff)) @ ''.'' @
     show_nat (unat (drop_bit 16 svrid AND 0xff)) @ ''.'' @
     show_nat (unat (drop_bit 8 svrid AND 0xff)) @ ''.'' @
     show_nat (unat (svrid AND 0xff))"

text \<open>\<^verbatim>\<open>sscanf("%u")\<close> stores the low 32 bits of what \<^verbatim>\<open>strtoul\<close> returns.\<close>

definition scan_u :: "string \<Rightarrow> (u32 \<times> string) option" where
  "scan_u s =
     (case scan_unsigned s of
        (None, _, _) \<Rightarrow> None
      | (Some n, neg, r) \<Rightarrow>
          Some (if 2 ^ 64 \<le> n then - 1 else if neg then - of_nat n else of_nat n, r))"

text \<open>
  \<^verbatim>\<open>sscanf(ip, "%u.%u.%u.%u", ...)\<close>: the conversions stop at the first mismatch and the
  variables not reached stay 0.
\<close>

fun scan_dotted :: "nat \<Rightarrow> string \<Rightarrow> u32 list" where
  "scan_dotted 0 s = []"
| "scan_dotted (Suc k) s =
     (case scan_u s of
        None \<Rightarrow> replicate (Suc k) 0
      | Some (v, r) \<Rightarrow>
          v # (if r \<noteq> [] \<and> hd r = CHR ''.'' then scan_dotted k (tl r) else replicate k 0))"

definition GetSvrID :: "string \<Rightarrow> u32" where
  "GetSvrID ip =
     (let tmp = scan_dotted 4 ip
      in push_bit 24 (tmp ! 0) OR push_bit 16 (tmp ! 1) OR push_bit 8 (tmp ! 2) OR tmp ! 3)"

text \<open>\<^verbatim>\<open>char\<close> is signed: a byte is sign-extended before it is added.\<close>

definition GetCheckSum :: "u64 \<Rightarrow> bytes \<Rightarrow> u64" where
  "GetCheckSum old_checksum value =
     foldl (\<lambda>checksum b. checksum * 257 + of_int (sint b)) old_checksum value"

section \<open>Server ids and addresses\<close>

lemma scan_u_show_nat:
  assumes "n < 2 ^ 32" and "\<not> (rest \<noteq> [] \<and> is_digit (hd rest))"
  shows "scan_u (show_nat n @ rest) = Some (of_nat n, rest)"
  using assms(1) by (simp add: scan_u_def scan_unsigned_show_nat [OF assms(2)])

lemma not_digit_dot [simp]: "\<not> is_digit (CHR ''.'')"
  by (simp add: is_digit_def)

lemma and_ff: "w AND 0xff = take_bit 8 (w :: u32)"
proof -
  have "(0xff :: u32) = mask 8" by (simp add: mask_eq_exp_minus_1)
  then show ?thesis by (simp only: take_bit_eq_mask)
qed

lemma scan_u_octet:
  assumes "\<not> (rest \<noteq> [] \<and> is_digit (hd rest))"
  shows "scan_u (show_nat (unat (w :: u32)) @ rest) = Some (w, rest)"
  using scan_u_show_nat [OF _ assms, of "unat w"] unat_u32_less [of w] by simp

lemma scan_dotted_step:
  "scan_dotted (Suc k) (show_nat (unat (w :: u32)) @ ''.'' @ rest) = w # scan_dotted k rest"
  by (simp add: scan_u_octet)

lemma scan_dotted_last: "scan_dotted (Suc 0) (show_nat (unat (w :: u32))) = [w]"
  using scan_u_octet [of "[]" w] by simp

lemma scan_dotted_GetIP:
  "scan_dotted 4 (GetIP w) =
     [drop_bit 24 w AND 0xff, drop_bit 16 w AND 0xff, drop_bit 8 w AND 0xff, w AND 0xff]"
proof -
  have "(4 :: nat) = Suc (Suc (Suc (Suc 0)))" by simp
  then show ?thesis by (simp only: GetIP_def scan_dotted_step scan_dotted_last)
qed

lemma bit_octet:
  "bit (push_bit k (take_bit 8 (drop_bit k w)) :: u32) n \<longleftrightarrow> k \<le> n \<and> n < k + 8 \<and> bit w n"
proof (cases "k \<le> n")
  case True
  then obtain j where "n = k + j" using le_Suc_ex by blast
  then show ?thesis by (auto simp: bit_push_bit_iff bit_take_bit_iff bit_drop_bit_eq dest: bit_imp_le_length)
qed (simp add: bit_push_bit_iff)

lemma join_octets:
  "push_bit 24 (take_bit 8 (drop_bit 24 w)) OR push_bit 16 (take_bit 8 (drop_bit 16 w)) OR
     push_bit 8 (take_bit 8 (drop_bit 8 w)) OR take_bit 8 w = (w :: u32)"
proof (rule bit_word_eqI)
  fix n assume "n < LENGTH(32)"
  then have n: "n < 32" by simp
  show "bit (push_bit 24 (take_bit 8 (drop_bit 24 w)) OR push_bit 16 (take_bit 8 (drop_bit 16 w)) OR
     push_bit 8 (take_bit 8 (drop_bit 8 w)) OR take_bit 8 w) n = bit w n"
    unfolding bit_or_iff bit_octet bit_take_bit_iff using n by linarith
qed

lemma GetSvrID_GetIP_id: "GetSvrID (GetIP w) = w"
proof -
  have i: "[a, b, c, d] ! 0 = a" "[a, b, c, d] ! 1 = b" "[a, b, c, d] ! 2 = c" "[a, b, c, d] ! 3 = d"
    for a b c d :: u32
    by (simp_all add: numeral_eq_Suc)
  show ?thesis by (simp only: GetSvrID_def scan_dotted_GetIP Let_def i join_octets and_ff)
qed

section \<open>The running checksum\<close>

lemma GetCheckSum_Nil [simp]: "GetCheckSum c [] = c"
  by (simp add: GetCheckSum_def)

lemma GetCheckSum_append: "GetCheckSum c (xs @ ys) = GetCheckSum (GetCheckSum c xs) ys"
  by (simp add: GetCheckSum_def)

lemma GetCheckSum_concat: "GetCheckSum c (concat xss) = foldl GetCheckSum c xss"
  by (induction xss arbitrary: c) (simp_all add: GetCheckSum_append)

end
