(* ===== verification/Posix_Files.thy ===== *)
theory Posix_Files
  imports Phx_Utils
begin

text \<open>
  The part of the POSIX file interface the storage code uses, as documented by its manual pages:
  names refer to inodes, an open descriptor keeps its inode when the name is removed, a write past
  the end fills the gap with zeros, and \<^verbatim>\<open>write\<close> may accept fewer bytes than it was given. What the
  environment decides (which paths cannot be opened, how many more bytes the disk accepts, the
  clock) is part of the state, so a theorem about all states is a theorem about all environments.
  The directory helpers of \<^verbatim>\<open>phxcomm/utils/phx_utils.cpp\<close> follow.
\<close>

section \<open>File systems\<close>

record fs =
  fs_names :: "(string, nat) smap"
  fs_data :: "nat \<Rightarrow> bytes"
  fs_mtime :: "nat \<Rightarrow> u32"
  fs_next :: nat
  fs_room :: nat
  fs_deny :: "string \<Rightarrow> bool"
  fs_now :: u32

text \<open>Linux transfers at most 0x7ffff000 bytes in one \<^verbatim>\<open>read\<close> or \<^verbatim>\<open>write\<close>.\<close>

definition io_limit :: nat where
  "io_limit = 2147479552"

definition fs_open :: "string \<Rightarrow> fs \<Rightarrow> nat option \<times> fs" where
  "fs_open path s =
     (if fs_deny s path then (None, s)
      else case map_of (fs_names s) path of
        Some ino \<Rightarrow> (Some ino, s)
      | None \<Rightarrow>
          (Some (fs_next s),
           s\<lparr>fs_names := sm_put path (fs_next s) (fs_names s), fs_data := (fs_data s)(fs_next s := []),
             fs_mtime := (fs_mtime s)(fs_next s := fs_now s), fs_next := Suc (fs_next s)\<rparr>))"

definition fs_read :: "nat \<Rightarrow> nat \<Rightarrow> nat \<Rightarrow> fs \<Rightarrow> bytes" where
  "fs_read ino off n s = take (min n io_limit) (drop off (fs_data s ino))"

definition overwrite :: "nat \<Rightarrow> bytes \<Rightarrow> bytes \<Rightarrow> bytes" where
  "overwrite off bs d = take off (d @ replicate (off - length d) 0) @ bs @ drop (off + length bs) d"

text \<open>\<^verbatim>\<open>write\<close> returns the number of bytes taken, or -1 when the disk takes none.\<close>

definition fs_write :: "nat \<Rightarrow> nat \<Rightarrow> bytes \<Rightarrow> fs \<Rightarrow> int \<times> fs" where
  "fs_write ino off bs s =
     (let k = min (min (length bs) io_limit) (fs_room s)
      in if k = 0 \<and> bs \<noteq> [] then (-1, s)
         else (int k,
               s\<lparr>fs_data := (fs_data s)(ino := overwrite off (take k bs) (fs_data s ino)),
                 fs_mtime := (fs_mtime s)(ino := fs_now s), fs_room := fs_room s - k\<rparr>))"

definition fs_ftruncate :: "nat \<Rightarrow> nat \<Rightarrow> fs \<Rightarrow> fs" where
  "fs_ftruncate ino n s =
     s\<lparr>fs_data := (fs_data s)(ino := take n (fs_data s ino @ replicate (n - length (fs_data s ino)) 0)),
       fs_mtime := (fs_mtime s)(ino := fs_now s)\<rparr>"

definition fs_remove :: "string \<Rightarrow> fs \<Rightarrow> int \<times> fs" where
  "fs_remove path s =
     (case map_of (fs_names s) path of
        None \<Rightarrow> (-1, s)
      | Some _ \<Rightarrow> (0, s\<lparr>fs_names := filter (\<lambda>e. fst e \<noteq> path) (fs_names s)\<rparr>))"

definition strip_prefix :: "string \<Rightarrow> string \<Rightarrow> string option" where
  "strip_prefix p s = (if take (length p) s = p then Some (drop (length p) s) else None)"

text \<open>The names of the files of a directory whose path ends in a slash.\<close>

definition fs_readdir :: "string \<Rightarrow> fs \<Rightarrow> string list" where
  "fs_readdir dir s =
     filter (\<lambda>n. n \<noteq> [] \<and> CHR ''/'' \<notin> set n) (List.map_filter (\<lambda>e. strip_prefix dir (fst e)) (fs_names s))"

section \<open>Directory helpers\<close>

definition GetFileTime :: "string \<Rightarrow> fs \<Rightarrow> u32" where
  "GetFileTime filename s =
     (if filename = [] then 0
      else case map_of (fs_names s) filename of None \<Rightarrow> -1 | Some ino \<Rightarrow> fs_mtime s ino)"

definition FileCmpByFileTime :: "string \<Rightarrow> string \<Rightarrow> fs \<Rightarrow> int" where
  "FileCmpByFileTime file1 file2 s =
     (let time1 = GetFileTime file1 s; time2 = GetFileTime file2 s
      in if time1 = time2 then 0 else if time1 < time2 then -1 else 1)"

definition ReMoveFile :: "string \<Rightarrow> fs \<Rightarrow> int \<times> fs" where
  "ReMoveFile filename s = fs_remove filename s"

text \<open>
  Renaming a directory renames all paths below it; a target directory with entries is refused. A
  directory is only known through its files: the callers rename directories that exist.
\<close>

definition strip_slash :: "string \<Rightarrow> string" where
  "strip_slash p = (if p \<noteq> [] \<and> last p = CHR ''/'' then butlast p else p)"

definition fs_rename_dir :: "string \<Rightarrow> string \<Rightarrow> fs \<Rightarrow> int \<times> fs" where
  "fs_rename_dir p q s =
     (let old = strip_slash p @ ''/''; new = strip_slash q @ ''/'';
          moved = (\<lambda>n. case strip_prefix old n of None \<Rightarrow> n | Some r \<Rightarrow> new @ r)
      in if list_ex (\<lambda>e. strip_prefix new (fst e) \<noteq> None) (fs_names s) then (-1, s)
         else (0, s\<lparr>fs_names := fold (\<lambda>e. sm_put (moved (fst e)) (snd e)) (fs_names s) []\<rparr>))"

definition MoveDir :: "string \<Rightarrow> string \<Rightarrow> fs \<Rightarrow> int \<times> fs" where
  "MoveDir dirname destdirname s = fs_rename_dir (c_str dirname) (c_str destdirname) s"

text \<open>A directory is removed by renaming it; the new name is printed into a buffer of 128 chars.\<close>

definition RemoveDir :: "string \<Rightarrow> fs \<Rightarrow> (int \<times> fs) option" where
  "RemoveDir path s =
     (if path = [] then None
      else
        let back_path = c_str (strip_slash path) @ ''_back_'' @ show_nat (unat (fs_now s))
        in if length back_path < 128 then Some (MoveDir path back_path s) else None)"

section \<open>The file system invariant\<close>

definition fs_ok :: "fs \<Rightarrow> bool" where
  "fs_ok s \<longleftrightarrow> sm_ok (fs_names s) \<and> distinct (map snd (fs_names s)) \<and> (\<forall>e\<in>set (fs_names s). snd e < fs_next s)"

lemma distinct_snd_sm_put:
  "distinct (map snd m) \<Longrightarrow> v \<notin> snd ` set m \<Longrightarrow> distinct (map snd (sm_put k v m))"
proof (induction m)
  case (Cons e m)
  have "snd ` set (sm_put k v m) \<subseteq> insert v (snd ` set m)"
    using set_sm_put_subset [of k v m] by force
  with Cons show ?case by auto
qed simp

lemma fs_ok_open: "fs_ok s \<Longrightarrow> fs_ok (snd (fs_open path s))"
proof -
  assume ok: "fs_ok s"
  then have "fs_next s \<notin> snd ` set (fs_names s)" by (auto simp: fs_ok_def)
  with ok have "distinct (map snd (sm_put path (fs_next s) (fs_names s)))"
    by (intro distinct_snd_sm_put) (auto simp: fs_ok_def)
  moreover have "\<forall>e\<in>set (sm_put path (fs_next s) (fs_names s)). snd e < Suc (fs_next s)"
    using set_sm_put_subset [of path "fs_next s" "fs_names s"] ok by (fastforce simp: fs_ok_def)
  ultimately show ?thesis using ok by (simp add: fs_ok_def fs_open_def split: option.splits)
qed

lemma fs_names_write [simp]: "fs_names (snd (fs_write ino off bs s)) = fs_names s"
  by (simp add: fs_write_def Let_def)

lemma fs_next_write [simp]: "fs_next (snd (fs_write ino off bs s)) = fs_next s"
  by (simp add: fs_write_def Let_def)

lemma fs_write_frame:
  "fs_write ino off bs s = (r, s') \<Longrightarrow>
     fs_names s' = fs_names s \<and> fs_next s' = fs_next s \<and> fs_deny s' = fs_deny s \<and> fs_now s' = fs_now s"
  by (auto simp: fs_write_def Let_def split: if_splits)

lemma fs_ok_write: "fs_ok s \<Longrightarrow> fs_ok (snd (fs_write ino off bs s))"
  by (simp add: fs_ok_def)

lemma fs_ok_ftruncate: "fs_ok s \<Longrightarrow> fs_ok (fs_ftruncate ino n s)"
  by (simp add: fs_ok_def fs_ftruncate_def)

lemma fs_ok_remove: "fs_ok s \<Longrightarrow> fs_ok (snd (fs_remove path s))"
  by (auto simp: fs_ok_def fs_remove_def sm_ok_def distinct_map sorted_wrt_map inj_on_def sorted_wrt_filter
      split: option.splits)

text \<open>Opening: the name then refers to the inode returned and other files keep their bytes.\<close>

lemma fs_open_Some:
  assumes "fs_open path s = (Some ino, s')"
  shows "map_of (fs_names s') path = Some ino" "\<not> fs_deny s path"
    "fs_data s' ino = (if map_of (fs_names s) path = None then [] else fs_data s ino)"
    "q \<noteq> path \<Longrightarrow> map_of (fs_names s') q = map_of (fs_names s) q"
    "map_of (fs_names s) path \<noteq> None \<Longrightarrow> s' = s"
    "fs_room s' = fs_room s" "fs_deny s' = fs_deny s"
  using assms by (auto simp: fs_open_def split: if_splits option.splits)

lemma fs_open_inode_less:
  "fs_ok s \<Longrightarrow> fs_open path s = (Some ino, s') \<Longrightarrow> ino < fs_next s'"
  by (auto simp: fs_open_def fs_ok_def split: if_splits option.splits dest!: map_of_SomeD)

lemma fs_open_data:
  "fs_open path s = (r, s') \<Longrightarrow> i \<noteq> fs_next s \<Longrightarrow> fs_data s' i = fs_data s i"
  by (auto simp: fs_open_def split: if_splits option.splits)

text \<open>Appending at the end of a file.\<close>

lemma overwrite_end [simp]: "overwrite (length d) bs d = d @ bs"
  by (simp add: overwrite_def)

lemma take_overwrite: "off \<le> length d \<Longrightarrow> take off (overwrite off bs d) = take off d"
  by (simp add: overwrite_def)

lemma drop_overwrite: "off \<le> length d \<Longrightarrow> drop off (overwrite off bs d) = bs @ drop (off + length bs) d"
  by (simp add: overwrite_def)

lemma fs_write_other: "i \<noteq> ino \<Longrightarrow> fs_data (snd (fs_write ino off bs s)) i = fs_data s i"
  by (simp add: fs_write_def Let_def)

lemma fs_write_full:
  "length bs \<le> io_limit \<Longrightarrow> length bs \<le> fs_room s \<Longrightarrow>
     fs_write ino off bs s =
       (int (length bs),
        s\<lparr>fs_data := (fs_data s)(ino := overwrite off bs (fs_data s ino)),
          fs_mtime := (fs_mtime s)(ino := fs_now s), fs_room := fs_room s - length bs\<rparr>)"
  by (auto simp: fs_write_def Let_def min_def)

lemma fs_write_short:
  assumes "fs_write ino (length (fs_data s ino)) bs s = (r, s')" and "r \<noteq> int (length bs)"
  shows "\<exists>k < length bs. fs_data s' ino = fs_data s ino @ take k bs"
proof -
  define k where "k = min (min (length bs) io_limit) (fs_room s)"
  have "k < length bs \<and> fs_data s' ino = fs_data s ino @ take k bs"
    using assms by (auto simp: fs_write_def Let_def k_def [symmetric] split: if_splits)
      (use assms(2) in \<open>auto simp: k_def min_def split: if_splits\<close>)
  then show ?thesis by blast
qed

end
