(* ===== verification/Record_Storage.thy ===== *)
theory Record_Storage
  imports Posix_Files
begin

text \<open>
  The record storage (\<^verbatim>\<open>core/storage/storage.cpp\<close>): a file of records, each the 8 byte length of
  its data followed by the data, read and appended through one descriptor. The lemmas show the log
  it implements: complete records are read back, and a record that was only partly written is
  reported as the end of the data, with the read position left in front of it.
\<close>

section \<open>Definitions\<close>

datatype MODE = WRITE | READ

record storage =
  st_data_dir :: string
  st_path :: string
  st_mode :: MODE
  st_fd :: "(nat \<times> nat) option"

text \<open>A descriptor is the inode and the offset; \<open>None\<close> is -1.\<close>

definition Storage_init :: "MODE \<Rightarrow> string \<Rightarrow> storage" where
  "Storage_init mode datadir = \<lparr>st_data_dir = datadir, st_path = [], st_mode = mode, st_fd = None\<rparr>"

definition CloseDB :: "storage \<Rightarrow> storage" where
  "CloseDB st = st\<lparr>st_fd := None, st_path := []\<rparr>"

text \<open>A file that cannot be opened aborts the process.\<close>

definition OpenDB :: "string \<Rightarrow> storage \<Rightarrow> fs \<Rightarrow> (int \<times> storage \<times> fs) option" where
  "OpenDB path st s =
     (case fs_open (st_data_dir st @ path) s of
        (None, _) \<Rightarrow> None
      | (Some ino, s) \<Rightarrow>
          let offset = (if st_mode st = WRITE then length (fs_data s ino) else 0)
          in Some (OK, st\<lparr>st_fd := Some (ino, offset), st_path := path\<rparr>, s))"

definition ReOpen :: "string \<Rightarrow> storage \<Rightarrow> fs \<Rightarrow> (int \<times> storage \<times> fs) option" where
  "ReOpen path st s = OpenDB path (CloseDB st) s"

text \<open>\<^verbatim>\<open>lseek\<close> takes a signed offset: a \<^verbatim>\<open>size_t\<close> of 2^63 or more is refused.\<close>

definition storage_seek :: "u64 \<Rightarrow> storage \<Rightarrow> storage option" where
  "storage_seek offset st =
     (case st_fd st of
        None \<Rightarrow> None
      | Some (ino, _) \<Rightarrow> if 2 ^ 63 \<le> unat offset then None else Some (st\<lparr>st_fd := Some (ino, unat offset)\<rparr>))"

definition Storage_Reset :: "storage \<Rightarrow> int \<times> storage" where
  "Storage_Reset st = (case storage_seek 0 st of None \<Rightarrow> (-1, st) | Some st \<Rightarrow> (0, st))"

definition SetFilePos ::
  "string \<Rightarrow> u64 \<Rightarrow> MODE \<Rightarrow> bool \<Rightarrow> storage \<Rightarrow> fs \<Rightarrow> (int \<times> storage \<times> fs) option" where
  "SetFilePos path offset mode trunc st s =
     (if st_mode st \<noteq> mode then Some (FILE_FORBIDDEN, st, s)
      else do {
        (ret, st, s) \<leftarrow> (if st_path st \<noteq> path then ReOpen path st s else Some (OK, st, s));
        if ret \<noteq> 0 then Some (ret, st, s)
        else case storage_seek offset st of
          None \<Rightarrow> Some (FILE_FAIL, st, s)
        | Some st \<Rightarrow>
            (case st_fd st of
               Some (ino, _) \<Rightarrow> Some (OK, st, if trunc then fs_ftruncate ino (unat offset) s else s)
             | None \<Rightarrow> Some (FILE_FAIL, st, s))
      })"

definition SetFileReadPos :: "string \<Rightarrow> u64 \<Rightarrow> storage \<Rightarrow> fs \<Rightarrow> (int \<times> storage \<times> fs) option" where
  "SetFileReadPos path offset st s = SetFilePos path offset READ False st s"

definition SetFileWritePos :: "string \<Rightarrow> u64 \<Rightarrow> bool \<Rightarrow> storage \<Rightarrow> fs \<Rightarrow> (int \<times> storage \<times> fs) option" where
  "SetFileWritePos path offset trunc st s = SetFilePos path offset WRITE trunc st s"

definition GetOffSet :: "storage \<Rightarrow> u64" where
  "GetOffSet st = (case st_fd st of None \<Rightarrow> -1 | Some (_, off) \<Rightarrow> of_nat off)"

definition GetFileName :: "storage \<Rightarrow> string" where
  "GetFileName st = st_path st"

definition GetFileInfo :: "storage \<Rightarrow> string \<times> u64" where
  "GetFileInfo st = (st_path st, GetOffSet st)"

definition frame :: "bytes \<Rightarrow> bytes" where
  "frame data = le_bytes 8 (length data) @ data"

text \<open>One \<^verbatim>\<open>write\<close> for the record; a short write has moved the offset.\<close>

definition Storage_WriteData :: "bytes \<Rightarrow> storage \<Rightarrow> fs \<Rightarrow> int \<times> storage \<times> fs" where
  "Storage_WriteData data st s =
     (if st_mode st \<noteq> WRITE then (FILE_FORBIDDEN, st, s)
      else case st_fd st of
        None \<Rightarrow> (FILE_FAIL, st, s)
      | Some (ino, off) \<Rightarrow>
          (case fs_write ino off (frame data) s of
             (write_len, s) \<Rightarrow>
               (if write_len \<noteq> int (length data + 8) then FILE_FAIL else OK,
                st\<lparr>st_fd := Some (ino, if write_len < 0 then off else off + nat write_len)\<rparr>, s)))"

definition resize :: "nat \<Rightarrow> bytes \<Rightarrow> bytes" where
  "resize n data = take n data @ replicate (n - length data) 0"

definition FixOffSet :: "nat \<Rightarrow> storage \<Rightarrow> storage" where
  "FixOffSet offset st = st\<lparr>st_fd := map_option (\<lambda>(ino, _). (ino, offset)) (st_fd st)\<rparr>"

text \<open>
  The result is the code, the string the caller passed in as the read left it, and the storage. Every \<^verbatim>\<open>read\<close>
  moves the position by what it got; a record that cannot be read is rolled back.
  Reading through a closed descriptor fails like a short read.
\<close>

definition Storage_ReadData :: "bytes \<Rightarrow> storage \<Rightarrow> fs \<Rightarrow> int \<times> bytes \<times> storage" where
  "Storage_ReadData data st s =
     (if st_mode st \<noteq> READ then (FILE_FORBIDDEN, data, st)
      else case st_fd st of
        None \<Rightarrow> (DATA_EMPTY, data, st)
      | Some (ino, pre_offset) \<Rightarrow>
          let head = fs_read ino pre_offset 8 s; st = st\<lparr>st_fd := Some (ino, pre_offset + length head)\<rparr>
          in if length head \<noteq> 8 then (DATA_EMPTY, data, if head = [] then st else FixOffSet pre_offset st)
             else
               let len = le_val head
               in if 10000000000 < len then (DATA_EMPTY, data, FixOffSet pre_offset st)
                  else
                    let body = fs_read ino (pre_offset + 8) len s; st = st\<lparr>st_fd := Some (ino, pre_offset + 8 + length body)\<rparr>
                    in if length body \<noteq> len
                       then (DATA_EMPTY, body @ drop (length body) (resize len data), FixOffSet pre_offset st)
                       else (OK, body, st))"

text \<open>So only a record that was read in full moves the position.\<close>

lemma Storage_ReadData_rolled_back:
  "Storage_ReadData data st s =
     (if st_mode st \<noteq> READ then (FILE_FORBIDDEN, data, st)
      else case st_fd st of
        None \<Rightarrow> (DATA_EMPTY, data, st)
      | Some (ino, pre_offset) \<Rightarrow>
          let head = fs_read ino pre_offset 8 s
          in if length head \<noteq> 8 then (DATA_EMPTY, data, st)
             else
               let len = le_val head
               in if 10000000000 < len then (DATA_EMPTY, data, st)
                  else
                    let body = fs_read ino (pre_offset + 8) len s
                    in if length body \<noteq> len
                       then (DATA_EMPTY, body @ drop (length body) (resize len data), st)
                       else (OK, body, st\<lparr>st_fd := Some (ino, pre_offset + 8 + len)\<rparr>))"
proof (cases "st_fd st")
  case (Some f)
  obtain ino pre where f: "f = (ino, pre)" by fastforce
  have "st\<lparr>st_fd := Some (ino, pre)\<rparr> = st" using Some f by simp
  then show ?thesis using Some f by (simp add: Storage_ReadData_def FixOffSet_def Let_def)
qed (simp add: Storage_ReadData_def)

section \<open>Records\<close>

lemma length_frame [simp]: "length (frame d) = length d + 8"
  by (simp add: frame_def)

lemma OpenDB_Some:
  assumes "OpenDB path st s = Some (ret, st', s')"
  shows "ret = 0" "st_path st' = path" "st_mode st' = st_mode st" "st_data_dir st' = st_data_dir st"
    "\<exists>ino. fs_open (st_data_dir st @ path) s = (Some ino, s') \<and>
       st_fd st' = Some (ino, if st_mode st = WRITE then length (fs_data s' ino) else 0)"
  using assms by (auto simp: OpenDB_def Let_def split: prod.splits option.splits)

lemma ReOpen_Some:
  assumes "ReOpen path st s = Some (ret, st', s')"
  shows "ret = 0" "st_path st' = path" "st_mode st' = st_mode st" "st_data_dir st' = st_data_dir st"
    "\<exists>ino. fs_open (st_data_dir st @ path) s = (Some ino, s') \<and>
       st_fd st' = Some (ino, if st_mode st = WRITE then length (fs_data s' ino) else 0)"
  using OpenDB_Some [OF assms [unfolded ReOpen_def]] by (simp_all add: CloseDB_def)

text \<open>Reading at a position that holds a complete record.\<close>

lemma Storage_ReadData_frame [fs_simps]:
  assumes "st_mode st = READ" and "st_fd st = Some (ino, off)"
    and "off \<le> length (fs_data s ino)" and "drop off (fs_data s ino) = frame d @ rest"
    and "length d \<le> io_limit"
  shows "Storage_ReadData buf st s = (OK, d, st\<lparr>st_fd := Some (ino, off + length (frame d))\<rparr>)"
proof -
  have lim: "io_limit < 2 ^ 64" "io_limit < 10000000000" "8 \<le> io_limit" by (simp_all add: io_limit_def)
  have h: "fs_read ino off 8 s = le_bytes 8 (length d)"
    using assms(4) lim(3) by (simp add: fs_read_def frame_def min_def)
  have v: "le_val (le_bytes 8 (length d)) = length d"
    using assms(5) lim by (intro le_val_le_bytes8) linarith
  have "drop (off + 8) (fs_data s ino) = d @ rest"
    using arg_cong [where f = "drop 8", OF assms(4)] by (simp add: add.commute frame_def)
  then have b: "fs_read ino (off + 8) (length d) s = d"
    using assms(5) by (simp add: fs_read_def)
  from assms(5) lim have "\<not> 10000000000 < length d" by linarith
  with assms(1,2) h v b show ?thesis by (simp add: Storage_ReadData_rolled_back Let_def ac_simps)
qed

text \<open>Reading where only a part of a record was written leaves the position alone.\<close>

lemma Storage_ReadData_torn [fs_simps]:
  assumes "st_mode st = READ" and "st_fd st = Some (ino, off)"
    and "drop off (fs_data s ino) = take k (frame d)" and "k < length (frame d)" and "length d \<le> io_limit"
  shows "\<exists>buf'. Storage_ReadData buf st s = (DATA_EMPTY, buf', st)"
proof (cases "k < 8")
  case True
  then have "length (fs_read ino off 8 s) \<noteq> 8"
    using assms(3,4) by (simp add: fs_read_def io_limit_def)
  with assms(1,2) show ?thesis by (simp add: Storage_ReadData_rolled_back Let_def)
next
  case False
  have lim: "io_limit < 2 ^ 64" "8 \<le> io_limit" by (simp_all add: io_limit_def)
  have h: "fs_read ino off 8 s = le_bytes 8 (length d)"
    using assms(3) False lim by (simp add: fs_read_def frame_def min_def)
  have v: "le_val (le_bytes 8 (length d)) = length d"
    using assms(5) lim by (intro le_val_le_bytes8) linarith
  have "drop (off + 8) (fs_data s ino) = take (k - 8) d"
    using arg_cong [where f = "drop 8", OF assms(3)] False by (simp add: add.commute frame_def)
  then have "length (fs_read ino (off + 8) (length d) s) < length d"
    using assms(4) False by (simp add: fs_read_def)
  with assms(1,2) h v show ?thesis by (simp add: Storage_ReadData_rolled_back Let_def)
qed

lemma Storage_ReadData_end [fs_simps]:
  assumes "st_mode st = READ" and "st_fd st = Some (ino, off)" and "length (fs_data s ino) \<le> off"
  shows "Storage_ReadData buf st s = (DATA_EMPTY, buf, st)"
  using assms by (simp add: Storage_ReadData_rolled_back Let_def fs_read_def)

text \<open>Every read either moves the position past a record or leaves the storage alone.\<close>

lemma Storage_ReadData_cases:
  assumes "Storage_ReadData buf st s = (ret, buf', st')"
  shows "ret = OK \<and> st_mode st = READ \<and>
      (\<exists>ino off. st_fd st = Some (ino, off) \<and> off + 8 + length buf' \<le> length (fs_data s ino) \<and>
         st' = st\<lparr>st_fd := Some (ino, off + 8 + length buf')\<rparr>) \<or>
    ret \<in> {DATA_EMPTY, FILE_FORBIDDEN} \<and> st' = st \<and> (ret = FILE_FORBIDDEN \<longleftrightarrow> st_mode st \<noteq> READ)"
proof -
  have len: "length (fs_read ino off n s) = n \<Longrightarrow> n = 0 \<or> off + n \<le> length (fs_data s ino)" for ino off n
    by (auto simp: fs_read_def min_def split: if_splits)
  from assms show ?thesis unfolding Storage_ReadData_rolled_back Let_def
    by (auto split: if_splits option.splits prod.splits dest!: len)
qed

section \<open>The log of a file\<close>

definition log_bytes :: "bytes list \<Rightarrow> bytes" where
  "log_bytes ds = concat (map frame ds)"

definition torn :: "bytes \<Rightarrow> bool" where
  "torn t \<longleftrightarrow> (\<exists>d k. t = take k (frame d) \<and> k < length (frame d) \<and> length d \<le> io_limit)"

definition record_ok :: "bytes \<Rightarrow> bool" where
  "record_ok d \<longleftrightarrow> length d + 8 \<le> io_limit"

lemma record_ok_limit: "record_ok d \<Longrightarrow> length d \<le> io_limit"
  by (simp add: record_ok_def)

lemma log_bytes_simps [simp]:
  "log_bytes [] = []" "log_bytes (d # ds) = frame d @ log_bytes ds"
  "log_bytes (ds @ es) = log_bytes ds @ log_bytes es"
  by (simp_all add: log_bytes_def)

lemma torn_Nil [simp]: "torn []"
  unfolding torn_def by (rule exI [of _ "[]"], rule exI [of _ 0]) simp

text \<open>
  Appending to a log: the record is complete exactly when the call returns OK, and otherwise
  what was written is a proper prefix of it.
\<close>

lemma Storage_WriteData_append:
  assumes "st_mode st = WRITE" and "st_fd st = Some (ino, length (fs_data s ino))"
    and "Storage_WriteData data st s = (ret, st', s')"
  shows "ret = OK \<and> fs_data s' ino = fs_data s ino @ frame data \<and>
      st' = st\<lparr>st_fd := Some (ino, length (fs_data s' ino))\<rparr> \<or>
    ret = FILE_FAIL \<and> (\<exists>k < length (frame data). fs_data s' ino = fs_data s ino @ take k (frame data))"
proof -
  obtain r t where w: "fs_write ino (length (fs_data s ino)) (frame data) s = (r, t)" by fastforce
  with assms have eq: "s' = t" "ret = (if r \<noteq> int (length (frame data)) then FILE_FAIL else OK)"
    "st' = st\<lparr>st_fd := Some (ino, if r < 0 then length (fs_data s ino) else length (fs_data s ino) + nat r)\<rparr>"
    by (auto simp: Storage_WriteData_def)
  show ?thesis
  proof (cases "r = int (length (frame data))")
    case True
    with w have "fs_data t ino = fs_data s ino @ frame data"
      by (auto simp: fs_write_def Let_def min_def split: if_splits)
    with True eq show ?thesis by simp
  next
    case False
    with fs_write_short [OF w] eq show ?thesis by simp
  qed
qed

lemma Storage_WriteData_ok:
  assumes "st_mode st = WRITE" and "st_fd st = Some (ino, length (fs_data s ino))"
    and "record_ok data" and "length data + 8 \<le> fs_room s"
  shows "\<exists>st' s'. Storage_WriteData data st s = (OK, st', s') \<and>
    fs_data s' ino = fs_data s ino @ frame data \<and> st_fd st' = Some (ino, length (fs_data s' ino))"
  using assms fs_write_full [of "frame data" s ino] by (simp add: Storage_WriteData_def record_ok_def)

lemma Storage_WriteData_frame_other:
  "st_fd st = Some (ino, off) \<Longrightarrow> Storage_WriteData data st s = (ret, st', s') \<Longrightarrow> i \<noteq> ino \<Longrightarrow>
     fs_data s' i = fs_data s i"
  using fs_write_other [of i ino off "frame data" s]
  by (auto simp: Storage_WriteData_def split: prod.splits if_splits)

lemma Storage_WriteData_names:
  "Storage_WriteData data st s = (ret, st', s') \<Longrightarrow>
     fs_names s' = fs_names s \<and> fs_next s' = fs_next s \<and> fs_deny s' = fs_deny s \<and> st_path st' = st_path st \<and>
     st_mode st' = st_mode st \<and> st_data_dir st' = st_data_dir st"
  by (auto simp: Storage_WriteData_def split: prod.splits if_splits option.splits dest!: fs_write_frame)

section \<open>How the operations change the file system\<close>

text \<open>The disk cannot grow a file past 2^63 bytes.\<close>

definition fs_bounded :: "fs \<Rightarrow> bool" where
  "fs_bounded s \<longleftrightarrow> (\<forall>ino. length (fs_data s ino) + fs_room s < 2 ^ 63)"

text \<open>Files keep their names and their bytes: only new files and new bytes at the end are added.\<close>

definition fs_extends :: "fs \<Rightarrow> fs \<Rightarrow> bool" where
  "fs_extends s s' \<longleftrightarrow>
     (\<forall>p i. map_of (fs_names s) p = Some i \<longrightarrow> map_of (fs_names s') p = Some i) \<and>
     (\<forall>i < fs_next s. \<exists>x. fs_data s' i = fs_data s i @ x) \<and> fs_next s \<le> fs_next s' \<and>
     fs_deny s' = fs_deny s \<and> (fs_bounded s \<longrightarrow> fs_bounded s') \<and> (fs_ok s \<longrightarrow> fs_ok s')"

lemma fs_extends_refl [simp]: "fs_extends s s"
  by (simp add: fs_extends_def)

lemma fs_extends_trans:
  assumes "fs_extends s t" "fs_extends t u" shows "fs_extends s u"
proof -
  have "\<exists>x. fs_data u i = fs_data s i @ x" if "i < fs_next s" for i
  proof -
    from that assms(1) obtain x where "fs_data t i = fs_data s i @ x" by (auto simp: fs_extends_def)
    moreover from that assms have "i < fs_next t" by (auto simp: fs_extends_def)
    with assms(2) obtain y where "fs_data u i = fs_data t i @ y" by (auto simp: fs_extends_def)
    ultimately show ?thesis by simp
  qed
  with assms show ?thesis by (auto simp: fs_extends_def)
qed

lemma fs_extends_open: "fs_open path s = (Some ino, s') \<Longrightarrow> fs_extends s s'"
proof -
  assume o: "fs_open path s = (Some ino, s')"
  then have "fs_ok s \<longrightarrow> fs_ok s'" using fs_ok_open [of s path] by simp
  moreover have "fs_bounded s \<longrightarrow> fs_bounded s'"
    using o by (auto simp: fs_bounded_def fs_open_def split: if_splits option.splits dest: add_lessD1 intro: le_less_trans [rotated])
  ultimately show ?thesis
    using o by (auto simp: fs_extends_def fs_open_def split: if_splits option.splits)
qed

lemma fs_bounded_append:
  assumes "fs_bounded s" "length x \<le> fs_room s"
  shows "fs_bounded (s\<lparr>fs_data := (fs_data s)(ino := fs_data s ino @ x), fs_mtime := t,
    fs_room := fs_room s - length x\<rparr>)"
  unfolding fs_bounded_def
proof
  fix i
  show "length (fs_data (s\<lparr>fs_data := (fs_data s)(ino := fs_data s ino @ x), fs_mtime := t,
      fs_room := fs_room s - length x\<rparr>) i) +
    fs_room (s\<lparr>fs_data := (fs_data s)(ino := fs_data s ino @ x), fs_mtime := t,
      fs_room := fs_room s - length x\<rparr>) < 2 ^ 63"
    using assms(1) [unfolded fs_bounded_def, rule_format, of i] assms(2) by auto
qed

lemma fs_extends_write:
  assumes "fs_write ino (length (fs_data s ino)) bs s = (r, s')"
  shows "fs_extends s s'" and "length (fs_data s' ino) = length (fs_data s ino) + (if r < 0 then 0 else nat r)"
proof -
  define k where "k = min (min (length bs) io_limit) (fs_room s)"
  have k: "k \<le> length bs" "k \<le> fs_room s" by (simp_all add: k_def)
  consider "r = -1" "s' = s" | "r = int k" "s' = s\<lparr>fs_data := (fs_data s)(ino := fs_data s ino @ take k bs),
      fs_mtime := (fs_mtime s)(ino := fs_now s), fs_room := fs_room s - length (take k bs)\<rparr>"
    using assms k by (auto simp: fs_write_def Let_def k_def [symmetric] min_absorb2 split: if_splits)
  then have "fs_extends s s' \<and> length (fs_data s' ino) = length (fs_data s ino) + (if r < 0 then 0 else nat r)"
  proof cases
    case 2
    have "fs_bounded s \<longrightarrow> fs_bounded s'"
      unfolding 2(2) using k by (intro impI fs_bounded_append) simp_all
    with 2 k show ?thesis by (auto simp: fs_extends_def fs_ok_def)
  qed simp
  then show "fs_extends s s'" "length (fs_data s' ino) = length (fs_data s ino) + (if r < 0 then 0 else nat r)"
    by auto
qed

lemma Storage_WriteData_extends:
  assumes "st_mode st = WRITE" "st_fd st = Some (ino, length (fs_data s ino))"
    and "Storage_WriteData data st s = (ret, st', s')"
  shows "fs_extends s s'" "st' = st\<lparr>st_fd := Some (ino, length (fs_data s' ino))\<rparr>" "fs_names s' = fs_names s"
proof -
  obtain r where w: "fs_write ino (length (fs_data s ino)) (frame data) s = (r, s')"
    using assms by (auto simp: Storage_WriteData_def split: prod.splits)
  from fs_extends_write [OF w] assms w show "fs_extends s s'" "st' = st\<lparr>st_fd := Some (ino, length (fs_data s' ino))\<rparr>"
    by (auto simp: Storage_WriteData_def)
  show "fs_names s' = fs_names s" using fs_write_frame [OF w] by simp
qed

text \<open>A reader that calls \<^verbatim>\<open>ReadData\<close> until it returns no data; the storage is the one the last call left.\<close>

fun read_all :: "nat \<Rightarrow> storage \<Rightarrow> fs \<Rightarrow> bytes list \<times> storage" where
  "read_all 0 st s = ([], st)"
| "read_all (Suc n) st s =
     (case Storage_ReadData [] st s of
        (ret, d, st') \<Rightarrow> if ret = OK then (case read_all n st' s of (ds, st'') \<Rightarrow> (d # ds, st'')) else ([], st'))"

lemma read_all_log:
  assumes "st_mode st = READ" and "st_fd st = Some (ino, off)"
    and "off \<le> length (fs_data s ino)" and "drop off (fs_data s ino) = log_bytes ds @ t"
    and "\<forall>d\<in>set ds. record_ok d" and "torn t" and "length ds < n"
  shows "read_all n st s = (ds, st\<lparr>st_fd := Some (ino, off + length (log_bytes ds))\<rparr>)"
  using assms
proof (induction ds arbitrary: st off n)
  case Nil
  then obtain m d k where m: "n = Suc m" and t: "t = take k (frame d)" "k < length (frame d)" "length d \<le> io_limit"
    by (cases n) (auto simp: torn_def)
  with Nil obtain buf where "Storage_ReadData [] st s = (DATA_EMPTY, buf, st)"
    using Storage_ReadData_torn [of st ino off s k d "[]"] by auto
  with Nil.prems(2) m show ?case by simp
next
  case (Cons d ds)
  then obtain m where n: "n = Suc m" by (cases n) auto
  have r: "Storage_ReadData [] st s = (OK, d, st\<lparr>st_fd := Some (ino, off + length (frame d))\<rparr>)"
    using Cons.prems record_ok_limit by (intro Storage_ReadData_frame [where rest = "log_bytes ds @ t"]) auto
  have "drop (off + length (frame d)) (fs_data s ino) = log_bytes ds @ t"
    using arg_cong [where f = "drop (length (frame d))", OF Cons.prems(4)]
    by (simp add: add.commute del: length_frame)
  moreover have "off + length (frame d) \<le> length (fs_data s ino)"
    using Cons.prems(3) arg_cong [where f = length, OF Cons.prems(4)] by simp
  ultimately have "read_all m (st\<lparr>st_fd := Some (ino, off + length (frame d))\<rparr>) s =
      (ds, st\<lparr>st_fd := Some (ino, off + length (frame d) + length (log_bytes ds))\<rparr>)"
    using Cons.IH [of "st\<lparr>st_fd := Some (ino, off + length (frame d))\<rparr>" "off + length (frame d)" m]
      Cons.prems n by simp
  with r n show ?case by (simp add: ac_simps)
qed

lemma SetFileWritePos_trunc:
  assumes "st_mode st = WRITE" and "st_path st = path" and "st_fd st = Some (ino, off)" and "n < 2 ^ 63"
  shows "SetFileWritePos path (of_nat n) True st s =
    Some (OK, st\<lparr>st_fd := Some (ino, n)\<rparr>, fs_ftruncate ino n s)"
proof -
  have "unat (of_nat n :: u64) = n" using assms(4) by (simp add: unat_of_nat)
  with assms show ?thesis by (simp add: SetFileWritePos_def SetFilePos_def storage_seek_def)
qed

text \<open>
  C19: crash recovery of a record file. A writer that stands at the end of a log appends a record;
  the append may fail or be cut short. A reader that starts at the beginning and reads until there is no
  data gets exactly the old records, followed by the new one if and only if the append returned OK, and the
  last read, of the partial record, leaves its position at the end of what it got. Truncating the writer's
  file at the reader's position leaves exactly the log of the records read, with the writer at its end, and
  a record that is appended then is what the reader reads next.
\<close>

theorem storage_recovery:
  assumes "st_mode w = WRITE" and "st_fd w = Some (ino, length (fs_data s ino))" and "st_path w = path"
    and "fs_data s ino = log_bytes ds" and "\<forall>d\<in>set ds. record_ok d" and "record_ok data"
    and "length (log_bytes (ds @ [data])) < 2 ^ 63"
    and "st_mode r = READ" and "st_fd r = Some (ino, 0)" and "Suc (length ds) < n"
    and "Storage_WriteData data w s = (ret, w', s')" and "read_all n r s' = (got, r')"
  shows "got = (if ret = OK then ds @ [data] else ds) \<and> r' = r\<lparr>st_fd := Some (ino, length (log_bytes got))\<rparr> \<and>
    (\<exists>w'' s''. SetFileWritePos path (GetOffSet r') True w' s' = Some (OK, w'', s'') \<and>
       fs_data s'' ino = log_bytes got \<and> st_fd w'' = Some (ino, length (fs_data s'' ino)) \<and>
       (\<forall>d w3 s3. record_ok d \<longrightarrow> Storage_WriteData d w'' s'' = (OK, w3, s3) \<longrightarrow>
          Storage_ReadData [] r' s3 = (OK, d, r\<lparr>st_fd := Some (ino, length (log_bytes (got @ [d])))\<rparr>)))"
proof -
  let ?got = "if ret = OK then ds @ [data] else ds"
  have "\<exists>t. fs_data s' ino = log_bytes ?got @ t \<and> torn t"
    using Storage_WriteData_append [OF assms(1,2,11)]
  proof
    assume "ret = FILE_FAIL \<and> (\<exists>k < length (frame data). fs_data s' ino = fs_data s ino @ take k (frame data))"
    then obtain k where "ret = FILE_FAIL" "k < length (frame data)"
      "fs_data s' ino = fs_data s ino @ take k (frame data)" by blast
    moreover have "torn (take k (frame data))"
      unfolding torn_def using calculation(2) record_ok_limit [OF assms(6)] by blast
    ultimately show ?thesis using assms(4) by auto
  qed (simp add: assms(4))
  then obtain t where t: "fs_data s' ino = log_bytes ?got @ t" "torn t" by blast
  have "read_all n r s' = (?got, r\<lparr>st_fd := Some (ino, 0 + length (log_bytes ?got))\<rparr>)"
    using assms t by (intro read_all_log [where t = t]) auto
  with assms(12) have g: "got = ?got" "r' = r\<lparr>st_fd := Some (ino, length (log_bytes got))\<rparr>" by auto
  from assms(2,11) obtain off where w': "st_mode w' = WRITE" "st_path w' = path" "st_fd w' = Some (ino, off)"
    using Storage_WriteData_names [OF assms(11)] assms(1,3)
    by (auto simp: Storage_WriteData_def split: prod.splits)
  have len: "length (log_bytes got) < 2 ^ 63" using assms(7) g(1) by (auto split: if_splits)
  let ?w = "w'\<lparr>st_fd := Some (ino, length (log_bytes got))\<rparr>" and ?s = "fs_ftruncate ino (length (log_bytes got)) s'"
  have cut: "SetFileWritePos path (GetOffSet r') True w' s' = Some (OK, ?w, ?s)" "fs_data ?s ino = log_bytes got"
    using SetFileWritePos_trunc [OF w' len, of s'] g t(1) by (simp_all add: GetOffSet_def fs_ftruncate_def)
  have "Storage_ReadData [] r' s3 = (OK, d, r\<lparr>st_fd := Some (ino, length (log_bytes (got @ [d])))\<rparr>)"
    if d: "record_ok d" "Storage_WriteData d ?w ?s = (OK, w3, s3)" for d w3 s3
  proof -
    have "fs_data s3 ino = log_bytes got @ frame d"
      using Storage_WriteData_append [OF _ _ d(2), of ino] w'(1) cut(2) by simp
    then show ?thesis
      using Storage_ReadData_frame [of r' ino "length (log_bytes got)" s3 d "[]" "[]"] assms(8) g(2) record_ok_limit [OF d(1)] by simp
  qed
  with cut g show ?thesis by (intro conjI exI [of _ ?w] exI [of _ ?s]) simp_all
qed

definition sample_fs :: fs where
  "sample_fs = \<lparr>fs_names = [(''d/EVENTDATA-0'', 0)], fs_data = (\<lambda>_. []), fs_mtime = (\<lambda>_. 0), fs_next = 1,
     fs_room = 9, fs_deny = (\<lambda>_. False), fs_now = 5\<rparr>"

definition sample_writer :: storage where
  "sample_writer = \<lparr>st_data_dir = ''d/'', st_path = ''EVENTDATA-0'', st_mode = WRITE, st_fd = Some (0, 0)\<rparr>"

definition sample_reader :: storage where
  "sample_reader = \<lparr>st_data_dir = ''d/'', st_path = ''EVENTDATA-0'', st_mode = READ, st_fd = Some (0, 0)\<rparr>"

theorem storage_recovery_witness:
  "\<exists>w' s' r'. Storage_WriteData [7, 8] sample_writer sample_fs = (FILE_FAIL, w', s') \<and> length (fs_data s' 0) = 9 \<and>
     read_all 2 sample_reader s' = ([], r') \<and> r' = sample_reader \<and>
     (\<exists>w'' s''. SetFileWritePos ''EVENTDATA-0'' (GetOffSet r') True w' s' = Some (OK, w'', s'') \<and>
        fs_data s'' 0 = [] \<and> st_fd w'' = Some (0, 0))"
proof -
  obtain w' s' where w: "Storage_WriteData [7, 8] sample_writer sample_fs = (FILE_FAIL, w', s')" "length (fs_data s' 0) = 9"
    by (simp add: Storage_WriteData_def sample_writer_def sample_fs_def fs_write_def io_limit_def overwrite_def Let_def)
  obtain got r' where r: "read_all 2 sample_reader s' = (got, r')" by fastforce
  have *: "got = (if FILE_FAIL = OK then [] @ [[7, 8]] else []) \<and> r' = sample_reader\<lparr>st_fd := Some (0, length (log_bytes got))\<rparr> \<and>
    (\<exists>w'' s''. SetFileWritePos ''EVENTDATA-0'' (GetOffSet r') True w' s' = Some (OK, w'', s'') \<and>
       fs_data s'' 0 = log_bytes got \<and> st_fd w'' = Some (0, length (fs_data s'' 0)) \<and>
       (\<forall>d w3 s3. record_ok d \<longrightarrow> Storage_WriteData d w'' s'' = (OK, w3, s3) \<longrightarrow>
          Storage_ReadData [] r' s3 = (OK, d, sample_reader\<lparr>st_fd := Some (0, length (log_bytes (got @ [d])))\<rparr>)))"
    by (rule storage_recovery [OF _ _ _ _ _ _ _ _ _ _ w(1) r])
       (simp_all add: sample_writer_def sample_reader_def sample_fs_def record_ok_def io_limit_def)
  then have "got = []" "r' = sample_reader" by (simp_all add: sample_reader_def)
  with w r * show ?thesis by (intro exI [of _ w'] exI [of _ s'] exI [of _ r']) auto
qed

end
