(* ===== verification/File_Manager.thy ===== *)
theory File_Manager
  imports Record_Storage Gtid
begin

text \<open>
  The file manager (\<^verbatim>\<open>core/storage/storage_file_manager.cpp\<close>) and its event variant
  (\<^verbatim>\<open>core/storage/event_file_manager.cpp\<close>): the ordered list of the data files of a directory, one
  storage to read them in order and one to append. The protobuf messages are records of their
  fields; the generated encoder and decoder are the parameters \<open>enc\<close> and \<open>dec\<close>.
\<close>

section \<open>Messages\<close>

record EventData =
  ed_gtid :: string
  ed_data :: bytes
  ed_checksum :: u64
  ed_instance_id :: u64
  ed_master_data :: bytes
  ed_event_data_file :: string

record EventDataInfo =
  di_gtid :: string
  di_file_name :: string
  di_offset :: u64
  di_checksum :: u64
  di_instance_id :: u64

definition EventDataInfo_init :: EventDataInfo where
  "EventDataInfo_init = \<lparr>di_gtid = [], di_file_name = [], di_offset = 0, di_checksum = 0, di_instance_id = 0\<rparr>"

record 'm codec =
  enc :: "'m \<Rightarrow> bytes option"
  dec :: "bytes \<Rightarrow> 'm option"

text \<open>What protobuf documents: a message that was serialized parses back to itself.\<close>

definition codec_ok :: "'m codec \<Rightarrow> bool" where
  "codec_ok c \<longleftrightarrow> (\<forall>m b. enc c m = Some b \<longrightarrow> dec c b = Some m)"

lemma codec_okD: "codec_ok c \<Longrightarrow> enc c m = Some b \<Longrightarrow> dec c b = Some m"
  by (simp add: codec_ok_def)

section \<open>The storage file manager\<close>

record sfm =
  fm_data_dir :: string
  fm_prefix :: string
  fm_file_list :: "string list"
  fm_read :: storage
  fm_write :: storage

subsection \<open>File names\<close>

text \<open>\<^verbatim>\<open>sscanf(name, "%*[^-]-%lu", &id)\<close> into a variable that is 0.\<close>

definition GetFileInstanceID :: "string \<Rightarrow> u64" where
  "GetFileInstanceID file_name =
     (if file_name = [] then 0
      else
        let s = c_str file_name; r = dropWhile (\<lambda>c. c \<noteq> CHR ''-'') s
        in if takeWhile (\<lambda>c. c \<noteq> CHR ''-'') s = [] \<or> r = [] then 0
           else case sscanf_lu (tl r) of None \<Rightarrow> 0 | Some instanceid \<Rightarrow> instanceid)"

definition FileCmp :: "string \<Rightarrow> string \<Rightarrow> int" where
  "FileCmp file1 file2 =
     (if file1 = [] then -1
      else if file2 = [] then 1
      else if GetFileInstanceID file1 < GetFileInstanceID file2 then -1 else 1)"

definition FileCmpOpt :: "string \<Rightarrow> string \<Rightarrow> bool" where
  "FileCmpOpt file1 file2 \<longleftrightarrow> FileCmp file1 file2 < 0"

text \<open>The name is printed into a buffer of 128 chars.\<close>

definition GenFileName :: "u64 \<Rightarrow> sfm \<Rightarrow> string option" where
  "GenFileName instanceid fm =
     (let s = c_str (fm_prefix fm) @ ''-'' @ show_nat (unat instanceid)
      in if length s < 128 then Some s else None)"

definition GetNewFile :: "string \<Rightarrow> sfm \<Rightarrow> sfm" where
  "GetNewFile file_name fm = fm\<lparr>fm_file_list := os_insert FileCmpOpt file_name (fm_file_list fm)\<rparr>"

subsection \<open>Construction\<close>

text \<open>
  Directory entries are filtered by a \<^verbatim>\<open>stat\<close> of the bare entry name, so relative to the working
  directory of the process: \<open>cwd_is_dir\<close> is its answer. The data directory exists and can be opened;
  otherwise the constructor stops in an assertion.
\<close>

definition GetAllFiles :: "(string \<Rightarrow> bool) \<Rightarrow> string \<Rightarrow> string \<Rightarrow> fs \<Rightarrow> string list" where
  "GetAllFiles cwd_is_dir datadir prefix s =
     fold (\<lambda>d_name filelist.
         if cwd_is_dir d_name then filelist
         else if take (length prefix) d_name = prefix then os_insert FileCmpOpt d_name filelist
         else filelist)
       (fs_readdir datadir s) []"

definition SFM_Init :: "(string \<Rightarrow> bool) \<Rightarrow> string \<Rightarrow> string \<Rightarrow> bool \<Rightarrow> fs \<Rightarrow> sfm option" where
  "SFM_Init cwd_is_dir data_dir prefix read_file_list s =
     (if data_dir = [] then None
      else
        let dir = (if last data_dir \<noteq> CHR ''/'' then data_dir @ ''/'' else data_dir)
        in Some \<lparr>fm_data_dir = dir, fm_prefix = prefix,
                 fm_file_list = (if read_file_list then GetAllFiles cwd_is_dir dir prefix s else []),
                 fm_read = Storage_init READ dir, fm_write = Storage_init WRITE dir\<rparr>)"

subsection \<open>Moving between files\<close>

definition fm_open_read :: "string \<Rightarrow> sfm \<Rightarrow> fs \<Rightarrow> (int \<times> sfm \<times> fs) option" where
  "fm_open_read name fm s =
     map_option (\<lambda>(ret, st, s). (ret, fm\<lparr>fm_read := st\<rparr>, s)) (ReOpen name (fm_read fm) s)"

definition GetNextReadFile :: "sfm \<Rightarrow> fs \<Rightarrow> (int \<times> sfm \<times> fs) option" where
  "GetNextReadFile fm s =
     (case os_find FileCmpOpt (GetFileName (fm_read fm)) (fm_file_list fm) of
        _ # name # _ \<Rightarrow> fm_open_read name fm s
      | _ \<Rightarrow> Some (NO_FILES, fm, s))"

definition GetPreReadFile :: "sfm \<Rightarrow> fs \<Rightarrow> (int \<times> sfm \<times> fs) option" where
  "GetPreReadFile fm s =
     (let it = os_find FileCmpOpt (GetFileName (fm_read fm)) (fm_file_list fm);
          pos = length (fm_file_list fm) - length it
      in if it = [] \<or> pos = 0 then Some (NO_FILES, fm, s)
         else fm_open_read (fm_file_list fm ! (pos - 1)) fm s)"

definition OpenOldestFile :: "sfm \<Rightarrow> fs \<Rightarrow> (int \<times> sfm \<times> fs) option" where
  "OpenOldestFile fm s =
     (case fm_file_list fm of [] \<Rightarrow> Some (NO_FILES, fm, s) | name # _ \<Rightarrow> fm_open_read name fm s)"

definition OpenNewestFile :: "sfm \<Rightarrow> fs \<Rightarrow> (int \<times> sfm \<times> fs) option" where
  "OpenNewestFile fm s =
     (if fm_file_list fm = [] then Some (NO_FILES, fm, s) else fm_open_read (last (fm_file_list fm)) fm s)"

text \<open>The instance id of the oldest file is returned as a C \<^verbatim>\<open>int\<close>.\<close>

definition GetOldestInstanceIDofFile :: "sfm \<Rightarrow> int" where
  "GetOldestInstanceIDofFile fm =
     (case fm_file_list fm of [] \<Rightarrow> 0 | name # _ \<Rightarrow> sint (ucast (GetFileInstanceID name) :: u32))"

definition OpenNewWriteFile :: "u64 \<Rightarrow> sfm \<Rightarrow> fs \<Rightarrow> (int \<times> sfm \<times> fs) option" where
  "OpenNewWriteFile instanceid fm s = do {
     name \<leftarrow> GenFileName instanceid fm;
     let fm = GetNewFile name fm;
     (ret, st, s) \<leftarrow> SetFileWritePos name 0 False (fm_write fm) s;
     Some (ret, fm\<lparr>fm_write := st\<rparr>, s)
   }"

definition SwitchNewWriteFile :: "u64 \<Rightarrow> sfm \<Rightarrow> fs \<Rightarrow> (int \<times> sfm \<times> fs) option" where
  "SwitchNewWriteFile instanceid fm s = OpenNewWriteFile instanceid fm s"

definition OpenFileForWrite :: "u64 \<Rightarrow> string \<Rightarrow> sfm \<Rightarrow> fs \<Rightarrow> (int \<times> sfm \<times> fs) option" where
  "OpenFileForWrite instanceid file_name fm s = do {
     name \<leftarrow> (if file_name = [] then GenFileName instanceid fm else Some file_name);
     let fm = GetNewFile name fm;
     (ret, st, s) \<leftarrow> ReOpen name (fm_write fm) s;
     Some (ret, fm\<lparr>fm_write := st\<rparr>, s)
   }"

subsection \<open>Reading and writing messages\<close>

definition GetReadFileInfo :: "sfm \<Rightarrow> EventDataInfo \<Rightarrow> EventDataInfo" where
  "GetReadFileInfo fm data_info =
     (case GetFileInfo (fm_read fm) of (name, off) \<Rightarrow> data_info\<lparr>di_file_name := name, di_offset := off\<rparr>)"

definition GetWriteFileInfo :: "sfm \<Rightarrow> EventDataInfo \<Rightarrow> EventDataInfo" where
  "GetWriteFileInfo fm data_info =
     (case GetFileInfo (fm_write fm) of (name, off) \<Rightarrow> data_info\<lparr>di_file_name := name, di_offset := off\<rparr>)"

text \<open>A message that does not serialize returns \<^verbatim>\<open>false\<close>, which is OK.\<close>

definition SFM_WriteData ::
  "'m codec \<Rightarrow> 'm \<Rightarrow> EventDataInfo \<Rightarrow> sfm \<Rightarrow> fs \<Rightarrow> int \<times> EventDataInfo \<times> sfm \<times> fs" where
  "SFM_WriteData c data data_info fm s =
     (let data_info = GetWriteFileInfo fm data_info
      in case enc c data of
           None \<Rightarrow> (0, data_info, fm, s)
         | Some buffer \<Rightarrow>
             (case Storage_WriteData buffer (fm_write fm) s of
                (ret, st, s) \<Rightarrow> (ret, data_info, fm\<lparr>fm_write := st\<rparr>, s)))"

definition SetWritePos :: "EventDataInfo \<Rightarrow> bool \<Rightarrow> sfm \<Rightarrow> fs \<Rightarrow> (int \<times> sfm \<times> fs) option" where
  "SetWritePos info trunc fm s =
     map_option (\<lambda>(ret, st, s). (ret, fm\<lparr>fm_write := st\<rparr>, s))
       (SetFileWritePos (di_file_name info) (di_offset info) trunc (fm_write fm) s)"

definition SetReadPos :: "EventDataInfo \<Rightarrow> sfm \<Rightarrow> fs \<Rightarrow> (int \<times> sfm \<times> fs) option" where
  "SetReadPos info fm s =
     map_option (\<lambda>(ret, st, s). (ret, fm\<lparr>fm_read := st\<rparr>, s))
       (SetFileReadPos (di_file_name info) (di_offset info) (fm_read fm) s)"

definition GetData :: "'m codec \<Rightarrow> EventDataInfo \<Rightarrow> sfm \<Rightarrow> fs \<Rightarrow> (int \<times> 'm option \<times> fs) option" where
  "GetData c info fm s = do {
     (ret, st, s) \<leftarrow> SetFileReadPos (di_file_name info) (di_offset info) (Storage_init READ (fm_data_dir fm)) s;
     if ret \<noteq> 0 then Some (ret, None, s)
     else case Storage_ReadData [] st s of
       (ret, buffer, _) \<Rightarrow>
         if ret \<noteq> 0 then Some (ret, None, s)
         else case dec c buffer of
           None \<Rightarrow> Some (DATA_ERR, None, s)
         | Some m \<Rightarrow> Some (OK, Some m, s)
   }"

text \<open>
  The loop of \<^verbatim>\<open>ReadData\<close> goes on to the next file when a file has no more data; a turn opens a
  later file each time, so one more turn than there are files is enough fuel.
\<close>

fun SFM_ReadData_loop ::
  "nat \<Rightarrow> bool \<Rightarrow> bytes \<Rightarrow> EventDataInfo \<Rightarrow> sfm \<Rightarrow> fs
     \<Rightarrow> (int \<times> bytes \<times> EventDataInfo \<times> sfm \<times> fs) option"
where
  "SFM_ReadData_loop 0 change_file buffer data_info fm s = None"
| "SFM_ReadData_loop (Suc fuel) change_file buffer data_info fm s =
     (let data_info = GetReadFileInfo fm data_info
      in case Storage_ReadData buffer (fm_read fm) s of
           (ret, buffer, st) \<Rightarrow>
             let fm = fm\<lparr>fm_read := st\<rparr>
             in if ret = DATA_EMPTY
                then (if change_file
                      then do {
                        (ret, fm, s) \<leftarrow> GetNextReadFile fm s;
                        if ret = NO_FILES then Some (DATA_EMPTY, buffer, data_info, fm, s)
                        else if ret = OK then SFM_ReadData_loop fuel change_file buffer data_info fm s
                        else Some (ret, buffer, data_info, fm, s)
                      }
                      else Some (DATA_EMPTY, buffer, data_info, fm, s))
                else Some (ret, buffer, data_info, fm, s))"

definition SFM_ReadData ::
  "'m codec \<Rightarrow> EventDataInfo \<Rightarrow> bool \<Rightarrow> sfm \<Rightarrow> fs \<Rightarrow> (int \<times> 'm option \<times> EventDataInfo \<times> sfm \<times> fs) option" where
  "SFM_ReadData c data_info change_file fm s = do {
     (ret, buffer, data_info, fm, s) \<leftarrow>
       SFM_ReadData_loop (Suc (length (fm_file_list fm))) change_file [] data_info fm s;
     if ret \<noteq> 0 then Some (ret, None, data_info, fm, s)
     else case dec c buffer of
       None \<Rightarrow> Some (DATA_ERR, None, data_info, fm, s)
     | Some m \<Rightarrow> Some (OK, Some m, data_info, fm, s)
   }"

subsection \<open>Removing files\<close>

definition SFM_RemoveFile :: "string \<Rightarrow> sfm \<Rightarrow> sfm" where
  "SFM_RemoveFile file_name fm = fm\<lparr>fm_file_list := os_erase FileCmpOpt file_name (fm_file_list fm)\<rparr>"

definition ResetFile :: "'m codec \<Rightarrow> 'm \<Rightarrow> string \<Rightarrow> sfm \<Rightarrow> fs \<Rightarrow> (int \<times> sfm \<times> fs) option" where
  "ResetFile c data file_name fm s = do {
     let old_instanceid = GetFileInstanceID file_name;
     let dellist = filter (\<lambda>it. file_name = [] \<or> old_instanceid \<le> GetFileInstanceID it) (fm_file_list fm);
     let s = fold (\<lambda>it s. snd (ReMoveFile (fm_data_dir fm @ it) s)) dellist s;
     let fm = fold SFM_RemoveFile dellist fm;
     (ret, fm, s) \<leftarrow> OpenFileForWrite old_instanceid file_name fm s;
     if ret = 0
     then (case SFM_WriteData c data EventDataInfo_init fm s of (ret, _, fm, s) \<Rightarrow> Some (ret, fm, s))
     else Some (ret, fm, s)
   }"

text \<open>
  The files to delete: the loop stops when fewer than two files would be left or the configured
  number is reached.
\<close>

fun DelCheckPointFile_loop ::
  "nat \<Rightarrow> u64 \<Rightarrow> u32 \<Rightarrow> string \<Rightarrow> fs \<Rightarrow> nat \<Rightarrow> string list \<Rightarrow> string list \<Rightarrow> string list" where
  "DelCheckPointFile_loop max_num old_instanceid mintime dir s n_files [] delfiles = delfiles"
| "DelCheckPointFile_loop max_num old_instanceid mintime dir s n_files (it # its) delfiles =
     (if length delfiles + 3 > n_files then delfiles
      else
        let delfiles =
              (if old_instanceid > GetFileInstanceID it \<and> GetFileTime (dir @ it) s \<le> mintime
               then delfiles @ [it] else delfiles)
        in if length delfiles \<ge> max_num then delfiles
           else DelCheckPointFile_loop max_num old_instanceid mintime dir s n_files its delfiles)"

definition SFM_DelCheckPointFile ::
  "nat \<Rightarrow> string \<Rightarrow> u32 \<Rightarrow> string list \<Rightarrow> sfm \<Rightarrow> fs \<Rightarrow> int \<times> string list \<times> sfm" where
  "SFM_DelCheckPointFile max_num maxfile_name mintime delfiles fm s =
     (let delfiles =
            DelCheckPointFile_loop max_num (GetFileInstanceID maxfile_name) mintime (fm_data_dir fm) s
              (length (fm_file_list fm)) (fm_file_list fm) delfiles
      in (OK, delfiles, fold SFM_RemoveFile delfiles fm))"

section \<open>The event file manager\<close>

definition EVENT_PATH_PREF :: string where
  "EVENT_PATH_PREF = ''EVENTDATA''"

definition EventFileManager_init :: "(string \<Rightarrow> bool) \<Rightarrow> string \<Rightarrow> bool \<Rightarrow> fs \<Rightarrow> sfm option" where
  "EventFileManager_init cwd_is_dir datadir read_file_list s =
     SFM_Init cwd_is_dir datadir EVENT_PATH_PREF read_file_list s"

definition CopyDataToDataInfo :: "EventData \<Rightarrow> EventDataInfo \<Rightarrow> EventDataInfo" where
  "CopyDataToDataInfo eventdata info =
     info\<lparr>di_checksum := ed_checksum eventdata, di_instance_id := ed_instance_id eventdata,
       di_gtid := ed_gtid eventdata\<rparr>"

definition EFM_ReadData ::
  "EventData codec \<Rightarrow> EventDataInfo \<Rightarrow> sfm \<Rightarrow> fs
     \<Rightarrow> (int \<times> EventData option \<times> EventDataInfo \<times> sfm \<times> fs) option" where
  "EFM_ReadData c datainfo fm s = do {
     (ret, data, datainfo, fm, s) \<leftarrow> SFM_ReadData c datainfo True fm s;
     Some (ret, data,
       case data of Some d \<Rightarrow> if ret = OK then CopyDataToDataInfo d datainfo else datainfo | None \<Rightarrow> datainfo,
       fm, s)
   }"

definition EFM_ReadDataFromFile ::
  "EventData codec \<Rightarrow> sfm \<Rightarrow> fs \<Rightarrow> (int \<times> EventData option \<times> sfm \<times> fs) option" where
  "EFM_ReadDataFromFile c fm s =
     map_option (\<lambda>(ret, data, _, fm, s). (ret, data, fm, s)) (SFM_ReadData c EventDataInfo_init False fm s)"

definition EFM_WriteData ::
  "EventData codec \<Rightarrow> EventData \<Rightarrow> EventDataInfo \<Rightarrow> bool \<Rightarrow> sfm \<Rightarrow> fs \<Rightarrow> int \<times> EventDataInfo \<times> sfm \<times> fs" where
  "EFM_WriteData c eventdata datainfo write_file fm s =
     (case (if write_file then SFM_WriteData c eventdata datainfo fm s else (OK, datainfo, fm, s)) of
        (ret, datainfo, fm, s) \<Rightarrow>
          (ret, if ret = OK then CopyDataToDataInfo eventdata datainfo else datainfo, fm, s))"

definition IsInitFile :: "EventDataInfo \<Rightarrow> sfm \<Rightarrow> bool option" where
  "IsInitFile data_info fm = map_option (\<lambda>name. di_file_name data_info = name) (GenFileName 0 fm)"

section \<open>File names\<close>

lemma FileCmpOpt_iff:
  "file1 \<noteq> [] \<Longrightarrow> file2 \<noteq> [] \<Longrightarrow>
     FileCmpOpt file1 file2 \<longleftrightarrow> GetFileInstanceID file1 < GetFileInstanceID file2"
  by (simp add: FileCmpOpt_def FileCmp_def)

interpretation file_order: strict_weak "\<lambda>f. f \<noteq> []" FileCmpOpt
  by unfold_locales (auto simp: FileCmpOpt_iff)

definition prefix_ok :: "string \<Rightarrow> bool" where
  "prefix_ok p \<longleftrightarrow> p \<noteq> [] \<and> CHR ''-'' \<notin> set p \<and> CHR 0x00 \<notin> set p \<and> length p \<le> 106"

lemma GenFileName_ok:
  "prefix_ok (fm_prefix fm) \<Longrightarrow>
     GenFileName iid fm = Some (fm_prefix fm @ CHR ''-'' # show_nat (unat iid))"
  using length_show_u64 [of iid] by (auto simp: GenFileName_def prefix_ok_def c_str_id Let_def)

lemma show_nat_no_NUL: "CHR 0x00 \<notin> set (show_nat n)"
  using show_nat_digits [of "CHR 0x00" n] by (auto simp: is_digit_def)

lemma GetFileInstanceID_name:
  "prefix_ok p \<Longrightarrow> GetFileInstanceID (p @ CHR ''-'' # show_nat (unat iid)) = iid"
proof -
  assume p: "prefix_ok p"
  then have "c_str (p @ CHR ''-'' # show_nat (unat iid)) = p @ CHR ''-'' # show_nat (unat iid)"
    by (intro c_str_id) (auto simp: prefix_ok_def show_nat_no_NUL)
  moreover have "takeWhile (\<lambda>c. c \<noteq> CHR ''-'') (p @ CHR ''-'' # r) = p"
    "dropWhile (\<lambda>c. c \<noteq> CHR ''-'') (p @ CHR ''-'' # r) = CHR ''-'' # r" for r
    using p by (auto simp: prefix_ok_def takeWhile_append dropWhile_append)
  ultimately show ?thesis using p
    by (simp add: GetFileInstanceID_def prefix_ok_def sscanf_lu_show_nat0 Let_def)
qed

lemma prefix_ok_event [simp]: "prefix_ok EVENT_PATH_PREF"
  by (simp add: prefix_ok_def EVENT_PATH_PREF_def)

section \<open>The invariant of the manager\<close>

definition fm_ok :: "sfm \<Rightarrow> bool" where
  "fm_ok fm \<longleftrightarrow> os_ok FileCmpOpt (fm_file_list fm) \<and> [] \<notin> set (fm_file_list fm) \<and>
     st_mode (fm_read fm) = READ \<and> st_mode (fm_write fm) = WRITE \<and>
     st_data_dir (fm_read fm) = fm_data_dir fm \<and> st_data_dir (fm_write fm) = fm_data_dir fm"

lemma os_ok_insert_file:
  "os_ok FileCmpOpt xs \<Longrightarrow> [] \<notin> set xs \<Longrightarrow> f \<noteq> [] \<Longrightarrow>
     os_ok FileCmpOpt (os_insert FileCmpOpt f xs) \<and> [] \<notin> set (os_insert FileCmpOpt f xs)"
  using file_order.os_ok_insert [of xs f] set_os_insert [of FileCmpOpt f xs] by auto

lemma fm_ok_GetNewFile [fs_simps]: "fm_ok fm \<Longrightarrow> name \<noteq> [] \<Longrightarrow> fm_ok (GetNewFile name fm)"
  using os_ok_insert_file by (simp add: fm_ok_def GetNewFile_def)

lemma fm_ok_RemoveFile [fs_simps]: "fm_ok fm \<Longrightarrow> fm_ok (SFM_RemoveFile name fm)"
  using file_order.os_ok_erase set_os_erase [of FileCmpOpt name "fm_file_list fm"]
  by (auto simp: fm_ok_def SFM_RemoveFile_def)

lemma fm_ok_fold_RemoveFile: "fm_ok fm \<Longrightarrow> fm_ok (fold SFM_RemoveFile names fm)"
  by (induction names arbitrary: fm) (auto simp: fm_ok_RemoveFile)

lemma GetAllFiles_ok:
  "os_ok FileCmpOpt (GetAllFiles cwd dir prefix s) \<and> [] \<notin> set (GetAllFiles cwd dir prefix s)"
proof -
  have "os_ok FileCmpOpt (fold (\<lambda>d_name filelist. if cwd d_name then filelist
         else if take (length prefix) d_name = prefix then os_insert FileCmpOpt d_name filelist
         else filelist) names acc) \<and>
      [] \<notin> set (fold (\<lambda>d_name filelist. if cwd d_name then filelist
         else if take (length prefix) d_name = prefix then os_insert FileCmpOpt d_name filelist
         else filelist) names acc)"
    if "[] \<notin> set names" "os_ok FileCmpOpt acc" "[] \<notin> set acc" for names acc
    using that by (induction names arbitrary: acc) (auto simp: os_ok_insert_file)
  then show ?thesis by (simp add: GetAllFiles_def fs_readdir_def)
qed

lemma fm_ok_Init: "SFM_Init cwd dir prefix read_files s = Some fm \<Longrightarrow> fm_ok fm"
  using GetAllFiles_ok
  by (auto simp: SFM_Init_def Let_def fm_ok_def Storage_init_def split: if_splits)

lemma SetFilePos_modes:
  "SetFilePos path off mode trunc st s = Some (ret, st', s') \<Longrightarrow>
     st_mode st' = st_mode st \<and> st_data_dir st' = st_data_dir st"
  by (auto simp: SetFilePos_def bind_eq_Some_conv storage_seek_def split: if_splits option.splits prod.splits
      dest: ReOpen_Some)

text \<open>Every operation that moves a storage keeps the invariant.\<close>

lemma fm_ok_open_read: "fm_ok fm \<Longrightarrow> fm_open_read name fm s = Some (ret, fm', s') \<Longrightarrow> fm_ok fm'"
  by (auto simp: fm_open_read_def fm_ok_def dest: ReOpen_Some)

lemma fm_ok_GetNextReadFile: "fm_ok fm \<Longrightarrow> GetNextReadFile fm s = Some (ret, fm', s') \<Longrightarrow> fm_ok fm'"
  by (auto simp: GetNextReadFile_def fm_ok_open_read split: list.splits)

lemma fm_ok_SetReadPos: "fm_ok fm \<Longrightarrow> SetReadPos info fm s = Some (ret, fm', s') \<Longrightarrow> fm_ok fm'"
  by (auto simp: SetReadPos_def SetFileReadPos_def fm_ok_def dest: SetFilePos_modes)

lemma fm_ok_SetWritePos: "fm_ok fm \<Longrightarrow> SetWritePos info trunc fm s = Some (ret, fm', s') \<Longrightarrow> fm_ok fm'"
  by (auto simp: SetWritePos_def SetFileWritePos_def fm_ok_def dest: SetFilePos_modes)

lemma fm_ok_OpenNewWriteFile:
  "fm_ok fm \<Longrightarrow> OpenNewWriteFile iid fm s = Some (ret, fm', s') \<Longrightarrow> fm_ok fm'"
proof -
  assume ok: "fm_ok fm" and "OpenNewWriteFile iid fm s = Some (ret, fm', s')"
  then obtain name st where n: "GenFileName iid fm = Some name"
    and p: "SetFileWritePos name 0 False (fm_write (GetNewFile name fm)) s = Some (ret, st, s')"
    and fm': "fm' = (GetNewFile name fm)\<lparr>fm_write := st\<rparr>"
    by (auto simp: OpenNewWriteFile_def bind_eq_Some_conv Let_def)
  from n have "name \<noteq> []" by (auto simp: GenFileName_def Let_def split: if_splits)
  with ok have "fm_ok (GetNewFile name fm)" by (rule fm_ok_GetNewFile)
  with p fm' show ?thesis
    by (auto simp: fm_ok_def SetFileWritePos_def dest: SetFilePos_modes)
qed

lemma fm_ok_SFM_WriteData: "fm_ok fm \<Longrightarrow> SFM_WriteData c d di fm s = (ret, di', fm', s') \<Longrightarrow> fm_ok fm'"
  by (auto simp: SFM_WriteData_def Let_def fm_ok_def split: option.splits prod.splits
      dest: Storage_WriteData_names)

lemma fm_ok_SFM_ReadData_loop:
  "fm_ok fm \<Longrightarrow> SFM_ReadData_loop n ch b di fm s = Some (ret, b', di', fm', s') \<Longrightarrow> fm_ok fm'"
proof (induction n arbitrary: b di fm s)
  case (Suc n)
  obtain r b1 st where rd: "Storage_ReadData b (fm_read fm) s = (r, b1, st)"
    using prod_cases3 by blast
  have "st_mode st = st_mode (fm_read fm) \<and> st_data_dir st = st_data_dir (fm_read fm)"
    using Storage_ReadData_cases [OF rd] by auto
  with Suc.prems(1) have ok: "fm_ok (fm\<lparr>fm_read := st\<rparr>)" by (simp add: fm_ok_def)
  show ?case
  proof (cases "r = DATA_EMPTY \<and> ch")
    case True
    with Suc.prems(2) rd obtain r2 fm2 s2 where n: "GetNextReadFile (fm\<lparr>fm_read := st\<rparr>) s = Some (r2, fm2, s2)"
      by (auto simp: Let_def bind_eq_Some_conv)
    have "fm_ok fm2" by (rule fm_ok_GetNextReadFile [OF ok n])
    with Suc.prems(2) rd True n show ?thesis
      by (auto simp: Let_def split: if_splits intro: Suc.IH)
  next
    case False
    with Suc.prems(2) rd ok show ?thesis by (auto simp: Let_def split: if_splits)
  qed
qed simp

section \<open>Reading the files in order\<close>

text \<open>The files of the list exist and hold complete records, followed by at most a partial one.\<close>

definition files_log :: "sfm \<Rightarrow> fs \<Rightarrow> (string \<Rightarrow> bytes list) \<Rightarrow> bool" where
  "files_log fm s logs \<longleftrightarrow>
     (\<forall>f\<in>set (fm_file_list fm). \<not> fs_deny s (fm_data_dir fm @ f) \<and>
        (\<exists>ino t. map_of (fs_names s) (fm_data_dir fm @ f) = Some ino \<and>
           fs_data s ino = log_bytes (logs f) @ t \<and> torn t \<and> (\<forall>d\<in>set (logs f). record_ok d)))"

text \<open>The records a reader still has in front of it: the rest of its file and all later files.\<close>

definition reader_at :: "sfm \<Rightarrow> fs \<Rightarrow> (string \<Rightarrow> bytes list) \<Rightarrow> bytes list \<Rightarrow> bool" where
  "reader_at fm s logs rem \<longleftrightarrow>
     (\<exists>p f q ino off ds t. fm_file_list fm = p @ f # q \<and> st_path (fm_read fm) = f \<and>
        st_fd (fm_read fm) = Some (ino, off) \<and> map_of (fs_names s) (fm_data_dir fm @ f) = Some ino \<and>
        off \<le> length (fs_data s ino) \<and> drop off (fs_data s ino) = log_bytes ds @ t \<and> torn t \<and>
        (\<forall>d\<in>set ds. record_ok d) \<and> rem = ds @ concat (map logs q))"

lemma fm_open_read_file:
  assumes "fm_ok fm" "files_log fm s logs" "fm_file_list fm = p @ f # q"
  shows "\<exists>st. fm_open_read f fm s = Some (OK, fm\<lparr>fm_read := st\<rparr>, s) \<and> st_path st = f \<and>
    reader_at (fm\<lparr>fm_read := st\<rparr>) s logs (logs f @ concat (map logs q))"
proof -
  from assms(2,3) obtain ino t where f: "\<not> fs_deny s (fm_data_dir fm @ f)"
    "map_of (fs_names s) (fm_data_dir fm @ f) = Some ino" "fs_data s ino = log_bytes (logs f) @ t" "torn t"
    "\<forall>d\<in>set (logs f). record_ok d"
    by (auto simp: files_log_def)
  define st where "st = (fm_read fm)\<lparr>st_fd := Some (ino, 0), st_path := f\<rparr>"
  have "fm_open_read f fm s = Some (OK, fm\<lparr>fm_read := st\<rparr>, s)"
    using f assms(1)
    by (simp add: fm_open_read_def ReOpen_def OpenDB_def CloseDB_def fs_open_def st_def fm_ok_def)
  moreover have "reader_at (fm\<lparr>fm_read := st\<rparr>) s logs (logs f @ concat (map logs q))"
    unfolding reader_at_def using f assms(3)
    by (intro exI [of _ p] exI [of _ f] exI [of _ q] exI [of _ ino] exI [of _ 0] exI [of _ "logs f"] exI [of _ t])
       (simp add: st_def)
  ultimately show ?thesis by (auto simp: st_def)
qed

lemma fm_find:
  assumes "fm_ok fm" "fm_file_list fm = p @ f # q"
  shows "os_find FileCmpOpt f (fm_file_list fm) = f # q"
proof -
  have "\<forall>e\<in>set (p @ f # q). e \<noteq> []" using assms by (auto simp: fm_ok_def)
  with assms show ?thesis by (simp only: file_order.os_find_member fm_ok_def)
qed

text \<open>One call of the storage: the next record of the file, or its end.\<close>

lemma reader_at_step:
  assumes "fm_ok fm" "reader_at fm s logs rem"
  obtains (complete) d rem' st where "rem = d # rem'" "Storage_ReadData b (fm_read fm) s = (OK, d, st)"
      "reader_at (fm\<lparr>fm_read := st\<rparr>) s logs rem'"
    | (end_of_file) p f q b' where "fm_file_list fm = p @ f # q" "st_path (fm_read fm) = f"
      "rem = concat (map logs q)" "Storage_ReadData b (fm_read fm) s = (DATA_EMPTY, b', fm_read fm)"
proof -
  from assms(2) obtain p f q ino off ds t where l: "fm_file_list fm = p @ f # q" "st_path (fm_read fm) = f"
    "st_fd (fm_read fm) = Some (ino, off)" "map_of (fs_names s) (fm_data_dir fm @ f) = Some ino"
    "off \<le> length (fs_data s ino)" "drop off (fs_data s ino) = log_bytes ds @ t" "torn t"
    "\<forall>d\<in>set ds. record_ok d" "rem = ds @ concat (map logs q)"
    unfolding reader_at_def by blast
  have m: "st_mode (fm_read fm) = READ" using assms(1) by (simp add: fm_ok_def)
  show thesis
  proof (cases ds)
    case (Cons d ds')
    let ?st = "(fm_read fm)\<lparr>st_fd := Some (ino, off + length (frame d))\<rparr>"
    have r: "Storage_ReadData b (fm_read fm) s = (OK, d, ?st)"
      using l Cons record_ok_limit by (intro Storage_ReadData_frame [OF m, where rest = "log_bytes ds' @ t"]) auto
    have "drop (off + length (frame d)) (fs_data s ino) = log_bytes ds' @ t"
      using arg_cong [where f = "drop (length (frame d))", OF l(6)] Cons by (simp add: add.commute del: length_frame)
    moreover have "off + length (frame d) \<le> length (fs_data s ino)"
      using l(5) arg_cong [where f = length, OF l(6)] Cons by simp
    ultimately have "reader_at (fm\<lparr>fm_read := ?st\<rparr>) s logs (ds' @ concat (map logs q))"
      unfolding reader_at_def using l Cons
      by (intro exI [of _ p] exI [of _ f] exI [of _ q] exI [of _ ino] exI [of _ "off + length (frame d)"]
          exI [of _ ds'] exI [of _ t]) simp
    with complete [OF _ r] l(9) Cons show ?thesis by simp
  next
    case Nil
    from l(7) obtain k d where t: "t = take k (frame d)" "k < length (frame d)" "length d \<le> io_limit"
      by (auto simp: torn_def)
    with l(6) Nil Storage_ReadData_torn [OF m l(3), of s k d b] end_of_file [OF l(1,2)] l(9) Nil
    show ?thesis by auto
  qed
qed

text \<open>With as many turns as there are files left, the loop returns the next record or no data.\<close>

lemma SFM_ReadData_loop_next:
  assumes "fm_ok fm" "files_log fm s logs" "reader_at fm s logs rem"
    and "length (os_find FileCmpOpt (st_path (fm_read fm)) (fm_file_list fm)) \<le> n"
  shows "\<exists>b' di' st. SFM_ReadData_loop n True b di fm s =
      Some (if rem = [] then DATA_EMPTY else OK, b', di', fm\<lparr>fm_read := st\<rparr>, s) \<and>
    (rem \<noteq> [] \<longrightarrow> b' = hd rem) \<and> reader_at (fm\<lparr>fm_read := st\<rparr>) s logs (tl rem)"
  using assms
proof (induction n arbitrary: b di fm)
  case 0
  then obtain p f q where l: "fm_file_list fm = p @ f # q" "st_path (fm_read fm) = f"
    by (auto simp: reader_at_def)
  with 0 fm_find [OF 0(1) l(1)] show ?case by simp
next
  case (Suc n)
  show ?case
  proof (cases rule: reader_at_step [OF Suc.prems(1,3), where b = b, case_names complete end_of_file])
    case (complete d rem' st)
    then show ?thesis by (auto simp: Let_def)
  next
    case (end_of_file p f q b')
    note find = fm_find [OF Suc.prems(1) end_of_file(1)]
    show ?thesis
    proof (cases q)
      case Nil
      with end_of_file find Suc.prems(3) show ?thesis
        by (auto simp: GetNextReadFile_def GetFileName_def Let_def intro!: exI [of _ "fm_read fm"])
    next
      case (Cons g q')
      have l': "fm_file_list fm = (p @ [f]) @ g # q'" using end_of_file(1) Cons by simp
      from fm_open_read_file [OF Suc.prems(1,2) l'] obtain st
        where o: "fm_open_read g fm s = Some (OK, fm\<lparr>fm_read := st\<rparr>, s)" "st_path st = g"
          "reader_at (fm\<lparr>fm_read := st\<rparr>) s logs (logs g @ concat (map logs q'))" by blast
      have ok: "fm_ok (fm\<lparr>fm_read := st\<rparr>)" by (rule fm_ok_open_read [OF Suc.prems(1) o(1)])
      have len: "length (os_find FileCmpOpt (st_path (fm_read (fm\<lparr>fm_read := st\<rparr>)))
          (fm_file_list (fm\<lparr>fm_read := st\<rparr>))) \<le> n"
        using Suc.prems(4) find fm_find [OF Suc.prems(1) l'] end_of_file(2) o(2) Cons by simp
      have rem: "logs g @ concat (map logs q') = rem" using end_of_file(3) Cons by simp
      have "files_log (fm\<lparr>fm_read := st\<rparr>) s logs" using Suc.prems(2) by (simp add: files_log_def)
      from Suc.IH [OF ok this o(3) [unfolded rem] len, of b' "GetReadFileInfo fm di"] show ?thesis
        using end_of_file(2,4) find Cons o(1) by (simp add: GetNextReadFile_def GetFileName_def Let_def)
    qed
  qed
qed

text \<open>A client that opens the oldest file and reads messages until there is no more data.\<close>

fun fm_read_all :: "nat \<Rightarrow> 'm codec \<Rightarrow> sfm \<Rightarrow> fs \<Rightarrow> ('m list \<times> int) option" where
  "fm_read_all 0 c fm s = None"
| "fm_read_all (Suc n) c fm s = do {
     (ret, m, _, fm, s) \<leftarrow> SFM_ReadData c EventDataInfo_init True fm s;
     case m of
       None \<Rightarrow> Some ([], ret)
     | Some m \<Rightarrow> map_option (\<lambda>(ms, ret). (m # ms, ret)) (fm_read_all n c fm s)
   }"

lemma fm_read_all_rem:
  assumes "fm_ok fm" "files_log fm s logs" "reader_at fm s logs rem" "\<forall>d\<in>set rem. dec c d \<noteq> None"
    and "length rem < n"
  shows "fm_read_all n c fm s = Some (map (the \<circ> dec c) rem, DATA_EMPTY)"
  using assms
proof (induction n arbitrary: fm rem)
  case (Suc n)
  have "length (os_find FileCmpOpt (st_path (fm_read fm)) (fm_file_list fm)) \<le> Suc (length (fm_file_list fm))"
  proof -
    obtain p f q where l: "fm_file_list fm = p @ f # q" "st_path (fm_read fm) = f"
      using Suc.prems(3) by (auto simp: reader_at_def)
    with fm_find [OF Suc.prems(1) l(1)] show ?thesis by simp
  qed
  from SFM_ReadData_loop_next [OF Suc.prems(1-3) this, of "[]" EventDataInfo_init] obtain b' di' st
    where r: "SFM_ReadData_loop (Suc (length (fm_file_list fm))) True [] EventDataInfo_init fm s =
        Some (if rem = [] then DATA_EMPTY else OK, b', di', fm\<lparr>fm_read := st\<rparr>, s)"
      "rem \<noteq> [] \<longrightarrow> b' = hd rem" "reader_at (fm\<lparr>fm_read := st\<rparr>) s logs (tl rem)" by blast
  show ?case
  proof (cases rem)
    case Nil
    with r(1) show ?thesis by (simp add: SFM_ReadData_def del: SFM_ReadData_loop.simps)
  next
    case (Cons d ds)
    then obtain m where m: "dec c d = Some m" using Suc.prems(4) by auto
    have "fm_ok (fm\<lparr>fm_read := st\<rparr>)" by (rule fm_ok_SFM_ReadData_loop [OF Suc.prems(1) r(1)])
    moreover have "files_log (fm\<lparr>fm_read := st\<rparr>) s logs" using Suc.prems(2) by (simp add: files_log_def)
    ultimately have "fm_read_all n c (fm\<lparr>fm_read := st\<rparr>) s = Some (map (the \<circ> dec c) ds, DATA_EMPTY)"
      using Suc.prems(4,5) r(3) Cons by (intro Suc.IH) auto
    with r m Cons show ?thesis by (simp add: SFM_ReadData_def del: SFM_ReadData_loop.simps)
  qed
qed simp

text \<open>
  C20: reading the event files. After opening the oldest file, repeated calls of \<^verbatim>\<open>ReadData\<close> return
  the messages of all complete records of all files, file after file in the order of the instance
  ids in the file names, and then DATA_EMPTY; a partial record at the end of a file is skipped. Each
  call needs at most one turn of its loop per file.
\<close>

theorem SFM_reads_all_files:
  assumes "fm_ok fm" and "files_log fm s logs" and "fm_file_list fm \<noteq> []"
    and "records = concat (map logs (fm_file_list fm))" and "\<forall>d\<in>set records. dec c d \<noteq> None"
    and "length records < n"
  shows "\<exists>fm'. OpenOldestFile fm s = Some (OK, fm', s) \<and>
    fm_read_all n c fm' s = Some (map (the \<circ> dec c) records, DATA_EMPTY)"
proof -
  obtain f q where l: "fm_file_list fm = [] @ f # q" using assms(3) by (cases "fm_file_list fm") auto
  from fm_open_read_file [OF assms(1,2) l] obtain st
    where o: "fm_open_read f fm s = Some (OK, fm\<lparr>fm_read := st\<rparr>, s)"
      "reader_at (fm\<lparr>fm_read := st\<rparr>) s logs (logs f @ concat (map logs q))" by blast
  have "fm_ok (fm\<lparr>fm_read := st\<rparr>)" by (rule fm_ok_open_read [OF assms(1) o(1)])
  moreover have "files_log (fm\<lparr>fm_read := st\<rparr>) s logs" using assms(2) by (simp add: files_log_def)
  moreover have "records = logs f @ concat (map logs q)" using assms(4) l by simp
  ultimately show ?thesis
    using o l fm_read_all_rem [of "fm\<lparr>fm_read := st\<rparr>" s logs records c n] assms(5,6)
    by (auto simp: OpenOldestFile_def)
qed

definition bytes_codec :: "bytes codec" where
  "bytes_codec = \<lparr>enc = Some, dec = Some\<rparr>"

definition sample_fs2 :: fs where
  "sample_fs2 = \<lparr>fs_names = [(''d/EVENTDATA-0'', 0), (''d/EVENTDATA-5'', 1)],
     fs_data = (\<lambda>i. if i = 0 then frame [1] @ [0] else frame [2]), fs_mtime = (\<lambda>_. 0), fs_next = 2,
     fs_room = 9, fs_deny = (\<lambda>_. False), fs_now = 5\<rparr>"

definition sample_fm :: sfm where
  "sample_fm = \<lparr>fm_data_dir = ''d/'', fm_prefix = EVENT_PATH_PREF,
     fm_file_list = [''EVENTDATA-0'', ''EVENTDATA-5''],
     fm_read = Storage_init READ ''d/'', fm_write = Storage_init WRITE ''d/''\<rparr>"

lemma sample_ids: "GetFileInstanceID ''EVENTDATA-0'' = 0" "GetFileInstanceID ''EVENTDATA-5'' = 5"
  by (simp_all add: GetFileInstanceID_def c_str_def sscanf_lu_def scan_unsigned_def is_space_def is_digit_def
      digits_val_def digit_val_def)

lemma sample_fm_ok: "fm_ok sample_fm"
  by (simp add: fm_ok_def sample_fm_def os_ok_def FileCmpOpt_def FileCmp_def sample_ids Storage_init_def)

theorem SFM_reads_all_files_witness:
  "\<exists>fm'. OpenOldestFile sample_fm sample_fs2 = Some (OK, fm', sample_fs2) \<and>
    fm_read_all 3 bytes_codec fm' sample_fs2 = Some (map (the \<circ> dec bytes_codec) [[1], [2]], DATA_EMPTY)"
proof (rule SFM_reads_all_files [OF sample_fm_ok])
  have "le_bytes 8 0 = 0 # le_bytes 7 0" using le_bytes.simps(2) [of 7 0] by simp
  then have "torn [0]" unfolding torn_def by (intro exI [of _ "[]"] exI [of _ 1]) (simp add: frame_def)
  then show "files_log sample_fm sample_fs2 (\<lambda>f. if f = ''EVENTDATA-0'' then [[1]] else [[2]])"
    by (simp add: files_log_def sample_fm_def sample_fs2_def record_ok_def io_limit_def)
qed (simp_all add: sample_fm_def bytes_codec_def)

section \<open>Deleting old files\<close>

lemma DelCheckPointFile_loop_spec:
  "\<exists>new. DelCheckPointFile_loop mx old mint dir s n its acc = acc @ new \<and> set new \<subseteq> set its \<and>
     (distinct its \<longrightarrow> distinct new) \<and>
     (\<forall>f\<in>set new. GetFileInstanceID f < old \<and> GetFileTime (dir @ f) s \<le> mint) \<and>
     (new \<noteq> [] \<longrightarrow> length (acc @ new) + 2 \<le> n) \<and> (length acc < mx \<longrightarrow> length (acc @ new) \<le> mx) \<and>
     length new \<le> max 1 (mx - length acc)"
proof (induction its arbitrary: acc)
  case (Cons it its)
  show ?case
  proof (cases "length acc + 3 > n")
    case False
    let ?del = "GetFileInstanceID it < old \<and> GetFileTime (dir @ it) s \<le> mint"
    let ?acc = "if ?del then acc @ [it] else acc"
    show ?thesis
    proof (cases "length ?acc \<ge> mx")
      case True
      with False show ?thesis
        by (intro exI [of _ "if ?del then [it] else []"]) (auto simp: Let_def split: if_splits)
    next
      case not_max: False
      from Cons.IH [of ?acc] obtain new where n: "DelCheckPointFile_loop mx old mint dir s n its ?acc = ?acc @ new"
        "set new \<subseteq> set its" "distinct its \<longrightarrow> distinct new"
        "\<forall>f\<in>set new. GetFileInstanceID f < old \<and> GetFileTime (dir @ f) s \<le> mint"
        "new \<noteq> [] \<longrightarrow> length (?acc @ new) + 2 \<le> n" "length ?acc < mx \<longrightarrow> length (?acc @ new) \<le> mx"
        "length new \<le> max 1 (mx - length ?acc)" by blast
      show ?thesis
        by (intro exI [of _ "if ?del then it # new else new"])
           (use n not_max False in \<open>auto simp: Let_def split: if_splits\<close>)
    qed
  qed simp
qed simp

lemma fold_RemoveFile_list:
  assumes "fm_ok fm" "distinct del" "set del \<subseteq> set (fm_file_list fm)"
  shows "fold SFM_RemoveFile del fm = fm\<lparr>fm_file_list := filter (\<lambda>f. f \<notin> set del) (fm_file_list fm)\<rparr>"
  using assms
proof (induction del arbitrary: fm)
  case (Cons f del)
  have "\<forall>e\<in>set (fm_file_list fm). e \<noteq> []" using Cons.prems(1) by (auto simp: fm_ok_def)
  then have e: "os_erase FileCmpOpt f (fm_file_list fm) = filter (\<lambda>e. e \<noteq> f) (fm_file_list fm)"
    using Cons.prems by (intro file_order.os_erase_member) (auto simp: fm_ok_def)
  have "fm_ok (SFM_RemoveFile f fm)" by (rule fm_ok_RemoveFile [OF Cons.prems(1)])
  with Cons.IH [of "SFM_RemoveFile f fm"] Cons.prems show ?case
    by (auto simp: SFM_RemoveFile_def e intro!: filter_cong)
qed simp

text \<open>
  C21: choosing checkpoint files to delete. Only files of the list are chosen, all of them older than
  the checkpoint file and not modified after the given time, at most the configured number (one if
  that is 0); at least two files stay, and the list afterwards is the old list without the chosen
  files, still in order.
\<close>

theorem SFM_DelCheckPointFile_safe:
  assumes "fm_ok fm" and "SFM_DelCheckPointFile max_num maxfile mintime [] fm s = (ret, del, fm')"
  shows "ret = OK \<and> set del \<subseteq> set (fm_file_list fm) \<and>
    (\<forall>f\<in>set del. GetFileInstanceID f < GetFileInstanceID maxfile \<and>
       GetFileTime (fm_data_dir fm @ f) s \<le> mintime) \<and>
    length del \<le> max 1 max_num \<and> (del \<noteq> [] \<longrightarrow> length del + 2 \<le> length (fm_file_list fm)) \<and>
    fm_file_list fm' = filter (\<lambda>f. f \<notin> set del) (fm_file_list fm) \<and> fm_ok fm'"
proof -
  have d: "del = DelCheckPointFile_loop max_num (GetFileInstanceID maxfile) mintime (fm_data_dir fm) s
      (length (fm_file_list fm)) (fm_file_list fm) []" "fm' = fold SFM_RemoveFile del fm" "ret = OK"
    using assms(2) by (auto simp: SFM_DelCheckPointFile_def Let_def)
  have "distinct (fm_file_list fm)"
    by (rule file_order.os_ok_distinct) (use assms(1) in \<open>auto simp: fm_ok_def\<close>)
  then have l: "set del \<subseteq> set (fm_file_list fm)" "distinct del"
    "\<forall>f\<in>set del. GetFileInstanceID f < GetFileInstanceID maxfile \<and> GetFileTime (fm_data_dir fm @ f) s \<le> mintime"
    "del \<noteq> [] \<longrightarrow> length del + 2 \<le> length (fm_file_list fm)" "length del \<le> max 1 max_num"
    using DelCheckPointFile_loop_spec [of max_num "GetFileInstanceID maxfile" mintime "fm_data_dir fm" s
        "length (fm_file_list fm)" "fm_file_list fm" "[]"] d(1) by auto
  have "fm_file_list fm' = filter (\<lambda>f. f \<notin> set del) (fm_file_list fm)"
    using fold_RemoveFile_list [OF assms(1) l(2,1)] d(2) by simp
  moreover have "fm_ok fm'" using fm_ok_fold_RemoveFile [OF assms(1)] d(2) by simp
  ultimately show ?thesis using l d(3) by blast
qed

text \<open>Five files: the first was modified too late, the next two are deleted, and then the number is reached.\<close>

definition old_fm :: sfm where
  "old_fm = sample_fm\<lparr>fm_file_list := [''EVENTDATA-0'', ''EVENTDATA-5'', ''EVENTDATA-6'', ''EVENTDATA-7'', ''EVENTDATA-9'']\<rparr>"

definition old_fs :: fs where
  "old_fs = sample_fs2\<lparr>fs_names := [(''d/EVENTDATA-0'', 0), (''d/EVENTDATA-5'', 1), (''d/EVENTDATA-6'', 2), (''d/EVENTDATA-7'', 3), (''d/EVENTDATA-9'', 4)],
     fs_mtime := (\<lambda>i. if i = 0 then 20 else 3), fs_next := 5\<rparr>"

lemma old_ids: "GetFileInstanceID ''EVENTDATA-6'' = 6" "GetFileInstanceID ''EVENTDATA-7'' = 7" "GetFileInstanceID ''EVENTDATA-9'' = 9"
  by (simp_all add: GetFileInstanceID_def c_str_def sscanf_lu_def scan_unsigned_def is_space_def is_digit_def
      digits_val_def digit_val_def)

theorem SFM_DelCheckPointFile_safe_witness:
  "\<exists>fm'. SFM_DelCheckPointFile 2 ''EVENTDATA-9'' 9 [] old_fm old_fs = (OK, [''EVENTDATA-5'', ''EVENTDATA-6''], fm') \<and>
    fm_file_list fm' = [''EVENTDATA-0'', ''EVENTDATA-7'', ''EVENTDATA-9''] \<and> fm_ok fm'"
proof -
  obtain fm' where e: "SFM_DelCheckPointFile 2 ''EVENTDATA-9'' 9 [] old_fm old_fs = (OK, [''EVENTDATA-5'', ''EVENTDATA-6''], fm')"
    by (simp add: SFM_DelCheckPointFile_def old_fm_def old_fs_def sample_fm_def sample_fs2_def old_ids sample_ids GetFileTime_def Let_def)
  have "fm_ok old_fm"
    by (simp add: fm_ok_def old_fm_def sample_fm_def os_ok_def FileCmpOpt_def FileCmp_def sample_ids old_ids Storage_init_def)
  from SFM_DelCheckPointFile_safe [OF this e] e show ?thesis by (auto simp: old_fm_def sample_fm_def)
qed

section \<open>Stored messages can be fetched by their position\<close>

text \<open>
  The interface the event storage relies on: a message that was stored is fetched under the key the
  store returned, then and after any number of later stores.
\<close>

locale record_store =
  fixes put :: "'d \<Rightarrow> 's \<Rightarrow> ('k \<times> 's) option"
    and get :: "'k \<Rightarrow> 's \<Rightarrow> 'd option"
    and inv :: "'s \<Rightarrow> bool"
  assumes put_get: "inv s \<Longrightarrow> put d s = Some (k, s') \<Longrightarrow> get k s' = Some d"
    and put_keep: "inv s \<Longrightarrow> put d s = Some (k, s') \<Longrightarrow> get k0 s = Some d0 \<Longrightarrow> get k0 s' = Some d0"
    and put_inv: "inv s \<Longrightarrow> put d s = Some (k, s') \<Longrightarrow> inv s'"
begin

fun put_all :: "'d list \<Rightarrow> 's \<Rightarrow> ('k list \<times> 's) option" where
  "put_all [] s = Some ([], s)"
| "put_all (d # ds) s =
     (case put d s of
        None \<Rightarrow> None
      | Some (k, s') \<Rightarrow> map_option (\<lambda>(ks, t). (k # ks, t)) (put_all ds s'))"

lemma put_all_keep:
  "inv s \<Longrightarrow> put_all ds s = Some (ks, s') \<Longrightarrow> get k0 s = Some d0 \<Longrightarrow> get k0 s' = Some d0 \<and> inv s'"
  by (induction ds arbitrary: s ks) (auto split: option.splits dest: put_keep put_inv)

lemma put_all_get: "inv s \<Longrightarrow> put_all ds s = Some (ks, s') \<Longrightarrow> list_all2 (\<lambda>k d. get k s' = Some d) ks ds"
proof (induction ds arbitrary: s ks)
  case (Cons d ds)
  then obtain k t ks' where p: "put d s = Some (k, t)" "put_all ds t = Some (ks', s')" "ks = k # ks'"
    by (auto split: option.splits)
  note t = put_inv [OF Cons.prems(1) p(1)] put_get [OF Cons.prems(1) p(1)]
  from put_all_keep [OF t(1) p(2) t(2)] Cons.IH [OF t(1) p(2)] p(3) show ?case by simp
qed simp

end

text \<open>The writer stands at the end of a named file.\<close>

definition fm_writer :: "sfm \<Rightarrow> fs \<Rightarrow> bool" where
  "fm_writer fm s \<longleftrightarrow> (\<exists>ino. st_fd (fm_write fm) = Some (ino, length (fs_data s ino)) \<and>
     st_path (fm_write fm) \<noteq> [] \<and> map_of (fs_names s) (fm_data_dir fm @ st_path (fm_write fm)) = Some ino \<and>
     \<not> fs_deny s (fm_data_dir fm @ st_path (fm_write fm)))"

definition fm_put :: "'m codec \<Rightarrow> 'm \<Rightarrow> sfm \<times> fs \<Rightarrow> (EventDataInfo \<times> sfm \<times> fs) option" where
  "fm_put c m = (\<lambda>(fm, s).
     if enc c m = None then None
     else case SFM_WriteData c m EventDataInfo_init fm s of
       (ret, di, fm', s') \<Rightarrow> if ret = OK then Some (di, fm', s') else None)"

definition fm_get :: "'m codec \<Rightarrow> EventDataInfo \<Rightarrow> sfm \<times> fs \<Rightarrow> 'm option" where
  "fm_get c di = (\<lambda>(fm, s). case GetData c di fm s of Some (ret, m, _) \<Rightarrow> if ret = OK then m else None | None \<Rightarrow> None)"

definition fm_inv :: "'m codec \<Rightarrow> sfm \<times> fs \<Rightarrow> bool" where
  "fm_inv c = (\<lambda>(fm, s). codec_ok c \<and> fm_ok fm \<and> fm_writer fm s \<and> fs_bounded s \<and> fs_ok s)"

text \<open>What a successful append does to the manager and the file system.\<close>

lemma SFM_WriteData_OK:
  assumes "fm_ok fm" "fm_writer fm s" "enc c m = Some b" "SFM_WriteData c m di fm s = (OK, di', fm', s')"
  obtains ino st where "st_fd (fm_write fm) = Some (ino, length (fs_data s ino))"
    "map_of (fs_names s) (fm_data_dir fm @ st_path (fm_write fm)) = Some ino"
    "di' = di\<lparr>di_file_name := st_path (fm_write fm), di_offset := of_nat (length (fs_data s ino))\<rparr>"
    "fm' = fm\<lparr>fm_write := st\<rparr>" "st_path st = st_path (fm_write fm)"
    "st_fd st = Some (ino, length (fs_data s' ino))"
    "s' = s\<lparr>fs_data := (fs_data s)(ino := fs_data s ino @ frame b), fs_mtime := (fs_mtime s)(ino := fs_now s),
      fs_room := fs_room s - length (frame b)\<rparr>" "length (frame b) \<le> fs_room s" "record_ok b"
proof -
  from assms(2) obtain ino where w: "st_fd (fm_write fm) = Some (ino, length (fs_data s ino))"
    "map_of (fs_names s) (fm_data_dir fm @ st_path (fm_write fm)) = Some ino" by (auto simp: fm_writer_def)
  have m: "st_mode (fm_write fm) = WRITE" using assms(1) by (simp add: fm_ok_def)
  obtain st where wd: "Storage_WriteData b (fm_write fm) s = (OK, st, s')" "fm' = fm\<lparr>fm_write := st\<rparr>"
    "di' = di\<lparr>di_file_name := st_path (fm_write fm), di_offset := of_nat (length (fs_data s ino))\<rparr>"
    using assms(3,4) w(1)
    by (auto simp: SFM_WriteData_def GetWriteFileInfo_def GetFileInfo_def GetOffSet_def Let_def split: prod.splits)
  have sz: "length (frame b) \<le> fs_room s" "length (frame b) \<le> io_limit"
    using wd(1) m w(1)
    by (auto simp: Storage_WriteData_def fs_write_def Let_def min_def split: prod.splits if_splits)
  note f = fs_write_full [OF sz(2,1), of ino "length (fs_data s ino)"]
  have s': "s' = s\<lparr>fs_data := (fs_data s)(ino := fs_data s ino @ frame b), fs_mtime := (fs_mtime s)(ino := fs_now s),
      fs_room := fs_room s - length (frame b)\<rparr>"
    and st: "st = (fm_write fm)\<lparr>st_fd := Some (ino, length (fs_data s ino) + length (frame b))\<rparr>"
    using wd(1) m w(1) f by (auto simp: Storage_WriteData_def)
  show thesis
    by (rule that [of ino st]) (use w wd s' st sz in \<open>auto simp: record_ok_def\<close>)
qed

text \<open>A record read in full is still read after bytes were appended to its file.\<close>

lemma Storage_ReadData_grow:
  assumes "Storage_ReadData buf st s = (OK, d, st')" and "st_fd st = Some (ino, off)"
    and "fs_data s' ino = fs_data s ino @ x"
  shows "Storage_ReadData buf st s' = (OK, d, st')"
proof -
  have grow: "fs_read ino p n s' = fs_read ino p n s" if "length (fs_read ino p n s) = n" for p n
    using that assms(3) by (auto simp: fs_read_def min_def split: if_splits)
  then show ?thesis using assms(1,2) unfolding Storage_ReadData_rolled_back Let_def
    by (auto split: if_splits option.splits prod.splits)
qed

lemma GetData_existing:
  assumes "map_of (fs_names s) (fm_data_dir fm @ di_file_name di) = Some ino"
    and "\<not> fs_deny s (fm_data_dir fm @ di_file_name di)" "di_file_name di \<noteq> []" "unat (di_offset di) < 2 ^ 63"
  shows "GetData c di fm s =
    (case Storage_ReadData [] \<lparr>st_data_dir = fm_data_dir fm, st_path = di_file_name di, st_mode = READ,
        st_fd = Some (ino, unat (di_offset di))\<rparr> s of
       (ret, buffer, _) \<Rightarrow>
         if ret \<noteq> 0 then Some (ret, None, s)
         else case dec c buffer of None \<Rightarrow> Some (DATA_ERR, None, s) | Some m \<Rightarrow> Some (OK, Some m, s))"
  using assms
  by (simp add: GetData_def SetFileReadPos_def SetFilePos_def ReOpen_def OpenDB_def CloseDB_def fs_open_def
      Storage_init_def storage_seek_def)

text \<open>Only a file that exists yields a message, and fetching leaves the file system alone.\<close>

lemma fm_get_SomeD:
  assumes "fm_get c di (fm, s) = Some m"
  obtains ino b st' where "map_of (fs_names s) (fm_data_dir fm @ di_file_name di) = Some ino"
    "\<not> fs_deny s (fm_data_dir fm @ di_file_name di)" "di_file_name di \<noteq> []" "unat (di_offset di) < 2 ^ 63"
    "Storage_ReadData [] \<lparr>st_data_dir = fm_data_dir fm, st_path = di_file_name di, st_mode = READ,
        st_fd = Some (ino, unat (di_offset di))\<rparr> s = (OK, b, st')" "dec c b = Some m"
proof -
  let ?path = "fm_data_dir fm @ di_file_name di"
  have g: "\<exists>s'. GetData c di fm s = Some (OK, Some m, s')"
    using assms by (auto simp: fm_get_def split: option.splits if_splits)
  have ne: "di_file_name di \<noteq> []" "unat (di_offset di) < 2 ^ 63" "\<not> fs_deny s ?path"
    using g by (auto simp: GetData_def SetFileReadPos_def SetFilePos_def Storage_init_def storage_seek_def
        bind_eq_Some_conv ReOpen_def OpenDB_def CloseDB_def fs_open_def
        split: if_splits option.splits prod.splits)
  have "map_of (fs_names s) ?path \<noteq> None"
  proof
    assume "map_of (fs_names s) ?path = None"
    then show False using g ne
      by (auto simp: GetData_def SetFileReadPos_def SetFilePos_def Storage_init_def storage_seek_def
          ReOpen_def OpenDB_def CloseDB_def fs_open_def Storage_ReadData_rolled_back fs_read_def)
  qed
  then obtain ino where ino: "map_of (fs_names s) ?path = Some ino" by blast
  show thesis
    using g GetData_existing [OF ino ne(3,1,2), of c] that [OF ino ne(3,1,2)]
    by (auto split: prod.splits if_splits option.splits)
qed

text \<open>Whatever a write returns, the manager stands at the end of its file and files only grew.\<close>

lemma SFM_WriteData_extends:
  assumes "fm_ok fm" "fm_writer fm s" "SFM_WriteData c m di fm s = (ret, di', fm', s')"
  shows "fs_extends s s'" "fm_writer fm' s'" "fm_ok fm'" "\<exists>st. fm' = fm\<lparr>fm_write := st\<rparr> \<and> st_path st = st_path (fm_write fm)"
    "fs_names s' = fs_names s"
proof -
  show "fm_ok fm'" by (rule fm_ok_SFM_WriteData [OF assms(1,3)])
  have m: "st_mode (fm_write fm) = WRITE" using assms(1) by (simp add: fm_ok_def)
  from assms(2) obtain ino where w: "st_fd (fm_write fm) = Some (ino, length (fs_data s ino))"
    by (auto simp: fm_writer_def)
  have "fs_extends s s' \<and> fm_writer fm' s' \<and> (\<exists>st. fm' = fm\<lparr>fm_write := st\<rparr> \<and> st_path st = st_path (fm_write fm)) \<and>
      fs_names s' = fs_names s"
  proof (cases "enc c m")
    case None
    with assms(2,3) show ?thesis by (auto simp: SFM_WriteData_def Let_def intro: exI [of _ "fm_write fm"])
  next
    case (Some b)
    obtain r st t where wd: "Storage_WriteData b (fm_write fm) s = (r, st, t)" using prod_cases3 by blast
    with assms(3) Some have eq: "fm' = fm\<lparr>fm_write := st\<rparr>" "s' = t" by (simp_all add: SFM_WriteData_def Let_def)
    note e = Storage_WriteData_extends [OF m w wd]
    have "fs_deny t = fs_deny s" using e(1) by (simp add: fs_extends_def)
    with e assms(2) w eq show ?thesis by (auto simp: fm_writer_def)
  qed
  then show "fs_extends s s'" "fm_writer fm' s'" "\<exists>st. fm' = fm\<lparr>fm_write := st\<rparr> \<and> st_path st = st_path (fm_write fm)"
    "fs_names s' = fs_names s" by auto
qed

lemma fm_get_extends:
  assumes "fm_get c di (fm, s) = Some m" "fs_ok s" "fs_extends s s'" "fm_data_dir fm' = fm_data_dir fm"
  shows "fm_get c di (fm', s') = Some m"
proof (rule fm_get_SomeD [OF assms(1)])
  fix ino b st'
  assume g: "map_of (fs_names s) (fm_data_dir fm @ di_file_name di) = Some ino"
    "\<not> fs_deny s (fm_data_dir fm @ di_file_name di)" "di_file_name di \<noteq> []" "unat (di_offset di) < 2 ^ 63"
    "Storage_ReadData [] \<lparr>st_data_dir = fm_data_dir fm, st_path = di_file_name di, st_mode = READ,
      st_fd = Some (ino, unat (di_offset di))\<rparr> s = (OK, b, st')" "dec c b = Some m"
  have "ino < fs_next s" using assms(2) map_of_SomeD [OF g(1)] by (auto simp: fs_ok_def)
  with assms(3) obtain x where "fs_data s' ino = fs_data s ino @ x" by (auto simp: fs_extends_def)
  from Storage_ReadData_grow [OF g(5) _ this] g assms(3,4) GetData_existing [of s' fm' di ino c] show ?thesis
    by (simp add: fm_get_def fs_extends_def)
qed

text \<open>A successful write is fetched back.\<close>

lemma fm_get_put:
  assumes "fm_inv c (fm, s)" "enc c m = Some b" "SFM_WriteData c m di fm s = (OK, di', fm', s')"
  shows "fm_get c di' (fm', s') = Some m"
proof -
  from assms(1) have ok: "codec_ok c" "fm_ok fm" "fm_writer fm s" "fs_bounded s" by (auto simp: fm_inv_def)
  show ?thesis
  proof (rule SFM_WriteData_OK [OF ok(2,3) assms(2,3)])
    fix ino sto
    assume a: "st_fd (fm_write fm) = Some (ino, length (fs_data s ino))"
      "map_of (fs_names s) (fm_data_dir fm @ st_path (fm_write fm)) = Some ino"
      "di' = di\<lparr>di_file_name := st_path (fm_write fm), di_offset := of_nat (length (fs_data s ino))\<rparr>"
      "fm' = fm\<lparr>fm_write := sto\<rparr>"
      "s' = s\<lparr>fs_data := (fs_data s)(ino := fs_data s ino @ frame b), fs_mtime := (fs_mtime s)(ino := fs_now s),
        fs_room := fs_room s - length (frame b)\<rparr>" "record_ok b"
    have "length (fs_data s ino) < 2 ^ 63" using ok(4) [unfolded fs_bounded_def, rule_format, of ino] by linarith
    then have o: "unat (di_offset di') = length (fs_data s ino)" "unat (di_offset di') < 2 ^ 63"
      using a(3) by (simp_all add: unat_of_nat)
    have ne: "st_path (fm_write fm) \<noteq> []" "\<not> fs_deny s (fm_data_dir fm @ st_path (fm_write fm))"
      using ok(3) by (auto simp: fm_writer_def)
    let ?r = "\<lparr>st_data_dir = fm_data_dir fm, st_path = st_path (fm_write fm), st_mode = READ,
      st_fd = Some (ino, length (fs_data s ino))\<rparr>"
    have r: "Storage_ReadData [] ?r s' = (OK, b, ?r\<lparr>st_fd := Some (ino, length (fs_data s ino) + length (frame b))\<rparr>)"
      using a record_ok_limit by (intro Storage_ReadData_frame [where rest = "[]"]) auto
    have "GetData c di' fm' s' = Some (OK, Some m, s')"
      using GetData_existing [of s' fm' di' ino c] a(2-5) ne o r codec_okD [OF ok(1) assms(2)] by simp
    then show ?thesis by (simp add: fm_get_def)
  qed
qed

lemma fm_inv_WriteData:
  "fm_inv c (fm, s) \<Longrightarrow> SFM_WriteData c' m di fm s = (ret, di', fm', s') \<Longrightarrow> fm_inv c (fm', s')"
  using SFM_WriteData_extends [of fm s c' m di ret di' fm' s'] by (auto simp: fm_inv_def fs_extends_def)

interpretation fmr: record_store "fm_put c" "fm_get c" "fm_inv c" for c :: "'m codec"
proof unfold_locales
  fix st :: "sfm \<times> fs" and m :: 'm and di st'
  assume inv: "fm_inv c st" and p: "fm_put c m st = Some (di, st')"
  obtain fm s fm' s' where st: "st = (fm, s)" "st' = (fm', s')" by (metis prod.exhaust)
  from p obtain b where b: "enc c m = Some b" "SFM_WriteData c m EventDataInfo_init fm s = (OK, di, fm', s')"
    by (auto simp: fm_put_def st split: if_splits prod.splits)
  from inv have ok: "fm_ok fm" "fm_writer fm s" "fs_ok s" by (auto simp: fm_inv_def st)
  note e = SFM_WriteData_extends [OF ok(1,2) b(2)]
  show "fm_inv c st'" using fm_inv_WriteData [OF _ b(2)] inv by (simp add: st)
  show "fm_get c di st' = Some m" using fm_get_put [OF _ b] inv by (simp add: st)
  show "fm_get c k0 st' = Some d0" if "fm_get c k0 st = Some d0" for k0 d0
    using fm_get_extends [OF that [unfolded st(1)] ok(3) e(1), of fm'] e(4) by (auto simp: st)
qed

text \<open>
  Random access to the event files. When a sequence of messages has been written with the file
  manager, every message is fetched by \<^verbatim>\<open>GetData\<close> from the file name and offset that the write
  reported, whatever was appended after it.
\<close>

theorem SFM_WriteData_GetData:
  assumes "fm_inv c (fm, s)" and "fmr.put_all c ms (fm, s) = Some (infos, fm', s')"
  shows "list_all2 (\<lambda>info m. \<exists>t. GetData c info fm' s' = Some (OK, Some m, t)) infos ms"
proof -
  have "list_all2 (\<lambda>info m. fm_get c info (fm', s') = Some m) infos ms"
    by (rule fmr.put_all_get [OF assms])
  then show ?thesis
    by (rule list_all2_mono) (auto simp: fm_get_def split: option.splits if_splits)
qed

definition sample_fm2 :: sfm where
  "sample_fm2 = sample_fm\<lparr>fm_write := \<lparr>st_data_dir = ''d/'', st_path = ''EVENTDATA-5'', st_mode = WRITE,
     st_fd = Some (1, 9)\<rparr>\<rparr>"

lemma sample_fm2_inv: "fm_inv bytes_codec (sample_fm2, sample_fs2)"
  using sample_fm_ok
  by (simp add: fm_inv_def codec_ok_def bytes_codec_def sample_fm2_def fm_ok_def fm_writer_def sample_fs2_def
      fs_bounded_def sample_fm_def fs_ok_def sm_ok_def)

theorem SFM_WriteData_GetData_witness:
  "\<exists>info fm' s' t. fmr.put_all bytes_codec [[3]] (sample_fm2, sample_fs2) = Some ([info], fm', s') \<and>
    GetData bytes_codec info fm' s' = Some (OK, Some [3], t)"
proof -
  obtain info fm' s' where p: "fmr.put_all bytes_codec [[3]] (sample_fm2, sample_fs2) = Some ([info], fm', s')"
    by (simp add: fm_put_def bytes_codec_def SFM_WriteData_def sample_fm2_def sample_fs2_def
        Storage_WriteData_def fs_write_def io_limit_def Let_def)
  from SFM_WriteData_GetData [OF sample_fm2_inv p] p show ?thesis by auto
qed

end
