(* ===== verification/Master_Storage.thy ===== *)
theory Master_Storage
  imports File_Manager
begin

text \<open>
  Who is master, and until when: the master record every node keeps
  (\<^verbatim>\<open>core/storage/master_storage.cpp\<close>), the status word shared with the agent monitor
  (\<^verbatim>\<open>core/monitor/base/agent_monitor_comm.cpp\<close>) and the master manager on top of them
  (\<^verbatim>\<open>core/handler/master_manager.cpp\<close>). \<^verbatim>\<open>time(NULL)\<close> is the argument \<open>now\<close>, a signed 64-bit value
  kept as \<open>int\<close>. The mutexes make each operation one step.
\<close>

section \<open>Messages and state\<close>

record UserInfo =
  ui_username :: string
  ui_pwd :: string

text \<open>\<open>mi_port\<close> is the only required field: \<open>None\<close> is a message in which it was never set.\<close>

record MasterInfo =
  mi_port :: "u32 option"
  mi_version :: u64
  mi_svr_id :: u32
  mi_update_time :: u32
  mi_expire_time :: u32
  mi_lease :: u32
  mi_instance_id :: u64
  mi_export_ip :: string
  mi_export_port :: u32
  mi_admin_userinfo :: "UserInfo list"
  mi_replica_userinfo :: "UserInfo list"

definition MasterInfo_init :: MasterInfo where
  "MasterInfo_init = \<lparr>mi_port = None, mi_version = 0, mi_svr_id = 0, mi_update_time = 0, mi_expire_time = 0,
     mi_lease = 0, mi_instance_id = 0, mi_export_ip = [], mi_export_port = 0, mi_admin_userinfo = [],
     mi_replica_userinfo = []\<rparr>"

text \<open>A message without its required field serializes but is refused by the parser.\<close>

definition master_codec_ok :: "MasterInfo codec \<Rightarrow> bool" where
  "master_codec_ok c \<longleftrightarrow>
     (\<forall>m b. enc c m = Some b \<longrightarrow> dec c b = (if mi_port m = None then None else Some m))"

record mstore =
  ms_master :: MasterInfo
  ms_admin_username :: string
  ms_admin_pwd :: string
  ms_replica_username :: string
  ms_replica_pwd :: string

definition MasterStorage_init :: mstore where
  "MasterStorage_init = \<lparr>ms_master = MasterInfo_init, ms_admin_username = [], ms_admin_pwd = [],
     ms_replica_username = [], ms_replica_pwd = []\<rparr>"

section \<open>The master storage\<close>

definition MasterStorage_LoadFromCheckPoint :: "int \<Rightarrow> u32 \<Rightarrow> u32 \<Rightarrow> MasterInfo \<Rightarrow> mstore \<Rightarrow> int \<times> mstore" where
  "MasterStorage_LoadFromCheckPoint now lease_time ext_lease_time info ms =
     (OK,
      if 0 < mi_version info
      then ms\<lparr>ms_master := info\<lparr>mi_expire_time :=
             of_int (now + int (unat lease_time) + int (unat ext_lease_time))\<rparr>\<rparr>
      else ms)"

definition HasAdminUserName :: "mstore \<Rightarrow> bool" where
  "HasAdminUserName ms \<longleftrightarrow> length (mi_admin_userinfo (ms_master ms)) \<noteq> 0"

definition HasReplicaUserName :: "mstore \<Rightarrow> bool" where
  "HasReplicaUserName ms \<longleftrightarrow> length (mi_replica_userinfo (ms_master ms)) \<noteq> 0"

definition MasterStorage_SetMySqlAdminInfo :: "MasterInfo \<Rightarrow> string \<Rightarrow> string \<Rightarrow> mstore \<Rightarrow> int \<times> mstore" where
  "MasterStorage_SetMySqlAdminInfo master_info username pwd ms =
     (if mi_version master_info \<noteq> mi_version (ms_master ms) then (MASTER_VERSION_CONFLICT, ms)
      else (OK, ms\<lparr>ms_admin_username := username, ms_admin_pwd := pwd\<rparr>))"

definition MasterStorage_SetMySqlReplicaInfo :: "MasterInfo \<Rightarrow> string \<Rightarrow> string \<Rightarrow> mstore \<Rightarrow> int \<times> mstore" where
  "MasterStorage_SetMySqlReplicaInfo master_info username pwd ms =
     (if mi_version master_info \<noteq> mi_version (ms_master ms) then (MASTER_VERSION_CONFLICT, ms)
      else (OK, ms\<lparr>ms_replica_username := username, ms_replica_pwd := pwd\<rparr>))"

definition GetMaster :: "mstore \<Rightarrow> MasterInfo" where
  "GetMaster ms = ms_master ms"

definition SetMaster :: "MasterInfo \<Rightarrow> mstore \<Rightarrow> int \<times> mstore" where
  "SetMaster info ms =
     (let master = ms_master ms
      in if mi_svr_id master = 0 \<or>
            mi_instance_id info > mi_instance_id master \<and> mi_version info \<ge> mi_version master
         then (OK, ms\<lparr>ms_master := info\<lparr>mi_version := mi_version info + 1\<rparr>\<rparr>)
         else (MASTER_VERSION_CONFLICT, ms))"

definition IsTimeOut :: "int \<Rightarrow> MasterInfo \<Rightarrow> bool" where
  "IsTimeOut now info \<longleftrightarrow> int (unat (mi_expire_time info)) < now"

definition CheckMasterBySvrID :: "int \<Rightarrow> u32 \<Rightarrow> bool \<Rightarrow> mstore \<Rightarrow> bool" where
  "CheckMasterBySvrID now svrid check_timeout ms \<longleftrightarrow>
     (if 0 < mi_svr_id (ms_master ms)
      then mi_svr_id (ms_master ms) = svrid \<and>
        (\<not> check_timeout \<or> check_timeout \<and> \<not> IsTimeOut now (ms_master ms))
      else False)"

definition MasterStorage_GetLastInstanceID :: "mstore \<Rightarrow> u64" where
  "MasterStorage_GetLastInstanceID ms = mi_instance_id (ms_master ms)"

section \<open>The status shared with the agent monitor\<close>

datatype monitor_status = NOTHING | WAITING | MASTER_CHANGING | MASTER_CHANGING_INIT | RUNNING

text \<open>The number of changes since the monitor last looked. It is a C \<^verbatim>\<open>int\<close>, and \<open>2 ^ 31\<close> changes between two looks are not considered.\<close>

record monitor_comm =
  mc_status :: monitor_status
  mc_ready_num :: nat

definition AgentMonitorComm_init :: monitor_comm where
  "AgentMonitorComm_init = \<lparr>mc_status = NOTHING, mc_ready_num = 0\<rparr>"

definition MonitorStart :: "monitor_comm \<Rightarrow> monitor_comm" where
  "MonitorStart mc = (if mc_status mc = NOTHING then mc\<lparr>mc_status := WAITING\<rparr> else mc)"

definition ResetMaster :: "monitor_comm \<Rightarrow> monitor_comm" where
  "ResetMaster mc = mc\<lparr>mc_ready_num := mc_ready_num mc + 1\<rparr>"

definition GetStatus :: "monitor_comm \<Rightarrow> monitor_status \<times> monitor_comm" where
  "GetStatus mc =
     (let mc = (if mc_ready_num mc \<noteq> 0 then mc\<lparr>mc_status := MASTER_CHANGING, mc_ready_num := 0\<rparr> else mc)
      in (mc_status mc, mc))"

definition SetStatus :: "monitor_status \<Rightarrow> monitor_comm \<Rightarrow> monitor_comm" where
  "SetStatus status mc = mc\<lparr>mc_status := status\<rparr>"

definition IsMasterChanging :: "monitor_comm \<Rightarrow> bool \<times> monitor_comm" where
  "IsMasterChanging mc = (case GetStatus mc of (st, mc) \<Rightarrow> (st = MASTER_CHANGING, mc))"

text \<open>The external heart beat: flags collected since the last reset, with 32-bit time arithmetic.\<close>

record external_monitor =
  em_flag :: u32
  em_last_update_time :: u32

definition PROXY_MONITOR_FLAG :: u32 where
  "PROXY_MONITOR_FLAG = 1"

definition CheckTimeOut :: "u32 \<Rightarrow> external_monitor \<Rightarrow> external_monitor" where
  "CheckTimeOut now_time em =
     (if now_time - em_last_update_time em > 5 then em\<lparr>em_last_update_time := now_time, em_flag := 0\<rparr> else em)"

definition ExternalMonitor_SetHeartBeat :: "u32 \<Rightarrow> u32 \<Rightarrow> external_monitor \<Rightarrow> external_monitor" where
  "ExternalMonitor_SetHeartBeat now_time flag em =
     (let em = CheckTimeOut now_time em in em\<lparr>em_flag := em_flag em OR flag\<rparr>)"

definition IsHealthy :: "u32 \<Rightarrow> external_monitor \<Rightarrow> bool \<times> external_monitor" where
  "IsHealthy now_time em = (let em = CheckTimeOut now_time em in (PROXY_MONITOR_FLAG = em_flag em, em))"

section \<open>The master manager\<close>

record mmanager =
  mm_storage :: mstore
  mm_comm :: monitor_comm
  mm_members :: "string list"

definition MasterManager_MonitorStart :: "mmanager \<Rightarrow> mmanager" where
  "MasterManager_MonitorStart mm = mm\<lparr>mm_comm := MonitorStart (mm_comm mm)\<rparr>"

definition GetMasterInfo :: "mmanager \<Rightarrow> int \<times> MasterInfo" where
  "GetMasterInfo mm = (OK, GetMaster (mm_storage mm))"

definition SetMasterInfo :: "int \<Rightarrow> MasterInfo \<Rightarrow> mmanager \<Rightarrow> int \<times> mmanager" where
  "SetMasterInfo now master_info mm =
     (let old_master = CheckMasterBySvrID now (mi_svr_id master_info) True (mm_storage mm)
      in case SetMaster master_info (mm_storage mm) of
           (ret, ms) \<Rightarrow>
             let mm = mm\<lparr>mm_storage := ms\<rparr>
             in (ret, if ret = OK \<and> \<not> old_master then mm\<lparr>mm_comm := ResetMaster (mm_comm mm)\<rparr> else mm))"

definition GenMasterInfoByLocal :: "u32 \<Rightarrow> string \<Rightarrow> mmanager \<Rightarrow> int \<times> MasterInfo" where
  "GenMasterInfoByLocal mysql_port master_ip mm =
     (case GetMasterInfo mm of
        (ret, info) \<Rightarrow>
          if ret \<noteq> 0 then (ret, info)
          else (OK, info\<lparr>mi_port := Some mysql_port, mi_svr_id := GetSvrID master_ip\<rparr>))"

definition IsMaster_info :: "int \<Rightarrow> u32 \<Rightarrow> MasterInfo \<Rightarrow> bool" where
  "IsMaster_info now engine_svrid info \<longleftrightarrow> mi_svr_id info = engine_svrid \<and> \<not> IsTimeOut now info"

definition IsMaster :: "int \<Rightarrow> u32 \<Rightarrow> mmanager \<Rightarrow> bool" where
  "IsMaster now engine_svrid mm \<longleftrightarrow> CheckMasterBySvrID now engine_svrid True (mm_storage mm)"

text \<open>
  The answer to "who is master": the code, and on OK the address with the update and expire times
  and the low 32 bits of the version. Asking for the status may itself change it.
\<close>

definition GetMasterInfo_rpc ::
  "int \<Rightarrow> u32 \<Rightarrow> mmanager \<Rightarrow> int \<times> (string \<times> u32 \<times> u32 \<times> u32) option \<times> mmanager" where
  "GetMasterInfo_rpc now engine_svrid mm =
     (let check = CheckMasterBySvrID now engine_svrid True (mm_storage mm);
          changing = IsMasterChanging (mm_comm mm);
          mm = (if check then mm\<lparr>mm_comm := snd changing\<rparr> else mm)
      in if check \<and> fst changing then (MASTER_PREPARING, None, mm)
         else
           let info = GetMaster (mm_storage mm)
           in (OK, Some (GetIP (mi_svr_id info), mi_update_time info, mi_expire_time info,
                         ucast (mi_version info)), mm))"

definition SetMemberList :: "string list \<Rightarrow> mmanager \<Rightarrow> mmanager" where
  "SetMemberList member_list mm = mm\<lparr>mm_members := member_list\<rparr>"

definition GetMemberIPList :: "mmanager \<Rightarrow> string list" where
  "GetMemberIPList mm = mm_members mm"

text \<open>\<open>create\<close> is what \<^verbatim>\<open>MySqlManager::CreateMySqlAdminInfo\<close> answers for the member list.\<close>

definition MasterManager_SetMySqlAdminInfo ::
  "int \<Rightarrow> u32 \<Rightarrow> (string list \<Rightarrow> int) \<Rightarrow> string \<Rightarrow> string \<Rightarrow> MasterInfo \<Rightarrow> mmanager \<Rightarrow> int \<times> MasterInfo" where
  "MasterManager_SetMySqlAdminInfo now engine_svrid create new_username new_pwd info mm =
     (if \<not> IsMaster_info now engine_svrid info then (MASTER_CONFLICT, info)
      else
        let ret = create (GetMemberIPList mm)
        in if ret = OK
           then (ret, info\<lparr>mi_admin_userinfo := mi_admin_userinfo info @
                  [\<lparr>ui_username = new_username, ui_pwd = new_pwd\<rparr>]\<rparr>)
           else (ret, info))"

definition MasterManager_SetMySqlReplicaInfo ::
  "int \<Rightarrow> u32 \<Rightarrow> int \<Rightarrow> string \<Rightarrow> string \<Rightarrow> MasterInfo \<Rightarrow> int \<times> MasterInfo" where
  "MasterManager_SetMySqlReplicaInfo now engine_svrid create_ret new_username new_pwd info =
     (if \<not> IsMaster_info now engine_svrid info then (MASTER_CONFLICT, info)
      else if create_ret = OK
        then (create_ret, info\<lparr>mi_replica_userinfo := mi_replica_userinfo info @
               [\<lparr>ui_username = new_username, ui_pwd = new_pwd\<rparr>]\<rparr>)
        else (create_ret, info))"

section \<open>Versions\<close>

lemma SetMaster_cases:
  "SetMaster info ms = (ret, ms') \<Longrightarrow>
     ret = OK \<and> ms' = ms\<lparr>ms_master := info\<lparr>mi_version := mi_version info + 1\<rparr>\<rparr> \<and>
       (mi_svr_id (ms_master ms) = 0 \<or>
        mi_instance_id (ms_master ms) < mi_instance_id info \<and> mi_version (ms_master ms) \<le> mi_version info) \<or>
     ret = MASTER_VERSION_CONFLICT \<and> ms' = ms \<and> mi_svr_id (ms_master ms) \<noteq> 0 \<and>
       \<not> (mi_instance_id (ms_master ms) < mi_instance_id info \<and> mi_version (ms_master ms) \<le> mi_version info)"
  by (auto simp: SetMaster_def Let_def split: if_splits)

text \<open>The proposals of a sequence that \<^verbatim>\<open>SetMaster\<close> accepts, in order.\<close>

fun accepted :: "MasterInfo list \<Rightarrow> mstore \<Rightarrow> MasterInfo list \<times> mstore" where
  "accepted [] ms = ([], ms)"
| "accepted (info # infos) ms =
     (case SetMaster info ms of
        (ret, ms) \<Rightarrow>
          case accepted infos ms of (acc, ms) \<Rightarrow> (if ret = OK then info # acc else acc, ms))"

lemma accepted_bound:
  assumes "mi_svr_id (ms_master ms) \<noteq> 0" and "\<forall>i\<in>set infos. mi_svr_id i \<noteq> 0 \<and> mi_version i \<noteq> - 1"
    and "a \<in> set (fst (accepted infos ms))"
  shows "mi_version (ms_master ms) \<le> mi_version a \<and> mi_instance_id (ms_master ms) < mi_instance_id a"
  using assms
proof (induction infos arbitrary: ms)
  case (Cons info infos)
  obtain ret ms' where s: "SetMaster info ms = (ret, ms')" by fastforce
  from SetMaster_cases [OF s] Cons.prems(1) show ?case
  proof (elim disjE conjE)
    assume ok: "ret = OK" "ms' = ms\<lparr>ms_master := info\<lparr>mi_version := mi_version info + 1\<rparr>\<rparr>"
      and le: "mi_instance_id (ms_master ms) < mi_instance_id info" "mi_version (ms_master ms) \<le> mi_version info"
    from Cons.prems(3) s ok(1) consider "a = info" | "a \<in> set (fst (accepted infos ms'))"
      by (auto split: prod.splits)
    then show ?thesis
    proof cases
      case 2
      with Cons.IH [of ms'] Cons.prems(2) ok(2)
      have "mi_version info + 1 \<le> mi_version a" "mi_instance_id info < mi_instance_id a" by auto
      with le word_less_succ [of "mi_version info"] Cons.prems(2) show ?thesis by auto
    qed (use le in simp)
  next
    assume "ret = MASTER_VERSION_CONFLICT" "ms' = ms"
    with Cons.IH [of ms] Cons.prems s show ?thesis by (auto split: prod.splits)
  qed (use Cons.prems(1) in simp)
qed simp

text \<open>
  C11: master elections are compare-and-set on the version. Of any sequence of proposals executed by a
  node, those accepted have strictly increasing versions and instance ids, so at most one of the
  proposals that were built from the same version is accepted; the node ends with the last accepted
  proposal and the version after it. (Proposals name a server, and the 64-bit version does not wrap.)
\<close>

theorem SetMaster_compare_and_set:
  assumes "\<forall>i\<in>set infos. mi_svr_id i \<noteq> 0 \<and> mi_version i \<noteq> - 1" and "accepted infos ms = (acc, ms')"
  shows "sorted_wrt (\<lambda>a b. mi_version a < mi_version b \<and> mi_instance_id a < mi_instance_id b) acc \<and>
    (if acc = [] then ms' = ms
     else ms_master ms' = (last acc)\<lparr>mi_version := mi_version (last acc) + 1\<rparr>)"
  using assms
proof (induction infos arbitrary: ms acc)
  case (Cons info infos)
  obtain ret ms1 where s: "SetMaster info ms = (ret, ms1)" by fastforce
  obtain acc1 where a: "accepted infos ms1 = (acc1, ms')" "acc = (if ret = OK then info # acc1 else acc1)"
    using Cons.prems(2) s by (auto split: prod.splits)
  have IH: "sorted_wrt (\<lambda>a b. mi_version a < mi_version b \<and> mi_instance_id a < mi_instance_id b) acc1"
    "if acc1 = [] then ms' = ms1 else ms_master ms' = (last acc1)\<lparr>mi_version := mi_version (last acc1) + 1\<rparr>"
    using Cons.IH [OF _ a(1)] Cons.prems(1) by auto
  show ?case
  proof (cases "ret = OK")
    case True
    with SetMaster_cases [OF s] have ms1: "ms_master ms1 = info\<lparr>mi_version := mi_version info + 1\<rparr>" by auto
    have "mi_version info < mi_version b \<and> mi_instance_id info < mi_instance_id b" if "b \<in> set acc1" for b
    proof -
      have "mi_version (ms_master ms1) \<le> mi_version b \<and> mi_instance_id (ms_master ms1) < mi_instance_id b"
        by (rule accepted_bound) (use Cons.prems(1) a(1) ms1 that in auto)
      with ms1 word_less_succ [of "mi_version info"] Cons.prems(1) show ?thesis by auto
    qed
    with True IH a ms1 show ?thesis by auto
  next
    case False
    with SetMaster_cases [OF s] IH a show ?thesis by auto
  qed
qed simp

definition sample_master :: "u64 \<Rightarrow> u64 \<Rightarrow> u32 \<Rightarrow> MasterInfo" where
  "sample_master instance_id version svr_id =
     MasterInfo_init\<lparr>mi_port := Some 3306, mi_instance_id := instance_id, mi_version := version, mi_svr_id := svr_id\<rparr>"

theorem SetMaster_compare_and_set_witness:
  "\<exists>ms'. accepted [sample_master 1 0 7, sample_master 2 0 8, sample_master 3 1 8] MasterStorage_init =
      ([sample_master 1 0 7, sample_master 3 1 8], ms') \<and>
    sorted_wrt (\<lambda>a b. mi_version a < mi_version b \<and> mi_instance_id a < mi_instance_id b)
      [sample_master 1 0 7, sample_master 3 1 8] \<and>
    ms_master ms' = (sample_master 3 1 8)\<lparr>mi_version := 2\<rparr>"
proof -
  obtain ms' where a: "accepted [sample_master 1 0 7, sample_master 2 0 8, sample_master 3 1 8] MasterStorage_init =
      ([sample_master 1 0 7, sample_master 3 1 8], ms')"
    by (simp add: SetMaster_def sample_master_def MasterStorage_init_def MasterInfo_init_def)
  from SetMaster_compare_and_set [OF _ a] a show ?thesis
    by (simp add: sample_master_def MasterInfo_init_def)
qed

section \<open>A new master is announced only after it has been prepared\<close>

definition preparing :: "mmanager \<Rightarrow> bool" where
  "preparing mm \<longleftrightarrow> mc_ready_num (mm_comm mm) \<noteq> 0 \<or> mc_status (mm_comm mm) = MASTER_CHANGING"

text \<open>What can happen to a manager while the monitor has not yet set a new status.\<close>

inductive manager_step :: "mmanager \<Rightarrow> mmanager \<Rightarrow> bool" where
  set_master: "manager_step mm (snd (SetMasterInfo now info mm))"
| ask_master: "manager_step mm (snd (snd (GetMasterInfo_rpc now svrid mm)))"
| monitor_start: "manager_step mm (MasterManager_MonitorStart mm)"
| members: "manager_step mm (SetMemberList ips mm)"
| get_status: "manager_step mm (mm\<lparr>mm_comm := snd (GetStatus (mm_comm mm))\<rparr>)"

inductive_cases manager_stepE: "manager_step mm mm'"

lemma preparing_step: "manager_step mm mm' \<Longrightarrow> preparing mm \<Longrightarrow> preparing mm'"
  by (erule manager_stepE)
     (auto simp: preparing_def SetMasterInfo_def GetMasterInfo_rpc_def MasterManager_MonitorStart_def
       MonitorStart_def SetMemberList_def GetStatus_def IsMasterChanging_def ResetMaster_def Let_def
       split: prod.splits if_splits)

lemma preparing_steps: "manager_step\<^sup>*\<^sup>* mm mm' \<Longrightarrow> preparing mm \<Longrightarrow> preparing mm'"
  by (induction rule: rtranclp_induct) (auto dest: preparing_step)

lemma GetMasterInfo_rpc_preparing:
  "preparing mm \<Longrightarrow> CheckMasterBySvrID now svrid True (mm_storage mm) \<Longrightarrow>
     fst (GetMasterInfo_rpc now svrid mm) = MASTER_PREPARING"
  by (auto simp: preparing_def GetMasterInfo_rpc_def IsMasterChanging_def GetStatus_def Let_def)

text \<open>
  C24: when a node learns that the master has changed (the new master was not the unexpired master
  before), then whatever operations follow, as long as the agent monitor has not set a new status, a
  node that holds the mastership answers MASTER_PREPARING and not its own address.
\<close>

theorem new_master_prepares_first:
  assumes "SetMasterInfo now info mm = (OK, mm1)"
    and "\<not> CheckMasterBySvrID now (mi_svr_id info) True (mm_storage mm)"
    and "manager_step\<^sup>*\<^sup>* mm1 mm2" and "IsMaster now' svrid mm2"
  shows "fst (GetMasterInfo_rpc now' svrid mm2) = MASTER_PREPARING"
proof -
  have "preparing mm1"
    using assms(1,2) by (auto simp: SetMasterInfo_def preparing_def ResetMaster_def Let_def split: prod.splits)
  with assms(3) have "preparing mm2" by (rule preparing_steps)
  with assms(4) show ?thesis by (simp add: IsMaster_def GetMasterInfo_rpc_preparing)
qed

definition sample_manager :: mmanager where
  "sample_manager = \<lparr>mm_storage = MasterStorage_init, mm_comm = AgentMonitorComm_init, mm_members = []\<rparr>"

theorem new_master_prepares_first_witness:
  "\<exists>mm1. SetMasterInfo 0 (sample_master 1 0 7) sample_manager = (OK, mm1) \<and> IsMaster 0 7 mm1 \<and>
    fst (GetMasterInfo_rpc 0 7 mm1) = MASTER_PREPARING"
proof -
  obtain mm1 where s: "SetMasterInfo 0 (sample_master 1 0 7) sample_manager = (OK, mm1)" "IsMaster 0 7 mm1"
    by (simp add: SetMasterInfo_def SetMaster_def sample_manager_def MasterStorage_init_def sample_master_def
        MasterInfo_init_def CheckMasterBySvrID_def IsMaster_def IsTimeOut_def)
  have "fst (GetMasterInfo_rpc 0 7 mm1) = MASTER_PREPARING"
    by (rule new_master_prepares_first [OF s(1) _ _ s(2)])
       (simp_all add: CheckMasterBySvrID_def sample_manager_def MasterStorage_init_def MasterInfo_init_def)
  with s show ?thesis by blast
qed

end
