(* ===== verification/Event_Index.thy ===== *)
theory Event_Index
  imports Master_Storage
begin

text \<open>
  The index from GTIDs to file positions (\<^verbatim>\<open>core/storage/event_index.cpp\<close>) and the table of the
  last event of every server uuid (\<^verbatim>\<open>core/storage/event_uuid_handler.cpp\<close>). LevelDB is a parameter:
  a record of the calls the index makes, with the documented behaviour of an ordered store under the
  comparator of the index as the hypothesis \<open>leveldb_ok\<close>.
\<close>

section \<open>LevelDB\<close>

datatype ldb_status = Ldb_ok | Ldb_not_found | Ldb_error

text \<open>
  \<open>ldb_seek\<close> is \<^verbatim>\<open>NewIterator\<close> followed by \<^verbatim>\<open>Seek\<close>: \<open>None\<close> for a null iterator, \<open>Some None\<close> for an
  invalid one, and the entry it stands at otherwise.
\<close>

record 'd leveldb =
  ldb_put :: "string \<Rightarrow> bytes \<Rightarrow> 'd \<Rightarrow> ldb_status \<times> 'd"
  ldb_seek :: "'d \<Rightarrow> string \<Rightarrow> (string \<times> bytes) option option"
  ldb_get :: "'d \<Rightarrow> string \<Rightarrow> ldb_status \<times> bytes"
  ldb_delete :: "string \<Rightarrow> 'd \<Rightarrow> ldb_status \<times> 'd"

text \<open>The entries of an ordered store; keys the comparator equates are the same key.\<close>

type_synonym entries = "(string \<times> bytes) list"

definition kv_below :: "string \<Rightarrow> entries \<Rightarrow> entries" where
  "kv_below k es = filter (\<lambda>e. gtid_less (fst e) k) es"

definition kv_from :: "string \<Rightarrow> entries \<Rightarrow> entries" where
  "kv_from k es = filter (\<lambda>e. \<not> gtid_less (fst e) k) es"

definition kv_above :: "string \<Rightarrow> entries \<Rightarrow> entries" where
  "kv_above k es = filter (\<lambda>e. gtid_less k (fst e)) es"

definition kv_put :: "string \<Rightarrow> bytes \<Rightarrow> entries \<Rightarrow> entries" where
  "kv_put k v es = kv_below k es @ (k, v) # kv_above k es"

definition kv_delete :: "string \<Rightarrow> entries \<Rightarrow> entries" where
  "kv_delete k es = kv_below k es @ kv_above k es"

definition kv_ok :: "entries \<Rightarrow> bool" where
  "kv_ok es \<longleftrightarrow> sorted_wrt (\<lambda>a b. gtid_less (fst a) (fst b)) es"

definition leveldb_ok :: "'d leveldb \<Rightarrow> ('d \<Rightarrow> entries) \<Rightarrow> bool" where
  "leveldb_ok ldb view \<longleftrightarrow>
     (\<forall>d k v. kv_ok (view d) \<and>
        ldb_seek ldb d k = Some (case kv_from k (view d) of [] \<Rightarrow> None | e # _ \<Rightarrow> Some e) \<and>
        (case ldb_put ldb k v d of
           (Ldb_ok, d') \<Rightarrow> view d' = kv_put k v (view d)
         | (_, d') \<Rightarrow> view d' = view d) \<and>
        (case ldb_delete ldb k d of
           (Ldb_ok, d') \<Rightarrow> view d' = kv_delete k (view d)
         | (_, d') \<Rightarrow> view d' = view d))"

section \<open>The event index\<close>

datatype event_index_status = EI_DB_ERROR | EI_OK | EI_DATA_NOT_FOUND | EI_DATA_ERROR

definition SetGTIDIndex ::
  "'d leveldb \<Rightarrow> 'm codec \<Rightarrow> string \<Rightarrow> 'm \<Rightarrow> 'd \<Rightarrow> event_index_status \<times> 'd" where
  "SetGTIDIndex ldb c gtid data_info db =
     (case enc c data_info of
        None \<Rightarrow> (EI_DATA_ERROR, db)
      | Some buffer \<Rightarrow>
          (case ldb_put ldb gtid buffer db of (status, db) \<Rightarrow> (if status = Ldb_ok then EI_OK else EI_DB_ERROR, db)))"

text \<open>The message the caller passed in is replaced only when a stored one was parsed.\<close>

definition GetGTIDIndex ::
  "'d leveldb \<Rightarrow> 'm codec \<Rightarrow> string \<Rightarrow> 'm \<Rightarrow> bool \<Rightarrow> 'd \<Rightarrow> event_index_status \<times> 'm" where
  "GetGTIDIndex ldb c gtid data_info lower_bound db =
     (case ldb_seek ldb db gtid of
        None \<Rightarrow> (EI_DB_ERROR, data_info)
      | Some None \<Rightarrow> (EI_DATA_NOT_FOUND, data_info)
      | Some (Some (key, buffer)) \<Rightarrow>
          if key = gtid \<or> lower_bound \<and> GetUUIDByGTID key = GetUUIDByGTID gtid
          then (if buffer \<noteq> []
                then (case dec c buffer of
                        None \<Rightarrow> (EI_DATA_ERROR, data_info)
                      | Some m \<Rightarrow> (EI_OK, m))
                else (EI_DATA_NOT_FOUND, data_info))
          else (EI_DATA_NOT_FOUND, data_info))"

definition GetGTID :: "'d leveldb \<Rightarrow> 'm codec \<Rightarrow> string \<Rightarrow> 'm \<Rightarrow> 'd \<Rightarrow> event_index_status \<times> 'm" where
  "GetGTID ldb c gtid data_info db = GetGTIDIndex ldb c gtid data_info False db"

definition GetLowerBoundGTID :: "'d leveldb \<Rightarrow> 'm codec \<Rightarrow> string \<Rightarrow> 'm \<Rightarrow> 'd \<Rightarrow> event_index_status \<times> 'm" where
  "GetLowerBoundGTID ldb c gtid data_info db = GetGTIDIndex ldb c gtid data_info True db"

definition IsExist :: "'d leveldb \<Rightarrow> string \<Rightarrow> 'd \<Rightarrow> event_index_status" where
  "IsExist ldb gtid db = (if fst (ldb_get ldb db gtid) = Ldb_ok then EI_OK else EI_DATA_NOT_FOUND)"

definition DeleteGTIDIndex :: "'d leveldb \<Rightarrow> string \<Rightarrow> 'd \<Rightarrow> event_index_status \<times> 'd" where
  "DeleteGTIDIndex ldb gtid db =
     (case ldb_delete ldb gtid db of
        (status, db) \<Rightarrow> (if status = Ldb_ok \<or> status = Ldb_not_found then EI_OK else EI_DB_ERROR, db))"

section \<open>The uuid table\<close>

record uuid_handler =
  uh_map_uuid :: "(string, EventDataInfo) smap"
  uh_newest_info :: EventDataInfo

definition UUIDHandler_init :: uuid_handler where
  "UUIDHandler_init = \<lparr>uh_map_uuid = [], uh_newest_info = EventDataInfo_init\<rparr>"

definition info_less :: "EventDataInfo \<Rightarrow> EventDataInfo \<Rightarrow> bool" where
  "info_less info1 info2 \<longleftrightarrow> di_instance_id info1 < di_instance_id info2"

definition UpdateEventUUIDInfoByUUID :: "string \<Rightarrow> EventDataInfo \<Rightarrow> uuid_handler \<Rightarrow> int \<times> uuid_handler" where
  "UpdateEventUUIDInfoByUUID uuid data_info uh =
     (OK, uh\<lparr>uh_map_uuid := sm_put uuid data_info (uh_map_uuid uh), uh_newest_info := data_info\<rparr>)"

definition UpdateEventUUIDInfoByGTID :: "string \<Rightarrow> EventDataInfo \<Rightarrow> uuid_handler \<Rightarrow> int \<times> uuid_handler" where
  "UpdateEventUUIDInfoByGTID gtid data_info uh = UpdateEventUUIDInfoByUUID (GetUUIDByGTID gtid) data_info uh"

definition GetLastestUUIDPos :: "EventDataInfo \<Rightarrow> uuid_handler \<Rightarrow> int \<times> EventDataInfo" where
  "GetLastestUUIDPos info uh =
     (OK, fold (\<lambda>it info. if info_less info (snd it) then snd it else info) (uh_map_uuid uh) info)"

definition InitNewestInfo :: "uuid_handler \<Rightarrow> int \<times> uuid_handler" where
  "InitNewestInfo uh =
     (case GetLastestUUIDPos (uh_newest_info uh) uh of (ret, info) \<Rightarrow> (ret, uh\<lparr>uh_newest_info := info\<rparr>))"

definition GetLastestGTIDByUUID :: "string \<Rightarrow> uuid_handler \<Rightarrow> string" where
  "GetLastestGTIDByUUID uuid uh =
     (case map_of (uh_map_uuid uh) uuid of None \<Rightarrow> [] | Some info \<Rightarrow> di_gtid info)"

definition GetLastestGTIDByGTID :: "string \<Rightarrow> uuid_handler \<Rightarrow> string" where
  "GetLastestGTIDByGTID gtid uh = GetLastestGTIDByUUID (GetUUIDByGTID gtid) uh"

definition GetLastestGTIDEventByUUID :: "string \<Rightarrow> EventDataInfo \<Rightarrow> uuid_handler \<Rightarrow> int \<times> EventDataInfo" where
  "GetLastestGTIDEventByUUID uuid data_info uh =
     (case map_of (uh_map_uuid uh) uuid of None \<Rightarrow> (1, data_info) | Some info \<Rightarrow> (OK, info))"

definition GetLastestGTIDEventByGTID :: "string \<Rightarrow> EventDataInfo \<Rightarrow> uuid_handler \<Rightarrow> int \<times> EventDataInfo" where
  "GetLastestGTIDEventByGTID gtid data_info uh = GetLastestGTIDEventByUUID (GetUUIDByGTID gtid) data_info uh"

definition GetLastestUpdateGTID :: "uuid_handler \<Rightarrow> string" where
  "GetLastestUpdateGTID uh = di_gtid (uh_newest_info uh)"

definition GetLastestUpdateGTIDInfo :: "uuid_handler \<Rightarrow> int \<times> EventDataInfo" where
  "GetLastestUpdateGTIDInfo uh = (OK, uh_newest_info uh)"

definition UUID_GetLastInstanceID :: "uuid_handler \<Rightarrow> u64" where
  "UUID_GetLastInstanceID uh = di_instance_id (uh_newest_info uh)"

definition GetKeyForUUID :: string where
  "GetKeyForUUID = ''gtid_uuid''"

definition SerializeToEventInfoList :: "uuid_handler \<Rightarrow> EventDataInfo list" where
  "SerializeToEventInfoList uh = map snd (uh_map_uuid uh)"

definition ParseFromEventInfoList :: "EventDataInfo list \<Rightarrow> uuid_handler \<Rightarrow> int \<times> uuid_handler" where
  "ParseFromEventInfoList infos uh =
     (OK,
      fold (\<lambda>info uh.
          uh\<lparr>uh_map_uuid := sm_put (GetUUIDByGTID (di_gtid info)) info (uh_map_uuid uh),
             uh_newest_info := (if info_less (uh_newest_info uh) info then info else uh_newest_info uh)\<rparr>)
        infos (uh\<lparr>uh_map_uuid := []\<rparr>))"

text \<open>Flushing writes the list under its own key of the index, unless it is empty.\<close>

definition FlushEventUUIDInfo ::
  "'d leveldb \<Rightarrow> EventDataInfo list codec \<Rightarrow> uuid_handler \<Rightarrow> 'd \<Rightarrow> int \<times> EventDataInfo list \<times> 'd" where
  "FlushEventUUIDInfo ldb c uh db =
     (let infos = SerializeToEventInfoList uh
      in if infos = [] then (OK, infos, db)
         else case SetGTIDIndex ldb c GetKeyForUUID infos db of
           (status, db) \<Rightarrow> (if status \<noteq> EI_OK then FILE_FAIL else OK, infos, db))"

definition SerializeToBuffer ::
  "'d leveldb \<Rightarrow> EventDataInfo list codec \<Rightarrow> uuid_handler \<Rightarrow> 'd \<Rightarrow> int \<times> bytes \<times> 'd" where
  "SerializeToBuffer ldb c uh db =
     (case FlushEventUUIDInfo ldb c uh db of
        (ret, infos, db) \<Rightarrow>
          if ret \<noteq> 0 then (ret, [], db)
          else case enc c infos of None \<Rightarrow> (BUFFER_FAIL, [], db) | Some buffer \<Rightarrow> (OK, buffer, db))"

definition UUID_ParseFromString ::
  "EventDataInfo list codec \<Rightarrow> bytes \<Rightarrow> uuid_handler \<Rightarrow> int \<times> uuid_handler" where
  "UUID_ParseFromString c buffer uh =
     (if buffer = [] then (OK, uh)
      else case dec c buffer of
        None \<Rightarrow> (BUFFER_FAIL, uh)
      | Some infos \<Rightarrow> ParseFromEventInfoList infos uh)"

definition UUID_LoadFromCheckPoint ::
  "EventDataInfo list codec \<Rightarrow> EventData \<Rightarrow> uuid_handler \<Rightarrow> int \<times> uuid_handler" where
  "UUID_LoadFromCheckPoint c checkpointdata uh = UUID_ParseFromString c (ed_data checkpointdata) uh"

section \<open>The index is a dictionary ordered by GTID\<close>

lemma kv_ok_filter: "kv_ok es \<Longrightarrow> kv_ok (filter P es)"
  by (simp add: kv_ok_def sorted_wrt_filter)

lemma kv_split: "kv_ok es \<Longrightarrow> kv_below k es @ kv_from k es = es"
proof (induction es)
  case (Cons e es)
  then have IH: "kv_below k es @ kv_from k es = es" and e: "\<forall>b\<in>set es. gtid_less (fst e) (fst b)"
    by (auto simp: kv_ok_def)
  show ?case
  proof (cases "gtid_less (fst e) k")
    case False
    with e have "\<forall>b\<in>set es. \<not> gtid_less (fst b) k" by (auto simp: gtid_less_iff)
    then have "kv_below k es = []" "kv_from k es = es"
      by (auto simp: kv_below_def kv_from_def filter_empty_conv filter_id_conv)
    with False show ?thesis by (simp add: kv_below_def kv_from_def)
  qed (use IH in \<open>simp add: kv_below_def kv_from_def\<close>)
qed (simp add: kv_below_def kv_from_def)

lemma kv_ok_put: "kv_ok es \<Longrightarrow> kv_ok (kv_put k v es)"
  by (auto simp: kv_ok_def kv_put_def kv_below_def kv_above_def sorted_wrt_append sorted_wrt_filter gtid_less_iff)

lemma kv_ok_delete: "kv_ok es \<Longrightarrow> kv_ok (kv_delete k es)"
  by (auto simp: kv_ok_def kv_delete_def kv_below_def kv_above_def sorted_wrt_append sorted_wrt_filter gtid_less_iff)

text \<open>How the parts of a store compose.\<close>

lemma kv_parts:
  "\<not> gtid_less k k' \<Longrightarrow> kv_from k' (kv_above k es) = kv_above k es"
  "\<not> gtid_less k' k \<Longrightarrow> kv_from k' (kv_below k es) = []"
  "gtid_less k k' \<Longrightarrow> kv_from k' (kv_above k es) = kv_from k' es"
  "kv_from k' (kv_below k es) = kv_below k (kv_from k' es)"
  unfolding kv_from_def kv_above_def kv_below_def filter_filter filter_empty_conv
  by (auto simp: gtid_less_iff intro!: filter_cong)

lemma kv_from_append: "kv_from k (xs @ ys) = kv_from k xs @ kv_from k ys"
  by (simp add: kv_from_def)

lemma kv_from_Cons: "kv_from k ((k', v) # ys) = (if gtid_less k' k then kv_from k ys else (k', v) # kv_from k ys)"
  by (simp add: kv_from_def)

lemma kv_from_put: "kv_from k (kv_put k v es) = (k, v) # kv_above k es"
  by (simp add: kv_put_def kv_from_append kv_from_Cons kv_parts(1,2) gtid_less_iff)

text \<open>The entry stored under exactly this key, as the lookup of the index finds it.\<close>

definition kv_lookup :: "string \<Rightarrow> entries \<Rightarrow> bytes option" where
  "kv_lookup k es = (case kv_from k es of [] \<Rightarrow> None | e # _ \<Rightarrow> if fst e = k then Some (snd e) else None)"

lemma kv_lookup_put: "kv_lookup k (kv_put k v es) = Some v"
  by (simp add: kv_lookup_def kv_from_put)

lemma kv_from_put_greater: "gtid_less k k' \<Longrightarrow> kv_from k' (kv_put k v es) = kv_from k' es"
  by (simp add: kv_put_def kv_from_append kv_from_Cons kv_parts(2,3) gtid_less_iff)

lemma kv_from_put_less:
  "gtid_less k' k \<Longrightarrow> kv_from k' (kv_put k v es) = kv_below k (kv_from k' es) @ (k, v) # kv_above k es"
  by (simp add: kv_put_def kv_from_append kv_from_Cons kv_parts(1,4) gtid_less_iff)

lemma kv_lookup_put_other:
  assumes "kv_ok es" and "ParseGTID k' \<noteq> ParseGTID k"
  shows "kv_lookup k' (kv_put k v es) = kv_lookup k' es"
proof (cases "gtid_less k k'")
  case False
  then have lt: "gtid_less k' k" using assms(2) by (auto simp: gtid_less_iff)
  have es: "kv_from k' es = kv_below k (kv_from k' es) @ kv_from k (kv_from k' es)"
    using kv_split [of "kv_from k' es" k] kv_ok_filter [OF assms(1)] by (simp add: kv_from_def)
  show ?thesis
  proof (cases "kv_below k (kv_from k' es)")
    case Nil
    have "fst e \<noteq> k'" if "e \<in> set (kv_from k (kv_from k' es))" for e
      using that lt by (auto simp: kv_from_def gtid_less_iff)
    with Nil es show ?thesis using lt assms(2)
      by (auto simp: kv_lookup_def kv_from_put_less [OF lt] split: list.splits)
  next
    case (Cons e r)
    with es obtain t where "kv_from k' es = e # t" by auto
    with Cons show ?thesis by (simp add: kv_lookup_def kv_from_put_less [OF lt])
  qed
qed (simp add: kv_lookup_def kv_from_put_greater)

lemma GetGTID_lookup:
  assumes "leveldb_ok ldb view"
  shows "GetGTID ldb c gtid m db =
    (case kv_lookup gtid (view db) of
       None \<Rightarrow> (EI_DATA_NOT_FOUND, m)
     | Some buffer \<Rightarrow>
         if buffer = [] then (EI_DATA_NOT_FOUND, m)
         else case dec c buffer of None \<Rightarrow> (EI_DATA_ERROR, m) | Some m' \<Rightarrow> (EI_OK, m'))"
proof -
  have "ldb_seek ldb db gtid = Some (case kv_from gtid (view db) of [] \<Rightarrow> None | e # _ \<Rightarrow> Some e)"
    using assms by (simp add: leveldb_ok_def)
  then show ?thesis
    by (auto simp: GetGTID_def GetGTIDIndex_def kv_lookup_def split: list.splits option.splits)
qed

lemma SetGTIDIndex_OK:
  assumes "leveldb_ok ldb view" "SetGTIDIndex ldb c gtid m db = (EI_OK, db')"
  obtains b where "enc c m = Some b" "view db' = kv_put gtid b (view db)"
proof -
  from assms(2) obtain b where b: "enc c m = Some b" "ldb_put ldb gtid b db = (Ldb_ok, db')"
    by (auto simp: SetGTIDIndex_def split: option.splits prod.splits if_splits)
  have "case ldb_put ldb gtid b db of (Ldb_ok, d') \<Rightarrow> view d' = kv_put gtid b (view db) | (_, d') \<Rightarrow> view d' = view db"
    using assms(1) by (simp add: leveldb_ok_def)
  with b that show thesis by simp
qed

lemma leveldb_view_ok: "leveldb_ok ldb view \<Longrightarrow> kv_ok (view db)"
  by (simp add: leveldb_ok_def)

text \<open>Whatever a store returns, the entries of the other GTIDs are not touched.\<close>

lemma SetGTIDIndex_view:
  assumes "leveldb_ok ldb view" "SetGTIDIndex ldb c gtid m db = (status, db')"
  shows "view db' = view db \<or> (\<exists>b. view db' = kv_put gtid b (view db))"
proof (cases "enc c m")
  case None
  with assms(2) show ?thesis by (simp add: SetGTIDIndex_def)
next
  case (Some b)
  have "case ldb_put ldb gtid b db of (Ldb_ok, d') \<Rightarrow> view d' = kv_put gtid b (view db) | (_, d') \<Rightarrow> view d' = view db"
    using assms(1) by (simp add: leveldb_ok_def)
  with assms(2) Some show ?thesis by (auto simp: SetGTIDIndex_def split: prod.splits ldb_status.splits)
qed

lemma SetGTIDIndex_other:
  assumes "leveldb_ok ldb view" "SetGTIDIndex ldb c gtid m db = (status, db')" "ParseGTID gtid' \<noteq> ParseGTID gtid"
  shows "GetGTID ldb c' gtid' m1 db' = GetGTID ldb c' gtid' m1 db"
  using SetGTIDIndex_view [OF assms(1,2)] kv_lookup_put_other [OF leveldb_view_ok [OF assms(1)] assms(3)]
  by (auto simp: GetGTID_lookup [OF assms(1)])

lemma GetGTID_SetGTIDIndex:
  assumes "leveldb_ok ldb view" "codec_ok c" "\<And>b. enc c m = Some b \<Longrightarrow> b \<noteq> []"
    and "SetGTIDIndex ldb c gtid m db = (EI_OK, db')"
  shows "GetGTID ldb c gtid m0 db' = (EI_OK, m)"
    and "ParseGTID gtid' \<noteq> ParseGTID gtid \<Longrightarrow> GetGTID ldb c' gtid' m1 db' = GetGTID ldb c' gtid' m1 db"
proof -
  from SetGTIDIndex_OK [OF assms(1,4)] obtain b where b: "enc c m = Some b" "view db' = kv_put gtid b (view db)" .
  from assms(3) [OF b(1)] codec_okD [OF assms(2) b(1)] b(2)
  show "GetGTID ldb c gtid m0 db' = (EI_OK, m)"
    by (simp add: GetGTID_lookup [OF assms(1)] kv_lookup_put)
  show "ParseGTID gtid' \<noteq> ParseGTID gtid \<Longrightarrow> GetGTID ldb c' gtid' m1 db' = GetGTID ldb c' gtid' m1 db"
    using kv_lookup_put_other [OF leveldb_view_ok [OF assms(1)], of gtid' gtid b db] b(2)
    by (simp add: GetGTID_lookup [OF assms(1)])
qed

lemma kv_from_hd_least:
  assumes "kv_ok es" "kv_from k es = e # r" "x \<in> set es" "\<not> gtid_less (fst x) k"
  shows "\<not> gtid_less (fst x) (fst e)"
proof -
  have "sorted_wrt (\<lambda>a b. gtid_less (fst a) (fst b)) (e # r)"
    using assms(1,2) kv_ok_filter [of es "\<lambda>e. \<not> gtid_less (fst e) k"] by (simp add: kv_ok_def kv_from_def)
  moreover have "x \<in> set (kv_from k es)" using assms(3,4) by (simp add: kv_from_def)
  then have "x \<in> set (e # r)" by (simp only: assms(2))
  ultimately show ?thesis by (auto simp: gtid_less_iff)
qed

lemma GetLowerBoundGTID_OK:
  assumes "leveldb_ok ldb view" "GetLowerBoundGTID ldb c gtid m db = (EI_OK, m')"
  obtains key b where "(key, b) \<in> set (view db)" "dec c b = Some m'" "\<not> gtid_less key gtid"
    "GetUUIDByGTID key = GetUUIDByGTID gtid"
    "\<forall>x\<in>set (view db). \<not> gtid_less (fst x) gtid \<longrightarrow> \<not> gtid_less (fst x) key"
proof -
  have "ldb_seek ldb db gtid = Some (case kv_from gtid (view db) of [] \<Rightarrow> None | e # _ \<Rightarrow> Some e)"
    using assms(1) by (simp add: leveldb_ok_def)
  with assms(2) obtain key b r where k: "kv_from gtid (view db) = (key, b) # r" "dec c b = Some m'"
    "key = gtid \<or> GetUUIDByGTID key = GetUUIDByGTID gtid"
    by (auto simp: GetLowerBoundGTID_def GetGTIDIndex_def split: list.splits option.splits if_splits)
  have "(key, b) \<in> set (kv_from gtid (view db))" using k(1) by simp
  then have "(key, b) \<in> set (view db)" "\<not> gtid_less key gtid" by (auto simp: kv_from_def)
  moreover have "GetUUIDByGTID key = GetUUIDByGTID gtid" using k(3) by auto
  ultimately show thesis
    using kv_from_hd_least [OF leveldb_view_ok [OF assms(1)] k(1)] by (intro that [of key b] k(2)) auto
qed

text \<open>
  C22: the event index over an ordered store. After an entry was set, looking its GTID up returns it,
  lookups of every other GTID are unchanged, and a lower-bound lookup that succeeds returns the
  entry with the least indexed GTID that is not below the one asked for, of the same uuid.
\<close>

theorem EventIndex_correct:
  assumes "leveldb_ok ldb view" and "codec_ok c" and "\<forall>b. enc c info = Some b \<longrightarrow> b \<noteq> []"
    and "SetGTIDIndex ldb c gtid info db = (EI_OK, db')"
  shows "GetGTID ldb c gtid info0 db' = (EI_OK, info) \<and>
    (ParseGTID gtid' \<noteq> ParseGTID gtid \<longrightarrow> GetGTID ldb c gtid' info0 db' = GetGTID ldb c gtid' info0 db) \<and>
    (\<forall>info'. GetLowerBoundGTID ldb c gtid' info0 db' = (EI_OK, info') \<longrightarrow>
       (\<exists>key b. (key, b) \<in> set (view db') \<and> dec c b = Some info' \<and> EventComparator_Compare gtid' key \<le> 0 \<and>
          GetUUIDByGTID key = GetUUIDByGTID gtid' \<and>
          (\<forall>x\<in>set (view db'). EventComparator_Compare gtid' (fst x) \<le> 0 \<longrightarrow>
             EventComparator_Compare key (fst x) \<le> 0)))"
proof -
  have le: "EventComparator_Compare a b \<le> 0 \<longleftrightarrow> \<not> gtid_less b a" for a b
    using EventComparator_laws(2) [of a b] by (simp add: gtid_less_def) linarith
  have lb: "\<exists>key b. (key, b) \<in> set (view db') \<and> dec c b = Some info' \<and> EventComparator_Compare gtid' key \<le> 0 \<and>
      GetUUIDByGTID key = GetUUIDByGTID gtid' \<and>
      (\<forall>x\<in>set (view db'). EventComparator_Compare gtid' (fst x) \<le> 0 \<longrightarrow> EventComparator_Compare key (fst x) \<le> 0)"
    if "GetLowerBoundGTID ldb c gtid' info0 db' = (EI_OK, info')" for info'
    by (rule GetLowerBoundGTID_OK [OF assms(1) that]) (auto simp: le)
  have "GetGTID ldb c gtid info0 db' = (EI_OK, info)"
    by (rule GetGTID_SetGTIDIndex(1) [OF assms(1,2) _ assms(4)]) (simp add: assms(3))
  moreover have "GetGTID ldb c gtid' info0 db' = GetGTID ldb c gtid' info0 db" if "ParseGTID gtid' \<noteq> ParseGTID gtid"
    by (rule GetGTID_SetGTIDIndex(2) [OF assms(1,2) _ assms(4) that]) (simp add: assms(3))
  ultimately show ?thesis using lb by simp
qed

text \<open>An ordered store kept as the history of its updates, to show that the hypothesis can hold.\<close>

definition mem_view :: "(string \<times> bytes option) list \<Rightarrow> entries" where
  "mem_view h = fold (\<lambda>(k, u) es. case u of None \<Rightarrow> kv_delete k es | Some v \<Rightarrow> kv_put k v es) h []"

definition mem_ldb :: "(string \<times> bytes option) list leveldb" where
  "mem_ldb =
     \<lparr>ldb_put = (\<lambda>k v h. (Ldb_ok, h @ [(k, Some v)])),
      ldb_seek = (\<lambda>h k. Some (case kv_from k (mem_view h) of [] \<Rightarrow> None | e # _ \<Rightarrow> Some e)),
      ldb_get = (\<lambda>h k. case kv_lookup k (mem_view h) of None \<Rightarrow> (Ldb_not_found, []) | Some v \<Rightarrow> (Ldb_ok, v)),
      ldb_delete = (\<lambda>k h. (Ldb_ok, h @ [(k, None)]))\<rparr>"

lemma kv_ok_mem_view: "kv_ok (mem_view h)"
proof -
  have "kv_ok es \<Longrightarrow> kv_ok (fold (\<lambda>(k, u) es. case u of None \<Rightarrow> kv_delete k es | Some v \<Rightarrow> kv_put k v es) h es)" for es
    by (induction h arbitrary: es) (auto simp: kv_ok_put kv_ok_delete split: option.splits)
  from this [of "[]"] show ?thesis by (simp add: mem_view_def kv_ok_def)
qed

lemma leveldb_ok_mem: "leveldb_ok mem_ldb mem_view"
  using kv_ok_mem_view by (simp add: leveldb_ok_def mem_ldb_def) (simp add: mem_view_def)

definition unit_codec :: "'m \<Rightarrow> 'm codec" where
  "unit_codec m = \<lparr>enc = (\<lambda>x. if x = m then Some [1] else None), dec = (\<lambda>b. if b = [1] then Some m else None)\<rparr>"

lemma codec_ok_unit: "codec_ok (unit_codec m)"
  by (simp add: codec_ok_def unit_codec_def)

theorem EventIndex_correct_witness:
  "\<exists>db'. SetGTIDIndex mem_ldb (unit_codec (5 :: nat)) ''u:1'' 5 [] = (EI_OK, db') \<and>
    GetGTID mem_ldb (unit_codec (5 :: nat)) ''u:1'' 0 db' = (EI_OK, 5)"
proof -
  obtain db' where s: "SetGTIDIndex mem_ldb (unit_codec (5 :: nat)) ''u:1'' 5 [] = (EI_OK, db')"
    by (simp add: SetGTIDIndex_def mem_ldb_def unit_codec_def)
  have "\<forall>b. enc (unit_codec (5 :: nat)) 5 = Some b \<longrightarrow> b \<noteq> []" by (simp add: unit_codec_def)
  from EventIndex_correct [OF leveldb_ok_mem codec_ok_unit this s, of 0 "''u:2''"] s show ?thesis by blast
qed

section \<open>The uuid table survives a checkpoint\<close>

text \<open>
  Each uuid has the info of an event of that uuid, and the newest info is the one with the largest
  instance id of the table.
\<close>

definition uh_ok :: "uuid_handler \<Rightarrow> bool" where
  "uh_ok uh \<longleftrightarrow> sm_ok (uh_map_uuid uh) \<and>
     (\<forall>e\<in>set (uh_map_uuid uh). fst e = GetUUIDByGTID (di_gtid (snd e))) \<and>
     (if uh_map_uuid uh = [] then uh_newest_info uh = EventDataInfo_init
      else uh_newest_info uh \<in> snd ` set (uh_map_uuid uh) \<and> 0 < di_instance_id (uh_newest_info uh) \<and>
        (\<forall>e\<in>set (uh_map_uuid uh). snd e = uh_newest_info uh \<or>
           di_instance_id (snd e) < di_instance_id (uh_newest_info uh)))"

lemma uh_ok_init [simp]: "uh_ok UUIDHandler_init"
  by (simp add: uh_ok_def UUIDHandler_init_def)

text \<open>Recording an event with a larger instance id keeps the invariant.\<close>

lemma uh_ok_Update:
  assumes "uh_ok uh" and "UUID_GetLastInstanceID uh < di_instance_id info"
    and "GetUUIDByGTID (di_gtid info) = GetUUIDByGTID gtid"
  shows "uh_ok (snd (UpdateEventUUIDInfoByGTID gtid info uh))"
proof -
  let ?m = "uh_map_uuid uh"
  have s: "set (sm_put (GetUUIDByGTID gtid) info ?m) \<subseteq> insert (GetUUIDByGTID gtid, info) (set ?m)"
    by (rule set_sm_put_subset)
  have lt: "di_instance_id (snd e) < di_instance_id info" if "e \<in> set ?m" for e
    using assms(1,2) that by (cases "?m = []") (auto simp: uh_ok_def UUID_GetLastInstanceID_def)
  have "map_of (sm_put (GetUUIDByGTID gtid) info ?m) (GetUUIDByGTID gtid) = Some info" by simp
  then have i: "info \<in> snd ` set (sm_put (GetUUIDByGTID gtid) info ?m)" by (force dest!: map_of_SomeD intro: image_eqI [where x = "(GetUUIDByGTID gtid, info)"])
  have "0 < di_instance_id info" by (rule order.strict_trans1 [OF word_zero_le assms(2)])
  with assms(1,3) s i lt show ?thesis
    by (auto simp: uh_ok_def UpdateEventUUIDInfoByGTID_def UpdateEventUUIDInfoByUUID_def)
qed

lemma sm_put_last: "\<forall>e\<in>set m. fst e < k \<Longrightarrow> sm_put k v m = m @ [(k, v)]"
  by (induction m) auto

lemma fold_sm_put_sorted:
  "sm_ok (acc @ m) \<Longrightarrow> fold (\<lambda>e. sm_put (fst e) (snd e)) m acc = acc @ m"
proof (induction m arbitrary: acc)
  case (Cons e m)
  then have "sm_put (fst e) (snd e) acc = acc @ [e]"
    by (intro trans [OF sm_put_last]) (auto simp: sm_ok_def sorted_wrt_append)
  with Cons show ?case by simp
qed simp

lemma ParseFromEventInfoList_parts:
  "snd (ParseFromEventInfoList infos uh) =
     \<lparr>uh_map_uuid = fold (\<lambda>info. sm_put (GetUUIDByGTID (di_gtid info)) info) infos [],
      uh_newest_info = fold (\<lambda>info newest. if info_less newest info then info else newest) infos (uh_newest_info uh)\<rparr>"
proof -
  have "fold (\<lambda>info uh. uh\<lparr>uh_map_uuid := sm_put (GetUUIDByGTID (di_gtid info)) info (uh_map_uuid uh),
        uh_newest_info := (if info_less (uh_newest_info uh) info then info else uh_newest_info uh)\<rparr>) infos uh =
      \<lparr>uh_map_uuid = fold (\<lambda>info. sm_put (GetUUIDByGTID (di_gtid info)) info) infos (uh_map_uuid uh),
       uh_newest_info = fold (\<lambda>info newest. if info_less newest info then info else newest) infos (uh_newest_info uh)\<rparr>"
    for uh :: uuid_handler
    by (induction infos arbitrary: uh) (simp_all cong: if_cong)
  then show ?thesis by (simp add: ParseFromEventInfoList_def)
qed

lemma fold_newest:
  assumes "\<forall>x\<in>set xs. x = n \<or> info_less x n" and "i = n \<or> info_less i n" and "n \<in> set xs \<or> i = n"
  shows "fold (\<lambda>info newest. if info_less newest info then info else newest) xs i = n"
  using assms
proof (induction xs arbitrary: i)
  case (Cons x xs)
  have "\<not> info_less n y" if "y = n \<or> info_less y n" for y using that by (auto simp: info_less_def)
  with Cons show ?case by (auto simp: info_less_def)
qed simp

lemma ParseFromEventInfoList_Serialize:
  assumes "uh_ok uh"
  shows "ParseFromEventInfoList (SerializeToEventInfoList uh) UUIDHandler_init = (OK, uh)"
proof (cases "uh_map_uuid uh = []")
  case True
  then show ?thesis
    using assms by (cases uh) (simp add: uh_ok_def ParseFromEventInfoList_def SerializeToEventInfoList_def
        UUIDHandler_init_def)
next
  case False
  let ?m = "uh_map_uuid uh"
  have k: "fst e = GetUUIDByGTID (di_gtid (snd e))" if "e \<in> set ?m" for e
    using assms that by (simp add: uh_ok_def)
  have "fold (\<lambda>info. sm_put (GetUUIDByGTID (di_gtid info)) info) (map snd ?m) [] =
      fold (\<lambda>e. sm_put (fst e) (snd e)) ?m []"
    unfolding fold_map by (rule fold_cong [OF refl refl]) (simp add: k)
  also have "\<dots> = ?m" using fold_sm_put_sorted [of "[]" ?m] assms by (simp add: uh_ok_def)
  finally have m: "fold (\<lambda>info. sm_put (GetUUIDByGTID (di_gtid info)) info) (map snd ?m) [] = ?m" .
  have n: "fold (\<lambda>info newest. if info_less newest info then info else newest) (map snd ?m) EventDataInfo_init =
      uh_newest_info uh"
    using assms False by (intro fold_newest) (auto simp: uh_ok_def info_less_def EventDataInfo_init_def)
  have "fst (ParseFromEventInfoList (map snd ?m) UUIDHandler_init) = OK"
    by (simp add: ParseFromEventInfoList_def)
  moreover have "snd (ParseFromEventInfoList (map snd ?m) UUIDHandler_init) = uh"
    using m n by (cases uh) (simp add: ParseFromEventInfoList_parts UUIDHandler_init_def)
  ultimately show ?thesis by (simp add: SerializeToEventInfoList_def prod_eq_iff)
qed

text \<open>
  C23: the uuid table written into a file header restores the table. Serializing the table and
  loading the buffer into a fresh handler gives the same table and the same newest event, and every
  recorded event keeps the invariant under which this holds.
\<close>

theorem uuid_table_roundtrip:
  assumes "uh_ok uh" and "codec_ok c" and "enc c [] = Some []"
    and "\<forall>infos b. infos \<noteq> [] \<longrightarrow> enc c infos = Some b \<longrightarrow> b \<noteq> []"
    and "SerializeToBuffer ldb c uh db = (OK, buffer, db')"
  shows "UUID_ParseFromString c buffer UUIDHandler_init = (OK, uh) \<and>
    (UUID_GetLastInstanceID uh < di_instance_id info \<longrightarrow> di_gtid info = gtid \<longrightarrow>
       uh_ok (snd (UpdateEventUUIDInfoByGTID gtid info uh)))"
proof -
  from assms(5) have b: "enc c (SerializeToEventInfoList uh) = Some buffer"
    by (auto simp: SerializeToBuffer_def FlushEventUUIDInfo_def Let_def split: prod.splits if_splits option.splits)
  note p = ParseFromEventInfoList_Serialize [OF assms(1)]
  have "UUID_ParseFromString c buffer UUIDHandler_init = (OK, uh)"
  proof (cases "SerializeToEventInfoList uh = []")
    case True
    with b assms(3) p show ?thesis
      by (simp add: UUID_ParseFromString_def ParseFromEventInfoList_def UUIDHandler_init_def)
  next
    case False
    with b assms(4) codec_okD [OF assms(2) b] p show ?thesis by (simp add: UUID_ParseFromString_def)
  qed
  with uh_ok_Update [OF assms(1)] show ?thesis by simp
qed

definition list_codec :: "EventDataInfo \<Rightarrow> EventDataInfo list codec" where
  "list_codec m = \<lparr>enc = (\<lambda>x. if x = [] then Some [] else if x = [m] then Some [1] else None),
     dec = (\<lambda>b. if b = [] then Some [] else if b = [1] then Some [m] else None)\<rparr>"

definition sample_info1 :: EventDataInfo where
  "sample_info1 = EventDataInfo_init\<lparr>di_gtid := ''u:1'', di_instance_id := 1\<rparr>"

definition sample_uh :: uuid_handler where
  "sample_uh = \<lparr>uh_map_uuid = [(''u'', sample_info1)], uh_newest_info = sample_info1\<rparr>"

lemma GetUUID_sample: "GetUUIDByGTID ''u:1'' = ''u''" "GetUUIDByGTID ''v:1'' = ''v''"
  by (simp_all add: GetUUIDByGTID_def)

lemma uh_ok_sample: "uh_ok sample_uh"
  by (simp add: uh_ok_def sample_uh_def sample_info1_def GetUUID_sample sm_ok_def EventDataInfo_init_def)

theorem uuid_table_roundtrip_witness:
  "\<exists>buffer db'. SerializeToBuffer mem_ldb (list_codec sample_info1) sample_uh [] = (OK, buffer, db') \<and>
    UUID_ParseFromString (list_codec sample_info1) buffer UUIDHandler_init = (OK, sample_uh) \<and>
    uh_ok (snd (UpdateEventUUIDInfoByGTID ''v:1'' (sample_info1\<lparr>di_gtid := ''v:1'', di_instance_id := 2\<rparr>) sample_uh))"
proof -
  let ?c = "list_codec sample_info1"
  obtain buffer db' where s: "SerializeToBuffer mem_ldb ?c sample_uh [] = (OK, buffer, db')"
    by (simp add: SerializeToBuffer_def FlushEventUUIDInfo_def SerializeToEventInfoList_def sample_uh_def
        SetGTIDIndex_def mem_ldb_def list_codec_def)
  have c: "codec_ok ?c" "enc ?c [] = Some []" "\<forall>infos b. infos \<noteq> [] \<longrightarrow> enc ?c infos = Some b \<longrightarrow> b \<noteq> []"
    by (auto simp: codec_ok_def list_codec_def)
  from uuid_table_roundtrip [OF uh_ok_sample c s, of "sample_info1\<lparr>di_gtid := ''v:1'', di_instance_id := 2\<rparr>" "''v:1''"] s
  show ?thesis by (auto simp: UUID_GetLastInstanceID_def sample_uh_def sample_info1_def)
qed

end
