(* ===== verification/Event_Storage.thy ===== *)
theory Event_Storage
  imports Event_Index
begin

text \<open>
  The event storage (\<^verbatim>\<open>core/storage/event_storage.cpp\<close>): the event files, the GTID index and the uuid
  table kept together. Its mutex makes every operation one step. The result \<open>None\<close> is an operation
  without a defined result: an aborted open, or a loop that ran out of turns.
\<close>

section \<open>State\<close>

text \<open>The environment: the libraries behind the storage and the configuration values it reads.\<close>

record 'd senv =
  sv_ldb :: "'d leveldb"
  sv_event :: "EventData codec"
  sv_info :: "EventDataInfo codec"
  sv_infos :: "EventDataInfo list codec"
  sv_master :: "MasterInfo codec"
  sv_data_dir :: string
  sv_cwd_is_dir :: "string \<Rightarrow> bool"
  sv_max_event_file_size :: u32
  sv_max_delete_num :: u32
  sv_checkpoint_period :: u32
  sv_lease_time :: u32
  sv_ext_lease_time :: u32

record 'd estore =
  es_fm :: sfm
  es_db :: 'd
  es_uuid :: uuid_handler
  es_checkpoint_id :: u64
  es_checkpoint_data :: "(string, EventDataInfo) smap"

definition EventStorage_init :: "'d senv \<Rightarrow> 'd \<Rightarrow> fs \<Rightarrow> 'd estore option" where
  "EventStorage_init env db s = do {
     fm \<leftarrow> EventFileManager_init (sv_cwd_is_dir env) (sv_data_dir env) True s;
     Some \<lparr>es_fm = fm, es_db = db, es_uuid = UUIDHandler_init, es_checkpoint_id = -1, es_checkpoint_data = []\<rparr>
   }"

text \<open>
  Restarting keeps the checkpoint fields: only the three helpers are built anew. The database is the
  one that is found when the index directory is opened again.
\<close>

definition Restart :: "'d senv \<Rightarrow> 'd \<Rightarrow> 'd estore \<Rightarrow> fs \<Rightarrow> (int \<times> 'd estore) option" where
  "Restart env db es s = do {
     fm \<leftarrow> EventFileManager_init (sv_cwd_is_dir env) (sv_data_dir env) True s;
     Some (OK, es\<lparr>es_fm := fm, es_db := db, es_uuid := UUIDHandler_init\<rparr>)
   }"

definition GetLastestCheckPointInstanceID :: "'d estore \<Rightarrow> u64" where
  "GetLastestCheckPointInstanceID es = es_checkpoint_id es"

definition SetInstanceID :: "u64 \<Rightarrow> 'd estore \<Rightarrow> 'd estore" where
  "SetInstanceID instanceid es = es\<lparr>es_checkpoint_id := instanceid\<rparr>"

definition GetNewestGTID :: "'d estore \<Rightarrow> string" where
  "GetNewestGTID es = GetLastestUpdateGTID (es_uuid es)"

definition GetNewestGTIDInfo :: "'d estore \<Rightarrow> int \<times> EventDataInfo" where
  "GetNewestGTIDInfo es = GetLastestUpdateGTIDInfo (es_uuid es)"

definition GetLastInstanceID :: "'d estore \<Rightarrow> u64" where
  "GetLastInstanceID es = UUID_GetLastInstanceID (es_uuid es)"

definition GetLastGTIDByUUID :: "string \<Rightarrow> 'd estore \<Rightarrow> string" where
  "GetLastGTIDByUUID uuid es = GetLastestGTIDByUUID uuid (es_uuid es)"

definition GetLastGTIDByGTID :: "string \<Rightarrow> 'd estore \<Rightarrow> string" where
  "GetLastGTIDByGTID gtid es = GetLastestGTIDByGTID gtid (es_uuid es)"

text \<open>The oldest id arrives as a C \<^verbatim>\<open>int\<close> and is converted back to 64 bits.\<close>

definition GetCurrentInstanceInterval :: "'d estore \<Rightarrow> u64" where
  "GetCurrentInstanceInterval es =
     (let last_instanceid = UUID_GetLastInstanceID (es_uuid es);
          oldest_instanceid = (of_int (GetOldestInstanceIDofFile (es_fm es)) :: u64)
      in if last_instanceid < oldest_instanceid then 0 else last_instanceid - oldest_instanceid)"

section \<open>File headers and switching files\<close>

definition GetFileHeader ::
  "'d senv \<Rightarrow> MasterInfo \<Rightarrow> EventDataInfo \<Rightarrow> 'd estore \<Rightarrow> int \<times> EventData option \<times> 'd estore" where
  "GetFileHeader env master_info eventdatainfo es =
     (case SerializeToBuffer (sv_ldb env) (sv_infos env) (es_uuid es) (es_db es) of
        (ret, uuidbuffer, db) \<Rightarrow>
          let es = es\<lparr>es_db := db\<rparr>
          in if ret \<noteq> OK then (ret, None, es)
             else case enc (sv_master env) master_info of
               None \<Rightarrow> (BUFFER_FAIL, None, es)
             | Some master_data \<Rightarrow>
                 (OK, Some \<lparr>ed_gtid = [], ed_data = uuidbuffer, ed_checksum = 0,
                    ed_instance_id = UUID_GetLastInstanceID (es_uuid es), ed_master_data = master_data,
                    ed_event_data_file = di_file_name eventdatainfo\<rparr>, es))"

definition SwitchNewFile ::
  "'d senv \<Rightarrow> EventData \<Rightarrow> bool \<Rightarrow> EventDataInfo \<Rightarrow> 'd estore \<Rightarrow> fs
     \<Rightarrow> (int \<times> EventDataInfo \<times> 'd estore \<times> fs) option" where
  "SwitchNewFile env header write_footer data_info es s =
     (case (if write_footer
            then (case EFM_WriteData (sv_event env) header data_info True (es_fm es) s of
                    (ret, data_info, fm, s) \<Rightarrow> (ret, data_info, es\<lparr>es_fm := fm\<rparr>, s))
            else (OK, data_info, es, s)) of
        (ret, data_info, es, s) \<Rightarrow>
          if ret \<noteq> 0 then Some (ret, data_info, es, s)
          else do {
            (_, fm, s) \<leftarrow> SwitchNewWriteFile (ed_instance_id header) (es_fm es) s;
            (case EFM_WriteData (sv_event env) header data_info True fm s of
               (ret, data_info, fm, s) \<Rightarrow>
                 let es = es\<lparr>es_fm := fm\<rparr>
                 in Some (ret, data_info, if ret \<noteq> 0 then es else SetInstanceID (ed_instance_id header) es, s))
          })"

definition CheckAndSwitchFile ::
  "'d senv \<Rightarrow> MasterInfo \<Rightarrow> bool \<Rightarrow> 'd estore \<Rightarrow> fs \<Rightarrow> (int \<times> 'd estore \<times> fs) option" where
  "CheckAndSwitchFile env master_info force es s =
     (let data_info = GetWriteFileInfo (es_fm es) EventDataInfo_init
      in if \<not> force \<or> di_offset data_info > ucast (sv_max_event_file_size env)
         then (case GetFileHeader env master_info data_info es of
                 (ret, Some header, es) \<Rightarrow>
                   if ret = 0
                   then map_option (\<lambda>(ret, _, es, s). (ret, es, s)) (SwitchNewFile env header True EventDataInfo_init es s)
                   else Some (ret, es, s)
               | (ret, None, es) \<Rightarrow> Some (ret, es, s))
         else Some (OK, es, s))"

definition CheckPointDone ::
  "'d senv \<Rightarrow> MasterInfo \<Rightarrow> 'd estore \<Rightarrow> fs \<Rightarrow> ('d estore \<times> fs) option" where
  "CheckPointDone env master_info es s =
     (if es_checkpoint_data es \<noteq> []
      then do {
        (_, es, s) \<leftarrow> CheckAndSwitchFile env master_info True es s;
        Some (es\<lparr>es_checkpoint_data := []\<rparr>, s)
      }
      else Some (es, s))"

section \<open>Adding events\<close>

definition RealCheckGTID ::
  "'d senv \<Rightarrow> MasterInfo \<Rightarrow> string \<Rightarrow> EventDataInfo \<Rightarrow> 'd estore \<Rightarrow> fs
     \<Rightarrow> (int \<times> EventDataInfo \<times> 'd estore \<times> fs) option" where
  "RealCheckGTID env master_info gtid info es s =
     (if es_checkpoint_data es = []
      then map_option (\<lambda>(es, s). (DATA_EMPTY, info, es, s)) (CheckPointDone env master_info es s)
      else case map_of (es_checkpoint_data es) gtid of
        None \<Rightarrow> map_option (\<lambda>(es, s). (DATA_EMPTY, info, es, s)) (CheckPointDone env master_info es s)
      | Some found \<Rightarrow> Some (OK, found, es, s))"

definition AddEvent ::
  "'d senv \<Rightarrow> MasterInfo \<Rightarrow> string \<Rightarrow> EventData \<Rightarrow> bool \<Rightarrow> 'd estore \<Rightarrow> fs \<Rightarrow> (int \<times> 'd estore \<times> fs) option" where
  "AddEvent env master_info gtid event_data switch_file es s =
     (if ed_instance_id event_data \<le> UUID_GetLastInstanceID (es_uuid es) then Some (EVENT_EXIST, es, s)
      else do {
        (ret, data_info, es, s) \<leftarrow> RealCheckGTID env master_info gtid EventDataInfo_init es s;
        if ret \<noteq> DATA_EMPTY \<and> ret \<noteq> OK then Some (ret, es, s)
        else do {
          let write_file = (ret \<noteq> 0);
          (case EFM_WriteData (sv_event env) event_data data_info write_file (es_fm es) s of
             (ret, data_info, fm, s) \<Rightarrow>
               let es = es\<lparr>es_fm := fm\<rparr>
               in if ret = 0
                  then
                    let es = es\<lparr>es_uuid := snd (UpdateEventUUIDInfoByGTID gtid data_info (es_uuid es))\<rparr>
                    in (case SetGTIDIndex (sv_ldb env) (sv_info env) gtid data_info (es_db es) of
                          (status, db) \<Rightarrow>
                            let es = es\<lparr>es_db := db\<rparr>
                            in if status \<noteq> EI_OK then Some (FILE_FAIL, es, s)
                               else if write_file \<and> switch_file
                               then map_option (\<lambda>(_, es, s). (ret, es, s)) (CheckAndSwitchFile env master_info True es s)
                               else Some (ret, es, s))
                  else Some (ret, es, s))
        }
      })"

section \<open>Looking events up\<close>

definition real_get ::
  "(string \<Rightarrow> EventDataInfo \<Rightarrow> 'd \<Rightarrow> event_index_status \<times> EventDataInfo) \<Rightarrow> string \<Rightarrow> EventDataInfo \<Rightarrow> 'd estore
     \<Rightarrow> int \<times> EventDataInfo" where
  "real_get lookup gtid data_info es =
     (case GetLastestGTIDEventByGTID gtid data_info (es_uuid es) of
        (ret, data_info) \<Rightarrow>
          if ret = OK \<and> di_gtid data_info = gtid then (OK, data_info)
          else case lookup gtid data_info (es_db es) of
            (status, data_info) \<Rightarrow>
              (if status = EI_OK then OK else if status = EI_DATA_NOT_FOUND then DATA_EMPTY else FILE_FAIL, data_info))"

definition RealGetGTIDInfo :: "'d senv \<Rightarrow> string \<Rightarrow> EventDataInfo \<Rightarrow> 'd estore \<Rightarrow> int \<times> EventDataInfo" where
  "RealGetGTIDInfo env gtid data_info es = real_get (GetGTID (sv_ldb env) (sv_info env)) gtid data_info es"

definition RealGetLowerBoundGTIDInfo ::
  "'d senv \<Rightarrow> string \<Rightarrow> EventDataInfo \<Rightarrow> 'd estore \<Rightarrow> int \<times> EventDataInfo" where
  "RealGetLowerBoundGTIDInfo env gtid data_info es =
     real_get (GetLowerBoundGTID (sv_ldb env) (sv_info env)) gtid data_info es"

text \<open>A fresh file manager looks at the record itself.\<close>

definition CheckGtidInData ::
  "'d senv \<Rightarrow> string \<Rightarrow> EventDataInfo \<Rightarrow> fs \<Rightarrow> (int \<times> fs) option" where
  "CheckGtidInData env gtid data_info s =
     (if gtid = [] \<or> di_gtid data_info = [] \<or> di_file_name data_info = []
      then do {
        fm \<leftarrow> EventFileManager_init (sv_cwd_is_dir env) (sv_data_dir env) True s;
        (ret, fm, s) \<leftarrow> OpenOldestFile fm s;
        if ret \<noteq> 0 then Some (ret, s)
        else do {
          init \<leftarrow> IsInitFile (GetReadFileInfo fm EventDataInfo_init) fm;
          Some (if init then OK else DATA_EMPTY, s)
        }
      }
      else do {
        fm \<leftarrow> EventFileManager_init (sv_cwd_is_dir env) (sv_data_dir env) False s;
        (ret, fm, s) \<leftarrow> SetReadPos data_info fm s;
        if ret \<noteq> 0 then Some (ret, s)
        else do {
          (ret, event_data, _, fm, s) \<leftarrow> EFM_ReadData (sv_event env) EventDataInfo_init fm s;
          (case event_data of
             None \<Rightarrow> Some (ret, s)
           | Some ed \<Rightarrow>
               if ret \<noteq> 0 then Some (ret, s)
               else do {
                 (ret, _, _, gtid_list) \<leftarrow> ParseEventList (ed_data ed) False [];
                 if ret \<noteq> 0 then Some (ret, s)
                 else Some (if gtid \<in> set gtid_list then OK else DATA_EMPTY, s)
               })
        }
      })"

definition GetGTIDInfo ::
  "'d senv \<Rightarrow> string \<Rightarrow> EventDataInfo \<Rightarrow> bool \<Rightarrow> 'd estore \<Rightarrow> fs \<Rightarrow> (int \<times> EventDataInfo \<times> fs) option" where
  "GetGTIDInfo env gtid data_info lower_bound es s =
     (if lower_bound
      then (case RealGetLowerBoundGTIDInfo env gtid data_info es of
              (ret, data_info) \<Rightarrow>
                if ret = OK
                then map_option (\<lambda>(ret, s). (ret, data_info, s)) (CheckGtidInData env gtid data_info s)
                else Some (ret, data_info, s))
      else (case RealGetGTIDInfo env gtid data_info es of (ret, data_info) \<Rightarrow> Some (ret, data_info, s)))"

definition ReSet :: "'d senv \<Rightarrow> string \<Rightarrow> 'd estore \<Rightarrow> fs \<Rightarrow> (int \<times> 'd estore \<times> fs) option" where
  "ReSet env gtid es s =
     (if gtid = [] then map_option (\<lambda>(ret, fm, s). (ret, es\<lparr>es_fm := fm\<rparr>, s)) (OpenOldestFile (es_fm es) s)
      else case RealGetLowerBoundGTIDInfo env gtid EventDataInfo_init es of
        (ret, data_info) \<Rightarrow>
          if ret = DATA_EMPTY then Some (GTID_FAIL, es, s)
          else if ret = OK
          then map_option (\<lambda>(ret, fm, s). (ret, es\<lparr>es_fm := fm\<rparr>, s)) (SetReadPos data_info (es_fm es) s)
          else Some (FILE_FAIL, es, s))"

text \<open>
  Headers, the records without a GTID, are skipped. Waiting for the condition variable changes no
  state and the call then returns DATA_EMPTY. Every turn reads a record, so the number of bytes of
  the files is enough fuel.
\<close>

definition fm_bytes :: "sfm \<Rightarrow> fs \<Rightarrow> nat" where
  "fm_bytes fm s =
     sum_list (map (\<lambda>f. case map_of (fs_names s) (fm_data_dir fm @ f) of
         None \<Rightarrow> 0 | Some ino \<Rightarrow> length (fs_data s ino)) (fm_file_list fm))"

fun GetEvent_loop ::
  "nat \<Rightarrow> EventData codec \<Rightarrow> sfm \<Rightarrow> fs \<Rightarrow> (int \<times> EventData option \<times> sfm \<times> fs) option" where
  "GetEvent_loop 0 c fm s = None"
| "GetEvent_loop (Suc fuel) c fm s = do {
     (ret, data, _, fm, s) \<leftarrow> EFM_ReadData c EventDataInfo_init fm s;
     (case data of
        Some d \<Rightarrow> if ret = OK \<and> ed_gtid d = [] then GetEvent_loop fuel c fm s else Some (ret, Some d, fm, s)
      | None \<Rightarrow> Some (ret, None, fm, s))
   }"

definition GetEvent :: "'d senv \<Rightarrow> 'd estore \<Rightarrow> fs \<Rightarrow> (int \<times> EventData option \<times> 'd estore \<times> fs) option" where
  "GetEvent env es s =
     map_option (\<lambda>(ret, data, fm, s). (ret, data, es\<lparr>es_fm := fm\<rparr>, s))
       (GetEvent_loop (Suc (fm_bytes (es_fm es) s)) (sv_event env) (es_fm es) s)"

text \<open>The largest of the given GTIDs, by instance id, that the stored events contain.\<close>

fun GetLastGtid_loop ::
  "'d senv \<Rightarrow> 'd estore \<Rightarrow> string list \<Rightarrow> int \<Rightarrow> EventDataInfo \<Rightarrow> fs \<Rightarrow> (int \<times> EventDataInfo \<times> fs) option" where
  "GetLastGtid_loop env es [] ret max_data_info s = Some (ret, max_data_info, s)"
| "GetLastGtid_loop env es (gtid # gtids) ret max_data_info s =
     (if di_gtid max_data_info \<noteq> [] \<and> fst (ParseGTID (di_gtid max_data_info)) = fst (ParseGTID gtid) \<and>
         snd (ParseGTID (di_gtid max_data_info)) > snd (ParseGTID gtid)
      then GetLastGtid_loop env es gtids ret max_data_info s
      else case RealGetLowerBoundGTIDInfo env gtid EventDataInfo_init es of
        (find_ret, data_info) \<Rightarrow>
          if find_ret = OK \<and> info_less max_data_info data_info
          then do {
            (check_ret, s) \<leftarrow> CheckGtidInData env gtid data_info s;
            if check_ret = 0 then GetLastGtid_loop env es gtids OK data_info s
            else GetLastGtid_loop env es gtids ret max_data_info s
          }
          else GetLastGtid_loop env es gtids ret max_data_info s)"

definition GetLastGtid ::
  "'d senv \<Rightarrow> string list \<Rightarrow> string \<Rightarrow> 'd estore \<Rightarrow> fs \<Rightarrow> (int \<times> string \<times> fs) option" where
  "GetLastGtid env gtid_list gtid es s =
     (if gtid_list = []
      then do {
        (check_ret, s) \<leftarrow> CheckGtidInData env [] EventDataInfo_init s;
        Some (if check_ret = 0 then OK else DATA_EMPTY, if check_ret = 0 then [] else gtid, s)
      }
      else do {
        (ret, max_data_info, s) \<leftarrow> GetLastGtid_loop env es gtid_list DATA_EMPTY EventDataInfo_init s;
        Some (ret, if ret = OK then di_gtid max_data_info else gtid, s)
      })"

section \<open>Checkpoints\<close>

text \<open>
  Re-reading the files from a checkpoint: the infos of all events but the last are collected, and the
  write position is set to the start of the last record (or, when only a header was read, behind it).
\<close>

fun InitCheckPointDataFile_loop ::
  "nat \<Rightarrow> 'd senv \<Rightarrow> EventDataInfo \<Rightarrow> 'd estore \<Rightarrow> fs \<Rightarrow> (int \<times> 'd estore \<times> fs) option" where
  "InitCheckPointDataFile_loop 0 env last_data_info es s = None"
| "InitCheckPointDataFile_loop (Suc fuel) env last_data_info es s = do {
     (ret, data, data_info, fm, s) \<leftarrow> EFM_ReadData (sv_event env) EventDataInfo_init (es_fm es) s;
     let es = es\<lparr>es_fm := fm\<rparr>;
     if ret \<noteq> 0
     then (if di_offset last_data_info = 0
           then (if ret = DATA_EMPTY
                 then map_option (\<lambda>(_, fm, s). (OK, es\<lparr>es_fm := fm\<rparr>, s)) (SetWritePos data_info True fm s)
                 else Some (ret, es, s))
           else map_option (\<lambda>(_, fm, s). (OK, es\<lparr>es_fm := fm\<rparr>, s)) (SetWritePos last_data_info True fm s))
     else
       let es = (if di_gtid last_data_info \<noteq> []
                 then es\<lparr>es_checkpoint_data :=
                        sm_put (di_gtid last_data_info) last_data_info (es_checkpoint_data es)\<rparr>
                 else es)
       in InitCheckPointDataFile_loop fuel env data_info es s
   }"

definition InitCheckPointDataFile ::
  "'d senv \<Rightarrow> string \<Rightarrow> 'd estore \<Rightarrow> fs \<Rightarrow> (int \<times> 'd estore \<times> fs) option" where
  "InitCheckPointDataFile env checkpointfile es s =
     (if checkpointfile = []
      then map_option (\<lambda>(_, fm, s). (0, es\<lparr>es_fm := fm\<rparr>, s)) (SwitchNewWriteFile 0 (es_fm es) s)
      else do {
        (ret, fm, s) \<leftarrow> SetReadPos (EventDataInfo_init\<lparr>di_file_name := checkpointfile, di_offset := 0\<rparr>) (es_fm es) s;
        let es = es\<lparr>es_fm := fm\<rparr>;
        if ret \<noteq> 0 then Some (ret, es, s)
        else InitCheckPointDataFile_loop (Suc (fm_bytes fm s)) env EventDataInfo_init
               (es\<lparr>es_checkpoint_data := []\<rparr>) s
      })"

definition EventStorage_LoadFromCheckPoint ::
  "'d senv \<Rightarrow> EventData \<Rightarrow> string \<Rightarrow> 'd estore \<Rightarrow> fs \<Rightarrow> (int \<times> 'd estore \<times> fs) option" where
  "EventStorage_LoadFromCheckPoint env checkpoint_data checkpoint_file es s =
     (case UUID_LoadFromCheckPoint (sv_infos env) checkpoint_data (es_uuid es) of
        (ret, uh) \<Rightarrow>
          let es = es\<lparr>es_uuid := uh\<rparr>
          in if ret \<noteq> 0 then Some (ret, es, s)
             else do {
               (ret, es, s) \<leftarrow> InitCheckPointDataFile env checkpoint_file es s;
               Some (ret,
                 if ret = 0 \<and> ed_event_data_file checkpoint_data \<noteq> []
                 then SetInstanceID (ed_instance_id checkpoint_data) es else es, s)
             })"

text \<open>
  Deleting old files removes the index entries of their events first. The reading loop ends at the
  end of the file or at a record that does not parse.
\<close>

fun DelCheckPointFile_read ::
  "nat \<Rightarrow> 'd senv \<Rightarrow> sfm \<Rightarrow> 'd \<Rightarrow> fs \<Rightarrow> (int \<times> sfm \<times> 'd \<times> fs) option" where
  "DelCheckPointFile_read 0 env fm db s = None"
| "DelCheckPointFile_read (Suc fuel) env fm db s = do {
     (ret, data, fm, s) \<leftarrow> EFM_ReadDataFromFile (sv_event env) fm s;
     if ret = DATA_EMPTY \<or> ret = DATA_ERR then Some (OK, fm, db, s)
     else case data of
       Some d \<Rightarrow>
         if ed_gtid d \<noteq> []
         then (case DeleteGTIDIndex (sv_ldb env) (ed_gtid d) db of
                 (status, db) \<Rightarrow>
                   if status \<noteq> EI_OK then Some (FILE_FAIL, fm, db, s)
                   else DelCheckPointFile_read fuel env fm db s)
         else DelCheckPointFile_read fuel env fm db s
     | None \<Rightarrow> DelCheckPointFile_read fuel env fm db s
   }"

fun DelCheckPointFile_files ::
  "'d senv \<Rightarrow> string list \<Rightarrow> sfm \<Rightarrow> 'd estore \<Rightarrow> fs \<Rightarrow> (int \<times> 'd estore \<times> fs) option" where
  "DelCheckPointFile_files env [] fm es s = Some (OK, es, s)"
| "DelCheckPointFile_files env (file_name # names) fm es s = do {
     (ret, fm, s) \<leftarrow> SetReadPos (EventDataInfo_init\<lparr>di_file_name := file_name, di_offset := 0\<rparr>) fm s;
     if ret \<noteq> 0 then Some (ret, es, s)
     else do {
       let size = (case st_fd (fm_read fm) of None \<Rightarrow> 0 | Some (ino, _) \<Rightarrow> length (fs_data s ino));
       (ret, fm, db, s) \<leftarrow> DelCheckPointFile_read (Suc size) env fm (es_db es) s;
       let es = es\<lparr>es_db := db\<rparr>;
       if ret \<noteq> OK then Some (ret, es, s)
       else DelCheckPointFile_files env names fm (es\<lparr>es_fm := SFM_RemoveFile file_name (es_fm es)\<rparr>) s
     }
   }"

definition DelCheckPointFile ::
  "'d senv \<Rightarrow> string \<Rightarrow> u32 \<Rightarrow> string list \<Rightarrow> 'd estore \<Rightarrow> fs \<Rightarrow> (int \<times> string list \<times> 'd estore \<times> fs) option" where
  "DelCheckPointFile env maxfilename mintime delfiles es s = do {
     fm \<leftarrow> EventFileManager_init (sv_cwd_is_dir env) (sv_data_dir env) True s;
     (case SFM_DelCheckPointFile (unat (sv_max_delete_num env)) maxfilename mintime delfiles fm s of
        (ret, delfiles, fm) \<Rightarrow>
          if ret = 0
          then map_option (\<lambda>(ret, es, s). (ret, delfiles, es, s)) (DelCheckPointFile_files env delfiles fm es s)
          else Some (OK, delfiles, es, s))
   }"

section \<open>The invariant\<close>

definition event_file_name :: "u64 \<Rightarrow> string" where
  "event_file_name instanceid = EVENT_PATH_PREF @ CHR ''-'' # show_nat (unat instanceid)"

lemma event_file_name_inj [simp]: "event_file_name i = event_file_name j \<longleftrightarrow> i = j"
  by (simp add: event_file_name_def word_unat_eq_iff)

text \<open>
  The libraries behave as documented, every path can be opened, the writer stands at the end of its
  file, the uuid table agrees with the index, no restart is being replayed, and no file is named after
  an instance that is still to come.
\<close>

definition es_inv :: "'d senv \<Rightarrow> ('d \<Rightarrow> entries) \<Rightarrow> 'd estore \<Rightarrow> fs \<Rightarrow> bool" where
  "es_inv env view es s \<longleftrightarrow>
     leveldb_ok (sv_ldb env) view \<and> codec_ok (sv_info env) \<and> (\<forall>i b. enc (sv_info env) i = Some b \<longrightarrow> b \<noteq> []) \<and>
     fm_inv (sv_event env) (es_fm es, s) \<and> fm_prefix (es_fm es) = EVENT_PATH_PREF \<and> (\<forall>p. \<not> fs_deny s p) \<and>
     uh_ok (es_uuid es) \<and>
     (\<forall>e\<in>set (uh_map_uuid (es_uuid es)). ParseGTID (di_gtid (snd e)) \<noteq> ParseGTID GetKeyForUUID \<and>
        GetGTID (sv_ldb env) (sv_info env) (di_gtid (snd e)) EventDataInfo_init (es_db es) = (EI_OK, snd e)) \<and>
     es_checkpoint_data es = [] \<and>
     (\<forall>i > GetLastInstanceID es. map_of (fs_names s) (fm_data_dir (es_fm es) @ event_file_name i) = None)"

text \<open>An event is stored: the index has its GTID, and the position it gives holds the event.\<close>

definition event_stored :: "'d senv \<Rightarrow> 'd estore \<Rightarrow> fs \<Rightarrow> EventData \<Rightarrow> bool" where
  "event_stored env es s ed \<longleftrightarrow> ParseGTID (ed_gtid ed) \<noteq> ParseGTID GetKeyForUUID \<and>
     (\<exists>info. GetGTID (sv_ldb env) (sv_info env) (ed_gtid ed) EventDataInfo_init (es_db es) = (EI_OK, info) \<and>
        di_gtid info = ed_gtid ed \<and> di_instance_id info = ed_instance_id ed \<and> di_checksum info = ed_checksum ed \<and>
        fm_get (sv_event env) info (es_fm es, s) = Some ed)"

subsection \<open>Switching files\<close>

lemma SwitchNewWriteFile_fresh:
  assumes "fm_inv c (fm, s)" "fm_prefix fm = EVENT_PATH_PREF" "\<not> fs_deny s (fm_data_dir fm @ event_file_name i)"
    and "map_of (fs_names s) (fm_data_dir fm @ event_file_name i) = None"
  obtains fm' s' where "SwitchNewWriteFile i fm s = Some (OK, fm', s')" "fm_inv c (fm', s')" "fs_extends s s'"
    "fm_data_dir fm' = fm_data_dir fm" "fm_prefix fm' = EVENT_PATH_PREF"
    "\<forall>p. map_of (fs_names s') p = (if p = fm_data_dir fm @ event_file_name i then Some (fs_next s) else map_of (fs_names s) p)"
proof -
  let ?name = "event_file_name i" and ?path = "fm_data_dir fm @ event_file_name i"
  from assms(1) have ok: "fm_ok fm" "fm_writer fm s" by (auto simp: fm_inv_def)
  have n: "GenFileName i fm = Some ?name"
    using assms(2) by (simp add: GenFileName_ok event_file_name_def)
  have ne: "st_path (fm_write fm) \<noteq> ?name" using ok(2) assms(4) by (auto simp: fm_writer_def)
  define s' where "s' = snd (fs_open ?path s)"
  have o: "fs_open ?path s = (Some (fs_next s), s')" using assms(3,4) by (simp add: fs_open_def s'_def)
  define st where "st = (fm_write fm)\<lparr>st_fd := Some (fs_next s, 0), st_path := ?name\<rparr>"
  define fm' where "fm' = (GetNewFile ?name fm)\<lparr>fm_write := st\<rparr>"
  have d: "fs_data s' (fs_next s) = []" using fs_open_Some(3) [OF o] assms(4) by simp
  have sw: "SwitchNewWriteFile i fm s = Some (OK, fm', s')"
    using ok(1) ne o d
    by (simp add: SwitchNewWriteFile_def OpenNewWriteFile_def n GetNewFile_def SetFileWritePos_def SetFilePos_def
        ReOpen_def OpenDB_def CloseDB_def storage_seek_def fm_ok_def fm'_def st_def Let_def)
  have "fm_ok fm'" by (rule fm_ok_OpenNewWriteFile [OF ok(1) sw [unfolded SwitchNewWriteFile_def]])
  moreover have e: "fs_extends s s'" by (rule fs_extends_open [OF o])
  moreover have "fm_writer fm' s'"
    using fs_open_Some(1) [OF o] assms(3) d e
    by (simp add: fm_writer_def fm'_def st_def GetNewFile_def fs_extends_def event_file_name_def)
  ultimately have "fm_inv c (fm', s')" using assms(1) by (auto simp: fm_inv_def fs_extends_def)
  with sw e that show thesis
    using assms(2) fs_open_Some(1,4) [OF o] by (auto simp: fm'_def GetNewFile_def)
qed

text \<open>Writing a record with the event file manager, whatever it returns.\<close>

lemma EFM_WriteData_SFM:
  "EFM_WriteData c ed di True fm s = (ret, di', fm', s') \<Longrightarrow>
     \<exists>di0. SFM_WriteData c ed di fm s = (ret, di0, fm', s') \<and>
       di' = (if ret = OK then CopyDataToDataInfo ed di0 else di0)"
  by (auto simp: EFM_WriteData_def split: prod.splits)

lemma EFM_WriteData_inv:
  assumes "fm_inv c (fm, s)" "EFM_WriteData c ed di True fm s = (ret, di', fm', s')"
  shows "fm_inv c (fm', s')" "fs_extends s s'" "fs_names s' = fs_names s" "fm_data_dir fm' = fm_data_dir fm"
    "fm_prefix fm' = fm_prefix fm"
proof -
  from EFM_WriteData_SFM [OF assms(2)] obtain di0 where w: "SFM_WriteData c ed di fm s = (ret, di0, fm', s')" by blast
  have ok: "fm_ok fm" "fm_writer fm s" using assms(1) by (auto simp: fm_inv_def)
  note e = SFM_WriteData_extends [OF ok w]
  show "fm_inv c (fm', s')" by (rule fm_inv_WriteData [OF assms(1) w])
  show "fs_extends s s'" "fs_names s' = fs_names s" "fm_data_dir fm' = fm_data_dir fm" "fm_prefix fm' = fm_prefix fm"
    using e by auto
qed

text \<open>Two kinds of change keep the invariant and the stored events: files that grow, and the flush of the uuid table.\<close>

definition es_keeps :: "'d senv \<Rightarrow> ('d \<Rightarrow> entries) \<Rightarrow> 'd estore \<Rightarrow> fs \<Rightarrow> 'd estore \<Rightarrow> fs \<Rightarrow> bool" where
  "es_keeps env view es s es' s' \<longleftrightarrow> es_inv env view es' s' \<and> es_uuid es' = es_uuid es \<and>
     fm_data_dir (es_fm es') = fm_data_dir (es_fm es) \<and> (\<forall>ed. event_stored env es s ed \<longrightarrow> event_stored env es' s' ed)"

lemma es_keeps_refl: "es_inv env view es s \<Longrightarrow> es_keeps env view es s es s"
  by (simp add: es_keeps_def)

lemma es_keeps_trans:
  "es_keeps env view es s es1 s1 \<Longrightarrow> es_keeps env view es1 s1 es2 s2 \<Longrightarrow> es_keeps env view es s es2 s2"
  by (simp add: es_keeps_def)

lemma es_keeps_files:
  assumes "es_inv env view es s" "fm_inv (sv_event env) (fm', s')" "fs_extends s s'"
    and "fm_data_dir fm' = fm_data_dir (es_fm es)" "fm_prefix fm' = EVENT_PATH_PREF"
    and "\<forall>i > GetLastInstanceID es. map_of (fs_names s') (fm_data_dir (es_fm es) @ event_file_name i) = None"
  shows "es_keeps env view es s (es\<lparr>es_fm := fm'\<rparr>) s'"
proof -
  have "fs_ok s" using assms(1) by (auto simp: es_inv_def fm_inv_def)
  then have "fm_get c info (fm', s') = Some ed" if "fm_get c info (es_fm es, s) = Some ed" for c info and ed :: EventData
    using fm_get_extends [OF that _ assms(3,4)] by simp
  then show ?thesis
    using assms by (auto simp: es_keeps_def es_inv_def event_stored_def fs_extends_def GetLastInstanceID_def)
qed

lemma es_keeps_write:
  assumes "es_inv env view es s" "EFM_WriteData (sv_event env) ed di True (es_fm es) s = (ret, di', fm', s')"
  shows "es_keeps env view es s (es\<lparr>es_fm := fm'\<rparr>) s'" "fs_names s' = fs_names s"
proof -
  have "fm_inv (sv_event env) (es_fm es, s)" using assms(1) by (simp add: es_inv_def)
  note w = EFM_WriteData_inv [OF this assms(2)]
  show "es_keeps env view es s (es\<lparr>es_fm := fm'\<rparr>) s'"
    using w assms(1) by (intro es_keeps_files) (auto simp: es_inv_def)
  show "fs_names s' = fs_names s" by (rule w(3))
qed

lemma es_keeps_flush:
  assumes "es_inv env view es s" "SetGTIDIndex (sv_ldb env) c GetKeyForUUID m (es_db es) = (status, db')"
  shows "es_keeps env view es s (es\<lparr>es_db := db'\<rparr>) s"
proof -
  have "leveldb_ok (sv_ldb env) view" using assms(1) by (simp add: es_inv_def)
  note o = SetGTIDIndex_other [OF this assms(2)]
  have "event_stored env (es\<lparr>es_db := db'\<rparr>) s ed" if "event_stored env es s ed" for ed
    using that by (simp add: event_stored_def o)
  with assms(1) show ?thesis by (simp add: es_keeps_def es_inv_def GetLastInstanceID_def o)
qed

lemma es_keeps_SetInstanceID:
  assumes "es_keeps env view es s es1 s1" shows "es_keeps env view es s (SetInstanceID i es1) s1"
proof -
  have "es_inv env view (SetInstanceID i es1) s1 = es_inv env view es1 s1"
    "event_stored env (SetInstanceID i es1) s1 = event_stored env es1 s1"
    by (auto simp: es_inv_def event_stored_def SetInstanceID_def GetLastInstanceID_def fun_eq_iff)
  with assms show ?thesis by (simp add: es_keeps_def SetInstanceID_def)
qed

lemma GetFileHeader_keeps:
  assumes "es_inv env view es s" "GetFileHeader env mi di es = (ret, header, es')"
  shows "es_keeps env view es s es' s" "es_fm es' = es_fm es"
    "header = Some h \<Longrightarrow> ret = 0 \<and> ed_instance_id h = GetLastInstanceID es"
proof -
  obtain r buf db where sb: "SerializeToBuffer (sv_ldb env) (sv_infos env) (es_uuid es) (es_db es) = (r, buf, db)"
    using prod_cases3 by blast
  then have es': "es' = es\<lparr>es_db := db\<rparr>"
    using assms(2) by (auto simp: GetFileHeader_def Let_def split: if_splits option.splits)
  have "db = es_db es \<or> (\<exists>m status. SetGTIDIndex (sv_ldb env) (sv_infos env) GetKeyForUUID m (es_db es) = (status, db))"
    using sb by (auto simp: SerializeToBuffer_def FlushEventUUIDInfo_def Let_def split: if_splits prod.splits option.splits)
  then show "es_keeps env view es s es' s"
    using es' es_keeps_refl [OF assms(1)] es_keeps_flush [OF assms(1)] by auto
  show "es_fm es' = es_fm es" using es' by simp
  show "header = Some h \<Longrightarrow> ret = 0 \<and> ed_instance_id h = GetLastInstanceID es"
    using assms(2) sb by (auto simp: GetFileHeader_def GetLastInstanceID_def Let_def split: if_splits option.splits)
qed

lemma SwitchNewFile_keeps:
  assumes "es_inv env view es s" "ed_instance_id h = GetLastInstanceID es"
    and "map_of (fs_names s) (fm_data_dir (es_fm es) @ event_file_name (GetLastInstanceID es)) = None"
  obtains ret di es' s' where "SwitchNewFile env h True EventDataInfo_init es s = Some (ret, di, es', s')"
    "es_keeps env view es s es' s'"
proof -
  obtain r di fm1 s1 where w: "EFM_WriteData (sv_event env) h EventDataInfo_init True (es_fm es) s = (r, di, fm1, s1)"
    using prod_cases4 by blast
  let ?es1 = "es\<lparr>es_fm := fm1\<rparr>"
  note k1 = es_keeps_write [OF assms(1) w]
  have inv1: "es_inv env view ?es1 s1" and dir: "fm_data_dir fm1 = fm_data_dir (es_fm es)"
    using k1(1) by (auto simp: es_keeps_def)
  show thesis
  proof (cases "r = 0")
    case False
    with w that k1(1) show ?thesis by (simp add: SwitchNewFile_def)
  next
    case True
    have f: "fm_inv (sv_event env) (fm1, s1)" "fm_prefix fm1 = EVENT_PATH_PREF"
      "\<not> fs_deny s1 (fm_data_dir fm1 @ event_file_name (GetLastInstanceID es))"
      "map_of (fs_names s1) (fm_data_dir fm1 @ event_file_name (GetLastInstanceID es)) = None"
      using inv1 assms(3) k1(2) dir by (auto simp: es_inv_def)
    obtain fm2 s2 where sw: "SwitchNewWriteFile (GetLastInstanceID es) fm1 s1 = Some (OK, fm2, s2)"
      "fm_inv (sv_event env) (fm2, s2)" "fs_extends s1 s2" "fm_data_dir fm2 = fm_data_dir fm1"
      "fm_prefix fm2 = EVENT_PATH_PREF"
      "\<forall>p. map_of (fs_names s2) p = (if p = fm_data_dir fm1 @ event_file_name (GetLastInstanceID es)
         then Some (fs_next s1) else map_of (fs_names s1) p)"
      by (rule SwitchNewWriteFile_fresh [OF f])
    have k2: "es_keeps env view ?es1 s1 (?es1\<lparr>es_fm := fm2\<rparr>) s2"
    proof (rule es_keeps_files [OF inv1 sw(2,3)])
      show "\<forall>i > GetLastInstanceID ?es1. map_of (fs_names s2) (fm_data_dir (es_fm ?es1) @ event_file_name i) = None"
        using sw(6) inv1 by (auto simp: es_inv_def GetLastInstanceID_def)
    qed (use sw(4,5) in simp_all)
    obtain r3 di3 fm3 s3 where w3: "EFM_WriteData (sv_event env) h di True fm2 s2 = (r3, di3, fm3, s3)"
      using prod_cases4 by blast
    have k3: "es_keeps env view (?es1\<lparr>es_fm := fm2\<rparr>) s2 (?es1\<lparr>es_fm := fm3\<rparr>) s3"
      using es_keeps_write [of env view "?es1\<lparr>es_fm := fm2\<rparr>" s2] k2 w3 by (simp add: es_keeps_def)
    have "es_keeps env view es s (?es1\<lparr>es_fm := fm3\<rparr>) s3"
      using k1(1) k2 k3 es_keeps_trans by blast
    moreover have "es_keeps env view es s (SetInstanceID i (?es1\<lparr>es_fm := fm3\<rparr>)) s3" for i
      using calculation by (rule es_keeps_SetInstanceID)
    ultimately show ?thesis
      using that w w3 sw(1) True assms(2) by (simp add: SwitchNewFile_def Let_def split: if_splits)
  qed
qed

lemma CheckAndSwitchFile_keeps:
  assumes "es_inv env view es s"
    and "map_of (fs_names s) (fm_data_dir (es_fm es) @ event_file_name (GetLastInstanceID es)) = None"
  obtains ret es' s' where "CheckAndSwitchFile env mi force es s = Some (ret, es', s')" "es_keeps env view es s es' s'"
proof -
  let ?di = "GetWriteFileInfo (es_fm es) EventDataInfo_init"
  obtain r h es1 where g: "GetFileHeader env mi ?di es = (r, h, es1)" using prod_cases3 by blast
  note k = GetFileHeader_keeps [OF assms(1) g]
  show thesis
  proof (cases "\<not> force \<or> di_offset ?di > ucast (sv_max_event_file_size env)")
    case False
    with that es_keeps_refl [OF assms(1)] show ?thesis by (simp add: CheckAndSwitchFile_def Let_def)
  next
    case True
    show ?thesis
    proof (cases h)
      case None
      with True g that k(1) show ?thesis by (simp add: CheckAndSwitchFile_def Let_def)
    next
      case (Some hd)
      note r = k(3) [OF Some]
      have u: "es_inv env view es1 s" "GetLastInstanceID es1 = GetLastInstanceID es"
        using k(1) by (auto simp: es_keeps_def GetLastInstanceID_def)
      obtain ret di es' s' where sw: "SwitchNewFile env hd True EventDataInfo_init es1 s = Some (ret, di, es', s')"
        "es_keeps env view es1 s es' s'"
        by (rule SwitchNewFile_keeps [OF u(1)]) (use r u(2) k(2) assms(2) in auto)
      have "es_keeps env view es s es' s'" by (rule es_keeps_trans [OF k(1) sw(2)])
      with True g Some r sw(1) that show ?thesis by (simp add: CheckAndSwitchFile_def Let_def)
    qed
  qed
qed

section \<open>Adding events\<close>

lemma CheckAndSwitchFile_uuid:
  "CheckAndSwitchFile env mi force es s = Some (ret, es', s') \<Longrightarrow>
     es_uuid es' = es_uuid es \<and> es_checkpoint_data es' = es_checkpoint_data es"
  by (auto simp: CheckAndSwitchFile_def SwitchNewFile_def GetFileHeader_def SetInstanceID_def Let_def bind_eq_Some_conv
      split: if_splits prod.splits option.splits)

lemma RealCheckGTID_uuid:
  "RealCheckGTID env mi gtid di es s = Some (ret, di', es', s') \<Longrightarrow> es_uuid es' = es_uuid es"
  by (auto simp: RealCheckGTID_def CheckPointDone_def bind_eq_Some_conv split: if_splits option.splits
      dest!: CheckAndSwitchFile_uuid)

lemma EFM_WriteData_info:
  "EFM_WriteData c ed di wr fm s = (OK, di', fm', s') \<Longrightarrow>
     di_gtid di' = ed_gtid ed \<and> di_instance_id di' = ed_instance_id ed \<and> di_checksum di' = ed_checksum ed"
  by (auto simp: EFM_WriteData_def CopyDataToDataInfo_def split: prod.splits if_splits)

text \<open>The steps of a successful \<^verbatim>\<open>AddEvent\<close>.\<close>

lemma AddEvent_OK_steps:
  assumes "AddEvent env mi gtid ed sw es s = Some (OK, es', s')"
  obtains r0 di es0 s0 di' fm1 s1 db1 where
    "UUID_GetLastInstanceID (es_uuid es) < ed_instance_id ed"
    "RealCheckGTID env mi gtid EventDataInfo_init es s = Some (r0, di, es0, s0)" "r0 = DATA_EMPTY \<or> r0 = OK"
    "EFM_WriteData (sv_event env) ed di (r0 \<noteq> 0) (es_fm es0) s0 = (OK, di', fm1, s1)"
    "SetGTIDIndex (sv_ldb env) (sv_info env) gtid di' (es_db es0) = (EI_OK, db1)"
    "let es1 = es0\<lparr>es_fm := fm1, es_uuid := snd (UpdateEventUUIDInfoByGTID gtid di' (es_uuid es0)), es_db := db1\<rparr>
     in (es', s') = (es1, s1) \<or> (\<exists>r. r0 \<noteq> 0 \<and> CheckAndSwitchFile env mi True es1 s1 = Some (r, es', s'))"
proof -
  from assms have lt: "UUID_GetLastInstanceID (es_uuid es) < ed_instance_id ed"
    by (auto simp: AddEvent_def not_le split: if_splits)
  with assms obtain r0 di es0 s0 where rc: "RealCheckGTID env mi gtid EventDataInfo_init es s = Some (r0, di, es0, s0)"
    by (auto simp: AddEvent_def bind_eq_Some_conv split: if_splits)
  obtain r1 di' fm1 s1 where w: "EFM_WriteData (sv_event env) ed di (r0 \<noteq> 0) (es_fm es0) s0 = (r1, di', fm1, s1)"
    using prod_cases4 by blast
  obtain st db1 where i: "SetGTIDIndex (sv_ldb env) (sv_info env) gtid di' (es_db es0) = (st, db1)" by fastforce
  have "\<not> ed_instance_id ed \<le> UUID_GetLastInstanceID (es_uuid es)" using lt by (simp add: not_le)
  with assms rc w i have "r0 = DATA_EMPTY \<or> r0 = OK" "r1 = OK" "st = EI_OK"
    "let es1 = es0\<lparr>es_fm := fm1, es_uuid := snd (UpdateEventUUIDInfoByGTID gtid di' (es_uuid es0)), es_db := db1\<rparr>
     in (es', s') = (es1, s1) \<or> (\<exists>r. r0 \<noteq> 0 \<and> CheckAndSwitchFile env mi True es1 s1 = Some (r, es', s'))"
    by (auto simp: AddEvent_def Let_def split: if_splits)
  with that [OF lt rc _ _ _] w i show thesis by simp
qed

lemma AddEvent_OK_newest:
  assumes "AddEvent env mi gtid ed sw es s = Some (OK, es', s')"
  shows "GetLastInstanceID es' = ed_instance_id ed" "GetNewestGTID es' = ed_gtid ed"
    "di_checksum (snd (GetNewestGTIDInfo es')) = ed_checksum ed"
    "UUID_GetLastInstanceID (es_uuid es) < ed_instance_id ed"
proof -
  have "GetLastInstanceID es' = ed_instance_id ed \<and> GetNewestGTID es' = ed_gtid ed \<and>
    di_checksum (snd (GetNewestGTIDInfo es')) = ed_checksum ed \<and> UUID_GetLastInstanceID (es_uuid es) < ed_instance_id ed"
  proof (rule AddEvent_OK_steps [OF assms])
    fix r0 di es0 s0 di' fm1 s1 db1
    assume lt: "UUID_GetLastInstanceID (es_uuid es) < ed_instance_id ed"
      and w: "EFM_WriteData (sv_event env) ed di (r0 \<noteq> 0) (es_fm es0) s0 = (OK, di', fm1, s1)"
      and e: "let es1 = es0\<lparr>es_fm := fm1, es_uuid := snd (UpdateEventUUIDInfoByGTID gtid di' (es_uuid es0)), es_db := db1\<rparr>
        in (es', s') = (es1, s1) \<or> (\<exists>r. r0 \<noteq> 0 \<and> CheckAndSwitchFile env mi True es1 s1 = Some (r, es', s'))"
    from e have "uh_newest_info (es_uuid es') = di'"
      by (auto simp: Let_def UpdateEventUUIDInfoByGTID_def UpdateEventUUIDInfoByUUID_def dest!: CheckAndSwitchFile_uuid)
    with EFM_WriteData_info [OF w] lt show ?thesis
      by (simp add: GetLastInstanceID_def UUID_GetLastInstanceID_def GetNewestGTID_def GetLastestUpdateGTID_def
          GetNewestGTIDInfo_def GetLastestUpdateGTIDInfo_def)
  qed
  then show "GetLastInstanceID es' = ed_instance_id ed" "GetNewestGTID es' = ed_gtid ed"
    "di_checksum (snd (GetNewestGTIDInfo es')) = ed_checksum ed"
    "UUID_GetLastInstanceID (es_uuid es) < ed_instance_id ed" by auto
qed

text \<open>
  Adding an event is idempotent and moves the storage forward. A successful call makes the event
  the newest one and raises the last instance id to that of the event; calling it again with this or
  an earlier instance id, as a replay of the log does, returns EVENT_EXIST and changes nothing.
\<close>

theorem AddEvent_idempotent:
  assumes "AddEvent env mi gtid ed sw es s = Some (OK, es', s')" and "ed_instance_id ed' \<le> ed_instance_id ed"
  shows "GetLastInstanceID es < GetLastInstanceID es' \<and> GetLastInstanceID es' = ed_instance_id ed \<and>
    GetNewestGTID es' = ed_gtid ed \<and> AddEvent env mi' gtid' ed' sw' es' s' = Some (EVENT_EXIST, es', s')"
  using AddEvent_OK_newest [OF assms(1)] assms(2) by (auto simp: GetLastInstanceID_def AddEvent_def)

subsection \<open>Stored events stay retrievable\<close>

lemma es_inv_index:
  assumes inv: "es_inv env view es s" and lt: "GetLastInstanceID es < di_instance_id info"
    and gtid: "di_gtid info = gtid" "ParseGTID gtid \<noteq> ParseGTID GetKeyForUUID"
    and idx: "SetGTIDIndex (sv_ldb env) (sv_info env) gtid info (es_db es) = (EI_OK, db1)"
  defines "es1 \<equiv> es\<lparr>es_uuid := snd (UpdateEventUUIDInfoByGTID gtid info (es_uuid es)), es_db := db1\<rparr>"
  shows "es_inv env view es1 s" "GetGTID (sv_ldb env) (sv_info env) gtid di (es_db es1) = (EI_OK, info)"
    "event_stored env es s e \<Longrightarrow> ParseGTID (ed_gtid e) \<noteq> ParseGTID gtid \<Longrightarrow> event_stored env es1 s e"
    "GetLastInstanceID es1 = di_instance_id info"
proof -
  let ?m = "uh_map_uuid (es_uuid es)"
  have ok: "leveldb_ok (sv_ldb env) view" "codec_ok (sv_info env)" "\<And>i b. enc (sv_info env) i = Some b \<Longrightarrow> b \<noteq> []"
    "uh_ok (es_uuid es)" using inv unfolding es_inv_def by blast+
  note g = SetGTIDIndex_other [OF ok(1) idx]
  show get: "GetGTID (sv_ldb env) (sv_info env) gtid di (es_db es1) = (EI_OK, info)" for di
    using GetGTID_SetGTIDIndex(1) [OF ok(1,2) _ idx] ok(3) by (simp add: es1_def)
  have uuid: "es_uuid es1 = snd (UpdateEventUUIDInfoByGTID gtid info (es_uuid es))" by (simp add: es1_def)
  have uok: "uh_ok (es_uuid es1)"
    unfolding uuid using ok(4) lt gtid(1) by (intro uh_ok_Update) (simp_all add: GetLastInstanceID_def)
  show last: "GetLastInstanceID es1 = di_instance_id info"
    by (simp add: es1_def GetLastInstanceID_def UUID_GetLastInstanceID_def UpdateEventUUIDInfoByGTID_def
        UpdateEventUUIDInfoByUUID_def)
  have mem: "ParseGTID (di_gtid (snd x)) \<noteq> ParseGTID GetKeyForUUID \<and>
      GetGTID (sv_ldb env) (sv_info env) (di_gtid (snd x)) EventDataInfo_init (es_db es1) = (EI_OK, snd x)"
    if "x \<in> set (uh_map_uuid (es_uuid es1))" for x
  proof -
    have x: "x \<in> set (sm_put (GetUUIDByGTID gtid) info ?m)"
      using that by (simp add: uuid UpdateEventUUIDInfoByGTID_def UpdateEventUUIDInfoByUUID_def)
    have "sm_ok ?m" using ok(4) by (simp add: uh_ok_def)
    from sm_put_member [OF this x] consider "x = (GetUUIDByGTID gtid, info)" | "x \<in> set ?m" "fst x \<noteq> GetUUIDByGTID gtid"
      by blast
    then show ?thesis
    proof cases
      case 1
      then show ?thesis using get gtid by simp
    next
      case 2
      have "fst x = GetUUIDByGTID (di_gtid (snd x))" using 2(1) ok(4) by (simp add: uh_ok_def)
      with 2(2) have "ParseGTID (di_gtid (snd x)) \<noteq> ParseGTID gtid" by (auto simp: GetUUIDByGTID_fst)
      from g [OF this] have "GetGTID (sv_ldb env) (sv_info env) (di_gtid (snd x)) EventDataInfo_init (es_db es1) =
          GetGTID (sv_ldb env) (sv_info env) (di_gtid (snd x)) EventDataInfo_init (es_db es)" by (simp add: es1_def)
      then show ?thesis using inv 2(1) unfolding es_inv_def by metis
    qed
  qed
  have fm: "es_fm es1 = es_fm es" "es_checkpoint_data es1 = es_checkpoint_data es" by (simp_all add: es1_def)
  have nm: "map_of (fs_names s) (fm_data_dir (es_fm es) @ event_file_name i) = None" if "GetLastInstanceID es1 < i" for i
    using inv order.strict_trans [OF lt] that last by (simp add: es_inv_def)
  show "es_inv env view es1 s"
    unfolding es_inv_def fm using inv [unfolded es_inv_def] uok mem nm by (intro conjI) blast+
  show "event_stored env es1 s e" if "event_stored env es s e" "ParseGTID (ed_gtid e) \<noteq> ParseGTID gtid"
    using that by (simp add: event_stored_def es1_def g)
qed

lemma es_keeps_last: "es_keeps env view es s es' s' \<Longrightarrow> GetLastInstanceID es' = GetLastInstanceID es"
  by (simp add: es_keeps_def GetLastInstanceID_def)

lemma AddEvent_written:
  assumes inv: "es_inv env view es s" and gtid: "ed_gtid ed = gtid" "ParseGTID gtid \<noteq> ParseGTID GetKeyForUUID"
    and lt: "GetLastInstanceID es < ed_instance_id ed"
    and w: "EFM_WriteData (sv_event env) ed EventDataInfo_init True (es_fm es) s = (OK, di', fm1, s1)"
    and i: "SetGTIDIndex (sv_ldb env) (sv_info env) gtid di' (es_db es) = (EI_OK, db1)"
  defines "es1 \<equiv> es\<lparr>es_fm := fm1, es_uuid := snd (UpdateEventUUIDInfoByGTID gtid di' (es_uuid es)), es_db := db1\<rparr>"
  shows "es_inv env view es1 s1"
    "map_of (fs_names s1) (fm_data_dir (es_fm es1) @ event_file_name (GetLastInstanceID es1)) = None"
    "event_stored env es s e \<Longrightarrow> ParseGTID (ed_gtid e) \<noteq> ParseGTID gtid \<Longrightarrow> event_stored env es1 s1 e"
    "enc (sv_event env) ed \<noteq> None \<Longrightarrow> event_stored env es1 s1 ed"
proof -
  let ?esw = "es\<lparr>es_fm := fm1\<rparr>"
  have es1: "es1 = ?esw\<lparr>es_uuid := snd (UpdateEventUUIDInfoByGTID gtid di' (es_uuid ?esw)), es_db := db1\<rparr>"
    by (simp add: es1_def)
  note k = es_keeps_write [OF inv w] and info = EFM_WriteData_info [OF w]
  have winv: "es_inv env view ?esw s1" using k(1) by (simp add: es_keeps_def)
  have less: "GetLastInstanceID ?esw < di_instance_id di'" using lt info by (simp add: GetLastInstanceID_def)
  have idx: "SetGTIDIndex (sv_ldb env) (sv_info env) gtid di' (es_db ?esw) = (EI_OK, db1)" using i by simp
  have dg: "di_gtid di' = gtid" using info gtid(1) by simp
  note x = es_inv_index [OF winv less dg gtid(2) idx, folded es1]
  show "es_inv env view es1 s1" by (rule x(1))
  obtain di0 where wr: "SFM_WriteData (sv_event env) ed EventDataInfo_init (es_fm es) s = (OK, di0, fm1, s1)"
    and di': "di' = CopyDataToDataInfo ed di0" using EFM_WriteData_SFM [OF w] by auto
  show "event_stored env es1 s1 ed" if enc: "enc (sv_event env) ed \<noteq> None"
  proof -
    obtain b where b: "enc (sv_event env) ed = Some b" using enc by auto
    have "fm_inv (sv_event env) (es_fm es, s)" using inv by (simp add: es_inv_def)
    then have "fm_get (sv_event env) di' (fm1, s1) = Some ed"
      using fm_get_put [OF _ b wr] by (simp add: di' CopyDataToDataInfo_def fm_get_def GetData_def)
    then show ?thesis using x(2) gtid info by (simp add: event_stored_def) (simp add: es1_def)
  qed
  show "event_stored env es1 s1 e" if "event_stored env es s e" "ParseGTID (ed_gtid e) \<noteq> ParseGTID gtid" for e
    using x(3) k(1) that by (simp add: es_keeps_def)
  have "map_of (fs_names s) (fm_data_dir (es_fm es) @ event_file_name (ed_instance_id ed)) = None"
    using inv lt by (simp add: es_inv_def GetLastInstanceID_def)
  moreover have "fm_data_dir fm1 = fm_data_dir (es_fm es)" using k(1) by (simp add: es_keeps_def)
  ultimately show "map_of (fs_names s1) (fm_data_dir (es_fm es1) @ event_file_name (GetLastInstanceID es1)) = None"
    using k(2) x(4) info by (simp add: es1_def)
qed

lemma RealCheckGTID_inv: "es_inv env view es s \<Longrightarrow> RealCheckGTID env mi gtid di es s = Some (DATA_EMPTY, di, es, s)"
  by (simp add: RealCheckGTID_def CheckPointDone_def es_inv_def)

lemma es_inv_AddEvent:
  assumes inv: "es_inv env view es s" and gtid: "ed_gtid ed = gtid" "ParseGTID gtid \<noteq> ParseGTID GetKeyForUUID"
    and enc: "enc (sv_event env) ed \<noteq> None"
    and add: "AddEvent env mi gtid ed sw es s = Some (OK, es', s')"
  shows "es_inv env view es' s' \<and> event_stored env es' s' ed \<and>
    (\<forall>e. event_stored env es s e \<longrightarrow> ParseGTID (ed_gtid e) \<noteq> ParseGTID gtid \<longrightarrow> event_stored env es' s' e)"
proof (rule AddEvent_OK_steps [OF add])
  fix r0 di es0 s0 di' fm1 s1 db1
  assume lt: "UUID_GetLastInstanceID (es_uuid es) < ed_instance_id ed"
    and rc: "RealCheckGTID env mi gtid EventDataInfo_init es s = Some (r0, di, es0, s0)"
    and w: "EFM_WriteData (sv_event env) ed di (r0 \<noteq> 0) (es_fm es0) s0 = (OK, di', fm1, s1)"
    and i: "SetGTIDIndex (sv_ldb env) (sv_info env) gtid di' (es_db es0) = (EI_OK, db1)"
    and e: "let es1 = es0\<lparr>es_fm := fm1, es_uuid := snd (UpdateEventUUIDInfoByGTID gtid di' (es_uuid es0)), es_db := db1\<rparr>
      in (es', s') = (es1, s1) \<or> (\<exists>r. r0 \<noteq> 0 \<and> CheckAndSwitchFile env mi True es1 s1 = Some (r, es', s'))"
  have eq: "r0 = DATA_EMPTY" "di = EventDataInfo_init" "es0 = es" "s0 = s"
    using rc by (simp_all add: RealCheckGTID_inv [OF inv])
  let ?es1 = "es\<lparr>es_fm := fm1, es_uuid := snd (UpdateEventUUIDInfoByGTID gtid di' (es_uuid es)), es_db := db1\<rparr>"
  have w': "EFM_WriteData (sv_event env) ed EventDataInfo_init True (es_fm es) s = (OK, di', fm1, s1)"
    and i': "SetGTIDIndex (sv_ldb env) (sv_info env) gtid di' (es_db es) = (EI_OK, db1)"
    and lt': "GetLastInstanceID es < ed_instance_id ed"
    using w i lt by (simp_all add: eq GetLastInstanceID_def)
  note x = AddEvent_written [OF inv gtid lt' w' i']
  from e eq have "(es', s') = (?es1, s1) \<or> (\<exists>r. CheckAndSwitchFile env mi True ?es1 s1 = Some (r, es', s'))"
    by (auto simp: Let_def)
  moreover obtain r2 es2 s2 where c: "CheckAndSwitchFile env mi True ?es1 s1 = Some (r2, es2, s2)"
    and k2: "es_keeps env view ?es1 s1 es2 s2" by (rule CheckAndSwitchFile_keeps [OF x(1,2)])
  ultimately have "(es', s') = (?es1, s1) \<or> (es', s') = (es2, s2)" by auto
  then have "es_keeps env view ?es1 s1 es' s'" using es_keeps_refl [OF x(1)] k2 by auto
  then show ?thesis using x(3) x(4) [OF enc] by (auto simp: es_keeps_def)
qed

lemma AddEvent_defined:
  assumes inv: "es_inv env view es s" and gtid: "ed_gtid ed = gtid" "ParseGTID gtid \<noteq> ParseGTID GetKeyForUUID"
  shows "\<exists>ret es' s'. AddEvent env mi gtid ed sw es s = Some (ret, es', s')"
proof -
  obtain r di' fm1 s1 where w: "EFM_WriteData (sv_event env) ed EventDataInfo_init True (es_fm es) s = (r, di', fm1, s1)"
    using prod_cases4 by blast
  obtain st db1 where i: "SetGTIDIndex (sv_ldb env) (sv_info env) gtid di' (es_db es) = (st, db1)" by fastforce
  let ?es1 = "es\<lparr>es_fm := fm1, es_uuid := snd (UpdateEventUUIDInfoByGTID gtid di' (es_uuid es)), es_db := db1\<rparr>"
  have "\<exists>ret es' s'. CheckAndSwitchFile env mi True ?es1 s1 = Some (ret, es', s')"
    if "r = OK" "st = EI_OK" "\<not> ed_instance_id ed \<le> UUID_GetLastInstanceID (es_uuid es)"
  proof -
    have lt: "GetLastInstanceID es < ed_instance_id ed" using that(3) by (simp add: GetLastInstanceID_def)
    note x = AddEvent_written [OF inv gtid lt w [unfolded that(1)] i [unfolded that(2)]]
    show ?thesis by (rule CheckAndSwitchFile_keeps [OF x(1,2)]) blast
  qed
  then show ?thesis by (auto simp: AddEvent_def RealCheckGTID_inv [OF inv] w i Let_def not_le)
qed

text \<open>The abstract storage is the list of the events in the order of their instances.\<close>

definition es_log :: "'d senv \<Rightarrow> ('d \<Rightarrow> entries) \<Rightarrow> 'd estore \<Rightarrow> fs \<Rightarrow> EventData list \<Rightarrow> bool" where
  "es_log env view es s evs \<longleftrightarrow> es_inv env view es s \<and> (\<forall>e\<in>set evs. event_stored env es s e) \<and>
     distinct (map (ParseGTID \<circ> ed_gtid) evs) \<and> sorted_wrt (<) (map ed_instance_id evs) \<and>
     (evs \<noteq> [] \<longrightarrow> GetNewestGTID es = ed_gtid (last evs) \<and> GetLastInstanceID es = ed_instance_id (last evs))"

lemma sorted_wrt_last: "sorted_wrt (<) (map f (xs :: 'a list)) \<Longrightarrow> x \<in> set xs \<Longrightarrow> f x \<le> (f (last xs) :: 'b :: linorder)"
  by (induction xs) (auto simp: less_imp_le)

lemma AddEvent_extends_log:
  assumes "es_log env view es s evs" and "ed_gtid ed = gtid" and "enc (sv_event env) ed \<noteq> None"
    and "ParseGTID gtid \<notin> insert (ParseGTID GetKeyForUUID) ((ParseGTID \<circ> ed_gtid) ` set evs)"
    and a: "AddEvent env mi gtid ed sw es s = Some (OK, es', s')"
  shows "es_log env view es' s' (evs @ [ed])"
proof -
  have inv: "es_inv env view es s" and g: "ParseGTID gtid \<noteq> ParseGTID GetKeyForUUID"
    using assms(1,4) by (simp_all add: es_log_def)
  note x = es_inv_AddEvent [OF inv assms(2) g assms(3) a] and n = AddEvent_OK_newest [OF a]
  have "ed_instance_id e < ed_instance_id ed" if "e \<in> set evs" for e
    using sorted_wrt_last [of ed_instance_id evs e] that n(4) assms(1)
    by (cases "evs = []") (auto simp: es_log_def GetLastInstanceID_def)
  moreover have "event_stored env es' s' e" if "e \<in> set evs" for e
    using x that assms(1,4) by (force simp: es_log_def)
  ultimately show ?thesis
    using x n assms(1,2,4) by (auto simp: es_log_def sorted_wrt_append)
qed

text \<open>
  C10: the event storage refines a log of events. On a storage that holds a sequence of events,
  \<^verbatim>\<open>AddEvent\<close> of an event with a new GTID is always defined; when it returns OK the storage holds the
  sequence extended by this event: the event and all earlier ones are found through the index and read
  back from the files unchanged, also when the call switched to a new file, and the event is the newest
  one. When it returns EVENT_EXIST nothing changed.
\<close>

theorem AddEvent_refines_log:
  assumes "es_log env view es s evs" and "ed_gtid ed = gtid" and "enc (sv_event env) ed \<noteq> None"
    and "ParseGTID gtid \<notin> insert (ParseGTID GetKeyForUUID) ((ParseGTID \<circ> ed_gtid) ` set evs)"
  shows "\<exists>ret es' s'. AddEvent env mi gtid ed sw es s = Some (ret, es', s') \<and>
    (ret = OK \<longrightarrow> es_log env view es' s' (evs @ [ed])) \<and>
    (ret = EVENT_EXIST \<longrightarrow> es' = es \<and> s' = s)"
proof -
  have inv: "es_inv env view es s" and g: "ParseGTID gtid \<noteq> ParseGTID GetKeyForUUID"
    using assms(1,4) by (simp_all add: es_log_def)
  obtain ret es' s' where add: "AddEvent env mi gtid ed sw es s = Some (ret, es', s')"
    using AddEvent_defined [OF inv assms(2) g] by blast
  have ex: "es' = es \<and> s' = s" if "ret = EVENT_EXIST"
    using add that by (auto simp: AddEvent_def RealCheckGTID_inv [OF inv] EFM_WriteData_def SFM_WriteData_def
        Storage_WriteData_def Let_def split: if_splits prod.splits option.splits)
  have "es_log env view es' s' (evs @ [ed])" if "ret = OK"
    by (rule AddEvent_extends_log [OF assms add [unfolded that]])
  with add ex show ?thesis by blast
qed

text \<open>A small storage with one empty event file.\<close>

definition sample_ed :: EventData where
  "sample_ed = \<lparr>ed_gtid = ''u:1'', ed_data = [7], ed_checksum = 7, ed_instance_id = 4, ed_master_data = [],
     ed_event_data_file = []\<rparr>"

definition sample_env :: "(string \<times> bytes option) list senv" where
  "sample_env = \<lparr>sv_ldb = mem_ldb, sv_event = unit_codec sample_ed,
     sv_info = unit_codec (CopyDataToDataInfo sample_ed (EventDataInfo_init\<lparr>di_file_name := event_file_name 0\<rparr>)),
     sv_infos = list_codec EventDataInfo_init, sv_master = unit_codec MasterInfo_init, sv_data_dir = ''d/'',
     sv_cwd_is_dir = (\<lambda>_. False), sv_max_event_file_size = 1000, sv_max_delete_num = 1, sv_checkpoint_period = 300,
     sv_lease_time = 20, sv_ext_lease_time = 3\<rparr>"

definition sample_es :: "(string \<times> bytes option) list estore" where
  "sample_es = \<lparr>es_fm = \<lparr>fm_data_dir = ''d/'', fm_prefix = EVENT_PATH_PREF, fm_file_list = [event_file_name 0],
       fm_read = Storage_init READ ''d/'',
       fm_write = \<lparr>st_data_dir = ''d/'', st_path = event_file_name 0, st_mode = WRITE, st_fd = Some (0, 0)\<rparr>\<rparr>,
     es_db = [], es_uuid = UUIDHandler_init, es_checkpoint_id = 0, es_checkpoint_data = []\<rparr>"

definition sample_esfs :: fs where
  "sample_esfs = \<lparr>fs_names = [(''d/'' @ event_file_name 0, 0)], fs_data = (\<lambda>_. []), fs_mtime = (\<lambda>_. 0), fs_next = 1,
     fs_room = 100, fs_deny = (\<lambda>_. False), fs_now = 0\<rparr>"

lemma event_file_name_neq_Nil [simp]: "event_file_name i \<noteq> []" "[] \<noteq> event_file_name i"
  by (simp_all add: event_file_name_def)

lemma sample_es_log: "es_log sample_env mem_view sample_es sample_esfs []"
  by (simp add: es_log_def es_inv_def sample_env_def sample_es_def sample_esfs_def leveldb_ok_mem codec_ok_unit
      fm_inv_def fm_ok_def os_ok_def Storage_init_def fm_writer_def fs_bounded_def fs_ok_def sm_ok_def
      GetLastInstanceID_def UUID_GetLastInstanceID_def UUIDHandler_init_def EventDataInfo_init_def)
    (simp add: unit_codec_def uh_ok_def EventDataInfo_init_def)

lemma sample_AddEvent:
  "\<exists>es' s'. AddEvent sample_env mi ''u:1'' sample_ed True sample_es sample_esfs = Some (OK, es', s')"
  by (simp add: AddEvent_def sample_ed_def sample_env_def sample_es_def sample_esfs_def UUID_GetLastInstanceID_def
      UUIDHandler_init_def EventDataInfo_init_def RealCheckGTID_def CheckPointDone_def EFM_WriteData_def
      SFM_WriteData_def GetWriteFileInfo_def Storage_WriteData_def unit_codec_def fs_write_def io_limit_def
      SetGTIDIndex_def mem_ldb_def CopyDataToDataInfo_def CheckAndSwitchFile_def GetFileInfo_def GetFileName_def
      GetOffSet_def Let_def)

theorem AddEvent_refines_log_witness:
  "\<exists>es' s'. AddEvent sample_env MasterInfo_init ''u:1'' sample_ed True sample_es sample_esfs = Some (OK, es', s') \<and>
     es_log sample_env mem_view es' s' [sample_ed]"
proof -
  obtain es' s' where a: "AddEvent sample_env MasterInfo_init ''u:1'' sample_ed True sample_es sample_esfs = Some (OK, es', s')"
    using sample_AddEvent by blast
  have "ParseGTID ''u:1'' \<noteq> ParseGTID GetKeyForUUID" by (simp add: ParseGTID_def GetKeyForUUID_def)
  with AddEvent_refines_log [OF sample_es_log, of sample_ed "''u:1''" MasterInfo_init True] a show ?thesis
    by (simp add: sample_ed_def) (simp add: sample_env_def unit_codec_def sample_ed_def)
qed

theorem AddEvent_idempotent_witness:
  "\<exists>es' s'. AddEvent sample_env MasterInfo_init ''u:1'' sample_ed True sample_es sample_esfs = Some (OK, es', s') \<and>
     AddEvent sample_env MasterInfo_init ''u:1'' sample_ed True es' s' = Some (EVENT_EXIST, es', s')"
  using sample_AddEvent AddEvent_idempotent [of sample_env MasterInfo_init "''u:1''" sample_ed True sample_es sample_esfs _ _ sample_ed]
  by blast

end
