(* ===== verification/Checkpoint.thy ===== *)
theory Checkpoint
  imports Event_Storage
begin

text \<open>
  Checkpoints (\<^verbatim>\<open>core/storage/checkpoint_manager.cpp\<close>) and the storage manager that loads them at
  the start of the process (\<^verbatim>\<open>core/storage/storage_manager.cpp\<close>). The result \<open>None\<close> is a failed
  assertion, which aborts the process, or a loop that does not end.
\<close>

section \<open>State\<close>

datatype RUNNINGSTATUS = CP_NONE | CP_RUNNING | CP_LOCKING

record cpmanager =
  cp_last_checkpoint_time :: u32
  cp_run_status :: RUNNINGSTATUS

definition CheckPointManager_init :: cpmanager where
  "CheckPointManager_init = \<lparr>cp_last_checkpoint_time = 0, cp_run_status = CP_NONE\<rparr>"

definition BACKUPCHECKPOINT :: string where
  "BACKUPCHECKPOINT = ''backupcheckpoint''"

definition EventData_init :: EventData where
  "EventData_init = \<lparr>ed_gtid = [], ed_data = [], ed_checksum = 0, ed_instance_id = 0, ed_master_data = [],
     ed_event_data_file = []\<rparr>"

section \<open>The running status\<close>

definition TestAndSet :: "RUNNINGSTATUS \<Rightarrow> RUNNINGSTATUS \<Rightarrow> cpmanager \<Rightarrow> int \<times> cpmanager" where
  "TestAndSet oldstatus status cp =
     (if cp_run_status cp \<noteq> oldstatus then (1, cp) else (OK, cp\<lparr>cp_run_status := status\<rparr>))"

definition CP_SetStatus :: "RUNNINGSTATUS \<Rightarrow> cpmanager \<Rightarrow> cpmanager" where
  "CP_SetStatus status cp = cp\<lparr>cp_run_status := status\<rparr>"

definition LockCheckPoint :: "cpmanager \<Rightarrow> int \<times> cpmanager" where
  "LockCheckPoint cp =
     (case TestAndSet CP_NONE CP_LOCKING cp of (ret, cp) \<Rightarrow> if ret = 1 then (1, cp) else (0, cp))"

definition UnLockCheckPoint :: "cpmanager \<Rightarrow> cpmanager" where
  "UnLockCheckPoint cp = snd (TestAndSet CP_LOCKING CP_NONE cp)"

text \<open>The handler object resets the status when it goes out of scope, but only if it had set it.\<close>

definition StatusRunningHandler_release :: "int \<Rightarrow> cpmanager \<Rightarrow> cpmanager" where
  "StatusRunningHandler_release ret cp = (if ret = OK then CP_SetStatus CP_NONE cp else cp)"

section \<open>Making checkpoints\<close>

text \<open>All event files but the newest are handed to a replica that is behind.\<close>

definition CP_GetFile :: "'d senv \<Rightarrow> fs \<Rightarrow> string list \<Rightarrow> (int \<times> string list) option" where
  "CP_GetFile env s checkpointfiles = do {
     fm \<leftarrow> EventFileManager_init (sv_cwd_is_dir env) (sv_data_dir env) True s;
     let checkpointfiles = checkpointfiles @ fm_file_list fm;
     Some (0, if checkpointfiles \<noteq> [] then butlast checkpointfiles else checkpointfiles)
   }"

text \<open>The received directory is recorded in a file for the next start.\<close>

definition LoadCheckpointFiles :: "'d estore \<Rightarrow> string \<Rightarrow> fs \<Rightarrow> (int \<times> fs) option" where
  "LoadCheckpointFiles es sCheckpointTmpFileDirPath s = do {
     (ret, st, s) \<leftarrow> OpenDB BACKUPCHECKPOINT (Storage_init WRITE (fm_data_dir (es_fm es))) s;
     if ret \<noteq> 0 then None
     else case Storage_Reset st of
       (ret, st) \<Rightarrow>
         if ret \<noteq> 0 then None
         else case Storage_WriteData (str_bytes sCheckpointTmpFileDirPath) st s of
           (ret, st, s) \<Rightarrow> if ret \<noteq> 0 then None else Some (OK, s)
   }"

fun max_checkpoint_file ::
  "'d senv \<Rightarrow> string list \<Rightarrow> string \<Rightarrow> 'd estore \<Rightarrow> fs \<Rightarrow> (string \<times> fs) option" where
  "max_checkpoint_file env [] maxfilename es s = Some (maxfilename, s)"
| "max_checkpoint_file env (it # gtidlist) maxfilename es s = do {
     (ret, datainfo, s) \<leftarrow> GetGTIDInfo env it EventDataInfo_init True es s;
     max_checkpoint_file env gtidlist
       (if ret = 0 \<and> FileCmp maxfilename (di_file_name datainfo) < 0 then di_file_name datainfo else maxfilename) es s
   }"

definition RealMakeCheckPoint :: "'d senv \<Rightarrow> string list \<Rightarrow> 'd estore \<Rightarrow> fs \<Rightarrow> (int \<times> 'd estore \<times> fs) option" where
  "RealMakeCheckPoint env gtidlist es s = do {
     let deltime = fs_now s - sv_checkpoint_period env;
     (maxfilename, s) \<leftarrow> max_checkpoint_file env gtidlist [] es s;
     if maxfilename = [] then Some (OK, es, s)
     else do {
       (ret, files, es, s) \<leftarrow> DelCheckPointFile env maxfilename deltime [] es s;
       Some (OK, es,
         if ret = 0 then fold (\<lambda>it s. snd (ReMoveFile (fm_data_dir (es_fm es) @ it) s)) files s else s)
     }
   }"

text \<open>The body runs with the status set; it returns the new time of the last checkpoint.\<close>

definition MakeCheckPoint_body ::
  "'d senv \<Rightarrow> string list \<Rightarrow> cpmanager \<Rightarrow> 'd estore \<Rightarrow> fs \<Rightarrow> (cpmanager \<times> 'd estore \<times> fs) option" where
  "MakeCheckPoint_body env gtidlist cp es s = do {
     let nowtime = fs_now s;
     if nowtime - cp_last_checkpoint_time cp > sv_checkpoint_period env \<or> nowtime - cp_last_checkpoint_time cp > 60
     then do {
       (ret, es, s) \<leftarrow> (if cp_last_checkpoint_time cp > 0 then RealMakeCheckPoint env gtidlist es s else Some (OK, es, s));
       Some (if ret = OK then cp\<lparr>cp_last_checkpoint_time := nowtime\<rparr> else cp, es, s)
     }
     else Some (cp, es, s)
   }"

definition MakeCheckPoint ::
  "'d senv \<Rightarrow> string list \<Rightarrow> cpmanager \<Rightarrow> 'd estore \<Rightarrow> fs \<Rightarrow> (int \<times> cpmanager \<times> 'd estore \<times> fs) option" where
  "MakeCheckPoint env gtidlist cp es s =
     (case TestAndSet CP_NONE CP_RUNNING cp of
        (ret, cp) \<Rightarrow>
          if ret \<noteq> 0 then Some (SVR_FAIL, StatusRunningHandler_release ret cp, es, s)
          else do {
            (cp, es, s) \<leftarrow> MakeCheckPoint_body env gtidlist cp es s;
            Some (OK, StatusRunningHandler_release ret cp, es, s)
          })"

text \<open>The interval is returned as a C \<^verbatim>\<open>int\<close>.\<close>

definition CP_GetCurrentInstanceInterval :: "'d estore \<Rightarrow> int" where
  "CP_GetCurrentInstanceInterval es = sint (ucast (GetCurrentInstanceInterval es) :: u32)"

section \<open>Loading a checkpoint from received files\<close>

definition GetMasterInfoFromHeader :: "'d senv \<Rightarrow> EventData \<Rightarrow> MasterInfo \<Rightarrow> int \<times> MasterInfo" where
  "GetMasterInfoFromHeader env eventdata masterinfo =
     (if ed_gtid eventdata = [] \<and> ed_master_data eventdata \<noteq> []
      then (case dec (sv_master env) (ed_master_data eventdata) of
              Some info \<Rightarrow> (OK, info)
            | None \<Rightarrow> (DATA_EMPTY, masterinfo))
      else (DATA_EMPTY, masterinfo))"

text \<open>
  The records of the received files are stored again one by one; a record without GTID is the header
  of a file, or its footer when the file has been seen before. Every turn consumes a record.
\<close>

fun LoadFromCheckPointFileList_loop ::
  "nat \<Rightarrow> 'd senv \<Rightarrow> MasterInfo \<Rightarrow> sfm \<Rightarrow> EventData \<Rightarrow> string \<Rightarrow> EventData \<times> MasterInfo \<times> EventDataInfo
     \<Rightarrow> 'd estore \<Rightarrow> fs \<Rightarrow> (int \<times> (EventData \<times> MasterInfo \<times> EventDataInfo) \<times> 'd estore \<times> fs) option"
where
  "LoadFromCheckPointFileList_loop 0 env master_info fm curfooter curfilename out es s = None"
| "LoadFromCheckPointFileList_loop (Suc fuel) env master_info fm curfooter curfilename out es s = do {
     (ret, eventdata, eventdatainfo, fm, s) \<leftarrow> EFM_ReadData (sv_event env) EventDataInfo_init fm s;
     let (header, masterinfo, headerdatainfo) = out;
     (case eventdata of
        Some eventdata \<Rightarrow>
          if ed_gtid eventdata = []
          then (if di_file_name eventdatainfo \<noteq> curfilename
                then do {
                  (es, s) \<leftarrow>
                    (if ed_event_data_file curfooter = []
                     then map_option (\<lambda>(_, _, es, s). (es, s)) (SwitchNewFile env eventdata False EventDataInfo_init es s)
                     else Some (es, s));
                  LoadFromCheckPointFileList_loop fuel env master_info fm curfooter (di_file_name eventdatainfo) out es s
                }
                else do {
                  (_, headerdatainfo, es, s) \<leftarrow> SwitchNewFile env eventdata True headerdatainfo es s;
                  LoadFromCheckPointFileList_loop fuel env master_info fm eventdata (di_file_name eventdatainfo)
                    (header, masterinfo, headerdatainfo) es s
                })
          else do {
            (ret, es, s) \<leftarrow> AddEvent env master_info (ed_gtid eventdata) eventdata False es s;
            if ret \<noteq> 0 then Some (ret, out, es, s)
            else LoadFromCheckPointFileList_loop fuel env master_info fm curfooter curfilename out es s
          }
      | None \<Rightarrow>
          if ret = DATA_EMPTY
          then (case GetMasterInfoFromHeader env curfooter masterinfo of
                  (ret, masterinfo) \<Rightarrow> Some (ret, (curfooter, masterinfo, headerdatainfo), es, s))
          else Some (ret, out, es, s))
   }"

definition LoadFromCheckPointFileList ::
  "'d senv \<Rightarrow> MasterInfo \<Rightarrow> string \<Rightarrow> EventData \<times> MasterInfo \<times> EventDataInfo \<Rightarrow> 'd estore \<Rightarrow> fs
     \<Rightarrow> (int \<times> (EventData \<times> MasterInfo \<times> EventDataInfo) \<times> 'd estore \<times> fs) option" where
  "LoadFromCheckPointFileList env master_info datadir out es s = do {
     fm \<leftarrow> EventFileManager_init (sv_cwd_is_dir env) datadir True s;
     (ret, fm, s) \<leftarrow> OpenOldestFile fm s;
     if ret \<noteq> 0 then Some (ret, out, es, s)
     else LoadFromCheckPointFileList_loop (Suc (fm_bytes fm s)) env master_info fm EventData_init [] out es s
   }"

text \<open>
  The recorded directory is read and the record removed. When there is one, the event directory, with
  the index inside, is moved away and the storage is rebuilt; \<open>db\<close> is the database that opens in an
  empty directory. Every failure in between aborts.
\<close>

definition CheckHasBakupCheckPointFiles ::
  "'d senv \<Rightarrow> 'd \<Rightarrow> MasterInfo \<Rightarrow> EventData \<times> MasterInfo \<times> EventDataInfo \<Rightarrow> 'd estore \<Rightarrow> fs
     \<Rightarrow> (int \<times> (EventData \<times> MasterInfo \<times> EventDataInfo) \<times> 'd estore \<times> fs) option" where
  "CheckHasBakupCheckPointFiles env db master_info out es s = do {
     (_, st, s) \<leftarrow> OpenDB BACKUPCHECKPOINT (Storage_init READ (fm_data_dir (es_fm es))) s;
     let (ret, datadir, st) = Storage_ReadData [] st s;
     let datadir = bytes_str datadir;
     let s = snd (ReMoveFile (fm_data_dir (es_fm es) @ BACKUPCHECKPOINT) s);
     if ret \<noteq> OK \<or> datadir = [] then Some (DATA_EMPTY, out, es, s)
     else do {
       (ret, s) \<leftarrow> RemoveDir (fm_data_dir (es_fm es)) s;
       if ret \<noteq> OK then None
       else do {
         (_, es) \<leftarrow> Restart env db es s;
         (ret, out, es, s) \<leftarrow> LoadFromCheckPointFileList env master_info datadir out es s;
         if ret \<noteq> OK then None
         else do {
           (ret, s) \<leftarrow> RemoveDir datadir s;
           Some (ret, out, es, s)
         }
       }
     }
   }"

section \<open>The newest checkpoint\<close>

text \<open>
  From the newest file backwards, the first record that is a header. A turn starts at the beginning
  of a file, so a run that visits a file twice never ends: one turn more than there are files is
  enough fuel for every run that ends.
\<close>

fun GetNewestCheckPoint_loop ::
  "nat \<Rightarrow> 'd senv \<Rightarrow> sfm \<Rightarrow> fs \<Rightarrow> (int \<times> (EventData \<times> MasterInfo \<times> EventDataInfo) \<times> fs) option" where
  "GetNewestCheckPoint_loop 0 env fm s = None"
| "GetNewestCheckPoint_loop (Suc fuel) env fm s = do {
     (ret, eventdata, eventdatainfo, fm, s) \<leftarrow> EFM_ReadData (sv_event env) EventDataInfo_init fm s;
     let cleared = (DATA_EMPTY, (EventData_init, MasterInfo_init, EventDataInfo_init));
     let header = (case eventdata of
         Some d \<Rightarrow> ret = OK \<and> ed_gtid d = [] \<and> ed_master_data d \<noteq> [] | None \<Rightarrow> False);
     if header
     then (case dec (sv_master env) (ed_master_data (the eventdata)) of
             Some masterinfo \<Rightarrow> Some (OK, (the eventdata, masterinfo, eventdatainfo), s)
           | None \<Rightarrow> Some (fst cleared, snd cleared, s))
     else do {
       (ret, fm, s) \<leftarrow> GetPreReadFile fm s;
       if ret \<noteq> 0 then Some (fst cleared, snd cleared, s) else GetNewestCheckPoint_loop fuel env fm s
     }
   }"

definition GetNewestCheckPoint ::
  "'d senv \<Rightarrow> 'd \<Rightarrow> MasterInfo \<Rightarrow> cpmanager \<Rightarrow> 'd estore \<Rightarrow> fs
     \<Rightarrow> (int \<times> (EventData \<times> MasterInfo \<times> EventDataInfo) \<times> cpmanager \<times> 'd estore \<times> fs) option" where
  "GetNewestCheckPoint env db master_info cp es s =
     (let out = (EventData_init, MasterInfo_init, EventDataInfo_init)
      in case TestAndSet CP_NONE CP_RUNNING cp of
        (ret, cp) \<Rightarrow>
          if ret \<noteq> 0 then Some (SVR_FAIL, out, StatusRunningHandler_release ret cp, es, s)
          else do {
            let done = StatusRunningHandler_release ret cp;
            (ret, out, es, s) \<leftarrow> CheckHasBakupCheckPointFiles env db master_info out es s;
            if ret = OK then Some (OK, out, done, es, s)
            else do {
              fm \<leftarrow> EventFileManager_init (sv_cwd_is_dir env) (sv_data_dir env) True s;
              (ret, fm, s) \<leftarrow> OpenNewestFile fm s;
              if ret \<noteq> 0 then Some (if ret = NO_FILES then DATA_EMPTY else ret, out, done, es, s)
              else do {
                (ret, out, s) \<leftarrow> GetNewestCheckPoint_loop (Suc (length (fm_file_list fm))) env fm s;
                Some (ret, out, done, es, s)
              }
            }
          })"

section \<open>The storage manager\<close>

record 'd stmanager =
  sm_event :: "'d estore"
  sm_master :: mstore
  sm_checkpoint :: cpmanager
  sm_initial_instanceid :: u64

definition StorageManager_LoadFromCheckPoint ::
  "'d senv \<Rightarrow> 'd \<Rightarrow> 'd stmanager \<Rightarrow> fs \<Rightarrow> (int \<times> 'd stmanager \<times> fs) option" where
  "StorageManager_LoadFromCheckPoint env db m s = do {
     (ret, (checkpoint_data, master_info, event_data_info), cp, es, s) \<leftarrow>
       GetNewestCheckPoint env db (GetMaster (sm_master m)) (sm_checkpoint m) (sm_event m) s;
     let m = m\<lparr>sm_checkpoint := cp, sm_event := es\<rparr>;
     if ret \<noteq> 0 \<and> ret \<noteq> DATA_EMPTY then Some (ret, m, s)
     else do {
       let m = (if ret \<noteq> DATA_EMPTY then m\<lparr>sm_initial_instanceid := ed_instance_id checkpoint_data\<rparr> else m);
       let checkpoint_data =
         (if ret \<noteq> DATA_EMPTY then checkpoint_data
          else checkpoint_data\<lparr>ed_gtid := [], ed_data := [], ed_instance_id := 0\<rparr>);
       (ret, es, s) \<leftarrow>
         EventStorage_LoadFromCheckPoint env checkpoint_data (di_file_name event_data_info) (sm_event m) s;
       let m = m\<lparr>sm_event := es\<rparr>;
       if ret \<noteq> 0 then Some (ret, m, s)
       else if 0 < mi_version master_info
       then (case MasterStorage_LoadFromCheckPoint (uint (fs_now s)) (sv_lease_time env) (sv_ext_lease_time env)
                    master_info (sm_master m) of
               (ret, ms) \<Rightarrow> Some (ret, m\<lparr>sm_master := ms\<rparr>, s))
       else Some (ret, m, s)
     }
   }"

definition StorageManager_init :: "'d senv \<Rightarrow> 'd \<Rightarrow> 'd \<Rightarrow> fs \<Rightarrow> ('d stmanager \<times> fs) option" where
  "StorageManager_init env db empty_db s = do {
     es \<leftarrow> EventStorage_init env db s;
     (ret, m, s) \<leftarrow> StorageManager_LoadFromCheckPoint env empty_db
       \<lparr>sm_event = es, sm_master = MasterStorage_init, sm_checkpoint = CheckPointManager_init,
        sm_initial_instanceid = -1\<rparr> s;
     if ret = 0 then Some (m, s) else None
   }"

definition StorageManager_MakeCheckPoint ::
  "'d senv \<Rightarrow> string list \<Rightarrow> 'd stmanager \<Rightarrow> fs \<Rightarrow> (int \<times> 'd stmanager \<times> fs) option" where
  "StorageManager_MakeCheckPoint env gtidlist m s = do {
     (ret, cp, es, s) \<leftarrow> MakeCheckPoint env gtidlist (sm_checkpoint m) (sm_event m) s;
     Some (ret, m\<lparr>sm_checkpoint := cp, sm_event := es\<rparr>, s)
   }"

definition GetInitialInstanceID :: "'d stmanager \<Rightarrow> u64" where
  "GetInitialInstanceID m = GetLastestCheckPointInstanceID (sm_event m)"

end
