(* ===== verification/Recovery.thy ===== *)
theory Recovery
  imports Checkpoint
begin

text \<open>
  Starting again after a crash: \<^verbatim>\<open>EventStorage::LoadFromCheckPoint\<close> reads the newest event file back
  and remembers the positions of its events, and the consensus layer then replays the events after
  the checkpoint through \<^verbatim>\<open>EventStorage::AddEvent\<close>. The theory shows that this restores the storage.
\<close>

section \<open>Reading the newest file back\<close>

definition ev_info :: "string \<Rightarrow> nat \<Rightarrow> EventData \<Rightarrow> EventDataInfo" where
  "ev_info f off d = \<lparr>di_gtid = ed_gtid d, di_file_name = f, di_offset = of_nat off, di_checksum = ed_checksum d,
     di_instance_id = ed_instance_id d\<rparr>"

fun ev_infos :: "string \<Rightarrow> nat \<Rightarrow> bytes list \<Rightarrow> EventData list \<Rightarrow> EventDataInfo list" where
  "ev_infos f off (b # bs) (d # ds) = ev_info f off d # ev_infos f (off + length (frame b)) bs ds"
| "ev_infos f off _ _ = []"

text \<open>The reader stands in the newest file with these records in front of it.\<close>

definition tail_reader :: "sfm \<Rightarrow> fs \<Rightarrow> string \<Rightarrow> nat \<Rightarrow> nat \<Rightarrow> bytes list \<Rightarrow> bytes \<Rightarrow> bool" where
  "tail_reader fm s f ino off bs t \<longleftrightarrow>
     fm_ok fm \<and> (\<exists>p. fm_file_list fm = p @ [f]) \<and> st_path (fm_read fm) = f \<and> st_fd (fm_read fm) = Some (ino, off) \<and>
     off \<le> length (fs_data s ino) \<and> drop off (fs_data s ino) = log_bytes bs @ t \<and> torn t \<and> (\<forall>b\<in>set bs. record_ok b)"

lemma tail_reader_Cons:
  assumes "tail_reader fm s f ino off (b # bs) t" and "dec c b = Some d"
  defines "fm' \<equiv> fm\<lparr>fm_read := (fm_read fm)\<lparr>st_fd := Some (ino, off + length (frame b))\<rparr>\<rparr>"
  shows "EFM_ReadData c EventDataInfo_init fm s = Some (OK, Some d, ev_info f off d, fm', s)"
    and "tail_reader fm' s f ino (off + length (frame b)) bs t"
proof -
  note a = assms(1) [unfolded tail_reader_def]
  have m: "st_mode (fm_read fm) = READ" using a by (simp add: fm_ok_def)
  have r: "Storage_ReadData [] (fm_read fm) s = (OK, b, (fm_read fm)\<lparr>st_fd := Some (ino, off + length (frame b))\<rparr>)"
    using a record_ok_limit by (intro Storage_ReadData_frame [OF m, where rest = "log_bytes bs @ t"]) auto
  then show "EFM_ReadData c EventDataInfo_init fm s = Some (OK, Some d, ev_info f off d, fm', s)"
    using a assms(2)
    by (simp add: EFM_ReadData_def SFM_ReadData_def GetReadFileInfo_def GetFileInfo_def GetOffSet_def Let_def
        CopyDataToDataInfo_def ev_info_def EventDataInfo_init_def fm'_def)
  have dr: "drop off (fs_data s ino) = frame b @ log_bytes bs @ t" and le: "off \<le> length (fs_data s ino)" using a by auto
  have "drop (off + length (frame b)) (fs_data s ino) = log_bytes bs @ t"
    using arg_cong [where f = "drop (length (frame b))", OF dr] by (simp add: add.commute del: length_frame)
  moreover have "off + length (frame b) \<le> length (fs_data s ino)"
    using le arg_cong [where f = length, OF dr] by simp
  ultimately show "tail_reader fm' s f ino (off + length (frame b)) bs t"
    using a by (simp add: tail_reader_def fm'_def fm_ok_def)
qed

lemma tail_reader_Nil:
  assumes "tail_reader fm s f ino off [] t"
  shows "EFM_ReadData c EventDataInfo_init fm s =
    Some (DATA_EMPTY, None, EventDataInfo_init\<lparr>di_file_name := f, di_offset := of_nat off\<rparr>, fm, s)"
proof -
  from assms obtain p k d where a: "fm_ok fm" "fm_file_list fm = p @ [f]" "st_path (fm_read fm) = f"
    "st_fd (fm_read fm) = Some (ino, off)" "drop off (fs_data s ino) = t"
    "t = take k (frame d)" "k < length (frame d)" "length d \<le> io_limit"
    by (auto simp: tail_reader_def torn_def)
  have m: "st_mode (fm_read fm) = READ" using a by (simp add: fm_ok_def)
  obtain b' where r: "Storage_ReadData [] (fm_read fm) s = (DATA_EMPTY, b', fm_read fm)"
    using Storage_ReadData_torn [OF m a(4), of s k d "[]"] a(5-8) by auto
  have "os_find FileCmpOpt f (fm_file_list fm) = [f]" using fm_find [of fm p f "[]"] a(1,2) by simp
  then have "GetNextReadFile fm s = Some (NO_FILES, fm, s)"
    using a(3) by (simp add: GetNextReadFile_def GetFileName_def)
  with r a(3,4) show ?thesis
    by (simp add: EFM_ReadData_def SFM_ReadData_def GetReadFileInfo_def GetFileInfo_def GetOffSet_def Let_def)
qed

definition cp_put :: "EventDataInfo \<Rightarrow> (string, EventDataInfo) smap \<Rightarrow> (string, EventDataInfo) smap" where
  "cp_put i cd = (if di_gtid i \<noteq> [] then sm_put (di_gtid i) i cd else cd)"

lemma InitCheckPointDataFile_loop_reads:
  assumes "tail_reader (es_fm es) s f ino off bs t" and "list_all2 (\<lambda>b d. dec (sv_event env) b = Some d) bs ds"
    and "length bs < n"
  shows "InitCheckPointDataFile_loop n env last_info es s =
    (let infos = ev_infos f off bs ds; pos = off + length (log_bytes bs);
         fm = (es_fm es)\<lparr>fm_read := (fm_read (es_fm es))\<lparr>st_fd := Some (ino, pos)\<rparr>\<rparr>;
         cd = fold cp_put (butlast (last_info # infos)) (es_checkpoint_data es);
         info = last (last_info # infos)
     in map_option (\<lambda>(_, fm, s). (OK, es\<lparr>es_fm := fm, es_checkpoint_data := cd\<rparr>, s))
       (SetWritePos (if di_offset info = 0 then EventDataInfo_init\<lparr>di_file_name := f, di_offset := of_nat pos\<rparr>
          else info) True fm s))"
  using assms
proof (induction bs arbitrary: ds es off last_info n)
  case Nil
  then obtain m where n: "n = Suc m" by (cases n) auto
  have "st_fd (fm_read (es_fm es)) = Some (ino, off)" using Nil.prems(1) by (simp add: tail_reader_def)
  then have fm: "(es_fm es)\<lparr>fm_read := (fm_read (es_fm es))\<lparr>st_fd := Some (ino, off)\<rparr>\<rparr> = es_fm es" by simp
  show ?case
    using tail_reader_Nil [OF Nil.prems(1), of "sv_event env"] Nil.prems(2)
    by (simp add: n Let_def fm)
next
  case (Cons b bs)
  then obtain d ds' m where d: "ds = d # ds'" "dec (sv_event env) b = Some d" "list_all2 (\<lambda>b d. dec (sv_event env) b = Some d) bs ds'"
    and n: "n = Suc m" by (cases n) (auto simp: list_all2_Cons1)
  note r = tail_reader_Cons [OF Cons.prems(1) d(2)]
  let ?fm = "(es_fm es)\<lparr>fm_read := (fm_read (es_fm es))\<lparr>st_fd := Some (ino, off + length (frame b))\<rparr>\<rparr>"
  let ?es = "es\<lparr>es_fm := ?fm, es_checkpoint_data := cp_put last_info (es_checkpoint_data es)\<rparr>"
  have step: "InitCheckPointDataFile_loop n env last_info es s = InitCheckPointDataFile_loop m env (ev_info f off d) ?es s"
    using r(1) by (simp add: n Let_def cp_put_def)
  have "tail_reader (es_fm ?es) s f ino (off + length (frame b)) bs t" using r(2) by simp
  from Cons.IH [OF this d(3), of m "ev_info f off d"] Cons.prems(3) n show ?case
    unfolding step by (simp add: d(1) Let_def ac_simps)
qed

lemma SetWritePos_open:
  assumes "fm_ok fm" "st_path (fm_write fm) \<noteq> di_file_name i" "\<not> fs_deny s (fm_data_dir fm @ di_file_name i)"
    and "map_of (fs_names s) (fm_data_dir fm @ di_file_name i) = Some ino" "unat (di_offset i) < 2 ^ 63"
  shows "SetWritePos i True fm s =
    Some (OK, fm\<lparr>fm_write := (fm_write fm)\<lparr>st_path := di_file_name i, st_fd := Some (ino, unat (di_offset i))\<rparr>\<rparr>,
      fs_ftruncate ino (unat (di_offset i)) s)"
  using assms
  by (simp add: SetWritePos_def SetFileWritePos_def SetFilePos_def ReOpen_def OpenDB_def CloseDB_def fs_open_def
      storage_seek_def fm_ok_def)

section \<open>The state after the files were read back\<close>

text \<open>
  The storage at the start of the process: the file manager is new and no file is open for writing;
  otherwise the invariant of the storage holds.
\<close>

definition es_restart :: "'d senv \<Rightarrow> ('d \<Rightarrow> entries) \<Rightarrow> 'd estore \<Rightarrow> fs \<Rightarrow> bool" where
  "es_restart env view es s \<longleftrightarrow>
     leveldb_ok (sv_ldb env) view \<and> codec_ok (sv_info env) \<and> (\<forall>i b. enc (sv_info env) i = Some b \<longrightarrow> b \<noteq> []) \<and>
     codec_ok (sv_event env) \<and> fm_ok (es_fm es) \<and> fs_bounded s \<and> fs_ok s \<and> fm_prefix (es_fm es) = EVENT_PATH_PREF \<and>
     fm_read (es_fm es) = Storage_init READ (fm_data_dir (es_fm es)) \<and>
     fm_write (es_fm es) = Storage_init WRITE (fm_data_dir (es_fm es)) \<and> (\<forall>p. \<not> fs_deny s p) \<and> uh_ok (es_uuid es) \<and>
     (\<forall>e\<in>set (uh_map_uuid (es_uuid es)). ParseGTID (di_gtid (snd e)) \<noteq> ParseGTID GetKeyForUUID \<and>
        GetGTID (sv_ldb env) (sv_info env) (di_gtid (snd e)) EventDataInfo_init (es_db es) = (EI_OK, snd e)) \<and>
     (\<forall>i > GetLastInstanceID es. map_of (fs_names s) (fm_data_dir (es_fm es) @ event_file_name i) = None)"

text \<open>The newest file holds a header, events and possibly the beginning of a record.\<close>

definition newest_file ::
  "'d senv \<Rightarrow> 'd estore \<Rightarrow> fs \<Rightarrow> string \<Rightarrow> nat \<Rightarrow> bytes list \<Rightarrow> EventData \<Rightarrow> EventData list \<Rightarrow> bool" where
  "newest_file env es s f ino bs h evs \<longleftrightarrow>
     (\<exists>p. fm_file_list (es_fm es) = p @ [f]) \<and> map_of (fs_names s) (fm_data_dir (es_fm es) @ f) = Some ino \<and>
     (\<exists>t. fs_data s ino = log_bytes bs @ t \<and> torn t) \<and> (\<forall>b\<in>set bs. record_ok b) \<and>
     list_all2 (\<lambda>b d. enc (sv_event env) d = Some b) bs (h # evs) \<and> ed_gtid h = [] \<and> (\<forall>e\<in>set evs. ed_gtid e \<noteq> [])"

lemma length_ev_infos: "length bs = length ds \<Longrightarrow> length (ev_infos f off bs ds) = length bs"
  by (induction f off bs ds rule: ev_infos.induct) auto

lemma ev_infos_Nil_iff: "length bs = length ds \<Longrightarrow> ev_infos f off bs ds = [] \<longleftrightarrow> bs = []"
  using length_ev_infos [of bs ds f off] by (cases bs; cases ds) auto

lemma last_ev_infos:
  "length bs = length ds \<Longrightarrow> bs \<noteq> [] \<Longrightarrow>
     last (ev_infos f off bs ds) = ev_info f (off + length (log_bytes (butlast bs))) (last ds)"
  by (induction f off bs ds rule: ev_infos.induct) (auto simp: ac_simps ev_infos_Nil_iff)

lemma frame_neq_Nil [simp]: "frame d \<noteq> []"
  using length_frame [of d] by (cases "frame d") (simp_all del: length_frame)

lemma records_le_bytes: "length bs \<le> length (log_bytes bs)"
  by (induction bs) auto

lemma fm_bytes_file:
  "f \<in> set (fm_file_list fm) \<Longrightarrow> map_of (fs_names s) (fm_data_dir fm @ f) = Some ino \<Longrightarrow>
     length (fs_data s ino) \<le> fm_bytes fm s"
  unfolding fm_bytes_def by (rule member_le_sum_list) (auto intro!: image_eqI [where x = f])

lemma fs_bounded_ftruncate: "fs_bounded s \<Longrightarrow> n \<le> length (fs_data s ino) \<Longrightarrow> fs_bounded (fs_ftruncate ino n s)"
  unfolding fs_bounded_def by (auto simp: fs_ftruncate_def dest!: spec [of _ ino])

abbreviation "no_replay es \<equiv> es\<lparr>es_checkpoint_data := []\<rparr>"

text \<open>
  How much of the newest file is kept, and the position that is found for it: the last event is cut off and
  written again.
\<close>

definition kept :: "bytes list \<Rightarrow> EventData list \<Rightarrow> bytes list" where
  "kept bs evs = (if evs = [] then bs else butlast bs)"

definition write_info :: "string \<Rightarrow> bytes list \<Rightarrow> EventData list \<Rightarrow> EventDataInfo" where
  "write_info f bs ds =
     (let i = last (EventDataInfo_init # ev_infos f 0 bs ds)
      in if di_offset i = 0 then EventDataInfo_init\<lparr>di_file_name := f, di_offset := of_nat (length (log_bytes bs))\<rparr> else i)"

lemma kept_bytes:
  assumes "length bs = Suc (length evs)" "data = log_bytes bs @ t"
  shows "length (log_bytes (kept bs evs)) \<le> length data" "take (length (log_bytes (kept bs evs))) data = log_bytes (kept bs evs)"
proof -
  have "evs \<noteq> [] \<Longrightarrow> log_bytes bs = log_bytes (butlast bs) @ frame (last bs)"
    using assms(1) by (cases bs rule: rev_cases) (auto simp: log_bytes_simps)
  then show "length (log_bytes (kept bs evs)) \<le> length data" "take (length (log_bytes (kept bs evs))) data = log_bytes (kept bs evs)"
    using assms(2) by (auto simp: kept_def)
qed

lemma write_info_pos:
  assumes "length bs = Suc (length evs)" "length (log_bytes (kept bs evs)) < 2 ^ 64"
  shows "di_file_name (write_info f bs (h # evs)) = f" "unat (di_offset (write_info f bs (h # evs))) = length (log_bytes (kept bs evs))"
proof -
  let ?pos = "length (log_bytes (kept bs evs))"
  have bs: "bs \<noteq> []" using assms(1) by auto
  have "last (EventDataInfo_init # ev_infos f 0 bs (h # evs)) = (if evs = [] then ev_info f 0 h else ev_info f ?pos (last evs))"
    using last_ev_infos [of bs "h # evs" f 0] assms(1) bs ev_infos_Nil_iff [of bs "h # evs" f 0] by (cases bs) (auto simp: kept_def)
  moreover have "unat (of_nat ?pos :: u64) = ?pos" using assms(2) by (simp add: unat_of_nat)
  moreover have "evs \<noteq> [] \<Longrightarrow> 0 < ?pos" using assms(1) by (cases bs; cases "tl bs") (auto simp: kept_def)
  ultimately show "di_file_name (write_info f bs (h # evs)) = f" "unat (di_offset (write_info f bs (h # evs))) = ?pos"
    by (auto simp: write_info_def Let_def ev_info_def kept_def unat_eq_0 [symmetric])
qed

lemma reload_inv:
  assumes "es_restart env view es s" "map_of (fs_names s) (fm_data_dir (es_fm es) @ f) = Some ino" "f \<in> set (fm_file_list (es_fm es))"
    and "pos \<le> length (fs_data s ino)" "st_path r = f" "st_data_dir r = fm_data_dir (es_fm es)" "st_mode r = READ"
  shows "es_inv env view (no_replay (es\<lparr>es_fm := (es_fm es)\<lparr>fm_read := r,
    fm_write := \<lparr>st_data_dir = fm_data_dir (es_fm es), st_path = f, st_mode = WRITE, st_fd = Some (ino, pos)\<rparr>\<rparr>, es_checkpoint_data := cd\<rparr>))
    (fs_ftruncate ino pos s)" (is "es_inv _ _ (no_replay (es\<lparr>es_fm := ?fm2, es_checkpoint_data := _\<rparr>)) ?s1")
proof -
  have ok: "fm_ok (es_fm es)" "codec_ok (sv_event env)" "fs_bounded s" "fs_ok s" "f \<noteq> []" "\<not> fs_deny s (fm_data_dir (es_fm es) @ f)"
    using assms(1,3) by (auto simp: es_restart_def fm_ok_def)
  have "fm_ok ?fm2" using ok(1) assms(5-7) by (simp add: fm_ok_def)
  moreover have "fm_writer ?fm2 ?s1" using assms(2,4) ok(5,6) by (simp add: fm_writer_def fs_ftruncate_def)
  ultimately have "fm_inv (sv_event env) (?fm2, ?s1)"
    using ok fs_bounded_ftruncate [OF ok(3) assms(4)] fs_ok_ftruncate [OF ok(4)] by (simp add: fm_inv_def)
  then show ?thesis
    using assms(1) by (simp add: es_restart_def es_inv_def GetLastInstanceID_def) (simp add: fs_ftruncate_def)
qed

lemma InitCheckPointDataFile_result:
  assumes restart: "es_restart env view es s" and nf: "newest_file env es s f ino bs h evs"
  obtains es1 s1 where "InitCheckPointDataFile env f es s = Some (OK, es1, s1)"
    "es_inv env view (no_replay es1) s1" "es_uuid es1 = es_uuid es" "es_db es1 = es_db es"
    "es_checkpoint_data es1 = fold cp_put (butlast (ev_infos f (length (frame (hd bs))) (tl bs) evs)) []"
    "fs_data s1 ino = log_bytes (if evs = [] then bs else butlast bs)"
    "st_path (fm_write (es_fm es1)) = f" "fs_names s1 = fs_names s" "fm_data_dir (es_fm es1) = fm_data_dir (es_fm es)"
    "fs_room s1 = fs_room s"
proof -
  let ?fm = "es_fm es"
  obtain p t where fl: "fm_file_list ?fm = p @ [f]" and t: "fs_data s ino = log_bytes bs @ t" "torn t"
    and n: "map_of (fs_names s) (fm_data_dir ?fm @ f) = Some ino" "\<forall>b\<in>set bs. record_ok b"
    "list_all2 (\<lambda>b d. enc (sv_event env) d = Some b) bs (h # evs)" "ed_gtid h = []"
    using nf by (auto simp: newest_file_def)
  have len: "length bs = Suc (length evs)" using list_all2_lengthD [OF n(3)] by simp
  define pos where "pos = length (log_bytes (kept bs evs))"
  let ?r = "\<lparr>st_data_dir = fm_data_dir ?fm, st_path = f, st_mode = READ, st_fd = Some (ino, 0)\<rparr>"
  let ?r2 = "?r\<lparr>st_fd := Some (ino, length (log_bytes bs))\<rparr>"
  let ?fm1 = "?fm\<lparr>fm_read := ?r\<rparr>" and ?cd = "fold cp_put (butlast (EventDataInfo_init # ev_infos f 0 bs (h # evs))) []"
  let ?es1 = "es\<lparr>es_fm := ?fm\<lparr>fm_read := ?r2, fm_write := \<lparr>st_data_dir = fm_data_dir ?fm, st_path = f, st_mode = WRITE, st_fd = Some (ino, pos)\<rparr>\<rparr>,
    es_checkpoint_data := ?cd\<rparr>" and ?s1 = "fs_ftruncate ino pos s"
  have ok: "f \<noteq> []" "\<not> fs_deny s (fm_data_dir ?fm @ f)" "fm_ok ?fm" "codec_ok (sv_event env)" "length (fs_data s ino) < 2 ^ 63"
    using restart fl unfolding es_restart_def fm_ok_def fs_bounded_def by (auto dest: spec [of _ ino])
  have opened: "SetReadPos (EventDataInfo_init\<lparr>di_file_name := f, di_offset := 0\<rparr>) ?fm s = Some (OK, ?fm1, s)"
    using restart ok(1,2) n(1)
    by (simp add: es_restart_def SetReadPos_def SetFileReadPos_def SetFilePos_def ReOpen_def OpenDB_def CloseDB_def
        fs_open_def storage_seek_def Storage_init_def)
  have tr: "tail_reader ?fm1 s f ino 0 bs t" using ok(3) fl t n(2) by (simp add: tail_reader_def fm_ok_def)
  have decs: "list_all2 (\<lambda>b d. dec (sv_event env) b = Some d) bs (h # evs)"
    using n(3) by (rule list_all2_mono) (rule codec_okD [OF ok(4)])
  have "length (fs_data s ino) \<le> fm_bytes ?fm1 s" using n(1) fl by (intro fm_bytes_file [of f]) auto
  then have fuel: "length bs < Suc (fm_bytes ?fm1 s)" using records_le_bytes [of bs] t(1) by simp
  have pos: "pos \<le> length (fs_data s ino)" "take pos (fs_data s ino) = log_bytes (kept bs evs)"
    unfolding pos_def by (rule kept_bytes [OF len t(1)])+
  then have i: "di_file_name (write_info f bs (h # evs)) = f" "unat (di_offset (write_info f bs (h # evs))) = pos"
    using write_info_pos [OF len, of f h] ok(5) unfolding pos_def by auto
  have "SetWritePos (write_info f bs (h # evs)) True (?fm1\<lparr>fm_read := ?r2\<rparr>) s = Some (OK, es_fm ?es1, ?s1)"
    using SetWritePos_open [of "?fm1\<lparr>fm_read := ?r2\<rparr>" "write_info f bs (h # evs)" s ino] restart ok n(1) i pos(1)
    by (simp add: es_restart_def fm_ok_def Storage_init_def)
  then have init: "InitCheckPointDataFile env f es s = Some (OK, ?es1, ?s1)"
    using opened ok(1) InitCheckPointDataFile_loop_reads [of "es\<lparr>es_fm := ?fm1, es_checkpoint_data := []\<rparr>" s f ino 0 bs t env
        "h # evs" "Suc (fm_bytes ?fm1 s)" EventDataInfo_init] tr decs fuel
    by (simp add: InitCheckPointDataFile_def Let_def write_info_def
        del: InitCheckPointDataFile_loop.simps last.simps ev_infos.simps butlast.simps)
  have "es_inv env view (no_replay ?es1) ?s1" using fl by (intro reload_inv [OF restart n(1) _ pos(1)]) simp_all
  moreover have "?cd = fold cp_put (butlast (ev_infos f (length (frame (hd bs))) (tl bs) evs)) []"
    using len n(4) ev_infos_Nil_iff [of "tl bs" evs f "length (frame (hd bs))"]
    by (cases bs) (simp_all add: cp_put_def EventDataInfo_init_def ev_info_def)
  ultimately show thesis using init pos
    by (intro that [of ?es1 ?s1]) (simp_all add: fs_ftruncate_def kept_def)
qed

section \<open>Replaying the log\<close>

text \<open>After the start the consensus layer hands the events over again, in the order of their instances.\<close>

fun replay :: "'d senv \<Rightarrow> MasterInfo \<Rightarrow> EventData list \<Rightarrow> 'd estore \<Rightarrow> fs \<Rightarrow> ('d estore \<times> fs) option" where
  "replay env mi [] es s = Some (es, s)"
| "replay env mi (ed # eds) es s = do {
     (ret, es, s) \<leftarrow> AddEvent env mi (ed_gtid ed) ed True es s;
     if ret = OK then replay env mi eds es s else None
   }"

text \<open>The index accepts every entry.\<close>

definition index_works :: "'d senv \<Rightarrow> bool" where
  "index_works env \<longleftrightarrow> (\<forall>g i d. fst (SetGTIDIndex (sv_ldb env) (sv_info env) g i d) = EI_OK)"

lemma event_stored_no_replay [simp]: "event_stored env (no_replay es) s ed = event_stored env es s ed"
  by (simp add: event_stored_def)

lemma GetLastInstanceID_no_replay [simp]: "GetLastInstanceID (no_replay es) = GetLastInstanceID es"
  by (simp add: GetLastInstanceID_def)

text \<open>An event that was found in the file is only indexed.\<close>

lemma AddEvent_found:
  assumes inv: "es_inv env view (no_replay es) s" and found: "map_of (es_checkpoint_data es) (ed_gtid ed) = Some i"
    and i: "di_gtid i = ed_gtid ed" "di_instance_id i = ed_instance_id ed" "di_checksum i = ed_checksum ed"
    and lt: "GetLastInstanceID es < ed_instance_id ed" and key: "ParseGTID (ed_gtid ed) \<noteq> ParseGTID GetKeyForUUID"
    and get: "fm_get (sv_event env) i (es_fm es, s) = Some ed" and works: "index_works env"
  obtains es' where "AddEvent env mi (ed_gtid ed) ed sw es s = Some (OK, es', s)"
    "es_inv env view (no_replay es') s" "es_fm es' = es_fm es" "es_checkpoint_data es' = es_checkpoint_data es"
    "GetLastInstanceID es' = ed_instance_id ed" "GetNewestGTID es' = ed_gtid ed" "event_stored env es' s ed"
    "\<forall>e. event_stored env es s e \<longrightarrow> ParseGTID (ed_gtid e) \<noteq> ParseGTID (ed_gtid ed) \<longrightarrow> event_stored env es' s e"
proof -
  obtain db1 where idx: "SetGTIDIndex (sv_ldb env) (sv_info env) (ed_gtid ed) i (es_db es) = (EI_OK, db1)"
    using works [unfolded index_works_def, rule_format, of "ed_gtid ed" i "es_db es"] by (metis prod.collapse)
  define es' where "es' = es\<lparr>es_uuid := snd (UpdateEventUUIDInfoByGTID (ed_gtid ed) i (es_uuid es)), es_db := db1\<rparr>"
  have cp: "CopyDataToDataInfo ed i = i" using i by (simp add: CopyDataToDataInfo_def)
  have ne: "es_checkpoint_data es \<noteq> []" using found by auto
  have add: "AddEvent env mi (ed_gtid ed) ed sw es s = Some (OK, es', s)"
    using lt found ne idx cp
    by (simp add: AddEvent_def GetLastInstanceID_def RealCheckGTID_def EFM_WriteData_def es'_def not_le)
  have lt': "GetLastInstanceID (no_replay es) < di_instance_id i" using lt i by simp
  have idx': "SetGTIDIndex (sv_ldb env) (sv_info env) (ed_gtid ed) i (es_db (no_replay es)) = (EI_OK, db1)"
    using idx by simp
  have eq: "(no_replay es)\<lparr>es_uuid := snd (UpdateEventUUIDInfoByGTID (ed_gtid ed) i (es_uuid (no_replay es))),
      es_db := db1\<rparr> = no_replay es'" by (simp add: es'_def)
  note x = es_inv_index [OF inv lt' i(1) key idx', unfolded eq event_stored_no_replay GetLastInstanceID_no_replay]
  have "event_stored env es' s ed"
    using x(2) [of EventDataInfo_init] key i get by (simp add: event_stored_def) (simp add: es'_def)
  with that [OF add x(1)] x(3,4) AddEvent_OK_newest(2) [OF add] i(2) show thesis by (simp add: es'_def)
qed

lemma replay_found:
  assumes "es_inv env view (no_replay es) s" "index_works env"
    and "\<forall>ed\<in>set eds. \<exists>i. map_of (es_checkpoint_data es) (ed_gtid ed) = Some i \<and> di_gtid i = ed_gtid ed \<and>
      di_instance_id i = ed_instance_id ed \<and> di_checksum i = ed_checksum ed \<and>
      fm_get (sv_event env) i (es_fm es, s) = Some ed \<and> ParseGTID (ed_gtid ed) \<noteq> ParseGTID GetKeyForUUID"
    and "sorted_wrt (<) (GetLastInstanceID es # map ed_instance_id eds)" "distinct (map (ParseGTID \<circ> ed_gtid) eds)"
  shows "\<exists>es'. replay env mi eds es s = Some (es', s) \<and> es_inv env view (no_replay es') s \<and> es_fm es' = es_fm es \<and>
    es_checkpoint_data es' = es_checkpoint_data es \<and>
    GetLastInstanceID es' = (if eds = [] then GetLastInstanceID es else ed_instance_id (last eds)) \<and>
    (eds \<noteq> [] \<longrightarrow> GetNewestGTID es' = ed_gtid (last eds)) \<and>
    (\<forall>e. e \<in> set eds \<or> event_stored env es s e \<and> ParseGTID (ed_gtid e) \<notin> (ParseGTID \<circ> ed_gtid) ` set eds \<longrightarrow>
       event_stored env es' s e)"
  using assms
proof (induction eds arbitrary: es)
  case (Cons ed eds)
  from Cons.prems(3) obtain i where i: "map_of (es_checkpoint_data es) (ed_gtid ed) = Some i" "di_gtid i = ed_gtid ed"
    "di_instance_id i = ed_instance_id ed" "di_checksum i = ed_checksum ed"
    "fm_get (sv_event env) i (es_fm es, s) = Some ed" "ParseGTID (ed_gtid ed) \<noteq> ParseGTID GetKeyForUUID" by auto
  have lt: "GetLastInstanceID es < ed_instance_id ed" using Cons.prems(4) by simp
  obtain es1 where es1: "AddEvent env mi (ed_gtid ed) ed True es s = Some (OK, es1, s)"
    "es_inv env view (no_replay es1) s" "es_fm es1 = es_fm es" "es_checkpoint_data es1 = es_checkpoint_data es"
    "GetLastInstanceID es1 = ed_instance_id ed" "GetNewestGTID es1 = ed_gtid ed" "event_stored env es1 s ed"
    "\<forall>e. event_stored env es s e \<longrightarrow> ParseGTID (ed_gtid e) \<noteq> ParseGTID (ed_gtid ed) \<longrightarrow> event_stored env es1 s e"
    by (rule AddEvent_found [OF Cons.prems(1) i(1-4) lt i(6,5) Cons.prems(2)])
  have "\<exists>es'. replay env mi eds es1 s = Some (es', s) \<and> es_inv env view (no_replay es') s \<and> es_fm es' = es_fm es1 \<and>
    es_checkpoint_data es' = es_checkpoint_data es1 \<and>
    GetLastInstanceID es' = (if eds = [] then GetLastInstanceID es1 else ed_instance_id (last eds)) \<and>
    (eds \<noteq> [] \<longrightarrow> GetNewestGTID es' = ed_gtid (last eds)) \<and>
    (\<forall>e. e \<in> set eds \<or> event_stored env es1 s e \<and> ParseGTID (ed_gtid e) \<notin> (ParseGTID \<circ> ed_gtid) ` set eds \<longrightarrow>
       event_stored env es' s e)"
    using Cons.prems es1 by (intro Cons.IH) auto
  then obtain es2 where es2: "replay env mi eds es1 s = Some (es2, s)" "es_inv env view (no_replay es2) s"
    "es_fm es2 = es_fm es1" "es_checkpoint_data es2 = es_checkpoint_data es1"
    "GetLastInstanceID es2 = (if eds = [] then GetLastInstanceID es1 else ed_instance_id (last eds))"
    "eds \<noteq> [] \<longrightarrow> GetNewestGTID es2 = ed_gtid (last eds)"
    and st: "\<And>e. e \<in> set eds \<or> event_stored env es1 s e \<and> ParseGTID (ed_gtid e) \<notin> (ParseGTID \<circ> ed_gtid) ` set eds \<Longrightarrow>
       event_stored env es2 s e" by blast
  have "ParseGTID (ed_gtid ed) \<notin> (ParseGTID \<circ> ed_gtid) ` set eds" using Cons.prems(5) by simp
  then have "event_stored env es2 s ed" using st [of ed] es1(7) by blast
  moreover have "event_stored env es2 s e" if "event_stored env es s e" "ParseGTID (ed_gtid e) \<noteq> ParseGTID (ed_gtid ed)"
    "ParseGTID (ed_gtid e) \<notin> (ParseGTID \<circ> ed_gtid) ` set eds" for e
    using st [of e] es1(8) that by blast
  ultimately show ?case using es1 es2 st by (cases "eds = []") auto
qed simp

text \<open>The last event of the file is written again.\<close>

definition write_offset :: "'d estore \<Rightarrow> nat" where
  "write_offset es = (case st_fd (fm_write (es_fm es)) of Some (_, off) \<Rightarrow> off | None \<Rightarrow> 0)"

lemma es_inv_writer:
  assumes "es_inv env view es s"
  obtains ino where "st_fd (fm_write (es_fm es)) = Some (ino, length (fs_data s ino))"
    "map_of (fs_names s) (fm_data_dir (es_fm es) @ st_path (fm_write (es_fm es))) = Some ino"
    "length (fs_data s ino) < 2 ^ 63" "write_offset es = length (fs_data s ino)"
proof -
  from assms obtain ino where w: "st_fd (fm_write (es_fm es)) = Some (ino, length (fs_data s ino))"
    "map_of (fs_names s) (fm_data_dir (es_fm es) @ st_path (fm_write (es_fm es))) = Some ino" and b: "fs_bounded s"
    by (auto simp: es_inv_def fm_inv_def fm_writer_def)
  have "length (fs_data s ino) < 2 ^ 63" using b [unfolded fs_bounded_def, rule_format, of ino] by linarith
  with w show thesis by (intro that) (simp_all add: write_offset_def)
qed

lemma unat_ucast_u32_u64: "unat (ucast (m :: u32) :: u64) = unat m"
  using unsigned_less [where 'a = nat, of m] by (simp add: unsigned_ucast_eq take_bit_nat_eq_self_iff)

lemma CheckAndSwitchFile_small:
  assumes "st_fd (fm_write (es_fm es)) = Some (ino, n)" "n < 2 ^ 63" "n \<le> unat (sv_max_event_file_size env)"
  shows "CheckAndSwitchFile env mi True es s = Some (OK, es, s)"
proof -
  have "unat (of_nat n :: u64) = n" using assms(2) by (simp add: unat_of_nat)
  then have "\<not> (of_nat n :: u64) > ucast (sv_max_event_file_size env)"
    using assms(3) by (simp add: not_less word_le_nat_alt unat_ucast_u32_u64)
  then show ?thesis
    using assms(1) by (simp add: CheckAndSwitchFile_def GetWriteFileInfo_def GetFileInfo_def GetOffSet_def Let_def)
qed

lemma AddEvent_not_found:
  assumes inv: "es_inv env view (no_replay es) s" and "map_of (es_checkpoint_data es) gtid = None"
    and size: "write_offset es \<le> unat (sv_max_event_file_size env)" and lt: "GetLastInstanceID es < ed_instance_id ed"
  shows "AddEvent env mi gtid ed sw es s = AddEvent env mi gtid ed sw (no_replay es) s"
proof -
  obtain ino where "st_fd (fm_write (es_fm es)) = Some (ino, length (fs_data s ino))" "length (fs_data s ino) < 2 ^ 63"
    "write_offset es = length (fs_data s ino)"
    using es_inv_writer [OF inv] by (auto simp: write_offset_def)
  then have "CheckAndSwitchFile env mi True es s = Some (OK, es, s)"
    using size by (intro CheckAndSwitchFile_small) auto
  then have "RealCheckGTID env mi gtid di es s = RealCheckGTID env mi gtid di (no_replay es) s" for di
    using assms(2) by (simp add: RealCheckGTID_def CheckPointDone_def)
  moreover have "\<not> ed_instance_id ed \<le> UUID_GetLastInstanceID (es_uuid es)"
    using lt by (simp add: GetLastInstanceID_def not_le)
  ultimately show ?thesis by (simp add: AddEvent_def)
qed

lemma AddEvent_succeeds:
  assumes inv: "es_inv env view es s" and lt: "GetLastInstanceID es < ed_instance_id ed"
    and key: "ParseGTID (ed_gtid ed) \<noteq> ParseGTID GetKeyForUUID" and enc: "enc (sv_event env) ed = Some b" "record_ok b"
    and room: "length (frame b) \<le> fs_room s" and works: "index_works env"
    and fd: "st_fd (fm_write (es_fm es)) = Some (ino, length (fs_data s ino))"
  obtains es' s' where "AddEvent env mi (ed_gtid ed) ed sw es s = Some (OK, es', s')"
    "length (fs_data s ino) + length (frame b) \<le> unat (sv_max_event_file_size env) \<longrightarrow> fs_data s' ino = fs_data s ino @ frame b"
proof -
  have m: "st_mode (fm_write (es_fm es)) = WRITE" and bd: "fs_bounded s"
    using inv by (simp_all add: es_inv_def fm_inv_def fm_ok_def)
  obtain st s1 where sw: "Storage_WriteData b (fm_write (es_fm es)) s = (OK, st, s1)"
    "fs_data s1 ino = fs_data s ino @ frame b" "st_fd st = Some (ino, length (fs_data s1 ino))"
    using Storage_WriteData_ok [OF m fd enc(2)] room by auto
  let ?fm1 = "(es_fm es)\<lparr>fm_write := st\<rparr>"
  obtain di where w: "EFM_WriteData (sv_event env) ed EventDataInfo_init True (es_fm es) s = (OK, di, ?fm1, s1)"
    using sw(1) enc(1) by (simp add: EFM_WriteData_def SFM_WriteData_def)
  obtain db1 where i: "SetGTIDIndex (sv_ldb env) (sv_info env) (ed_gtid ed) di (es_db es) = (EI_OK, db1)"
    using works [unfolded index_works_def, rule_format, of "ed_gtid ed" di "es_db es"] by (metis prod.collapse)
  let ?es1 = "es\<lparr>es_fm := ?fm1, es_uuid := snd (UpdateEventUUIDInfoByGTID (ed_gtid ed) di (es_uuid es)), es_db := db1\<rparr>"
  note x = AddEvent_written [OF inv refl key lt w i]
  obtain r2 es2 s2 where c: "CheckAndSwitchFile env mi True ?es1 s1 = Some (r2, es2, s2)"
    by (rule CheckAndSwitchFile_keeps [OF x(1,2)])
  have add: "AddEvent env mi (ed_gtid ed) ed sw es s = Some (OK, if sw then (es2, s2) else (?es1, s1))"
    using lt c w i by (simp add: AddEvent_def RealCheckGTID_inv [OF inv] GetLastInstanceID_def not_le)
  have "length (fs_data s ino) + length (frame b) < 2 ^ 63"
    using bd [unfolded fs_bounded_def, rule_format, of ino] room by linarith
  then have "fs_data s2 ino = fs_data s ino @ frame b"
    if "length (fs_data s ino) + length (frame b) \<le> unat (sv_max_event_file_size env)"
    using CheckAndSwitchFile_small [of ?es1 ino "length (fs_data s1 ino)" env mi s1] that c sw(2,3) by simp
  with add sw(2) that show thesis by (cases sw) auto
qed

subsection \<open>The positions found in the file\<close>

lemma map_of_cp_put [simp]: "map_of (cp_put i cd) g = (if di_gtid i \<noteq> [] \<and> g = di_gtid i then Some i else map_of cd g)"
  by (simp add: cp_put_def)

lemma butlast_ev_infos:
  "length bs = length ds \<Longrightarrow> butlast (ev_infos f off bs ds) = ev_infos f off (butlast bs) (butlast ds)"
  by (induction f off bs ds rule: ev_infos.induct) (auto simp: ev_infos_Nil_iff)

lemma cp_lookup_other:
  "g \<notin> ed_gtid ` set ds \<Longrightarrow> map_of (fold cp_put (ev_infos f off bs ds) cd) g = map_of cd g"
  by (induction f off bs ds arbitrary: cd rule: ev_infos.induct) (auto simp: ev_info_def)

lemma cp_lookup:
  assumes "list_all2 R bs ds" "distinct (map ed_gtid ds)" "\<forall>d\<in>set ds. ed_gtid d \<noteq> []" "d \<in> set ds"
  shows "\<exists>p b q. bs = p @ b # q \<and> R b d \<and>
    map_of (fold cp_put (ev_infos f off bs ds) cd) (ed_gtid d) = Some (ev_info f (off + length (log_bytes p)) d)"
  using assms
proof (induction bs ds arbitrary: off cd)
  case (Cons b bs d0 ds)
  let ?cd = "cp_put (ev_info f off d0) cd"
  show ?case
  proof (cases "d = d0")
    case True
    with Cons.prems have "map_of (fold cp_put (ev_infos f (off + length (frame b)) bs ds) ?cd) (ed_gtid d) =
        Some (ev_info f off d)"
      by (subst cp_lookup_other) (auto simp: ev_info_def)
    with True Cons.hyps(1) show ?thesis by (intro exI [of _ "[]"] exI [of _ b] exI [of _ bs]) simp
  next
    case False
    then obtain p b' q where "bs = p @ b' # q" "R b' d"
      "map_of (fold cp_put (ev_infos f (off + length (frame b)) bs ds) ?cd) (ed_gtid d) =
        Some (ev_info f (off + length (frame b) + length (log_bytes p)) d)"
      using Cons.IH [of "off + length (frame b)" ?cd] Cons.prems by auto
    then show ?thesis by (intro exI [of _ "b # p"] exI [of _ b'] exI [of _ q]) (simp add: ac_simps)
  qed
qed simp

lemma fm_get_record:
  assumes "map_of (fs_names s) (fm_data_dir fm @ f) = Some ino" "\<not> fs_deny s (fm_data_dir fm @ f)" "f \<noteq> []"
    and "fs_data s ino = log_bytes p @ frame b @ x" "record_ok b" "dec c b = Some d" "length (fs_data s ino) < 2 ^ 63"
  shows "fm_get c (ev_info f (length (log_bytes p)) e) (fm, s) = Some d"
proof -
  have o: "unat (of_nat (length (log_bytes p)) :: u64) = length (log_bytes p)"
    using assms(4,7) by (simp add: unat_of_nat)
  have l: "length (log_bytes p) < 2 ^ 63" using assms(4,7) by simp
  have "Storage_ReadData [] \<lparr>st_data_dir = fm_data_dir fm, st_path = f, st_mode = READ,
      st_fd = Some (ino, length (log_bytes p))\<rparr> s =
    (OK, b, \<lparr>st_data_dir = fm_data_dir fm, st_path = f, st_mode = READ,
      st_fd = Some (ino, length (log_bytes p) + length (frame b))\<rparr>)"
    using assms(4,5) record_ok_limit Storage_ReadData_frame
      [of "\<lparr>st_data_dir = fm_data_dir fm, st_path = f, st_mode = READ, st_fd = Some (ino, length (log_bytes p))\<rparr>"
        ino "length (log_bytes p)" s b x "[]"] by simp
  with GetData_existing [of s fm "ev_info f (length (log_bytes p)) e" ino c] assms o l show ?thesis
    by (simp add: fm_get_def ev_info_def)
qed

section \<open>Recovery\<close>

lemma newest_file_positions:
  assumes nf: "newest_file env es s f ino bs h evs" and c: "codec_ok (sv_event env)"
    and d: "distinct (map (ParseGTID \<circ> ed_gtid) evs)" and fm: "fm_data_dir fm = fm_data_dir (es_fm es)"
    and s1: "fs_names s1 = fs_names s" "\<forall>p. \<not> fs_deny s1 p" "length (fs_data s1 ino) < 2 ^ 63"
    "fs_data s1 ino = log_bytes (butlast bs)" and f: "f \<noteq> []" and ed: "ed \<in> set (butlast evs)"
  shows "\<exists>i. map_of (fold cp_put (butlast (ev_infos f (length (frame (hd bs))) (tl bs) evs)) []) (ed_gtid ed) = Some i \<and>
    di_gtid i = ed_gtid ed \<and> di_instance_id i = ed_instance_id ed \<and> di_checksum i = ed_checksum ed \<and>
    fm_get (sv_event env) i (fm, s1) = Some ed"
proof -
  from nf obtain hb rs where bs: "bs = hb # rs" and rs: "list_all2 (\<lambda>b d. enc (sv_event env) d = Some b) rs evs"
    and n: "map_of (fs_names s) (fm_data_dir (es_fm es) @ f) = Some ino" "\<forall>b\<in>set bs. record_ok b"
    "\<forall>e\<in>set evs. ed_gtid e \<noteq> []" by (auto simp: newest_file_def list_all2_Cons2)
  have len: "length rs = length evs" using rs by (rule list_all2_lengthD)
  have "distinct (map ed_gtid evs)" using d by (auto simp: distinct_map inj_on_def)
  then have db: "distinct (map ed_gtid (butlast evs))" by (simp add: map_butlast distinct_butlast)
  have rb: "list_all2 (\<lambda>b d. enc (sv_event env) d = Some b) (butlast rs) (butlast evs)"
    using rs len by (auto simp: list_all2_conv_all_nth nth_butlast)
  have nb: "\<forall>d\<in>set (butlast evs). ed_gtid d \<noteq> []" using n(3) by (auto dest: in_set_butlastD)
  from cp_lookup [OF rb db nb ed, of f "length (frame hb)" "[]"] obtain p b q
    where l: "butlast rs = p @ b # q" "enc (sv_event env) ed = Some b"
      "map_of (fold cp_put (ev_infos f (length (frame hb)) (butlast rs) (butlast evs)) []) (ed_gtid ed) =
        Some (ev_info f (length (frame hb) + length (log_bytes p)) ed)" by blast
  have "rs \<noteq> []" using ed len by (cases rs) auto
  then have data: "fs_data s1 ino = log_bytes (hb # p) @ frame b @ log_bytes q" using s1(4) bs l(1) by simp
  have "b \<in> set bs" using bs in_set_butlastD [of b rs] l(1) by auto
  then have "fm_get (sv_event env) (ev_info f (length (log_bytes (hb # p))) ed) (fm, s1) = Some ed"
    using n s1 f fm data codec_okD [OF c l(2)] by (intro fm_get_record [where x = "log_bytes q"]) auto
  with l(3) bs butlast_ev_infos [OF len, of f "length (frame hb)"] show ?thesis by (simp add: ev_info_def)
qed

lemma replay_append:
  "replay env mi (xs @ ys) es s = do { (es, s) \<leftarrow> replay env mi xs es s; replay env mi ys es s }"
  by (induction xs arbitrary: es s) (auto split: option.splits bind_split)

text \<open>The state that reading the newest file left behind.\<close>

definition read_back ::
  "'d senv \<Rightarrow> ('d \<Rightarrow> entries) \<Rightarrow> 'd estore \<Rightarrow> fs \<Rightarrow> string \<Rightarrow> nat \<Rightarrow> bytes list \<Rightarrow> EventData list \<Rightarrow> bool" where
  "read_back env view es s f ino bs evs \<longleftrightarrow>
     es_inv env view (no_replay es) s \<and>
     es_checkpoint_data es = fold cp_put (butlast (ev_infos f (length (frame (hd bs))) (tl bs) evs)) [] \<and>
     fs_data s ino = log_bytes (if evs = [] then bs else butlast bs) \<and> st_path (fm_write (es_fm es)) = f \<and>
     map_of (fs_names s) (fm_data_dir (es_fm es) @ f) = Some ino"

lemma read_back_writer:
  assumes "read_back env view es1 s1 f ino bs evs"
  shows "st_fd (fm_write (es_fm es1)) = Some (ino, length (fs_data s1 ino))" "length (fs_data s1 ino) < 2 ^ 63"
    "codec_ok (sv_event env)" "\<forall>p. \<not> fs_deny s1 p" "f \<noteq> []"
proof -
  have inv: "es_inv env view (no_replay es1) s1" and path: "st_path (fm_write (es_fm es1)) = f"
    and nm: "map_of (fs_names s1) (fm_data_dir (es_fm es1) @ f) = Some ino"
    using assms by (simp_all add: read_back_def)
  obtain ino' where w: "st_fd (fm_write (es_fm (no_replay es1))) = Some (ino', length (fs_data s1 ino'))"
    "map_of (fs_names s1) (fm_data_dir (es_fm (no_replay es1)) @ st_path (fm_write (es_fm (no_replay es1)))) = Some ino'"
    "length (fs_data s1 ino') < 2 ^ 63" "write_offset (no_replay es1) = length (fs_data s1 ino')"
    by (rule es_inv_writer [OF inv])
  have "ino' = ino" using w(2) path nm by simp
  with w(1,3) show "st_fd (fm_write (es_fm es1)) = Some (ino, length (fs_data s1 ino))" "length (fs_data s1 ino) < 2 ^ 63" by simp_all
  show "codec_ok (sv_event env)" "\<forall>p. \<not> fs_deny s1 p" "f \<noteq> []"
    using inv path by (auto simp: es_inv_def fm_inv_def fm_writer_def)
qed

text \<open>Every event of the file but the last one is found where it is stored.\<close>

lemma read_back_found:
  assumes rb: "read_back env view es1 s1 f ino bs (xs @ [e])" and nf: "newest_file env es s f ino bs h (xs @ [e])"
    and same: "fm_data_dir (es_fm es1) = fm_data_dir (es_fm es)" "fs_names s1 = fs_names s"
    and d: "distinct (map (ParseGTID \<circ> ed_gtid) (xs @ [e]))" and key: "ParseGTID GetKeyForUUID \<notin> (ParseGTID \<circ> ed_gtid) ` set (xs @ [e])"
  shows "\<forall>ed\<in>set xs. \<exists>i. map_of (es_checkpoint_data es1) (ed_gtid ed) = Some i \<and> di_gtid i = ed_gtid ed \<and>
      di_instance_id i = ed_instance_id ed \<and> di_checksum i = ed_checksum ed \<and>
      fm_get (sv_event env) i (es_fm es1, s1) = Some ed \<and> ParseGTID (ed_gtid ed) \<noteq> ParseGTID GetKeyForUUID"
proof
  fix ed assume ed: "ed \<in> set xs"
  have cd: "es_checkpoint_data es1 = fold cp_put (butlast (ev_infos f (length (frame (hd bs))) (tl bs) (xs @ [e]))) []"
    and data: "fs_data s1 ino = log_bytes (butlast bs)" using rb by (simp_all add: read_back_def)
  note w = read_back_writer [OF rb]
  from ed have "ed \<in> set (butlast (xs @ [e]))" by simp
  from newest_file_positions [OF nf w(3) d same w(4,2) data w(5) this] cd key ed
  show "\<exists>i. map_of (es_checkpoint_data es1) (ed_gtid ed) = Some i \<and> di_gtid i = ed_gtid ed \<and>
      di_instance_id i = ed_instance_id ed \<and> di_checksum i = ed_checksum ed \<and>
      fm_get (sv_event env) i (es_fm es1, s1) = Some ed \<and> ParseGTID (ed_gtid ed) \<noteq> ParseGTID GetKeyForUUID"
    by (auto simp: image_iff)
qed

lemma newest_file_last:
  assumes "newest_file env es s f ino bs h (xs @ [e])"
  shows "length (tl bs) = length (xs @ [e])" "enc (sv_event env) e = Some (last bs)" "record_ok (last bs)"
    "log_bytes bs = log_bytes (butlast bs) @ frame (last bs)"
proof -
  have "list_all2 (\<lambda>b d. enc (sv_event env) d = Some b) bs ((h # xs) @ [e])" and rok: "\<forall>b\<in>set bs. record_ok b"
    using assms by (simp_all add: newest_file_def)
  then obtain us b where "bs = us @ [b]" "enc (sv_event env) e = Some b"
    unfolding list_all2_append2 by (auto simp: list_all2_Cons2)
  with rok show "enc (sv_event env) e = Some (last bs)" "record_ok (last bs)" "log_bytes bs = log_bytes (butlast bs) @ frame (last bs)"
    by (auto simp: log_bytes_simps)
  show "length (tl bs) = length (xs @ [e])" using assms by (auto simp: newest_file_def dest: list_all2_lengthD)
qed

lemma replay_newest_file:
  assumes rb: "read_back env view es1 s1 f ino bs (xs @ [e])" and nf: "newest_file env es s f ino bs h (xs @ [e])"
    and same: "fm_data_dir (es_fm es1) = fm_data_dir (es_fm es)" "fs_names s1 = fs_names s"
    and works: "index_works env" and d: "distinct (map (ParseGTID \<circ> ed_gtid) (xs @ [e]))"
    and key: "ParseGTID GetKeyForUUID \<notin> (ParseGTID \<circ> ed_gtid) ` set (xs @ [e])"
    and sorted: "sorted_wrt (<) (GetLastInstanceID es1 # map ed_instance_id (xs @ [e]))"
    and size: "length (log_bytes (butlast bs)) \<le> unat (sv_max_event_file_size env)" and room: "length (frame (last bs)) \<le> fs_room s1"
  shows "\<exists>es2 s2. replay env mi (xs @ [e]) es1 s1 = Some (es2, s2) \<and> es_log env view es2 s2 (xs @ [e]) \<and>
    (length (log_bytes bs) \<le> unat (sv_max_event_file_size env) \<longrightarrow> fs_data s2 ino = log_bytes bs)"
proof -
  have inv: "es_inv env view (no_replay es1) s1"
    and cd: "es_checkpoint_data es1 = fold cp_put (butlast (ev_infos f (length (frame (hd bs))) (tl bs) (xs @ [e]))) []"
    and data: "fs_data s1 ino = log_bytes (butlast bs)" using rb by (simp_all add: read_back_def)
  note w = read_back_writer [OF rb] and found = read_back_found [OF rb nf same d key] and last = newest_file_last [OF nf]
  have "sorted_wrt (<) (GetLastInstanceID es1 # map ed_instance_id xs)" "distinct (map (ParseGTID \<circ> ed_gtid) xs)"
    using sorted d by (auto simp: sorted_wrt_append)
  from replay_found [OF inv works found this, of mi] obtain es_a where a: "replay env mi xs es1 s1 = Some (es_a, s1)"
    "es_inv env view (no_replay es_a) s1" "es_fm es_a = es_fm es1" "es_checkpoint_data es_a = es_checkpoint_data es1"
    "GetLastInstanceID es_a = (if xs = [] then GetLastInstanceID es1 else ed_instance_id (last xs))"
    "\<forall>x\<in>set xs. event_stored env es_a s1 x" by blast
  let ?na = "no_replay es_a"
  have lt: "GetLastInstanceID es_a < ed_instance_id e" using a(5) sorted by (auto simp: sorted_wrt_append)
  have ke: "ParseGTID (ed_gtid e) \<noteq> ParseGTID GetKeyForUUID" using key by (auto simp: image_iff)
  have "ed_gtid e \<notin> ed_gtid ` set xs" using d by (auto simp: image_iff)
  then have nofind: "map_of (es_checkpoint_data es_a) (ed_gtid e) = None"
    using a(4) cd last(1) by (simp add: butlast_ev_infos cp_lookup_other)
  have off: "write_offset es_a \<le> unat (sv_max_event_file_size env)"
    and fd: "st_fd (fm_write (es_fm ?na)) = Some (ino, length (fs_data s1 ino))" and lt': "GetLastInstanceID ?na < ed_instance_id e"
    using w(1) a(3) data size lt by (simp_all add: write_offset_def)
  obtain es2 s2 where add: "AddEvent env mi (ed_gtid e) e True ?na s1 = Some (OK, es2, s2)"
    "length (fs_data s1 ino) + length (frame (last bs)) \<le> unat (sv_max_event_file_size env) \<longrightarrow>
       fs_data s2 ino = fs_data s1 ino @ frame (last bs)"
    by (rule AddEvent_succeeds [OF a(2) lt' ke last(2,3) room works fd])
  have rep: "replay env mi (xs @ [e]) es1 s1 = Some (es2, s2)"
    using a(1) AddEvent_not_found [OF a(2) nofind off lt] add(1) by (simp add: replay_append)
  have "enc (sv_event env) e \<noteq> None" using last(2) by simp
  note x = es_inv_AddEvent [OF a(2) refl ke this add(1)] and n = AddEvent_OK_newest [OF add(1)]
  have "event_stored env es2 s2 y" if "y \<in> set xs" for y
    using x a(6) that d by (auto simp: image_iff)
  then have "es_log env view es2 s2 (xs @ [e])" using x n sorted d by (auto simp: es_log_def)
  then show ?thesis using rep add(2) data last(4) by auto
qed

text \<open>
  C9: recovery after a crash. The process starts on files whose newest one holds a header, the events
  that followed and possibly a record that was cut off. Loading the checkpoint reads the file back,
  and the consensus layer then replays the events. Every replayed event is accepted, and in the end
  the storage holds exactly these events, each one retrievable through the index; when no new file
  was due, the file has the bytes it had before the crash without the partial record, so that no event
  was lost, duplicated or reordered.
\<close>

theorem restart_replay_recovers:
  assumes "es_restart env view (es\<lparr>es_uuid := uh\<rparr>) s" and "newest_file env es s f ino bs h evs"
    and "UUID_LoadFromCheckPoint (sv_infos env) h (es_uuid es) = (OK, uh)" and "index_works env"
    and "distinct (map (ParseGTID \<circ> ed_gtid) evs)" and "ParseGTID GetKeyForUUID \<notin> (ParseGTID \<circ> ed_gtid) ` set evs"
    and "sorted_wrt (<) (UUID_GetLastInstanceID uh # map ed_instance_id evs)"
    and "length (log_bytes (butlast bs)) \<le> unat (sv_max_event_file_size env)" and "length (frame (last bs)) \<le> fs_room s"
  shows "\<exists>es1 s1 es2 s2. EventStorage_LoadFromCheckPoint env h f es s = Some (OK, es1, s1) \<and>
    replay env mi evs es1 s1 = Some (es2, s2) \<and> es_log env view es2 s2 evs \<and>
    (length (log_bytes bs) \<le> unat (sv_max_event_file_size env) \<longrightarrow> fs_data s2 ino = log_bytes bs)"
proof -
  let ?es0 = "es\<lparr>es_uuid := uh\<rparr>"
  have nf: "newest_file env ?es0 s f ino bs h evs" using assms(2) by (simp add: newest_file_def)
  obtain es0 s1 where i: "InitCheckPointDataFile env f ?es0 s = Some (OK, es0, s1)"
    "es_inv env view (no_replay es0) s1" "es_uuid es0 = es_uuid ?es0" "es_db es0 = es_db ?es0"
    "es_checkpoint_data es0 = fold cp_put (butlast (ev_infos f (length (frame (hd bs))) (tl bs) evs)) []"
    "fs_data s1 ino = log_bytes (if evs = [] then bs else butlast bs)"
    "st_path (fm_write (es_fm es0)) = f" "fs_names s1 = fs_names s" "fm_data_dir (es_fm es0) = fm_data_dir (es_fm ?es0)"
    "fs_room s1 = fs_room s"
    by (rule InitCheckPointDataFile_result [OF assms(1) nf])
  define es1 where "es1 = (if ed_event_data_file h \<noteq> [] then SetInstanceID (ed_instance_id h) es0 else es0)"
  have load: "EventStorage_LoadFromCheckPoint env h f es s = Some (OK, es1, s1)"
    using assms(3) i(1) by (simp add: EventStorage_LoadFromCheckPoint_def es1_def)
  have es1: "es_fm es1 = es_fm es0" "es_uuid es1 = es_uuid es0" "es_db es1 = es_db es0"
    "es_checkpoint_data es1 = es_checkpoint_data es0" by (simp_all add: es1_def SetInstanceID_def)
  have inv: "es_inv env view (no_replay es1) s1"
    using i(2) es1 by (simp add: es_inv_def GetLastInstanceID_def)
  have "map_of (fs_names s1) (fm_data_dir (es_fm es1) @ f) = Some ino" using nf i(8,9) es1 by (simp add: newest_file_def)
  with inv i es1 have rb: "read_back env view es1 s1 f ino bs evs" by (simp add: read_back_def)
  show ?thesis
  proof (cases evs rule: rev_cases)
    case Nil
    then have "es_checkpoint_data es1 = []" using i(5) es1 by simp
    then have "no_replay es1 = es1" by (cases es1) simp
    then have "es_log env view es1 s1 []" using inv by (simp add: es_log_def)
    with load Nil i(6) show ?thesis by auto
  next
    case (snoc xs e)
    have "sorted_wrt (<) (GetLastInstanceID es1 # map ed_instance_id (xs @ [e]))"
      using assms(7) snoc i(3) es1 by (simp add: GetLastInstanceID_def)
    from replay_newest_file [OF rb [unfolded snoc] nf [unfolded snoc] _ i(8) assms(4) assms(5,6) [unfolded snoc] this assms(8), of mi]
      i(9,10) es1 assms(9) load snoc show ?thesis by auto
  qed
qed

subsection \<open>A concrete restart\<close>

text \<open>A serialization of all position records: strings end with a zero, numbers have eight bytes.\<close>

fun enc_str :: "string \<Rightarrow> bytes" where
  "enc_str [] = [0]"
| "enc_str (c # cs) = 1 # of_nat (of_char c) # enc_str cs"

fun dec_str :: "bytes \<Rightarrow> (string \<times> bytes) option" where
  "dec_str (x # b) = (if x = 0 then Some ([], b)
     else case b of [] \<Rightarrow> None | c # b \<Rightarrow> map_option (\<lambda>(s, r). (char_of (unat c) # s, r)) (dec_str b))"
| "dec_str [] = None"

lemma dec_enc_str [simp]: "dec_str (enc_str s @ r) = Some (s, r)"
proof (induction s)
  case (Cons c s)
  have "unat (of_nat (of_char c) :: 8 word) = of_char c" using nat_of_char_less_256 [of c] by (simp add: unat_of_nat)
  with Cons show ?case by simp
qed simp

definition info_codec :: "EventDataInfo codec" where
  "info_codec =
     \<lparr>enc = (\<lambda>i. Some (enc_str (di_gtid i) @ enc_str (di_file_name i) @ le_bytes 8 (unat (di_offset i)) @
        le_bytes 8 (unat (di_checksum i)) @ le_bytes 8 (unat (di_instance_id i)))),
      dec = (\<lambda>b. do {
        (g, b) \<leftarrow> dec_str b;
        (f, b) \<leftarrow> dec_str b;
        Some \<lparr>di_gtid = g, di_file_name = f, di_offset = of_nat (le_val (take 8 b)),
          di_checksum = of_nat (le_val (take 8 (drop 8 b))), di_instance_id = of_nat (le_val (drop 16 b))\<rparr>
      })\<rparr>"

lemma le_val_word64 [simp]: "le_val (le_bytes 8 (unat (w :: u64))) = unat w"
  using unsigned_less [where 'a = nat, of w] by (intro le_val_le_bytes8) simp

lemma codec_ok_info: "codec_ok info_codec" "\<exists>b. enc info_codec i = Some b" "\<forall>i b. enc info_codec i = Some b \<longrightarrow> b \<noteq> []"
proof -
  have "enc_str s \<noteq> []" for s by (cases s) auto
  then show "codec_ok info_codec" "\<exists>b. enc info_codec i = Some b" "\<forall>i b. enc info_codec i = Some b \<longrightarrow> b \<noteq> []"
    by (auto simp: codec_ok_def info_codec_def)
qed

definition two_codec :: "'m \<Rightarrow> 'm \<Rightarrow> 'm codec" where
  "two_codec m1 m2 = \<lparr>enc = (\<lambda>x. if x = m1 then Some [1] else if x = m2 then Some [2] else None),
     dec = (\<lambda>b. if b = [1] then Some m1 else if b = [2] then Some m2 else None)\<rparr>"

definition restart_env :: "(string \<times> bytes option) list senv" where
  "restart_env = sample_env\<lparr>sv_event := two_codec EventData_init sample_ed, sv_info := info_codec\<rparr>"

definition restart_es :: "(string \<times> bytes option) list estore" where
  "restart_es = sample_es\<lparr>es_fm := (es_fm sample_es)\<lparr>fm_write := Storage_init WRITE ''d/''\<rparr>\<rparr>"

definition restart_fs :: fs where
  "restart_fs = sample_esfs\<lparr>fs_data := (\<lambda>_. log_bytes [[1], [2]] @ [0])\<rparr>"

lemma torn_sample: "torn [0]"
proof -
  have "le_bytes 8 0 = 0 # le_bytes 7 0" using le_bytes.simps(2) [of 7 0] by simp
  then show ?thesis unfolding torn_def by (intro exI [of _ "[]"] exI [of _ 1]) (simp add: frame_def)
qed

lemma restart_es_ok: "es_restart restart_env mem_view restart_es restart_fs"
  using codec_ok_info leveldb_ok_mem
  by (simp add: es_restart_def restart_env_def restart_es_def restart_fs_def sample_env_def sample_es_def sample_esfs_def)
    (simp add: codec_ok_def two_codec_def fm_ok_def os_ok_def Storage_init_def fs_bounded_def fs_ok_def sm_ok_def
      GetLastInstanceID_def UUID_GetLastInstanceID_def UUIDHandler_init_def EventDataInfo_init_def uh_ok_def)

lemma restart_file:
  "newest_file restart_env restart_es restart_fs (event_file_name 0) 0 [[1], [2]] EventData_init [sample_ed]"
  using torn_sample
  by (simp add: newest_file_def restart_env_def restart_es_def restart_fs_def sample_env_def sample_es_def sample_esfs_def)
    (auto simp: two_codec_def record_ok_def io_limit_def EventData_init_def sample_ed_def)

lemma restart_index: "index_works restart_env"
proof -
  have "fst (SetGTIDIndex mem_ldb info_codec g i d) = EI_OK" for g i d
    using codec_ok_info(2) [of i] by (auto simp: SetGTIDIndex_def mem_ldb_def)
  then show ?thesis by (simp add: index_works_def restart_env_def sample_env_def)
qed

theorem restart_replay_recovers_witness:
  "\<exists>es1 s1 es2 s2. EventStorage_LoadFromCheckPoint restart_env EventData_init (event_file_name 0) restart_es restart_fs =
      Some (OK, es1, s1) \<and> replay restart_env MasterInfo_init [sample_ed] es1 s1 = Some (es2, s2) \<and>
    es_log restart_env mem_view es2 s2 [sample_ed] \<and> fs_data s2 0 = log_bytes [[1], [2]]"
proof -
  have uh: "restart_es\<lparr>es_uuid := UUIDHandler_init\<rparr> = restart_es"
    "UUID_LoadFromCheckPoint (sv_infos restart_env) EventData_init (es_uuid restart_es) = (OK, UUIDHandler_init)"
    by (simp_all add: restart_es_def sample_es_def UUID_LoadFromCheckPoint_def UUID_ParseFromString_def EventData_init_def)
  have m: "unat (sv_max_event_file_size restart_env) = 1000" by (simp add: restart_env_def sample_env_def)
  have k: "ParseGTID GetKeyForUUID \<noteq> ParseGTID (ed_gtid sample_ed)"
    by (simp add: ParseGTID_def GetKeyForUUID_def sample_ed_def)
  have i: "UUID_GetLastInstanceID UUIDHandler_init < ed_instance_id sample_ed"
    by (simp add: UUID_GetLastInstanceID_def UUIDHandler_init_def EventDataInfo_init_def sample_ed_def)
  show ?thesis
    using restart_replay_recovers [of restart_env mem_view UUIDHandler_init restart_es restart_fs "event_file_name 0" 0
        "[[1], [2]]" EventData_init "[sample_ed]" MasterInfo_init] restart_es_ok restart_file restart_index uh k i m
    by (simp add: restart_fs_def sample_esfs_def)
qed

end
