(* ===== verification/Paxos_Node.thy ===== *)
theory Paxos_Node
  imports Recovery
begin

text \<open>
  The replicated state machines of a node and the agents that propose values for them: the event
  manager (\<^verbatim>\<open>core/handler/event_manager.cpp\<close>), the event monitor (\<^verbatim>\<open>core/handler/event_monitor.cpp\<close>), the
  executers (\<^verbatim>\<open>core/paxos/executer_base.cpp\<close>, \<^verbatim>\<open>event_executer.cpp\<close>, \<^verbatim>\<open>master_executer.cpp\<close>) and the agents
  (\<^verbatim>\<open>paxos_agent.cpp\<close>, \<^verbatim>\<open>event_agent.cpp\<close>, \<^verbatim>\<open>master_agent.cpp\<close>). The consensus library is a parameter. The
  executers run one at a time, in the order of the instances.
\<close>

section \<open>Messages and state\<close>

record PaxosEventData =
  pe_svrid :: u32
  pe_current_gtid :: string
  pe_event_gtid :: string
  pe_buffer :: bytes
  pe_checksum :: u64

record 'd nenv =
  ne_sv :: "'d senv"
  ne_paxos :: "PaxosEventData codec"
  ne_svrid :: u32
  ne_ip :: string
  ne_mysql_port :: u32
  ne_max_push :: u32
  ne_force_checkpoint :: bool

record 'd node =
  nd_mm :: mmanager
  nd_es :: "'d estore"
  nd_cp :: cpmanager
  nd_fs :: fs

abbreviation nd_now :: "'d node \<Rightarrow> int" where
  "nd_now nd \<equiv> uint (fs_now (nd_fs nd))"

abbreviation (input) EVENT_PAXOS_SMID :: int where "EVENT_PAXOS_SMID \<equiv> 1"
abbreviation (input) MASTER_PAXOS_SMID :: int where "MASTER_PAXOS_SMID \<equiv> 2"

section \<open>The event manager\<close>

definition EventManager_SignUpGTID :: "'d nenv \<Rightarrow> string \<Rightarrow> 'd node \<Rightarrow> (int \<times> 'd node) option" where
  "EventManager_SignUpGTID env gtid nd =
     map_option (\<lambda>(ret, es, s). (ret, nd\<lparr>nd_es := es, nd_fs := s\<rparr>)) (ReSet (ne_sv env) gtid (nd_es nd) (nd_fs nd))"

definition EventManager_SignUpGTIDs :: "'d nenv \<Rightarrow> string list \<Rightarrow> 'd node \<Rightarrow> (int \<times> 'd node) option" where
  "EventManager_SignUpGTIDs env gtid_list nd = do {
     (ret, gtid, s) \<leftarrow> GetLastGtid (ne_sv env) gtid_list [] (nd_es nd) (nd_fs nd);
     let nd = nd\<lparr>nd_fs := s\<rparr>;
     if ret \<noteq> 0 then Some (ret, nd) else EventManager_SignUpGTID env gtid nd
   }"

definition GetLastSendGTID :: "string \<Rightarrow> 'd node \<Rightarrow> string" where
  "GetLastSendGTID gtid nd = GetLastGTIDByGTID gtid (nd_es nd)"

definition EventManager_GetGTIDInfo ::
  "'d nenv \<Rightarrow> string \<Rightarrow> EventDataInfo \<Rightarrow> 'd node \<Rightarrow> (int \<times> EventDataInfo \<times> 'd node) option" where
  "EventManager_GetGTIDInfo env gtid info nd =
     map_option (\<lambda>(ret, info, s). (ret, info, nd\<lparr>nd_fs := s\<rparr>))
       (GetGTIDInfo (ne_sv env) gtid info False (nd_es nd) (nd_fs nd))"

definition GetNowCheckSum :: "'d node \<Rightarrow> int \<times> u64" where
  "GetNowCheckSum nd = (case GetNewestGTIDInfo (nd_es nd) of (ret, datainfo) \<Rightarrow> (ret, di_checksum datainfo))"

definition SaveEvents ::
  "'d nenv \<Rightarrow> u64 \<Rightarrow> string \<Rightarrow> bytes \<Rightarrow> u64 \<Rightarrow> 'd node \<Rightarrow> (int \<times> 'd node) option" where
  "SaveEvents env instanceid gtid data check_sum nd =
     (if gtid = [] then Some (OK, nd)
      else
        let event_data = \<lparr>ed_gtid = gtid, ed_data = data, ed_checksum = check_sum, ed_instance_id = instanceid,
              ed_master_data = [], ed_event_data_file = []\<rparr>
        in map_option (\<lambda>(ret, es, s). (ret, nd\<lparr>nd_es := es, nd_fs := s\<rparr>))
             (AddEvent (ne_sv env) (GetMaster (mm_storage (nd_mm nd))) gtid event_data True (nd_es nd) (nd_fs nd)))"

text \<open>Up to \<^verbatim>\<open>want_num\<close> events are concatenated; only the first call waits for data.\<close>

fun GetEvents_loop ::
  "nat \<Rightarrow> bool \<Rightarrow> 'd senv \<Rightarrow> bytes \<Rightarrow> 'd estore \<Rightarrow> fs \<Rightarrow> (int \<times> bytes \<times> 'd estore \<times> fs) option" where
  "GetEvents_loop 0 first env data es s = Some (OK, data, es, s)"
| "GetEvents_loop (Suc n) first env data es s = do {
     (ret, event_data, es, s) \<leftarrow> GetEvent env es s;
     if ret \<noteq> 0 then Some (if ret = EVENT_EMPTY \<and> \<not> first then OK else ret, data, es, s)
     else GetEvents_loop n False env (case event_data of Some d \<Rightarrow> data @ ed_data d | None \<Rightarrow> data) es s
   }"

definition GetEvents :: "'d nenv \<Rightarrow> bytes \<Rightarrow> u32 \<Rightarrow> 'd node \<Rightarrow> (int \<times> bytes \<times> 'd node) option" where
  "GetEvents env data want_num nd =
     (let want_num = (if want_num = 0 then ne_max_push env else want_num)
      in map_option (\<lambda>(ret, data, es, s). (ret, data, nd\<lparr>nd_es := es, nd_fs := s\<rparr>))
           (GetEvents_loop (unat want_num) True (ne_sv env) data (nd_es nd) (nd_fs nd)))"

text \<open>
  One round of the event monitor, with the instance the local MySQL has reached, which is only reported: \<open>gtids\<close> is what \<^verbatim>\<open>MasterMonitor\<close> answered for the local MySQL or
  for all members; a master uses the list of the round before.
\<close>

fun look_up_gtids :: "'d senv \<Rightarrow> string list \<Rightarrow> u64 \<Rightarrow> 'd estore \<Rightarrow> fs \<Rightarrow> (u64 \<times> fs) option" where
  "look_up_gtids env [] max_instanceid es s = Some (max_instanceid, s)"
| "look_up_gtids env (gtid # gtid_list) max_instanceid es s = do {
     (ret, data_info, s) \<leftarrow> GetGTIDInfo env gtid EventDataInfo_init True es s;
     look_up_gtids env gtid_list
       (if ret \<noteq> 0 then max_instanceid else max max_instanceid (di_instance_id data_info)) es s
   }"

definition EventMonitor_CheckRunningStatus ::
  "'d nenv \<Rightarrow> int \<times> string list \<Rightarrow> string list \<Rightarrow> 'd node \<Rightarrow> (int \<times> string list \<times> 'd node) option" where
  "EventMonitor_CheckRunningStatus env gtids last_check_gtid nd =
     (case gtids of
        (ret, gtid_list) \<Rightarrow>
          if ret \<noteq> OK then Some (ret, last_check_gtid, nd)
          else if IsMaster (nd_now nd) (ne_svrid env) (nd_mm nd) \<and> last_check_gtid = []
          then Some (OK, gtid_list, nd)
          else do {
            let is_master = IsMaster (nd_now nd) (ne_svrid env) (nd_mm nd);
            (ret, cp, es, s) \<leftarrow>
              MakeCheckPoint (ne_sv env) (if is_master then last_check_gtid else gtid_list) (nd_cp nd) (nd_es nd) (nd_fs nd);
            (_, s) \<leftarrow> look_up_gtids (ne_sv env) (if is_master then [] else gtid_list) 0 es s;
            Some (ret, if is_master then gtid_list else last_check_gtid, nd\<lparr>nd_cp := cp, nd_es := es, nd_fs := s\<rparr>)
          })"

section \<open>The executers\<close>

text \<open>The master is checked without its lease, so that every node decides alike.\<close>

definition EventExecuter_SMExecute :: "'d nenv \<Rightarrow> u64 \<Rightarrow> bytes \<Rightarrow> 'd node \<Rightarrow> (int \<times> 'd node) option" where
  "EventExecuter_SMExecute env instance_id paxos_value nd =
     (case dec (ne_paxos env) paxos_value of
        None \<Rightarrow> Some (PAXOS_BUFFER_FAIL, nd)
      | Some data \<Rightarrow>
          if pe_buffer data = [] \<or> pe_event_gtid data = [] then Some (OK, nd)
          else if \<not> CheckMasterBySvrID (nd_now nd) (pe_svrid data) False (mm_storage (nd_mm nd))
          then Some (MASTER_CONFLICT, nd)
          else
            let newest_gtid = GetNewestGTID (nd_es nd)
            in if newest_gtid \<noteq> [] \<and> pe_current_gtid data \<noteq> newest_gtid
               then Some (if pe_event_gtid data = newest_gtid then EVENT_EXIST else GTID_CONFLICT, nd)
               else case GetNowCheckSum nd of
                 (ret, old_checksum) \<Rightarrow>
                   if ret \<noteq> 0 then Some (ret, nd)
                   else if GetCheckSum old_checksum (pe_buffer data) \<noteq> pe_checksum data then Some (BUFFER_FAIL, nd)
                   else SaveEvents env instance_id (pe_event_gtid data) (pe_buffer data) (pe_checksum data) nd)"

text \<open>\<open>rand\<close> is the value of the C library's generator.\<close>

definition GetExtLeaseTime :: "nat \<Rightarrow> int" where
  "GetExtLeaseTime rand = int (rand mod 10)"

definition MasterExecuter_SMExecute :: "'d nenv \<Rightarrow> nat \<Rightarrow> u64 \<Rightarrow> bytes \<Rightarrow> 'd node \<Rightarrow> int \<times> 'd node" where
  "MasterExecuter_SMExecute env rand instanceid paxos_value nd =
     (case dec (sv_master (ne_sv env)) paxos_value of
        None \<Rightarrow> (BUFFER_FAIL, nd)
      | Some master_info \<Rightarrow>
          let master_info = master_info\<lparr>mi_instance_id := instanceid\<rparr>;
              master_info =
                (if mi_expire_time master_info = 0
                 then master_info\<lparr>mi_expire_time :=
                   (if mi_svr_id master_info = ne_svrid env then mi_update_time master_info + mi_lease master_info
                    else of_int (nd_now nd + uint (mi_lease master_info) + GetExtLeaseTime rand))\<rparr>
                 else master_info)
          in case SetMasterInfo (nd_now nd) master_info (nd_mm nd) of (ret, mm) \<Rightarrow> (ret, nd\<lparr>nd_mm := mm\<rparr>))"

text \<open>
  A chosen value is dispatched by its state machine id. A negative result makes \<^verbatim>\<open>Execute\<close> return
  false, and then the context keeps the result it had.
\<close>

definition SMExecute :: "'d nenv \<Rightarrow> nat \<Rightarrow> int \<Rightarrow> u64 \<Rightarrow> bytes \<Rightarrow> 'd node \<Rightarrow> (int \<times> 'd node) option" where
  "SMExecute env rand smid instanceid paxos_value nd =
     (if smid = EVENT_PAXOS_SMID then EventExecuter_SMExecute env instanceid paxos_value nd
      else if smid = MASTER_PAXOS_SMID then Some (MasterExecuter_SMExecute env rand instanceid paxos_value nd)
      else Some (OK, nd))"

definition ExecuterBase_Execute ::
  "'d nenv \<Rightarrow> nat \<Rightarrow> int \<Rightarrow> u64 \<Rightarrow> bytes \<Rightarrow> int \<Rightarrow> 'd node \<Rightarrow> (bool \<times> int \<times> 'd node) option" where
  "ExecuterBase_Execute env rand smid instanceid paxos_value ctx nd = do {
     (result, nd) \<leftarrow> SMExecute env rand smid instanceid paxos_value nd;
     Some (if result < 0 then (False, ctx, nd) else (True, result, nd))
   }"

text \<open>The checkpoint callbacks of the event executer.\<close>

definition EventExecuter_GetCheckpointInstanceID :: "'d node \<Rightarrow> u64" where
  "EventExecuter_GetCheckpointInstanceID nd = GetLastestCheckPointInstanceID (nd_es nd)"

definition EventExecuter_LockCheckpointState :: "'d node \<Rightarrow> int \<times> 'd node" where
  "EventExecuter_LockCheckpointState nd = (case LockCheckPoint (nd_cp nd) of (ret, cp) \<Rightarrow> (ret, nd\<lparr>nd_cp := cp\<rparr>))"

definition EventExecuter_UnLockCheckpointState :: "'d node \<Rightarrow> 'd node" where
  "EventExecuter_UnLockCheckpointState nd = nd\<lparr>nd_cp := UnLockCheckPoint (nd_cp nd)\<rparr>"

definition EventExecuter_GetCheckpointState ::
  "'d nenv \<Rightarrow> string list \<Rightarrow> 'd node \<Rightarrow> (int \<times> string \<times> string list) option" where
  "EventExecuter_GetCheckpointState env file_list nd =
     map_option (\<lambda>(ret, files). (ret, sv_data_dir (ne_sv env), files)) (CP_GetFile (ne_sv env) (nd_fs nd) file_list)"

definition EventExecuter_LoadCheckpointState :: "string \<Rightarrow> 'd node \<Rightarrow> (int \<times> 'd node) option" where
  "EventExecuter_LoadCheckpointState checkpoint_tmp_file_dir_path nd =
     map_option (\<lambda>(ret, s). (ret, nd\<lparr>nd_fs := s\<rparr>)) (LoadCheckpointFiles (nd_es nd) checkpoint_tmp_file_dir_path (nd_fs nd))"

section \<open>The agents\<close>

text \<open>
  The consensus library as the agents see it. A world is everything a call can change; \<open>px_node\<close> is the
  local node in it. \<open>px_propose\<close> returns the code, what the executer put into the context, and the
  world in which the value was executed. Members are pairs of an address and a port.
\<close>

record ('w, 'd) paxos_api =
  px_node :: "'w \<Rightarrow> 'd node"
  px_propose :: "int \<Rightarrow> bytes \<Rightarrow> 'w \<Rightarrow> int \<times> int \<times> 'w"
  px_too_large :: int
  px_show :: "'w \<Rightarrow> int \<times> (string \<times> u32) list"
  px_add :: "string \<times> u32 \<Rightarrow> 'w \<Rightarrow> int \<times> 'w"
  px_remove :: "string \<times> u32 \<Rightarrow> 'w \<Rightarrow> int \<times> 'w"
  px_set_node :: "'d node \<Rightarrow> 'w \<Rightarrow> 'w"
  px_run :: "(string \<times> u32) list \<Rightarrow> (string \<times> u32) option \<Rightarrow> 'w \<Rightarrow> int \<times> 'w"

definition PaxosAgent_Send :: "('w, 'd) paxos_api \<Rightarrow> bytes \<Rightarrow> int \<Rightarrow> 'w \<Rightarrow> int \<times> 'w" where
  "PaxosAgent_Send px value smid w =
     (case px_propose px smid value w of
        (proposal_ret, result, w) \<Rightarrow>
          (if proposal_ret = 0 then result
           else if proposal_ret = px_too_large px then DATA_TOO_LARGE else PAXOS_FAIL, w))"

definition PaxosAgent_AddMember :: "('w, 'd) paxos_api \<Rightarrow> u32 \<Rightarrow> string \<Rightarrow> 'w \<Rightarrow> int \<times> 'w" where
  "PaxosAgent_AddMember px port ip w = (if ip \<noteq> [] then px_add px (ip, port) w else (ARG_FAIL, w))"

definition PaxosAgent_RemoveMember :: "('w, 'd) paxos_api \<Rightarrow> u32 \<Rightarrow> string \<Rightarrow> 'w \<Rightarrow> int \<times> 'w" where
  "PaxosAgent_RemoveMember px port ip w = (if ip \<noteq> [] then px_remove px (ip, port) w else (ARG_FAIL, w))"

definition PaxosAgent_GetMemberList ::
  "('w, 'd) paxos_api \<Rightarrow> (string \<times> u32) list \<Rightarrow> 'w \<Rightarrow> int \<times> (string \<times> u32) list" where
  "PaxosAgent_GetMemberList px member_list w =
     (case px_show px w of (ret, nodes) \<Rightarrow> (ret, if ret = 0 then member_list @ nodes else member_list))"

text \<open>The node list a node starts with, and the leader it follows.\<close>

definition SetFollower :: "string \<Rightarrow> u32 \<Rightarrow> (string \<times> u32) option" where
  "SetFollower follower_ip paxos_port = (if follower_ip \<noteq> [] then Some (follower_ip, paxos_port) else None)"

definition SetPaxosNodeList :: "string \<times> u32 \<Rightarrow> (string \<times> u32) option \<Rightarrow> bool \<Rightarrow> (string \<times> u32) list" where
  "SetPaxosNodeList my_node follower master =
     (if follower \<noteq> None then [my_node] else if master then [my_node] else [])"

text \<open>Running a node asserts that it could be started.\<close>

definition PaxosAgent_ReRun ::
  "('w, 'd) paxos_api \<Rightarrow> (string \<times> u32) list \<Rightarrow> (string \<times> u32) option \<Rightarrow> 'w \<Rightarrow> 'w option" where
  "PaxosAgent_ReRun px nodes follower w = (case px_run px nodes follower w of (ret, w) \<Rightarrow> if ret = 0 then Some w else None)"

definition PaxosAgent_SetMaster ::
  "('w, 'd) paxos_api \<Rightarrow> string \<Rightarrow> string \<times> u32 \<Rightarrow> 'w \<Rightarrow> (int \<times> 'w) option" where
  "PaxosAgent_SetMaster px follower_ip my_node w =
     (case px_show px w of
        (ret, nodes) \<Rightarrow>
          if ret \<noteq> 0 then Some (ret, w)
          else if nodes \<noteq> [] then Some (MASTER_INIT_FAIL, w)
          else
            let follower = SetFollower follower_ip (snd my_node)
            in map_option (\<lambda>w. (ret, w)) (PaxosAgent_ReRun px (SetPaxosNodeList my_node follower True) follower w))"

definition EventAgent_SendValue ::
  "'d nenv \<Rightarrow> ('w, 'd) paxos_api \<Rightarrow> string \<Rightarrow> string \<Rightarrow> bytes \<Rightarrow> 'w \<Rightarrow> int \<times> 'w" where
  "EventAgent_SendValue env px old_gtid new_gtid value w =
     (if new_gtid = [] \<or> value = [] then (GTID_EVENT_FAIL, w)
      else if \<not> IsMaster (nd_now (px_node px w)) (ne_svrid env) (nd_mm (px_node px w)) then (MASTER_CONFLICT, w)
      else case GetNowCheckSum (px_node px w) of
        (ret, now_checksum) \<Rightarrow>
          if ret \<noteq> 0 then (ret, w)
          else case enc (ne_paxos env) \<lparr>pe_svrid = ne_svrid env, pe_current_gtid = old_gtid, pe_event_gtid = new_gtid,
              pe_buffer = value, pe_checksum = GetCheckSum now_checksum value\<rparr> of
            None \<Rightarrow> (PAXOS_BUFFER_FAIL, w)
          | Some send_buffer \<Rightarrow> PaxosAgent_Send px send_buffer EVENT_PAXOS_SMID w)"

definition EventAgent_FlushData :: "'d nenv \<Rightarrow> ('w, 'd) paxos_api \<Rightarrow> 'w \<Rightarrow> int \<times> 'w" where
  "EventAgent_FlushData env px w =
     (case enc (ne_paxos env) \<lparr>pe_svrid = ne_svrid env, pe_current_gtid = [], pe_event_gtid = [], pe_buffer = [],
         pe_checksum = 0\<rparr> of
        None \<Rightarrow> (PAXOS_BUFFER_FAIL, w)
      | Some send_buffer \<Rightarrow> PaxosAgent_Send px send_buffer EVENT_PAXOS_SMID w)"

definition DataManager_SendEvent ::
  "'d nenv \<Rightarrow> ('w, 'd) paxos_api \<Rightarrow> string \<Rightarrow> string \<Rightarrow> bytes \<Rightarrow> 'w \<Rightarrow> int \<times> 'w" where
  "DataManager_SendEvent env px oldgtid newgtid event_buffer w =
     (if event_buffer = [] then (BUFFER_FAIL, w) else EventAgent_SendValue env px oldgtid newgtid event_buffer w)"

subsection \<open>The master agent\<close>

definition SendMasterInfo :: "'d nenv \<Rightarrow> ('w, 'd) paxos_api \<Rightarrow> MasterInfo \<Rightarrow> 'w \<Rightarrow> int \<times> 'w" where
  "SendMasterInfo env px master_info w =
     (case enc (sv_master (ne_sv env)) master_info of
        None \<Rightarrow> (BUFFER_FAIL, w)
      | Some buffer \<Rightarrow> PaxosAgent_Send px buffer MASTER_PAXOS_SMID w)"

text \<open>The record a node proposes, or the code with which it refuses to.\<close>

definition master_proposal :: "'d nenv \<Rightarrow> MasterInfo \<Rightarrow> 'd node \<Rightarrow> int + MasterInfo" where
  "master_proposal env info nd =
     (if \<not> IsTimeOut (nd_now nd) info \<and> \<not> IsMaster (nd_now nd) (ne_svrid env) (nd_mm nd) then Inl MASTER_CONFLICT
      else Inr (info\<lparr>mi_update_time := fs_now (nd_fs nd), mi_lease := sv_lease_time (ne_sv env), mi_expire_time := 0\<rparr>))"

definition MasterAgent_SetMasterInfo :: "'d nenv \<Rightarrow> ('w, 'd) paxos_api \<Rightarrow> MasterInfo \<Rightarrow> 'w \<Rightarrow> int \<times> 'w" where
  "MasterAgent_SetMasterInfo env px info w =
     (case master_proposal env info (px_node px w) of
        Inl ret \<Rightarrow> (ret, w)
      | Inr info \<Rightarrow> SendMasterInfo env px info w)"

definition MasterAgent_SetMaster ::
  "'d nenv \<Rightarrow> ('w, 'd) paxos_api \<Rightarrow> string \<Rightarrow> (string \<times> u32) option \<Rightarrow> 'w \<Rightarrow> int \<times> 'w" where
  "MasterAgent_SetMaster env px master_ip export w =
     (case GenMasterInfoByLocal (ne_mysql_port env) master_ip (nd_mm (px_node px w)) of
        (ret, info) \<Rightarrow>
          if ret \<noteq> 0 then (ret, w)
          else MasterAgent_SetMasterInfo env px
                 (case export of None \<Rightarrow> info | Some (ip, port) \<Rightarrow> info\<lparr>mi_export_ip := ip, mi_export_port := port\<rparr>) w)"

definition MasterAgent_SetExportIP :: "'d nenv \<Rightarrow> ('w, 'd) paxos_api \<Rightarrow> string \<Rightarrow> u32 \<Rightarrow> 'w \<Rightarrow> int \<times> 'w" where
  "MasterAgent_SetExportIP env px export_ip port w = MasterAgent_SetMaster env px (ne_ip env) (Some (export_ip, port)) w"

definition MasterAgent_MasterNotify :: "'d nenv \<Rightarrow> ('w, 'd) paxos_api \<Rightarrow> 'w \<Rightarrow> int \<times> 'w" where
  "MasterAgent_MasterNotify env px w =
     (case GetMasterInfo (nd_mm (px_node px w)) of
        (ret, now_masterinfo) \<Rightarrow> if ret = 0 then SendMasterInfo env px now_masterinfo w else (ret, w))"

definition MasterAgent_InitMaster ::
  "('w, 'd) paxos_api \<Rightarrow> string \<Rightarrow> string \<times> u32 \<Rightarrow> 'w \<Rightarrow> (int \<times> 'w) option" where
  "MasterAgent_InitMaster px follower_ip my_node w = do {
     (ret, w) \<leftarrow> PaxosAgent_SetMaster px follower_ip my_node w;
     if ret \<noteq> 0 then Some (ret, w)
     else Some (OK, px_set_node px ((px_node px w)\<lparr>nd_mm := MasterManager_MonitorStart (nd_mm (px_node px w))\<rparr>) w)
   }"

definition MembershipChangeCallback :: "(string \<times> u32) list \<Rightarrow> 'd node \<Rightarrow> 'd node" where
  "MembershipChangeCallback node_info_list nd = nd\<lparr>nd_mm := SetMemberList (map fst node_info_list) (nd_mm nd)\<rparr>"

text \<open>\<open>remove_permission\<close> is what \<^verbatim>\<open>MySqlManager::RemoveMemberAdminPermission\<close> answers.\<close>

definition MasterAgent_RemoveMember ::
  "('w, 'd) paxos_api \<Rightarrow> u32 \<Rightarrow> (string \<Rightarrow> int) \<Rightarrow> string \<Rightarrow> 'w \<Rightarrow> int \<times> 'w" where
  "MasterAgent_RemoveMember px port remove_permission ip w =
     (let ret = remove_permission ip in if ret \<noteq> 0 then (ret, w) else PaxosAgent_RemoveMember px port ip w)"

definition MasterAgent_SetMySqlAdminInfo ::
  "'d nenv \<Rightarrow> ('w, 'd) paxos_api \<Rightarrow> (string list \<Rightarrow> int) \<Rightarrow> string \<Rightarrow> string \<Rightarrow> 'w \<Rightarrow> int \<times> 'w" where
  "MasterAgent_SetMySqlAdminInfo env px create new_username new_pwd w =
     (if new_username = [] then (REQ_INVALUD, w)
      else case GetMasterInfo (nd_mm (px_node px w)) of
        (ret, info) \<Rightarrow>
          if ret \<noteq> 0 then (SVR_FAIL, w)
          else case MasterManager_SetMySqlAdminInfo (nd_now (px_node px w)) (ne_svrid env) create new_username new_pwd
              info (nd_mm (px_node px w)) of
            (ret, info) \<Rightarrow> if ret \<noteq> 0 then (ret, w) else MasterAgent_SetMasterInfo env px info w)"

definition MasterAgent_SetMySqlReplicaInfo ::
  "'d nenv \<Rightarrow> ('w, 'd) paxos_api \<Rightarrow> int \<Rightarrow> string \<Rightarrow> string \<Rightarrow> 'w \<Rightarrow> int \<times> 'w" where
  "MasterAgent_SetMySqlReplicaInfo env px create_ret new_username new_pwd w =
     (if new_username = [] then (REQ_INVALUD, w)
      else case GetMasterInfo (nd_mm (px_node px w)) of
        (ret, info) \<Rightarrow>
          if ret \<noteq> 0 then (SVR_FAIL, w)
          else case MasterManager_SetMySqlReplicaInfo (nd_now (px_node px w)) (ne_svrid env) create_ret new_username
              new_pwd info of
            (ret, info) \<Rightarrow> if ret \<noteq> 0 then (ret, w) else MasterAgent_SetMasterInfo env px info w)"

end
