(* ===== verification/Replicas.thy ===== *)
theory Replicas
  imports Paxos_Node
begin

text \<open>
  What the replicas of a cluster agree on. The executers of \<^verbatim>\<open>Paxos_Node\<close> refine a small deterministic machine
  that knows neither clocks nor files; so nodes that execute the same chosen values answer alike, store the
  same events in the same order, and their checksum covers all stored data.
\<close>

section \<open>Outcomes of storing an event\<close>

lemma EFM_WriteData_ret:
  assumes "fm_ok fm" "EFM_WriteData c ed di wr fm s = (ret, di', fm', s')"
  shows "fm_ok fm' \<and> (ret = OK \<or> ret = FILE_FAIL)"
proof -
  obtain r d f t where w: "SFM_WriteData c ed di fm s = (r, d, f, t)" using prod_cases4 by blast
  have "st_mode (fm_write fm) = WRITE" using assms(1) by (simp add: fm_ok_def)
  then have "r = OK \<or> r = FILE_FAIL"
    using w by (auto simp: SFM_WriteData_def Let_def Storage_WriteData_def split: option.splits prod.splits if_splits)
  with fm_ok_SFM_WriteData [OF assms(1) w] assms w show ?thesis
    by (auto simp: EFM_WriteData_def split: if_splits)
qed

lemma SwitchNewFile_fm_ok:
  assumes "fm_ok (es_fm es)" "SwitchNewFile env h wr di es s = Some (ret, di', es', s')"
  shows "fm_ok (es_fm es')"
proof -
  obtain r1 d1 f1 s1 where w: "EFM_WriteData (sv_event env) h di True (es_fm es) s = (r1, d1, f1, s1)"
    using prod_cases4 by blast
  define fd where "fd = (if wr then (r1, d1, es\<lparr>es_fm := f1\<rparr>, s1) else (OK, di, es, s))"
  obtain r d e t where fd: "fd = (r, d, e, t)" using prod_cases4 by blast
  have e: "fm_ok (es_fm e)" using fd EFM_WriteData_ret [OF assms(1) w] assms(1) by (auto simp: fd_def split: if_splits)
  have eq: "SwitchNewFile env h wr di es s = (if r \<noteq> 0 then Some (r, d, e, t) else do {
      (_, fm, s) \<leftarrow> SwitchNewWriteFile (ed_instance_id h) (es_fm e) t;
      (case EFM_WriteData (sv_event env) h d True fm s of
         (ret, data_info, fm, s) \<Rightarrow>
           let es = e\<lparr>es_fm := fm\<rparr>
           in Some (ret, data_info, if ret \<noteq> 0 then es else SetInstanceID (ed_instance_id h) es, s)) })"
    using fd w by (auto simp: SwitchNewFile_def fd_def split: if_splits)
  show ?thesis
  proof (cases "r = 0")
    case False
    with eq assms(2) e show ?thesis by simp
  next
    case True
    with assms(2) [unfolded eq] obtain q fm u where sw: "SwitchNewWriteFile (ed_instance_id h) (es_fm e) t = Some (q, fm, u)"
      by (auto simp: bind_eq_Some_conv)
    then have fm: "fm_ok fm" using fm_ok_OpenNewWriteFile [OF e] by (simp add: SwitchNewWriteFile_def)
    obtain r2 d2 f2 s2 where w2: "EFM_WriteData (sv_event env) h d True fm u = (r2, d2, f2, s2)"
      using prod_cases4 by blast
    have "fm_ok f2" using EFM_WriteData_ret [OF fm w2] by blast
    with True eq assms(2) sw w2 show ?thesis by (auto simp: Let_def SetInstanceID_def split: if_splits)
  qed
qed

lemma CheckAndSwitchFile_fm_ok:
  assumes "fm_ok (es_fm es)" "CheckAndSwitchFile env mi force es s = Some (ret, es', s')"
  shows "fm_ok (es_fm es')"
proof -
  obtain r h es1 where g: "GetFileHeader env mi (GetWriteFileInfo (es_fm es) EventDataInfo_init) es = (r, h, es1)"
    using prod_cases3 by blast
  then have "es_fm es1 = es_fm es"
    by (auto simp: GetFileHeader_def Let_def split: prod.splits if_splits option.splits)
  with assms g show ?thesis
    by (auto simp: CheckAndSwitchFile_def Let_def split: if_splits option.splits dest!: SwitchNewFile_fm_ok [rotated])
qed

text \<open>Adding an event either does nothing, fails on the file, or makes the event the newest.\<close>

lemma AddEvent_outcomes:
  assumes ok: "fm_ok (es_fm es)" and add: "AddEvent env mi gtid ed sw es s = Some (ret, es', s')"
  shows "fm_ok (es_fm es') \<and>
    (ret = EVENT_EXIST \<and> ed_instance_id ed \<le> GetLastInstanceID es \<and> es' = es \<and> s' = s \<or> ret = FILE_FAIL \<or>
     ret = OK \<and> GetLastInstanceID es < ed_instance_id ed)"
proof (cases "ed_instance_id ed \<le> UUID_GetLastInstanceID (es_uuid es)")
  case True
  with add ok show ?thesis by (simp add: AddEvent_def GetLastInstanceID_def)
next
  case False
  with add obtain r0 di es0 s0 where rc: "RealCheckGTID env mi gtid EventDataInfo_init es s = Some (r0, di, es0, s0)"
    by (auto simp: AddEvent_def bind_eq_Some_conv)
  have ok0: "fm_ok (es_fm es0)" and r0: "r0 = DATA_EMPTY \<or> r0 = OK"
    using rc ok by (auto simp: RealCheckGTID_def CheckPointDone_def bind_eq_Some_conv split: if_splits option.splits
        dest!: CheckAndSwitchFile_fm_ok [rotated])
  obtain r1 di' fm1 s1 where w: "EFM_WriteData (sv_event env) ed di (r0 \<noteq> 0) (es_fm es0) s0 = (r1, di', fm1, s1)"
    using prod_cases4 by blast
  obtain st db1 where i: "SetGTIDIndex (sv_ldb env) (sv_info env) gtid di' (es_db es0) = (st, db1)" by fastforce
  note w1 = EFM_WriteData_ret [OF ok0 w]
  show ?thesis
    using False add rc w i r0 w1
    by (auto simp: AddEvent_def Let_def GetLastInstanceID_def not_le split: if_splits
        dest!: CheckAndSwitchFile_fm_ok [rotated])
qed

text \<open>
  The abstract state: the newest event and the master record without its expiry, which every node
  computes from its own clock.
\<close>

record astate =
  as_gtid :: string
  as_checksum :: u64
  as_instance :: u64
  as_master :: MasterInfo

definition abs_node :: "'d node \<Rightarrow> astate" where
  "abs_node nd = \<lparr>as_gtid = GetNewestGTID (nd_es nd), as_checksum = snd (GetNowCheckSum nd),
     as_instance = GetLastInstanceID (nd_es nd), as_master = (ms_master (mm_storage (nd_mm nd)))\<lparr>mi_expire_time := 0\<rparr>\<rparr>"

text \<open>An event of the abstract log: accepted from the master, after the newest event, with the running checksum.\<close>

definition spec_event :: "PaxosEventData codec \<Rightarrow> u64 \<Rightarrow> bytes \<Rightarrow> astate \<Rightarrow> int \<times> astate" where
  "spec_event c instanceid value a =
     (case dec c value of
        None \<Rightarrow> (PAXOS_BUFFER_FAIL, a)
      | Some p \<Rightarrow>
          if pe_buffer p = [] \<or> pe_event_gtid p = [] then (OK, a)
          else if mi_svr_id (as_master a) = 0 \<or> mi_svr_id (as_master a) \<noteq> pe_svrid p then (MASTER_CONFLICT, a)
          else if as_gtid a \<noteq> [] \<and> pe_current_gtid p \<noteq> as_gtid a
          then (if pe_event_gtid p = as_gtid a then EVENT_EXIST else GTID_CONFLICT, a)
          else if pe_checksum p \<noteq> GetCheckSum (as_checksum a) (pe_buffer p) then (BUFFER_FAIL, a)
          else if instanceid \<le> as_instance a then (EVENT_EXIST, a)
          else (OK, a\<lparr>as_gtid := pe_event_gtid p, as_checksum := pe_checksum p, as_instance := instanceid\<rparr>))"

definition spec_master :: "MasterInfo codec \<Rightarrow> u64 \<Rightarrow> bytes \<Rightarrow> astate \<Rightarrow> int \<times> astate" where
  "spec_master c instanceid value a =
     (case dec c value of
        None \<Rightarrow> (BUFFER_FAIL, a)
      | Some m \<Rightarrow>
          let old = as_master a
          in if mi_svr_id old = 0 \<or> mi_instance_id old < instanceid \<and> mi_version old \<le> mi_version m
             then (OK, a\<lparr>as_master := m\<lparr>mi_instance_id := instanceid, mi_version := mi_version m + 1, mi_expire_time := 0\<rparr>\<rparr>)
             else (MASTER_VERSION_CONFLICT, a))"

definition spec_execute ::
  "PaxosEventData codec \<Rightarrow> MasterInfo codec \<Rightarrow> int \<Rightarrow> u64 \<Rightarrow> bytes \<Rightarrow> astate \<Rightarrow> int \<times> astate" where
  "spec_execute pc mc smid instanceid value a =
     (if smid = EVENT_PAXOS_SMID then spec_event pc instanceid value a
      else if smid = MASTER_PAXOS_SMID then spec_master mc instanceid value a else (OK, a))"

abbreviation node_ok :: "'d node \<Rightarrow> bool" where
  "node_ok nd \<equiv> fm_ok (es_fm (nd_es nd))"

lemma SaveEvents_refines:
  assumes "node_ok nd" "SaveEvents env i g b cs nd = Some (ret, nd')" "0 \<le> ret" "b \<noteq> []" "g \<noteq> []"
  shows "(ret, abs_node nd') = (if i \<le> as_instance (abs_node nd) then (EVENT_EXIST, abs_node nd)
      else (OK, (abs_node nd)\<lparr>as_gtid := g, as_checksum := cs, as_instance := i\<rparr>)) \<and> node_ok nd'"
proof -
  obtain es' s' where a: "AddEvent (ne_sv env) (GetMaster (mm_storage (nd_mm nd))) g
      \<lparr>ed_gtid = g, ed_data = b, ed_checksum = cs, ed_instance_id = i, ed_master_data = [], ed_event_data_file = []\<rparr> True (nd_es nd) (nd_fs nd) =
      Some (ret, es', s')" "nd' = nd\<lparr>nd_es := es', nd_fs := s'\<rparr>"
    using assms(2,4,5) by (auto simp: SaveEvents_def)
  note o = AddEvent_outcomes [OF assms(1) a(1)]
  show ?thesis
  proof (cases "ret = OK")
    case OK: True
    note n = AddEvent_OK_newest [OF a(1) [unfolded OK]]
    have "abs_node nd' = (abs_node nd)\<lparr>as_gtid := g, as_checksum := cs, as_instance := i\<rparr>"
      using n a(2) by (simp add: abs_node_def GetNowCheckSum_def case_prod_beta)
    moreover have "\<not> i \<le> as_instance (abs_node nd)" using n(4) by (simp add: abs_node_def GetLastInstanceID_def not_le)
    ultimately show ?thesis using o OK a(2) by simp
  next
    case False
    with o assms(3) have "ret = EVENT_EXIST" "nd' = nd" "i \<le> as_instance (abs_node nd)" using a(2) by (auto simp: abs_node_def)
    with assms(1) show ?thesis by simp
  qed
qed

lemma EventExecuter_refines:
  assumes ok: "node_ok nd" and ex: "EventExecuter_SMExecute env i v nd = Some (ret, nd')" and ret: "0 \<le> ret"
  shows "spec_event (ne_paxos env) i v (abs_node nd) = (ret, abs_node nd') \<and> node_ok nd'"
proof (cases "dec (ne_paxos env) v")
  case None
  with ok ex show ?thesis by (simp add: EventExecuter_SMExecute_def spec_event_def)
next
  case (Some p)
  have m: "CheckMasterBySvrID t j False (mm_storage (nd_mm nd)) \<longleftrightarrow> mi_svr_id (as_master (abs_node nd)) \<noteq> 0 \<and> mi_svr_id (as_master (abs_node nd)) = j" for t j
    by (auto simp: CheckMasterBySvrID_def abs_node_def word_gt_0)
  have c: "GetNowCheckSum nd = (0, as_checksum (abs_node nd))"
    by (simp add: GetNowCheckSum_def GetNewestGTIDInfo_def GetLastestUpdateGTIDInfo_def abs_node_def)
  have g: "GetNewestGTID (nd_es nd) = as_gtid (abs_node nd)" by (simp add: abs_node_def)
  define E where "E \<longleftrightarrow> pe_buffer p = [] \<or> pe_event_gtid p = []"
  define M where "M \<longleftrightarrow> mi_svr_id (as_master (abs_node nd)) = 0 \<or> mi_svr_id (as_master (abs_node nd)) \<noteq> pe_svrid p"
  define G where "G \<longleftrightarrow> as_gtid (abs_node nd) \<noteq> [] \<and> pe_current_gtid p \<noteq> as_gtid (abs_node nd)"
  define S where "S \<longleftrightarrow> pe_checksum p \<noteq> GetCheckSum (as_checksum (abs_node nd)) (pe_buffer p)"
  define rej where "rej = (if E then OK else if M then MASTER_CONFLICT
     else if G then (if pe_event_gtid p = as_gtid (abs_node nd) then EVENT_EXIST else GTID_CONFLICT) else BUFFER_FAIL)"
  have exe: "EventExecuter_SMExecute env i v nd = (if E \<or> M \<or> G \<or> S then Some (rej, nd)
      else SaveEvents env i (pe_event_gtid p) (pe_buffer p) (pe_checksum p) nd)"
    unfolding EventExecuter_SMExecute_def m g c Let_def rej_def
    using Some by (auto simp: E_def M_def G_def S_def)
  have spc: "spec_event (ne_paxos env) i v (abs_node nd) = (if E \<or> M \<or> G \<or> S then (rej, abs_node nd)
      else if i \<le> as_instance (abs_node nd) then (EVENT_EXIST, abs_node nd)
      else (OK, (abs_node nd)\<lparr>as_gtid := pe_event_gtid p, as_checksum := pe_checksum p, as_instance := i\<rparr>))"
    unfolding spec_event_def rej_def E_def M_def G_def S_def using Some by auto
  show ?thesis
  proof (cases "E \<or> M \<or> G \<or> S")
    case True
    with ex have "ret = rej" "nd' = nd" by (simp_all add: exe)
    with ok True show ?thesis by (simp add: spc)
  next
    case False
    then have "SaveEvents env i (pe_event_gtid p) (pe_buffer p) (pe_checksum p) nd = Some (ret, nd')" "pe_buffer p \<noteq> []" "pe_event_gtid p \<noteq> []"
      using ex by (simp_all add: exe E_def)
    from SaveEvents_refines [OF ok this(1) ret this(2,3)] False show ?thesis by (simp add: spc)
  qed
qed

lemma MasterExecuter_refines:
  assumes "MasterExecuter_SMExecute env r i v nd = (ret, nd')"
  shows "spec_master (sv_master (ne_sv env)) i v (abs_node nd) = (ret, abs_node nd') \<and> nd_es nd' = nd_es nd"
proof (cases "dec (sv_master (ne_sv env)) v")
  case None
  with assms show ?thesis by (simp add: MasterExecuter_SMExecute_def spec_master_def)
next
  case (Some m)
  with assms show ?thesis
    by (auto simp: MasterExecuter_SMExecute_def spec_master_def SetMasterInfo_def SetMaster_def abs_node_def
        GetNowCheckSum_def Let_def split: if_splits)
qed

lemma SMExecute_refines:
  assumes "node_ok nd" "SMExecute env r smid i v nd = Some (ret, nd')" "0 \<le> ret"
  shows "spec_execute (ne_paxos env) (sv_master (ne_sv env)) smid i v (abs_node nd) = (ret, abs_node nd') \<and> node_ok nd'"
  using assms EventExecuter_refines [of nd env i v ret nd'] MasterExecuter_refines [of env r i v nd ret nd']
  by (auto simp: SMExecute_def spec_execute_def split: if_splits)

text \<open>
  What a node has executed: the chosen values in order with the results, each executed at some time of
  its own clock. Only values whose \<^verbatim>\<open>Execute\<close> returned true count as executed.
\<close>

type_synonym entry = "int \<times> u64 \<times> bytes"

inductive executes :: "'d nenv \<Rightarrow> 'd node \<Rightarrow> entry list \<Rightarrow> int list \<Rightarrow> 'd node \<Rightarrow> bool" for env nd where
  start: "executes env nd [] [] nd"
| clock: "executes env nd log rs nd1 \<Longrightarrow> executes env nd log rs (nd1\<lparr>nd_fs := (nd_fs nd1)\<lparr>fs_now := t\<rparr>\<rparr>)"
| chosen: "executes env nd log rs nd1 \<Longrightarrow> ExecuterBase_Execute env rand smid i v ctx nd1 = Some (True, r, nd2) \<Longrightarrow>
     executes env nd (log @ [(smid, i, v)]) (rs @ [r]) nd2"

fun spec_run :: "PaxosEventData codec \<Rightarrow> MasterInfo codec \<Rightarrow> entry list \<Rightarrow> astate \<Rightarrow> int list \<times> astate" where
  "spec_run pc mc [] a = ([], a)"
| "spec_run pc mc ((smid, i, v) # log) a =
     (case spec_execute pc mc smid i v a of (r, a) \<Rightarrow> map_prod ((#) r) id (spec_run pc mc log a))"

lemma spec_run_append:
  "spec_run pc mc (log @ log') a =
     (case spec_run pc mc log a of (rs, a) \<Rightarrow> map_prod ((@) rs) id (spec_run pc mc log' a))"
proof (induction log arbitrary: a)
  case Nil
  then show ?case by (simp add: map_prod_def split: prod.splits)
next
  case (Cons e log)
  then show ?case by (cases e) (simp add: map_prod_def split: prod.splits)
qed

lemma ExecuterBase_Execute_True:
  "ExecuterBase_Execute env rand smid i v ctx nd = Some (True, r, nd') \<longleftrightarrow> SMExecute env rand smid i v nd = Some (r, nd') \<and> 0 \<le> r"
  by (auto simp: ExecuterBase_Execute_def bind_eq_Some_conv not_less)

lemma executes_refines:
  assumes "executes env nd log rs nd'" "node_ok nd"
  shows "spec_run (ne_paxos env) (sv_master (ne_sv env)) log (abs_node nd) = (rs, abs_node nd') \<and> node_ok nd'"
  using assms
proof (induction rule: executes.induct)
  case (clock log rs nd1 t)
  then show ?case by (simp add: abs_node_def GetNowCheckSum_def)
next
  case (chosen log rs nd1 rand smid i v ctx r nd2)
  then show ?case
    using SMExecute_refines [of nd1 env rand smid i v r nd2] by (simp add: ExecuterBase_Execute_True spec_run_append)
qed simp

text \<open>
  C2: replicas agree. Two nodes that start from the same abstract state (newest GTID, its checksum and
  instance, and the master record apart from its expiry) and execute the same chosen values, at whatever
  times and with whatever file layouts of their own, return the same results and end in the same abstract
  state.
\<close>

theorem replicas_agree:
  assumes "executes env1 nd1 log rs1 nd1'" "executes env2 nd2 log rs2 nd2'" "node_ok nd1" "node_ok nd2"
    and "ne_paxos env1 = ne_paxos env2" "sv_master (ne_sv env1) = sv_master (ne_sv env2)" "abs_node nd1 = abs_node nd2"
  shows "rs1 = rs2 \<and> abs_node nd1' = abs_node nd2'"
  using executes_refines [OF assms(1,3)] executes_refines [OF assms(2,4)] assms(5-7) by simp

text \<open>The events a run stores, as the storage keeps them.\<close>

definition entry_event :: "PaxosEventData codec \<Rightarrow> entry \<times> int \<Rightarrow> EventData option" where
  "entry_event c = (\<lambda>((smid, i, v), r).
     if smid = EVENT_PAXOS_SMID \<and> r = OK then
       case dec c v of
         Some p \<Rightarrow> if pe_buffer p = [] \<or> pe_event_gtid p = [] then None
           else Some \<lparr>ed_gtid = pe_event_gtid p, ed_data = pe_buffer p, ed_checksum = pe_checksum p, ed_instance_id = i,
             ed_master_data = [], ed_event_data_file = []\<rparr>
       | None \<Rightarrow> None
     else None)"

abbreviation run_events :: "PaxosEventData codec \<Rightarrow> entry list \<Rightarrow> int list \<Rightarrow> EventData list" where
  "run_events c log rs \<equiv> List.map_filter (entry_event c) (zip log rs)"

lemma es_log_clock:
  assumes "es_log env view es s evs"
  shows "es_log env view es (s\<lparr>fs_now := t\<rparr>) evs"
proof -
  have inv: "es_inv env view es s" using assms by (simp add: es_log_def)
  have "es_keeps env view es s (es\<lparr>es_fm := es_fm es\<rparr>) (s\<lparr>fs_now := t\<rparr>)"
    using inv by (intro es_keeps_files) (auto simp: es_inv_def fm_inv_def fm_writer_def fs_bounded_def fs_ok_def fs_extends_def)
  with assms show ?thesis by (auto simp: es_log_def es_keeps_def)
qed

lemma executes_length: "executes env nd log rs nd' \<Longrightarrow> length log = length rs"
  by (induction rule: executes.induct) auto

lemma run_events_snoc:
  assumes "executes env nd log rs nd'"
  shows "run_events c (log @ [x]) (rs @ [r]) = run_events c log rs @ (case entry_event c (x, r) of None \<Rightarrow> [] | Some e \<Rightarrow> [e])"
  using executes_length [OF assms] by (simp add: map_filter_def split: option.splits)

lemma EventExecuter_stored:
  assumes ok: "node_ok nd" and ex: "EventExecuter_SMExecute env i v nd = Some (r, nd')" and r: "0 \<le> r"
  shows "nd' = nd \<and> entry_event (ne_paxos env) ((EVENT_PAXOS_SMID, i, v), r) = None \<or>
    (\<exists>e. entry_event (ne_paxos env) ((EVENT_PAXOS_SMID, i, v), r) = Some e \<and>
       AddEvent (ne_sv env) (GetMaster (mm_storage (nd_mm nd))) (ed_gtid e) e True (nd_es nd) (nd_fs nd) =
         Some (OK, nd_es nd', nd_fs nd') \<and>
       ed_checksum e = GetCheckSum (snd (GetNowCheckSum nd)) (ed_data e))"
proof (cases "dec (ne_paxos env) v")
  case None
  with ex show ?thesis by (simp add: EventExecuter_SMExecute_def entry_event_def)
next
  case (Some p)
  let ?e = "\<lparr>ed_gtid = pe_event_gtid p, ed_data = pe_buffer p, ed_checksum = pe_checksum p, ed_instance_id = i,
    ed_master_data = [], ed_event_data_file = []\<rparr>"
  show ?thesis
  proof (cases "pe_buffer p = [] \<or> pe_event_gtid p = []")
    case True
    with Some ex show ?thesis by (auto simp: EventExecuter_SMExecute_def entry_event_def)
  next
    case ne: False
    have c: "GetNowCheckSum nd = (0, snd (GetNowCheckSum nd))"
      by (simp add: GetNowCheckSum_def GetNewestGTIDInfo_def GetLastestUpdateGTIDInfo_def)
    have "nd' = nd \<and> r \<noteq> OK \<or> (pe_checksum p = GetCheckSum (snd (GetNowCheckSum nd)) (pe_buffer p) \<and>
        SaveEvents env i (pe_event_gtid p) (pe_buffer p) (pe_checksum p) nd = Some (r, nd'))"
      using ex Some ne by (subst (asm) EventExecuter_SMExecute_def, subst (asm) c) (auto simp: Let_def split: if_splits)
    then show ?thesis
    proof (elim disjE conjE)
      assume p: "pe_checksum p = GetCheckSum (snd (GetNowCheckSum nd)) (pe_buffer p)"
        and sv: "SaveEvents env i (pe_event_gtid p) (pe_buffer p) (pe_checksum p) nd = Some (r, nd')"
      from sv ne obtain es' s' where a: "AddEvent (ne_sv env) (GetMaster (mm_storage (nd_mm nd))) (pe_event_gtid p) ?e True
          (nd_es nd) (nd_fs nd) = Some (r, es', s')" "nd' = nd\<lparr>nd_es := es', nd_fs := s'\<rparr>"
        by (auto simp: SaveEvents_def)
      from AddEvent_outcomes [OF ok a(1)] r
      have "r = EVENT_EXIST \<and> nd' = nd \<or> r = OK" using a(2) by auto
      with a p Some ne show ?thesis by (auto simp: entry_event_def)
    qed (auto simp: entry_event_def)
  qed
qed

lemma SMExecute_other:
  assumes "SMExecute env rand smid i v nd = Some (r, nd')" "smid \<noteq> EVENT_PAXOS_SMID"
  shows "nd_es nd' = nd_es nd" "nd_fs nd' = nd_fs nd"
  using assms by (auto simp: SMExecute_def MasterExecuter_SMExecute_def Let_def split: if_splits option.splits prod.splits)

lemma GetNowCheckSum_cong: "nd_es nd' = nd_es nd \<Longrightarrow> GetNowCheckSum nd' = GetNowCheckSum nd"
  by (simp add: GetNowCheckSum_def)

lemma SMExecute_stored:
  assumes "node_ok nd" "SMExecute env rand smid i v nd = Some (r, nd')" "0 \<le> r"
  shows "nd_es nd' = nd_es nd \<and> nd_fs nd' = nd_fs nd \<and> entry_event (ne_paxos env) ((smid, i, v), r) = None \<or>
    (\<exists>e. entry_event (ne_paxos env) ((smid, i, v), r) = Some e \<and>
       AddEvent (ne_sv env) (GetMaster (mm_storage (nd_mm nd))) (ed_gtid e) e True (nd_es nd) (nd_fs nd) =
         Some (OK, nd_es nd', nd_fs nd') \<and>
       ed_checksum e = GetCheckSum (snd (GetNowCheckSum nd)) (ed_data e))"
proof (cases "smid = EVENT_PAXOS_SMID")
  case True
  with assms have "EventExecuter_SMExecute env i v nd = Some (r, nd')" by (simp add: SMExecute_def)
  from EventExecuter_stored [OF assms(1) this assms(3)] True show ?thesis by auto
next
  case False
  with SMExecute_other [OF assms(2)] show ?thesis by (simp add: entry_event_def)
qed

text \<open>
  The checksum of a replica covers everything it stored. After executing any chosen values the
  checksum of the newest event is the checksum of the concatenated data of all events the run stored,
  starting from the checksum before.
\<close>

theorem executes_checksum:
  assumes "executes env nd log rs nd'" "node_ok nd"
  shows "snd (GetNowCheckSum nd') = GetCheckSum (snd (GetNowCheckSum nd)) (concat (map ed_data (run_events (ne_paxos env) log rs)))"
  using assms
proof (induction rule: executes.induct)
  case (chosen log rs nd1 rand smid i v ctx r nd2)
  have x: "SMExecute env rand smid i v nd1 = Some (r, nd2)" "0 \<le> r" using chosen(2) by (simp_all add: ExecuterBase_Execute_True)
  have ok: "node_ok nd1" using executes_refines [OF chosen(1) chosen(4)] by blast
  note z = run_events_snoc [OF chosen(1)]
  from SMExecute_stored [OF ok x] show ?case
  proof (elim disjE conjE exE)
    assume "nd_es nd2 = nd_es nd1" "entry_event (ne_paxos env) ((smid, i, v), r) = None"
    then show ?thesis using chosen.IH [OF chosen(4)] by (simp add: z GetNowCheckSum_cong [of nd2 nd1])
  next
    fix e assume e: "entry_event (ne_paxos env) ((smid, i, v), r) = Some e" "ed_checksum e = GetCheckSum (snd (GetNowCheckSum nd1)) (ed_data e)"
      and a: "AddEvent (ne_sv env) (GetMaster (mm_storage (nd_mm nd1))) (ed_gtid e) e True (nd_es nd1) (nd_fs nd1) =
         Some (OK, nd_es nd2, nd_fs nd2)"
    have "snd (GetNowCheckSum nd2) = ed_checksum e"
      using AddEvent_OK_newest(3) [OF a] by (simp add: GetNowCheckSum_def case_prod_beta)
    with e chosen.IH [OF chosen(4)] show ?thesis by (simp add: z GetCheckSum_append)
  qed
qed (simp_all add: map_filter_def GetNowCheckSum_def)

text \<open>
  C8: a replica stores the events it accepted, all of them and in order. When the storage of a node holds
  a sequence of events and the node executes chosen values, whose events have GTIDs not seen before and can
  be serialized, the storage then holds the sequence extended by the accepted events.
\<close>

theorem executes_log:
  assumes "executes env nd log rs nd'" "es_log (ne_sv env) view (nd_es nd) (nd_fs nd) evs"
    and "distinct (map (ParseGTID \<circ> ed_gtid) (evs @ run_events (ne_paxos env) log rs))"
    and "\<forall>e\<in>set (run_events (ne_paxos env) log rs). enc (sv_event (ne_sv env)) e \<noteq> None \<and> ParseGTID (ed_gtid e) \<noteq> ParseGTID GetKeyForUUID"
  shows "es_log (ne_sv env) view (nd_es nd') (nd_fs nd') (evs @ run_events (ne_paxos env) log rs)"
  using assms
proof (induction rule: executes.induct)
  case (clock log rs nd1 t)
  then show ?case by (simp add: es_log_clock)
next
  case (chosen log rs nd1 rand smid i v ctx r nd2)
  note z = run_events_snoc [OF chosen(1)]
  have x: "SMExecute env rand smid i v nd1 = Some (r, nd2)" "0 \<le> r" using chosen(2) by (simp_all add: ExecuterBase_Execute_True)
  have log1: "es_log (ne_sv env) view (nd_es nd1) (nd_fs nd1) (evs @ run_events (ne_paxos env) log rs)"
    using chosen.IH [OF chosen(4)] chosen(5,6) by (simp add: z Int_Un_distrib)
  then have "node_ok nd1" by (simp add: es_log_def es_inv_def fm_inv_def)
  from SMExecute_stored [OF this x] show ?case
  proof (elim disjE conjE exE)
    assume "nd_es nd2 = nd_es nd1" "nd_fs nd2 = nd_fs nd1" "entry_event (ne_paxos env) ((smid, i, v), r) = None"
    then show ?thesis using log1 by (simp add: z)
  next
    fix e assume e: "entry_event (ne_paxos env) ((smid, i, v), r) = Some e"
      and a: "AddEvent (ne_sv env) (GetMaster (mm_storage (nd_mm nd1))) (ed_gtid e) e True (nd_es nd1) (nd_fs nd1) =
         Some (OK, nd_es nd2, nd_fs nd2)"
    have "enc (sv_event (ne_sv env)) e \<noteq> None"
      "ParseGTID (ed_gtid e) \<notin> insert (ParseGTID GetKeyForUUID) ((ParseGTID \<circ> ed_gtid) ` set (evs @ run_events (ne_paxos env) log rs))"
      using chosen(5,6) e by (auto simp: z)
    from AddEvent_extends_log [OF log1 refl this a] e show ?thesis by (simp add: z)
  qed
qed (simp add: map_filter_def)

text \<open>A small cluster: server 5 is the master, and its first event was chosen.\<close>

definition sample_pe :: PaxosEventData where
  "sample_pe = \<lparr>pe_svrid = 5, pe_current_gtid = [], pe_event_gtid = ''u:1'', pe_buffer = [7], pe_checksum = 7\<rparr>"

definition sample_nenv :: "u32 \<Rightarrow> (string \<times> bytes option) list nenv" where
  "sample_nenv svrid = \<lparr>ne_sv = sample_env, ne_paxos = unit_codec sample_pe, ne_svrid = svrid, ne_ip = [], ne_mysql_port = 3306,
     ne_max_push = 10, ne_force_checkpoint = False\<rparr>"

definition sample_node :: "(string \<times> bytes option) list node" where
  "sample_node = \<lparr>nd_mm = \<lparr>mm_storage = MasterStorage_init\<lparr>ms_master := MasterInfo_init\<lparr>mi_svr_id := 5\<rparr>\<rparr>,
       mm_comm = AgentMonitorComm_init, mm_members = []\<rparr>,
     nd_es = sample_es, nd_cp = CheckPointManager_init, nd_fs = sample_esfs\<rparr>"

abbreviation sample_chosen :: "entry list" where
  "sample_chosen \<equiv> [(EVENT_PAXOS_SMID, 4, [1])]"

lemma sample_node_ok: "es_log sample_env mem_view (nd_es sample_node) (nd_fs sample_node) []" "node_ok sample_node"
  using sample_es_log by (simp_all add: sample_node_def es_log_def es_inv_def fm_inv_def)

lemma sample_SMExecute:
  "\<exists>es' s'. SMExecute (sample_nenv svrid) 0 EVENT_PAXOS_SMID 4 [1] sample_node = Some (OK, sample_node\<lparr>nd_es := es', nd_fs := s'\<rparr>)"
proof -
  obtain es' s' where a: "AddEvent sample_env (MasterInfo_init\<lparr>mi_svr_id := 5\<rparr>) ''u:1'' sample_ed True sample_es sample_esfs =
      Some (OK, es', s')"
    using sample_AddEvent by blast
  have n: "uh_newest_info (es_uuid sample_es) = EventDataInfo_init" by (simp add: sample_es_def UUIDHandler_init_def)
  have "SMExecute (sample_nenv svrid) 0 EVENT_PAXOS_SMID 4 [1] sample_node = Some (OK, sample_node\<lparr>nd_es := es', nd_fs := s'\<rparr>)"
    using a by (simp add: SMExecute_def EventExecuter_SMExecute_def sample_nenv_def unit_codec_def sample_pe_def sample_node_def
        CheckMasterBySvrID_def GetNewestGTID_def GetLastestUpdateGTID_def n EventDataInfo_init_def
        GetNowCheckSum_def GetNewestGTIDInfo_def GetLastestUpdateGTIDInfo_def GetCheckSum_def SaveEvents_def GetMaster_def
        sample_ed_def Let_def)
  then show ?thesis by blast
qed

lemma sample_executes: "\<exists>nd'. executes (sample_nenv svrid) sample_node sample_chosen [OK] nd'"
proof -
  obtain es' s' where "SMExecute (sample_nenv svrid) 0 EVENT_PAXOS_SMID 4 [1] sample_node =
      Some (OK, sample_node\<lparr>nd_es := es', nd_fs := s'\<rparr>)"
    using sample_SMExecute by blast
  then have "ExecuterBase_Execute (sample_nenv svrid) 0 EVENT_PAXOS_SMID 4 [1] 0 sample_node =
      Some (True, OK, sample_node\<lparr>nd_es := es', nd_fs := s'\<rparr>)"
    by (simp add: ExecuterBase_Execute_True)
  from executes.chosen [OF executes.start this] show ?thesis by auto
qed

theorem replicas_agree_witness:
  "\<exists>nd1 nd2. executes (sample_nenv 5) sample_node sample_chosen [OK] nd1 \<and> executes (sample_nenv 6) sample_node sample_chosen [OK] nd2 \<and>
     abs_node nd1 = abs_node nd2"
proof -
  obtain nd1 nd2 where x: "executes (sample_nenv 5) sample_node sample_chosen [OK] nd1"
    "executes (sample_nenv 6) sample_node sample_chosen [OK] nd2" using sample_executes by blast
  from replicas_agree [OF x sample_node_ok(2,2)] x show ?thesis by (auto simp: sample_nenv_def)
qed

lemma sample_run_events: "run_events (ne_paxos (sample_nenv svrid)) sample_chosen [OK] = [sample_ed]"
  by (simp add: entry_event_def sample_nenv_def unit_codec_def sample_pe_def sample_ed_def)

theorem executes_checksum_witness:
  "\<exists>nd'. executes (sample_nenv 5) sample_node sample_chosen [OK] nd' \<and> snd (GetNowCheckSum nd') = 7"
proof -
  obtain nd' where x: "executes (sample_nenv 5) sample_node sample_chosen [OK] nd'" using sample_executes by blast
  have "snd (GetNowCheckSum sample_node) = 0"
    by (simp add: GetNowCheckSum_def GetNewestGTIDInfo_def GetLastestUpdateGTIDInfo_def sample_node_def sample_es_def
        UUIDHandler_init_def EventDataInfo_init_def)
  with executes_checksum [OF x sample_node_ok(2), unfolded sample_run_events] x show ?thesis
    by (auto simp: GetCheckSum_def sample_ed_def)
qed

theorem executes_log_witness:
  "\<exists>nd'. executes (sample_nenv 5) sample_node sample_chosen [OK] nd' \<and>
     es_log sample_env mem_view (nd_es nd') (nd_fs nd') [sample_ed]"
proof -
  obtain nd' where x: "executes (sample_nenv 5) sample_node sample_chosen [OK] nd'" using sample_executes by blast
  have k: "ParseGTID (ed_gtid sample_ed) \<noteq> ParseGTID GetKeyForUUID" "enc (sv_event sample_env) sample_ed \<noteq> None"
    by (simp_all add: ParseGTID_def GetKeyForUUID_def sample_ed_def sample_env_def unit_codec_def)
  have e: "ne_sv (sample_nenv 5) = sample_env" by (simp add: sample_nenv_def)
  show ?thesis
    using executes_log [OF x, of mem_view "[]"] x k sample_node_ok(1) unfolding e sample_run_events by auto
qed

section \<open>Acknowledged events\<close>

text \<open>
  What the consensus library promises: when \<^verbatim>\<open>Propose\<close> returns 0, the value was chosen and the local
  node executed it, with the result in the context, possibly among other chosen values. Values are executed
  in the order of their instances, so the instance is behind the newest stored one.
\<close>

definition paxos_ok :: "'d nenv \<Rightarrow> ('w, 'd) paxos_api \<Rightarrow> bool" where
  "paxos_ok env px \<longleftrightarrow> (\<forall>smid v w r w'. px_propose px smid v w = (0, r, w') \<longrightarrow>
     (\<exists>log rs nd1 rand i ctx nd2 log' rs'.
        executes env (px_node px w) log rs nd1 \<and> GetLastInstanceID (nd_es nd1) < i \<and>
        ExecuterBase_Execute env rand smid i v ctx nd1 = Some (True, r, nd2) \<and>
        executes env nd2 log' rs' (px_node px w')))"

text \<open>
  Between two states of a node, data became the newest event under a GTID: at some moment the node's storage
  added it, or it had the GTID as its newest one already.
\<close>

definition stores :: "'d nenv \<Rightarrow> 'd node \<Rightarrow> string \<Rightarrow> bytes \<Rightarrow> 'd node \<Rightarrow> bool" where
  "stores env nd gtid data nd' \<longleftrightarrow>
     (\<exists>log rs nd1 nd2 log' rs'. executes env nd log rs nd1 \<and> executes env nd2 log' rs' nd' \<and>
        GetNewestGTID (nd_es nd2) = gtid \<and>
        (nd2 = nd1 \<or>
         (\<exists>mi ed. ed_gtid ed = gtid \<and> ed_data ed = data \<and>
            AddEvent (ne_sv env) mi gtid ed True (nd_es nd1) (nd_fs nd1) = Some (OK, nd_es nd2, nd_fs nd2))))"

lemma RealCheckGTID_ret: "RealCheckGTID env mi gtid di es s = Some (r, di', es', s') \<Longrightarrow> r = DATA_EMPTY \<or> r = OK"
  by (auto simp: RealCheckGTID_def CheckPointDone_def bind_eq_Some_conv split: if_splits option.splits)

lemma AddEvent_exist: "AddEvent env mi gtid ed sw es s = Some (EVENT_EXIST, es', s') \<Longrightarrow> ed_instance_id ed \<le> GetLastInstanceID es"
  by (rule ccontr) (auto simp: AddEvent_def bind_eq_Some_conv GetLastInstanceID_def EFM_WriteData_def SFM_WriteData_def Storage_WriteData_def Let_def
      split: if_splits prod.splits option.splits dest!: RealCheckGTID_ret)

lemma EventExecuter_stores:
  assumes ex: "EventExecuter_SMExecute env i v nd = Some (r, nd')" and r: "r = OK \<or> r = EVENT_EXIST"
    and p: "dec (ne_paxos env) v = Some p" "pe_event_gtid p \<noteq> []" "pe_buffer p \<noteq> []" and i: "GetLastInstanceID (nd_es nd) < i"
  shows "GetNewestGTID (nd_es nd') = pe_event_gtid p \<and>
    (nd' = nd \<or> (\<exists>mi ed. ed_gtid ed = pe_event_gtid p \<and> ed_data ed = pe_buffer p \<and>
       AddEvent (ne_sv env) mi (pe_event_gtid p) ed True (nd_es nd) (nd_fs nd) = Some (OK, nd_es nd', nd_fs nd')))"
proof -
  have c: "GetNowCheckSum nd = (0, snd (GetNowCheckSum nd))"
    by (simp add: GetNowCheckSum_def GetNewestGTIDInfo_def GetLastestUpdateGTIDInfo_def)
  have "nd' = nd \<and> GetNewestGTID (nd_es nd) = pe_event_gtid p \<or>
      SaveEvents env i (pe_event_gtid p) (pe_buffer p) (pe_checksum p) nd = Some (r, nd')"
    using ex p r by (subst (asm) EventExecuter_SMExecute_def, subst (asm) c) (auto simp: Let_def split: if_splits)
  then show ?thesis
  proof
    assume "SaveEvents env i (pe_event_gtid p) (pe_buffer p) (pe_checksum p) nd = Some (r, nd')"
    then obtain mi ed where a: "AddEvent (ne_sv env) mi (pe_event_gtid p) ed True (nd_es nd) (nd_fs nd) = Some (r, nd_es nd', nd_fs nd')"
      and ed: "ed_gtid ed = pe_event_gtid p" "ed_data ed = pe_buffer p" "ed_instance_id ed = i"
      using p(2) by (auto simp: SaveEvents_def Let_def)
    with i r have "r = OK" using AddEvent_exist by fastforce
    with a ed AddEvent_OK_newest(2) show ?thesis by fastforce
  qed simp
qed

text \<open>
  An acknowledged event is stored. When \<^verbatim>\<open>SendEvent\<close> returns OK or EVENT_EXIST, the node was the master when it
  was called, and meanwhile the event became the newest one of its storage, or already was.
\<close>

lemma SendEvent_stored:
  assumes "paxos_ok env px" "codec_ok (ne_paxos env)"
    and "DataManager_SendEvent env px oldgtid newgtid buffer w = (ret, w')" "ret = OK \<or> ret = EVENT_EXIST"
  shows "IsMaster (nd_now (px_node px w)) (ne_svrid env) (nd_mm (px_node px w)) \<and>
    stores env (px_node px w) newgtid buffer (px_node px w')"
proof -
  let ?nd = "px_node px w"
  let ?p = "\<lparr>pe_svrid = ne_svrid env, pe_current_gtid = oldgtid, pe_event_gtid = newgtid, pe_buffer = buffer,
    pe_checksum = GetCheckSum (snd (GetNowCheckSum ?nd)) buffer\<rparr>"
  have c: "GetNowCheckSum ?nd = (0, snd (GetNowCheckSum ?nd))"
    by (simp add: GetNowCheckSum_def GetNewestGTIDInfo_def GetLastestUpdateGTIDInfo_def)
  obtain b where m: "IsMaster (nd_now ?nd) (ne_svrid env) (nd_mm ?nd)" "newgtid \<noteq> []" "buffer \<noteq> []"
      "enc (ne_paxos env) ?p = Some b" "PaxosAgent_Send px b EVENT_PAXOS_SMID w = (ret, w')"
    using assms(3,4) unfolding DataManager_SendEvent_def EventAgent_SendValue_def
    by (subst (asm) c) (auto split: if_splits option.splits)
  have d: "dec (ne_paxos env) b = Some ?p" using assms(2) m(4) by (simp add: codec_ok_def)
  from m(5) assms(4) have "px_propose px EVENT_PAXOS_SMID b w = (0, ret, w')"
    by (auto simp: PaxosAgent_Send_def split: prod.splits if_splits)
  from assms(1) [unfolded paxos_ok_def, rule_format, OF this] obtain log rs nd1 rand i ctx nd2 log' rs' where l: "executes env ?nd log rs nd1" "GetLastInstanceID (nd_es nd1) < i"
    "ExecuterBase_Execute env rand EVENT_PAXOS_SMID i b ctx nd1 = Some (True, ret, nd2)" "executes env nd2 log' rs' (px_node px w')"
    by (elim exE conjE) (rule that)
  have "EventExecuter_SMExecute env i b nd1 = Some (ret, nd2)" using l(3) by (simp add: ExecuterBase_Execute_True SMExecute_def)
  from EventExecuter_stores [OF this assms(4) d _ _ l(2)] m(2,3)
  have "GetNewestGTID (nd_es nd2) = newgtid \<and> (nd2 = nd1 \<or> (\<exists>mi ed. ed_gtid ed = newgtid \<and> ed_data ed = buffer \<and>
      AddEvent (ne_sv env) mi newgtid ed True (nd_es nd1) (nd_fs nd1) = Some (OK, nd_es nd2, nd_fs nd2)))" by simp
  with l(1,4) m(1) show ?thesis unfolding stores_def by blast
qed

text \<open>A library with one node, which chooses every value at once, as instance 4 or behind the newest event.\<close>

definition direct_px :: "'d nenv \<Rightarrow> ('d node, 'd) paxos_api" where
  "direct_px env = \<lparr>px_node = id,
     px_propose = (\<lambda>smid v nd.
       let newest = GetLastInstanceID (nd_es nd); i = (if newest < 4 then 4 else newest + 1)
       in if i \<le> newest then (1, 0, nd) else case ExecuterBase_Execute env 0 smid i v 0 nd of
         Some (True, r, nd') \<Rightarrow> (0, r, nd') | _ \<Rightarrow> (1, 0, nd)),
     px_too_large = 2, px_show = (\<lambda>w. (0, [])), px_add = (\<lambda>_ w. (0, w)), px_remove = (\<lambda>_ w. (0, w)),
     px_set_node = (\<lambda>nd w. nd), px_run = (\<lambda>_ _ w. (0, w))\<rparr>"

lemma direct_px_ok: "paxos_ok env (direct_px env)"
  unfolding paxos_ok_def
proof (intro allI impI)
  fix smid v w r w' assume "px_propose (direct_px env) smid v w = (0, r, w')"
  then obtain i where "GetLastInstanceID (nd_es w) < i" "ExecuterBase_Execute env 0 smid i v 0 w = Some (True, r, w')"
    by (auto simp: direct_px_def Let_def not_le split: option.splits bool.splits if_splits)
  moreover have "px_node (direct_px env) = id" by (simp add: direct_px_def)
  ultimately show "\<exists>log rs nd1 rand i ctx nd2 log' rs'.
      executes env (px_node (direct_px env) w) log rs nd1 \<and> GetLastInstanceID (nd_es nd1) < i \<and>
      ExecuterBase_Execute env rand smid i v ctx nd1 = Some (True, r, nd2) \<and>
      executes env nd2 log' rs' (px_node (direct_px env) w')"
    using executes.start by fastforce
qed

lemma sample_newest: "GetLastInstanceID (nd_es sample_node) = 0"
  by (simp add: sample_node_def sample_es_def GetLastInstanceID_def UUID_GetLastInstanceID_def UUIDHandler_init_def EventDataInfo_init_def)

lemma sample_SendEvent: "\<exists>nd'. DataManager_SendEvent (sample_nenv 5) (direct_px (sample_nenv 5)) [] ''u:1'' [7] sample_node = (OK, nd')"
proof -
  obtain nd' where e: "ExecuterBase_Execute (sample_nenv 5) 0 EVENT_PAXOS_SMID 4 [1] 0 sample_node = Some (True, OK, nd')"
    using sample_SMExecute [of 5] by (auto simp: ExecuterBase_Execute_True)
  have "IsMaster 0 5 (nd_mm sample_node)"
    by (simp add: sample_node_def IsMaster_def CheckMasterBySvrID_def IsTimeOut_def MasterStorage_init_def MasterInfo_init_def)
  moreover have "GetNowCheckSum sample_node = (0, 0)" "nd_now sample_node = 0" "ne_svrid (sample_nenv 5) = 5"
    by (simp_all add: sample_nenv_def GetNowCheckSum_def GetNewestGTIDInfo_def GetLastestUpdateGTIDInfo_def sample_node_def sample_es_def
        UUIDHandler_init_def EventDataInfo_init_def sample_esfs_def)
  moreover have "enc (ne_paxos (sample_nenv 5)) sample_pe = Some [1]" by (simp add: sample_nenv_def unit_codec_def)
  moreover have "px_propose (direct_px (sample_nenv 5)) EVENT_PAXOS_SMID [1] sample_node = (0, OK, nd')" "px_node (direct_px (sample_nenv 5)) sample_node = sample_node"
    using e sample_newest by (simp_all add: direct_px_def)
  moreover have "GetCheckSum 0 [7] = 7" by (simp add: GetCheckSum_def)
  ultimately show ?thesis
    by (simp add: DataManager_SendEvent_def EventAgent_SendValue_def PaxosAgent_Send_def sample_pe_def)
qed

end
