(* ===== verification/MySql.thy ===== *)
theory MySql
  imports Master_Storage
begin

text \<open>
  Access to MySQL: the texts of the commands (\<^verbatim>\<open>core/mysql/mysql_string_helper.cpp\<close>), one connection
  (\<^verbatim>\<open>mysql_command.cpp\<close>) and the manager of the accounts (\<^verbatim>\<open>mysql_manager.cpp\<close>). The client library and the
  servers behind it are a parameter. Commands are printed into buffers of fixed size; a text that does not
  fit is undefined.
\<close>

section \<open>The texts of the commands\<close>

definition fits :: "nat \<Rightarrow> string \<Rightarrow> string option" where
  "fits n s = (if length s < n then Some s else None)"

definition GetChangeMasterQueryString :: "string \<Rightarrow> u32 \<Rightarrow> string \<Rightarrow> string \<Rightarrow> string option" where
  "GetChangeMasterQueryString master_ip master_port replica_username replica_pwd =
     fits 1024 (''change master to master_host='' @ [CHR 0x27] @ c_str master_ip @ [CHR 0x27] @ '',master_port='' @
       show_nat (unat master_port) @ '',master_user='' @ [CHR 0x27] @ c_str replica_username @ [CHR 0x27] @
       '',master_password='' @ [CHR 0x27] @ c_str replica_pwd @ [CHR 0x27] @
       '',master_heartbeat_period = 20,MASTER_AUTO_POSITION = 1;'')"

definition GetSvrIDString :: "u32 \<Rightarrow> string option" where
  "GetSvrIDString svr_id = fits 1024 (''set global server_id='' @ show_nat (unat svr_id) @ '';'')"

definition quoted :: "string \<Rightarrow> string" where
  "quoted s = [CHR 0x27] @ c_str s @ [CHR 0x27]"

definition GetCreateUserStr :: "string \<Rightarrow> string \<Rightarrow> string option" where
  "GetCreateUserStr username pwd =
     fits 1024
       (if pwd = [] then ''create user '' @ c_str username @ '';''
        else ''create user '' @ c_str username @ ''@'' @ quoted ''127.0.0.1'' @ '' identified by '' @ quoted pwd @ '';'')"

definition GetRevokeAdminUserStr :: "string \<Rightarrow> string \<Rightarrow> string \<Rightarrow> string option" where
  "GetRevokeAdminUserStr admin_username admin_pwd svr_ip =
     fits 1024 (''revoke all privileges on *.* from '' @ quoted admin_username @ ''@'' @ quoted svr_ip @ '';'')"

definition GetGrantAdminUserStr :: "string \<Rightarrow> string \<Rightarrow> string \<Rightarrow> string option" where
  "GetGrantAdminUserStr admin_username admin_pwd svr_ip =
     fits 1024
       (''grant all privileges on *.* to '' @ quoted admin_username @ ''@'' @ quoted svr_ip @
        (if admin_pwd = [] then [] else '' identified by '' @ quoted admin_pwd) @ '' with grant option;'')"

definition GetGrantReplicaUserStr :: "string \<Rightarrow> string \<Rightarrow> string option" where
  "GetGrantReplicaUserStr username pwd =
     fits 1024 (''grant replication slave on *.* to '' @ quoted username @ ''@'' @ quoted ''%'' @ '' identified by '' @
       quoted pwd @ '';'')"

definition GetShowUserStr :: "string \<Rightarrow> string option" where
  "GetShowUserStr username = fits 1024 (''select user from mysql.user where user='' @ quoted username @ '';'')"

definition GetShowGrantString :: "string \<Rightarrow> string \<Rightarrow> string option" where
  "GetShowGrantString username ip = fits 1024 (''show grants for '' @ c_str username @ ''@'' @ quoted ip @ '';'')"

definition GetChangePwdStr :: "string \<Rightarrow> string \<Rightarrow> string option" where
  "GetChangePwdStr username pwd =
     fits 1024 (''update mysql.user SET password=password('' @ quoted pwd @ '') where user='' @ quoted username @ '';'')"

definition GetFlushPrivilegeStr :: "string option" where
  "GetFlushPrivilegeStr = fits 1024 ''flush privileges;''"

section \<open>One connection\<close>

record MySqlOption =
  mo_ip :: string
  mo_port :: u32
  mo_username :: string
  mo_pwd :: string

text \<open>
  The client library: connecting (the address and the socket may be null), sending a command on a
  connection, and fetching the stored result, with null cells. \<open>'q\<close> is the state of the servers.
\<close>

record 'q mysql_api =
  my_connect :: "string option \<Rightarrow> string option \<Rightarrow> MySqlOption \<Rightarrow> 'q \<Rightarrow> bool \<times> 'q"
  my_query :: "MySqlOption \<Rightarrow> string \<Rightarrow> 'q \<Rightarrow> int \<times> 'q"
  my_store_result :: "MySqlOption \<Rightarrow> 'q \<Rightarrow> (string list \<times> string option list list) option \<times> 'q"

record 'q myenv =
  me_api :: "'q mysql_api"
  me_port :: u32
  me_socket :: string
  me_engine_ip :: string
  me_engine_port :: u32
  me_svrid :: u32

definition Connect :: "'q myenv \<Rightarrow> MySqlOption \<Rightarrow> bool \<Rightarrow> 'q \<Rightarrow> int \<times> bool \<times> 'q" where
  "Connect env opt is_connect q =
     (if is_connect then (OK, is_connect, q)
      else if mo_username opt = [] then (MYSQL_FAIL, is_connect, q)
      else case my_connect (me_api env) (if mo_ip opt = ''127.0.0.1'' then None else Some (mo_ip opt))
          (if mo_ip opt = ''127.0.0.1'' then Some (me_socket env) else None) opt q of
        (connected, q) \<Rightarrow> if connected then (OK, True, q) else (MYSQL_FAIL, is_connect, q))"

definition DoQuery :: "'q myenv \<Rightarrow> MySqlOption \<Rightarrow> string \<Rightarrow> 'q \<Rightarrow> int \<times> 'q" where
  "DoQuery env opt command q =
     (case my_query (me_api env) opt command q of
        (ret, q) \<Rightarrow> (if ret = OK then ret else if ret < 0 then MYSQL_FAIL else MYSQL_NODATA, q))"

definition Command_Query :: "'q myenv \<Rightarrow> MySqlOption \<Rightarrow> string \<Rightarrow> 'q \<Rightarrow> int \<times> 'q" where
  "Command_Query env opt command q =
     (case Connect env opt False q of (ret, _, q) \<Rightarrow> if ret \<noteq> 0 then (ret, q) else DoQuery env opt command q)"

text \<open>The names of the columns are only stored when asked for; a null cell becomes the empty string.\<close>

definition GetResults ::
  "'q myenv \<Rightarrow> MySqlOption \<Rightarrow> string list list \<Rightarrow> string list option \<Rightarrow> 'q \<Rightarrow> int \<times> string list list \<times> string list option \<times> 'q" where
  "GetResults env opt results columns q =
     (case my_store_result (me_api env) opt q of
        (None, q) \<Rightarrow> (OK, results, columns, q)
      | (Some (cols, rows), q) \<Rightarrow>
          (OK, results @ map (map (\<lambda>c. case c of None \<Rightarrow> [] | Some s \<Rightarrow> s)) rows, map_option (\<lambda>f. f @ cols) columns, q))"

definition GetQueryResults ::
  "'q myenv \<Rightarrow> MySqlOption \<Rightarrow> string \<Rightarrow> string list list \<Rightarrow> string list option \<Rightarrow> 'q
     \<Rightarrow> int \<times> string list list \<times> string list option \<times> 'q" where
  "GetQueryResults env opt query_str results columns q =
     (case Command_Query env opt query_str q of
        (ret, q) \<Rightarrow> if ret \<noteq> 0 then (ret, results, columns, q) else GetResults env opt results columns q)"

definition to_lower :: "char \<Rightarrow> char" where
  "to_lower c = (if 65 \<le> (of_char c :: nat) \<and> (of_char c :: nat) \<le> 90 then char_of (of_char c + 32 :: nat) else c)"

definition same_nocase :: "string \<Rightarrow> string \<Rightarrow> bool" where
  "same_nocase a b \<longleftrightarrow> map to_lower (c_str a) = map to_lower (c_str b)"

definition Command_GetValue ::
  "'q myenv \<Rightarrow> MySqlOption \<Rightarrow> string \<Rightarrow> string \<Rightarrow> string \<Rightarrow> 'q \<Rightarrow> (int \<times> string \<times> 'q) option" where
  "Command_GetValue env opt value_type value_key value q = do {
     cmd \<leftarrow> fits 128 (''show '' @ c_str value_type @ '' like '' @ quoted value_key @ '';'');
     Some (case GetQueryResults env opt cmd [] None q of
       (ret, results, _, q) \<Rightarrow>
         if ret \<noteq> 0 then (ret, value, q)
         else case results of
           [] \<Rightarrow> (OK, [], q)
         | [[name, v]] \<Rightarrow> if same_nocase name value_key then (OK, v, q) else (MYSQL_FAIL, value, q)
         | _ \<Rightarrow> (MYSQL_FAIL, value, q))
   }"

section \<open>The manager\<close>

definition GetPendingReplicaUserName :: "mstore \<Rightarrow> string" where
  "GetPendingReplicaUserName ms =
     (case mi_replica_userinfo (GetMaster ms) of u # _ \<Rightarrow> ui_username u | [] \<Rightarrow> [])"

definition GetPendingReplicaPwd :: "mstore \<Rightarrow> string" where
  "GetPendingReplicaPwd ms = (case mi_replica_userinfo (GetMaster ms) of u # _ \<Rightarrow> ui_pwd u | [] \<Rightarrow> [])"

text \<open>Before an administrator is known, commands are sent as \<^verbatim>\<open>root\<close> with no password.\<close>

definition admin_option :: "'q myenv \<Rightarrow> mstore \<Rightarrow> string \<Rightarrow> MySqlOption" where
  "admin_option env ms ip =
     (if ms_admin_username ms = [] then \<lparr>mo_ip = ip, mo_port = me_port env, mo_username = ''root'', mo_pwd = []\<rparr>
      else \<lparr>mo_ip = ip, mo_port = me_port env, mo_username = ms_admin_username ms, mo_pwd = ms_admin_pwd ms\<rparr>)"

abbreviation local_ip :: string where
  "local_ip \<equiv> ''127.0.0.1''"

definition Manager_Query :: "'q myenv \<Rightarrow> mstore \<Rightarrow> string \<Rightarrow> string \<Rightarrow> 'q \<Rightarrow> int \<times> 'q" where
  "Manager_Query env ms query_string ip q = Command_Query env (admin_option env ms ip) query_string q"

text \<open>The caller's \<open>columns\<close> are not handed on.\<close>

definition Manager_QueryResults ::
  "'q myenv \<Rightarrow> mstore \<Rightarrow> string \<Rightarrow> string list list \<Rightarrow> string list option \<Rightarrow> string \<Rightarrow> 'q
     \<Rightarrow> int \<times> string list list \<times> string list option \<times> 'q" where
  "Manager_QueryResults env ms query_string results columns ip q =
     (case GetQueryResults env (admin_option env ms ip) query_string results None q of
        (ret, results, _, q) \<Rightarrow> (ret, results, columns, q))"

definition Manager_GetValue ::
  "'q myenv \<Rightarrow> mstore \<Rightarrow> string \<Rightarrow> string \<Rightarrow> string \<Rightarrow> string \<Rightarrow> 'q \<Rightarrow> (int \<times> string \<times> 'q) option" where
  "Manager_GetValue env ms value_type value_key value ip q =
     Command_GetValue env (admin_option env ms ip) value_type value_key value q"

definition IsMySqlInit :: "mstore \<Rightarrow> bool" where
  "IsMySqlInit ms \<longleftrightarrow> HasReplicaUserName ms"

definition IsReplicaProcess :: "mstore \<Rightarrow> bool" where
  "IsReplicaProcess ms \<longleftrightarrow> ms_replica_username ms \<noteq> []"

definition CheckUserExist :: "'q myenv \<Rightarrow> mstore \<Rightarrow> string \<Rightarrow> 'q \<Rightarrow> (int \<times> 'q) option" where
  "CheckUserExist env ms username q =
     (if ms_admin_username ms = [] then Some (MYSQL_USER_NOT_EXIST, q)
      else do {
        cmd \<leftarrow> GetShowUserStr username;
        Some (case Manager_QueryResults env ms cmd [] None local_ip q of
          (ret, results, _, q) \<Rightarrow>
            (if ret = MYSQL_NODATA then MYSQL_USER_NOT_EXIST else if ret \<noteq> 0 then ret
             else if results = [] then MYSQL_USER_NOT_EXIST else OK, q))
      })"

definition contains :: "string \<Rightarrow> string \<Rightarrow> bool" where
  "contains s pat \<longleftrightarrow> (\<exists>i\<in>set [0..<Suc (length s)]. take (length pat) (drop i s) = pat)"

definition CheckUserGrantExist ::
  "'q myenv \<Rightarrow> string \<Rightarrow> string \<Rightarrow> string \<Rightarrow> string \<Rightarrow> 'q \<Rightarrow> int \<times> 'q" where
  "CheckUserGrantExist env username pwd grant_string grant_flag_string q =
     (let opt = \<lparr>mo_ip = me_engine_ip env, mo_port = me_port env, mo_username = username, mo_pwd = pwd\<rparr>
      in case GetQueryResults env opt grant_string [] None q of
        (ret, results, _, q) \<Rightarrow>
          (if ret = MYSQL_NODATA then MYSQL_USER_NOT_EXIST else if ret \<noteq> 0 then ret
           else if results = [] then MYSQL_USER_NOT_EXIST
           else if \<exists>row\<in>set results. \<exists>cell\<in>set row. contains cell grant_flag_string then OK
           else MYSQL_USER_NOT_EXIST, q))"

definition CheckAdminAccount :: "mstore \<Rightarrow> string \<Rightarrow> string \<Rightarrow> bool" where
  "CheckAdminAccount ms admin_username admin_pwd \<longleftrightarrow> admin_username = ms_admin_username ms \<and> admin_pwd = ms_admin_pwd ms"

definition ChangePwd :: "'q myenv \<Rightarrow> mstore \<Rightarrow> string \<Rightarrow> string \<Rightarrow> 'q \<Rightarrow> (int \<times> 'q) option" where
  "ChangePwd env ms username pwd q = do {
     cmd \<leftarrow> GetChangePwdStr username pwd;
     Some (Manager_Query env ms cmd local_ip q)
   }"

definition CreateUser :: "'q myenv \<Rightarrow> mstore \<Rightarrow> string \<Rightarrow> string \<Rightarrow> 'q \<Rightarrow> (int \<times> 'q) option" where
  "CreateUser env ms username pwd q = do {
     (ret, q) \<leftarrow> CheckUserExist env ms username q;
     if ret = MYSQL_USER_NOT_EXIST then do {
       cmd \<leftarrow> GetCreateUserStr username pwd;
       Some (Manager_Query env ms cmd local_ip q)
     } else Some (ret, q)
   }"

definition CheckAdminUser :: "'q myenv \<Rightarrow> string \<Rightarrow> string \<Rightarrow> 'q \<Rightarrow> (int \<times> 'q) option" where
  "CheckAdminUser env username pwd q = do {
     cmd \<leftarrow> GetShowGrantString username local_ip;
     Some (case CheckUserGrantExist env username pwd cmd '' WITH GRANT OPTION'' q of
       (ret, q) \<Rightarrow> (if ret \<noteq> 0 then MYSQL_USER_NOT_EXIST else OK, q))
   }"

definition CheckReplicaUser :: "'q myenv \<Rightarrow> string \<Rightarrow> string \<Rightarrow> 'q \<Rightarrow> (int \<times> 'q) option" where
  "CheckReplicaUser env username pwd q = do {
     cmd \<leftarrow> GetShowGrantString username ''%'';
     Some (case CheckUserGrantExist env username pwd cmd ''REPLICATION'' q of
       (ret, q) \<Rightarrow> (if ret \<noteq> 0 then MYSQL_USER_NOT_EXIST else OK, q))
   }"

definition HasReplicaGrant :: "'q myenv \<Rightarrow> mstore \<Rightarrow> 'q \<Rightarrow> (bool \<times> 'q) option" where
  "HasReplicaGrant env ms q =
     (if ms_replica_username ms = [] then Some (False, q)
      else map_option (\<lambda>(ret, q). (ret = 0, q)) (CheckReplicaUser env (ms_replica_username ms) (ms_replica_pwd ms) q))"

text \<open>
  The pending accounts are tried from the newest: the first that is the current one stops the search,
  the first that MySQL accepts becomes the new one.
\<close>

fun find_pending ::
  "(string \<Rightarrow> string \<Rightarrow> 'q \<Rightarrow> (int \<times> 'q) option) \<Rightarrow> string \<Rightarrow> string \<Rightarrow> UserInfo list \<Rightarrow> 'q \<Rightarrow> (UserInfo option \<times> 'q) option" where
  "find_pending check current_username current_pwd [] q = Some (None, q)"
| "find_pending check current_username current_pwd (u # us) q =
     (if ui_username u = current_username \<and> ui_pwd u = current_pwd then Some (None, q)
      else do {
        (ret, q) \<leftarrow> check (ui_username u) (ui_pwd u) q;
        if ret = OK then Some (Some u, q) else find_pending check current_username current_pwd us q
      })"

definition CheckMySqlUserInfo :: "'q myenv \<Rightarrow> mstore \<Rightarrow> 'q \<Rightarrow> (mstore \<times> 'q) option" where
  "CheckMySqlUserInfo env ms q = do {
     let master_info = GetMaster ms;
     (new_admin, q) \<leftarrow> find_pending (CheckAdminUser env) (ms_admin_username ms) (ms_admin_pwd ms)
       (rev (mi_admin_userinfo master_info)) q;
     let ms1 = (case new_admin of
       Some u \<Rightarrow> if ui_username u \<noteq> [] then snd (MasterStorage_SetMySqlAdminInfo master_info (ui_username u) (ui_pwd u) ms) else ms
     | None \<Rightarrow> ms);
     (new_replica, q) \<leftarrow> find_pending (CheckReplicaUser env) (ms_replica_username ms) (ms_replica_pwd ms)
       (rev (mi_replica_userinfo master_info)) q;
     Some (case new_replica of
         Some u \<Rightarrow> if ui_username u \<noteq> [] then snd (MasterStorage_SetMySqlReplicaInfo master_info (ui_username u) (ui_pwd u) ms1) else ms1
       | None \<Rightarrow> ms1, q)
   }"

fun grant_admin :: "'q myenv \<Rightarrow> mstore \<Rightarrow> string \<Rightarrow> string \<Rightarrow> string list \<Rightarrow> 'q \<Rightarrow> (int \<times> 'q) option" where
  "grant_admin env ms admin_username admin_pwd [] q = Some (OK, q)"
| "grant_admin env ms admin_username admin_pwd (host # hosts) q = do {
     grant_string \<leftarrow> GetGrantAdminUserStr admin_username admin_pwd host;
     (case Manager_Query env ms grant_string local_ip q of
        (ret, q) \<Rightarrow> if ret \<noteq> 0 then Some (ret, q) else grant_admin env ms admin_username admin_pwd hosts q)
   }"

definition CreateAdmin :: "'q myenv \<Rightarrow> mstore \<Rightarrow> string \<Rightarrow> string \<Rightarrow> string list \<Rightarrow> 'q \<Rightarrow> (int \<times> 'q) option" where
  "CreateAdmin env ms admin_username admin_pwd iplist q = do {
     (ret, q) \<leftarrow> (if admin_username \<noteq> ''root'' \<and> admin_username \<noteq> ms_admin_username ms
       then CreateUser env ms admin_username admin_pwd q else Some (OK, q));
     if ret \<noteq> 0 then Some (ret, q)
     else if admin_username \<noteq> ms_admin_username ms \<or> admin_pwd \<noteq> ms_admin_pwd ms
     then grant_admin env ms admin_username admin_pwd (iplist @ [local_ip, ''localhost'']) q
     else Some (OK, q)
   }"

definition CreateReplica :: "'q myenv \<Rightarrow> mstore \<Rightarrow> string \<Rightarrow> string \<Rightarrow> string \<Rightarrow> 'q \<Rightarrow> (int \<times> 'q) option" where
  "CreateReplica env ms admin_username replica_username replica_pwd q = do {
     (ret, q) \<leftarrow> (if replica_username \<noteq> ms_replica_username ms then CreateUser env ms replica_username [] q else Some (OK, q));
     if ret \<noteq> 0 then Some (ret, q)
     else if replica_username \<noteq> ms_replica_username ms \<or> replica_pwd \<noteq> ms_replica_pwd ms
     then do {
       grant_string \<leftarrow> GetGrantReplicaUserStr replica_username replica_pwd;
       Some (case Manager_Query env ms grant_string local_ip q of (ret, q) \<Rightarrow> (if ret \<noteq> 0 then ret else OK, q))
     } else Some (OK, q)
   }"

definition CreateMySqlAdminInfo ::
  "'q myenv \<Rightarrow> mstore \<Rightarrow> string \<Rightarrow> string \<Rightarrow> string \<Rightarrow> string \<Rightarrow> string list \<Rightarrow> 'q \<Rightarrow> (int \<times> 'q) option" where
  "CreateMySqlAdminInfo env ms now_admin_username now_admin_pwd new_username new_pwd group_list q =
     (if \<not> CheckAdminAccount ms now_admin_username now_admin_pwd then Some (USERINFO_CHANGE_DENIED, q)
      else CreateAdmin env ms new_username new_pwd group_list q)"

definition CreateMySqlReplicaInfo ::
  "'q myenv \<Rightarrow> mstore \<Rightarrow> string \<Rightarrow> string \<Rightarrow> string \<Rightarrow> string \<Rightarrow> 'q \<Rightarrow> (int \<times> 'q) option" where
  "CreateMySqlReplicaInfo env ms now_admin_username now_admin_pwd new_username new_pwd q =
     (if \<not> CheckAdminAccount ms now_admin_username now_admin_pwd then Some (USERINFO_CHANGE_DENIED, q)
      else CreateReplica env ms now_admin_username new_username new_pwd q)"

fun check_members :: "'q myenv \<Rightarrow> mstore \<Rightarrow> string \<Rightarrow> string \<Rightarrow> string list \<Rightarrow> 'q \<Rightarrow> (int \<times> 'q) option" where
  "check_members env ms username pwd [] q = Some (OK, q)"
| "check_members env ms username pwd (member # members) q = do {
     show_grant \<leftarrow> GetShowGrantString username member;
     (case CheckUserGrantExist env username pwd show_grant '' WITH GRANT OPTION'' q of
        (ret, q) \<Rightarrow> do {
          (ret, q) \<leftarrow> (if ret = MYSQL_USER_NOT_EXIST
            then map_option (\<lambda>g. Manager_Query env ms g local_ip q) (GetGrantAdminUserStr username pwd member)
            else Some (ret, q));
          if ret \<noteq> 0 then Some (ret, q) else check_members env ms username pwd members q
        })
   }"

definition CheckAdminPermission :: "'q myenv \<Rightarrow> mstore \<Rightarrow> string list \<Rightarrow> 'q \<Rightarrow> (int \<times> 'q) option" where
  "CheckAdminPermission env ms member_list q =
     (let us = mi_admin_userinfo (GetMaster ms)
      in if us = [] then Some (OK, q)
         else check_members env ms (ui_username (last us)) (ui_pwd (last us)) member_list q)"

definition AddMemberAdminPermission :: "'q myenv \<Rightarrow> mstore \<Rightarrow> string \<Rightarrow> 'q \<Rightarrow> (int \<times> 'q) option" where
  "AddMemberAdminPermission env ms member_ip q =
     (if ms_admin_username ms = [] then Some (OK, q)
      else do {
        grant_string \<leftarrow> GetGrantAdminUserStr (ms_admin_username ms) (ms_admin_pwd ms) member_ip;
        Some (Manager_Query env ms grant_string local_ip q)
      })"

definition RemoveMemberAdminPermission :: "'q myenv \<Rightarrow> mstore \<Rightarrow> string \<Rightarrow> 'q \<Rightarrow> (int \<times> 'q) option" where
  "RemoveMemberAdminPermission env ms member_ip q =
     (if ms_admin_username ms = [] then Some (MYSQL_USER_NOT_EXIST, q)
      else do {
        grant_string \<leftarrow> GetRevokeAdminUserStr (ms_admin_username ms) (ms_admin_pwd ms) member_ip;
        Some (Manager_Query env ms grant_string local_ip q)
      })"

text \<open>The sequence number wraps at 0.\<close>

definition ReduceGtidByOne :: "string \<Rightarrow> string option" where
  "ReduceGtidByOne gtid = (case ParseGTID gtid of (uuid, seqno) \<Rightarrow> GenGTID uuid (seqno - 1))"

section \<open>Lengths of the commands\<close>

lemma length_c_str: "length (c_str s) \<le> length s"
  by (simp add: c_str_def length_takeWhile_le)

lemma length_quoted: "length (quoted s) \<le> length s + 2"
  using length_c_str [of s] by (simp add: quoted_def)

lemma length_show_u32: "length (show_nat (unat (w :: u32))) \<le> 10"
  using unat_u32_less [of w] by (intro length_show_nat_le) auto

lemma fits_Some: "length s < n \<Longrightarrow> \<exists>t. fits n s = Some t"
  by (simp add: fits_def)

text \<open>
  No command overflows its buffer. With user names, passwords and addresses of at most 256 characters,
  every command text fits the buffer of 1024 bytes it is printed into.
\<close>

theorem commands_fit:
  assumes "length user \<le> 256" "length pwd \<le> 256" "length ip \<le> 256"
  shows "GetChangeMasterQueryString ip port user pwd \<noteq> None \<and> GetSvrIDString svr_id \<noteq> None \<and> GetCreateUserStr user pwd \<noteq> None \<and>
    GetRevokeAdminUserStr user pwd ip \<noteq> None \<and> GetGrantAdminUserStr user pwd ip \<noteq> None \<and> GetGrantReplicaUserStr user pwd \<noteq> None \<and>
    GetShowUserStr user \<noteq> None \<and> GetShowGrantString user ip \<noteq> None \<and> GetChangePwdStr user pwd \<noteq> None"
proof -
  note l = length_c_str [of user] length_c_str [of pwd] length_c_str [of ip] length_quoted [of user] length_quoted [of pwd] length_quoted [of ip]
    length_show_u32 [of port] length_show_u32 [of svr_id]
  have q: "length (quoted ''127.0.0.1'') \<le> 11" "length (quoted ''%'') \<le> 3"
    using length_quoted [of "''127.0.0.1''"] length_quoted [of "''%''"] by simp_all
  show ?thesis
    unfolding GetChangeMasterQueryString_def GetSvrIDString_def GetCreateUserStr_def GetRevokeAdminUserStr_def GetGrantAdminUserStr_def
      GetGrantReplicaUserStr_def GetShowUserStr_def GetShowGrantString_def GetChangePwdStr_def fits_def
    using assms l q by (intro conjI) (simp_all del: quoted_def)
qed

theorem commands_fit_witness:
  "GetGrantAdminUserStr ''root'' ''pw'' ''10.0.0.1'' \<noteq> None"
  using commands_fit [of "''root''" "''pw''" "''10.0.0.1''" 0 0] by simp

section \<open>Adopting an account\<close>

lemma find_pending_Some:
  assumes "find_pending check name pwd us q = Some (Some u, q')"
  shows "\<exists>newer older q1. us = newer @ u # older \<and> check (ui_username u) (ui_pwd u) q1 = Some (OK, q') \<and>
    (\<forall>x\<in>set (newer @ [u]). \<not> (ui_username x = name \<and> ui_pwd x = pwd))"
  using assms
proof (induction us arbitrary: q)
  case (Cons x us)
  show ?case
  proof (cases "ui_username x = name \<and> ui_pwd x = pwd")
    case True
    with Cons.prems show ?thesis by simp
  next
    case False
    with Cons.prems obtain r q1 where c: "check (ui_username x) (ui_pwd x) q = Some (r, q1)" by (auto simp: bind_eq_Some_conv)
    show ?thesis
    proof (cases "r = OK")
      case True
      with False c Cons.prems show ?thesis by (rule_tac exI [of _ "[]"], rule_tac exI [of _ us], rule_tac exI [of _ q]) auto
    next
      case r: False
      with False c Cons.prems have "find_pending check name pwd us q1 = Some (Some u, q')" by (auto split: if_splits)
      from Cons.IH [OF this] obtain newer older q2 where "us = newer @ u # older" "check (ui_username u) (ui_pwd u) q2 = Some (OK, q')"
        "\<forall>x\<in>set (newer @ [u]). \<not> (ui_username x = name \<and> ui_pwd x = pwd)" by blast
      with False show ?thesis by (rule_tac exI [of _ "x # newer"], rule_tac exI [of _ older], rule_tac exI [of _ q2]) auto
    qed
  qed
qed simp

lemma CheckMySqlUserInfo_steps:
  assumes "CheckMySqlUserInfo env ms q = Some (ms', q')"
  obtains na qa nr where
    "find_pending (CheckAdminUser env) (ms_admin_username ms) (ms_admin_pwd ms) (rev (mi_admin_userinfo (ms_master ms))) q = Some (na, qa)"
    "find_pending (CheckReplicaUser env) (ms_replica_username ms) (ms_replica_pwd ms) (rev (mi_replica_userinfo (ms_master ms))) qa = Some (nr, q')"
    "ms_master ms' = ms_master ms"
    "(ms_admin_username ms', ms_admin_pwd ms') = (case na of Some u \<Rightarrow> if ui_username u \<noteq> [] then (ui_username u, ui_pwd u)
       else (ms_admin_username ms, ms_admin_pwd ms) | None \<Rightarrow> (ms_admin_username ms, ms_admin_pwd ms))"
proof -
  from assms obtain na qa where a:
    "find_pending (CheckAdminUser env) (ms_admin_username ms) (ms_admin_pwd ms) (rev (mi_admin_userinfo (ms_master ms))) q = Some (na, qa)"
    by (auto simp: CheckMySqlUserInfo_def GetMaster_def bind_eq_Some_conv Let_def)
  with assms obtain nr qr where r:
    "find_pending (CheckReplicaUser env) (ms_replica_username ms) (ms_replica_pwd ms) (rev (mi_replica_userinfo (ms_master ms))) qa = Some (nr, qr)"
    by (auto simp: CheckMySqlUserInfo_def GetMaster_def bind_eq_Some_conv Let_def)
  define ms1 where "ms1 = (case na of Some u \<Rightarrow> if ui_username u \<noteq> [] then snd (MasterStorage_SetMySqlAdminInfo (ms_master ms) (ui_username u) (ui_pwd u) ms)
    else ms | None \<Rightarrow> ms)"
  have m: "ms' = (case nr of Some u \<Rightarrow> if ui_username u \<noteq> [] then snd (MasterStorage_SetMySqlReplicaInfo (ms_master ms) (ui_username u) (ui_pwd u) ms1)
    else ms1 | None \<Rightarrow> ms1)" "q' = qr"
    using assms a r unfolding ms1_def by (auto simp: CheckMySqlUserInfo_def GetMaster_def Let_def)
  have 1: "ms_master ms1 = ms_master ms" "(ms_admin_username ms1, ms_admin_pwd ms1) = (case na of Some u \<Rightarrow> if ui_username u \<noteq> [] then (ui_username u, ui_pwd u)
       else (ms_admin_username ms, ms_admin_pwd ms) | None \<Rightarrow> (ms_admin_username ms, ms_admin_pwd ms))"
    by (cases na; simp add: ms1_def MasterStorage_SetMySqlAdminInfo_def)+
  have 2: "ms_master ms' = ms_master ms1" "ms_admin_username ms' = ms_admin_username ms1" "ms_admin_pwd ms' = ms_admin_pwd ms1"
    by (cases nr; simp add: m(1) MasterStorage_SetMySqlReplicaInfo_def)+
  show thesis using that [OF a r [folded m(2)]] 1 2 by simp
qed

text \<open>
  An administrator account is only used after MySQL accepted it. When the check of the accounts changes
  the administrator, the new account is a pending one of the replicated master record, MySQL has just
  confirmed its grants, and no newer pending account is the current one; the master record does not change.
\<close>

theorem CheckMySqlUserInfo_adopts:
  assumes "CheckMySqlUserInfo env ms q = Some (ms', q')"
    and "(ms_admin_username ms', ms_admin_pwd ms') \<noteq> (ms_admin_username ms, ms_admin_pwd ms)"
  shows "ms_master ms' = ms_master ms \<and> (\<exists>older newer u q1 q2. mi_admin_userinfo (ms_master ms) = older @ u # newer \<and>
    ui_username u = ms_admin_username ms' \<and> ui_pwd u = ms_admin_pwd ms' \<and>
    CheckAdminUser env (ui_username u) (ui_pwd u) q1 = Some (OK, q2) \<and>
    (\<forall>x\<in>set newer. \<not> (ui_username x = ms_admin_username ms \<and> ui_pwd x = ms_admin_pwd ms)))"
proof (rule CheckMySqlUserInfo_steps [OF assms(1)])
  fix na qa nr
  assume f: "find_pending (CheckAdminUser env) (ms_admin_username ms) (ms_admin_pwd ms) (rev (mi_admin_userinfo (ms_master ms))) q = Some (na, qa)"
    and m: "ms_master ms' = ms_master ms"
    and n: "(ms_admin_username ms', ms_admin_pwd ms') = (case na of Some u \<Rightarrow> if ui_username u \<noteq> [] then (ui_username u, ui_pwd u)
       else (ms_admin_username ms, ms_admin_pwd ms) | None \<Rightarrow> (ms_admin_username ms, ms_admin_pwd ms))"
  from n assms(2) obtain u where u: "na = Some u" "ui_username u = ms_admin_username ms'" "ui_pwd u = ms_admin_pwd ms'"
    by (auto split: option.splits if_splits)
  from find_pending_Some [OF f [unfolded u(1)]] obtain newer older q1 where w: "rev (mi_admin_userinfo (ms_master ms)) = newer @ u # older"
    "CheckAdminUser env (ui_username u) (ui_pwd u) q1 = Some (OK, qa)"
    "\<forall>x\<in>set (newer @ [u]). \<not> (ui_username x = ms_admin_username ms \<and> ui_pwd x = ms_admin_pwd ms)" by blast
  have "mi_admin_userinfo (ms_master ms) = rev older @ u # rev newer" using arg_cong [OF w(1), of rev] by simp
  with w u m show ?thesis by fastforce
qed

text \<open>A server that confirms the grants of everybody.\<close>

definition grant_my :: "unit myenv" where
  "grant_my = \<lparr>me_api = \<lparr>my_connect = (\<lambda>_ _ _ q. (True, q)), my_query = (\<lambda>_ _ q. (0, q)),
       my_store_result = (\<lambda>_ q. (Some ([], [[Some '' WITH GRANT OPTION'']]), q))\<rparr>,
     me_port = 3306, me_socket = ''s'', me_engine_ip = ''m1'', me_engine_port = 17000, me_svrid = 5\<rparr>"

definition grant_ms :: mstore where
  "grant_ms = MasterStorage_init\<lparr>ms_master := MasterInfo_init\<lparr>mi_admin_userinfo := [\<lparr>ui_username = ''root'', ui_pwd = []\<rparr>]\<rparr>\<rparr>"

lemma grant_CheckAdminUser: "CheckAdminUser grant_my ''root'' [] q = Some (OK, q)"
  by (simp add: CheckAdminUser_def GetShowGrantString_def fits_def quoted_def c_str_def CheckUserGrantExist_def GetQueryResults_def
      Command_Query_def Connect_def DoQuery_def GetResults_def grant_my_def contains_def Let_def)

theorem CheckMySqlUserInfo_adopts_witness:
  "\<exists>ms' q'. CheckMySqlUserInfo grant_my grant_ms () = Some (ms', q') \<and> ms_admin_username ms' = ''root'' \<and> ms_master ms' = ms_master grant_ms"
proof -
  have "\<exists>ms'. CheckMySqlUserInfo grant_my grant_ms () = Some (ms', ()) \<and> ms_admin_username ms' = ''root''"
    using grant_CheckAdminUser [of "()"]
    by (simp add: CheckMySqlUserInfo_def grant_ms_def GetMaster_def MasterStorage_init_def MasterInfo_init_def
        MasterStorage_SetMySqlAdminInfo_def)
  then obtain ms' where c: "CheckMySqlUserInfo grant_my grant_ms () = Some (ms', ())" "ms_admin_username ms' = ''root''" by blast
  moreover have "ms_admin_username grant_ms = []" by (simp add: grant_ms_def MasterStorage_init_def)
  ultimately show ?thesis using CheckMySqlUserInfo_adopts [OF c(1)] by auto
qed

end
