(* ===== verification/Monitor.thy ===== *)
theory Monitor
  imports Paxos_Node MySql
begin

text \<open>
  The monitors that keep the local MySQL in its role: reading executed GTID sets
  (\<^verbatim>\<open>core/monitor/base/monitor_comm.cpp\<close>), starting a master or a slave (\<^verbatim>\<open>master_monitor.cpp\<close>,
  \<^verbatim>\<open>slave_monitor.cpp\<close>) and the agent monitor that drives them and renews or takes over the mastership
  (\<^verbatim>\<open>agent_monitor.cpp\<close>).
\<close>

section \<open>Executed GTID sets\<close>

text \<open>
  One entry of a GTID set, such as \<^verbatim>\<open>uuid:1-5\<close>: the last interval must be the only one. \<open>Inl\<close> is the code of
  a refusal. The UUID is scanned into 128 chars; an empty one leaves the buffer unset.
\<close>

definition parse_gtid_entry :: "string \<Rightarrow> (int + string) option" where
  "parse_gtid_entry val =
     (let uuid = takeWhile (\<lambda>c. c \<noteq> CHR '':'') (c_str val);
          rest = drop (length uuid) val;
          ds = rev (takeWhile is_digit (rev rest));
          body = take (length rest - length ds) rest
      in if uuid = [] \<or> 128 \<le> length uuid then None
         else if body \<noteq> [] \<and> CHR '':'' \<in> set (tl body) then Some (Inl GTID_FAIL)
         else map_option Inr (GenGTID uuid (if body = [] then 0 else of_nat (digits_val ds))))"

fun ParseMaxGTIDList_loop :: "string \<Rightarrow> string \<Rightarrow> string list \<Rightarrow> (int \<times> string list) option" where
  "ParseMaxGTIDList_loop val [] gtid_list =
     (if val = [] then Some (OK, gtid_list)
      else do {
        r \<leftarrow> parse_gtid_entry val;
        Some (case r of Inl ret \<Rightarrow> (ret, gtid_list) | Inr gtid \<Rightarrow> (OK, gtid_list @ [gtid]))
      })"
| "ParseMaxGTIDList_loop val (c # cs) gtid_list =
     (if c = CHR 0x0A then ParseMaxGTIDList_loop val cs gtid_list
      else if c = CHR '','' then
        (if val = [] then ParseMaxGTIDList_loop [] cs gtid_list
         else do {
           r \<leftarrow> parse_gtid_entry val;
           (case r of
              Inl ret \<Rightarrow> Some (ret, gtid_list)
            | Inr gtid \<Rightarrow> ParseMaxGTIDList_loop [] cs (gtid_list @ [gtid]))
         })
      else ParseMaxGTIDList_loop (val @ [c]) cs gtid_list)"

definition ParseMaxGTIDList :: "string \<Rightarrow> string list \<Rightarrow> (int \<times> string list) option" where
  "ParseMaxGTIDList gtid_str gtid_list = ParseMaxGTIDList_loop [] gtid_str gtid_list"

definition MonitorComm_GetMySQLMaxGTIDList ::
  "'q myenv \<Rightarrow> mstore \<Rightarrow> string \<Rightarrow> string \<Rightarrow> 'q \<Rightarrow> (int \<times> string list \<times> 'q) option" where
  "MonitorComm_GetMySQLMaxGTIDList env ms gtid_str query_ip q = do {
     (ret, gtid_pos, q) \<leftarrow> Manager_GetValue env ms ''global variables'' gtid_str [] query_ip q;
     if ret \<noteq> 0 then Some (ret, [], q)
     else do {
       (ret, gtid_list) \<leftarrow> ParseMaxGTIDList gtid_pos [];
       Some (ret, gtid_list, q)
     }
   }"

section \<open>The master monitor\<close>

abbreviation super_read_only_on :: string where
  "super_read_only_on \<equiv> ''set global super_read_only='' @ [CHR 0x27] @ ''on'' @ [CHR 0x27] @ '';''"

abbreviation super_read_only_off :: string where
  "super_read_only_off \<equiv> ''set global super_read_only='' @ [CHR 0x27] @ ''off'' @ [CHR 0x27] @ '';''"

abbreviation read_only_on :: string where
  "read_only_on \<equiv> ''set global read_only='' @ [CHR 0x27] @ ''on'' @ [CHR 0x27] @ '';''"

abbreviation read_only_off :: string where
  "read_only_off \<equiv> ''set global read_only='' @ [CHR 0x27] @ ''off'' @ [CHR 0x27] @ '';''"

text \<open>Commands are sent one after the other until one fails.\<close>

fun queries :: "'q myenv \<Rightarrow> mstore \<Rightarrow> string list \<Rightarrow> 'q \<Rightarrow> int \<times> 'q" where
  "queries env ms [] q = (OK, q)"
| "queries env ms (c # cs) q =
     (case Manager_Query env ms c local_ip q of (ret, q) \<Rightarrow> if ret \<noteq> 0 then (ret, q) else queries env ms cs q)"

definition MasterStart :: "'q myenv \<Rightarrow> mstore \<Rightarrow> 'q \<Rightarrow> int \<times> 'q" where
  "MasterStart env ms q = queries env ms [''stop slave;'', super_read_only_off, read_only_off] q"

definition GetMySQLMaxGTIDList :: "'q myenv \<Rightarrow> mstore \<Rightarrow> 'q \<Rightarrow> (int \<times> string list \<times> 'q) option" where
  "GetMySQLMaxGTIDList env ms q = MonitorComm_GetMySQLMaxGTIDList env ms ''gtid_executed'' local_ip q"

text \<open>The last sequence numbers of every UUID, as the members report them; a broken local set stops the process.\<close>

definition add_seqno :: "string \<Rightarrow> (string, u64 list) smap \<Rightarrow> (string, u64 list) smap" where
  "add_seqno gtid gtid_res =
     (case ParseGTID gtid of
        (uuid, seqno) \<Rightarrow> sm_put uuid ((case map_of gtid_res uuid of None \<Rightarrow> [] | Some l \<Rightarrow> l) @ [seqno]) gtid_res)"

fun collect_gtids ::
  "'q myenv \<Rightarrow> mstore \<Rightarrow> string list \<Rightarrow> (string, u64 list) smap \<Rightarrow> 'q \<Rightarrow> (int \<times> (string, u64 list) smap \<times> 'q) option" where
  "collect_gtids env ms [] gtid_res q = Some (OK, gtid_res, q)"
| "collect_gtids env ms (ip # iplist) gtid_res q = do {
     (ret, tmp_gtid_list, q) \<leftarrow> MonitorComm_GetMySQLMaxGTIDList env ms ''gtid_executed'' ip q;
     if ret \<noteq> 0
     then (if ret = GTID_FAIL \<and> ip = me_engine_ip env then None else Some (ret, gtid_res, q))
     else collect_gtids env ms iplist (fold add_seqno tmp_gtid_list gtid_res) q
   }"

fun min_gtids :: "nat \<Rightarrow> (string, u64 list) smap \<Rightarrow> string list \<Rightarrow> string list option" where
  "min_gtids n [] gtid_list = Some gtid_list"
| "min_gtids n ((uuid, l) # gtid_res) gtid_list =
     (if length l \<noteq> n then min_gtids n gtid_res gtid_list
      else do {
        gtid \<leftarrow> GenGTID uuid (fold min l (- 1));
        min_gtids n gtid_res (gtid_list @ [gtid])
      })"

definition GetGlobalMySQLMaxGTIDList ::
  "'q myenv \<Rightarrow> mstore \<Rightarrow> string list \<Rightarrow> 'q \<Rightarrow> (int \<times> string list \<times> 'q) option" where
  "GetGlobalMySQLMaxGTIDList env ms iplist q = do {
     (ret, gtid_res, q) \<leftarrow> collect_gtids env ms iplist [] q;
     if ret \<noteq> 0 then Some (ret, [], q)
     else map_option (\<lambda>gtid_list. (OK, gtid_list, q)) (min_gtids (length iplist) gtid_res [])
   }"

definition IsGTIDCompleted :: "string list \<Rightarrow> string \<Rightarrow> bool" where
  "IsGTIDCompleted excute_gtid_list max_gtid \<longleftrightarrow> max_gtid = [] \<or>
     (\<exists>g\<in>set excute_gtid_list. fst (ParseGTID g) = fst (ParseGTID max_gtid) \<and> snd (ParseGTID max_gtid) \<le> snd (ParseGTID g))"

definition MasterMonitor_CheckMasterInit :: "'q myenv \<Rightarrow> mstore \<Rightarrow> 'q \<Rightarrow> (int \<times> 'q) option" where
  "MasterMonitor_CheckMasterInit env ms q = do {
     cmd \<leftarrow> GetSvrIDString (me_svrid env);
     Some (queries env ms [cmd, ''flush privileges;''] q)
   }"

section \<open>The slave monitor\<close>

text \<open>The first column of the given name whose cell exists; a parse error stops the scan.\<close>

fun relay_scan :: "string \<Rightarrow> string list \<Rightarrow> string list \<Rightarrow> int \<Rightarrow> string list \<Rightarrow> (int \<times> string list) option" where
  "relay_scan name [] cells ret gtid_list = Some (ret, gtid_list)"
| "relay_scan name (column # columns) cells ret gtid_list =
     (if column = name then
        (case cells of
           [] \<Rightarrow> Some (ret, gtid_list)
         | cell # cells \<Rightarrow> do {
             (ret, gtid_list) \<leftarrow> ParseMaxGTIDList cell gtid_list;
             if ret \<noteq> 0 then Some (ret, gtid_list) else relay_scan name columns cells ret gtid_list
           })
      else relay_scan name columns (drop 1 cells) ret gtid_list)"

definition GetRelayLog :: "'q myenv \<Rightarrow> mstore \<Rightarrow> 'q \<Rightarrow> (int \<times> string list \<times> 'q) option" where
  "GetRelayLog env ms q =
     (case Manager_QueryResults env ms ''show slave status;'' [] (Some []) local_ip q of
        (ret, results, columns, q) \<Rightarrow>
          if ret \<noteq> 0 then Some (ret, [], q)
          else case results of
            [] \<Rightarrow> Some (0, [], q)
          | cells # _ \<Rightarrow> do {
              let names = (case columns of Some n \<Rightarrow> n | None \<Rightarrow> []);
              (ret, gtid_list) \<leftarrow> relay_scan ''Retrieved_Gtid_Set'' names cells ret [];
              (ret, gtid_list) \<leftarrow>
                (if gtid_list = [] then relay_scan ''Executed_Gtid_Set'' names cells ret gtid_list else Some (ret, gtid_list));
              Some (ret, gtid_list, q)
            })"

definition SlaveStart :: "'q myenv \<Rightarrow> mstore \<Rightarrow> string \<Rightarrow> u32 \<Rightarrow> bool \<Rightarrow> 'q \<Rightarrow> (int \<times> 'q) option" where
  "SlaveStart env ms master_ip master_port read_only q = do {
     set_id \<leftarrow> GetSvrIDString (me_svrid env);
     (case queries env ms [''stop slave;'', set_id] q of
        (ret, q) \<Rightarrow>
          if ret \<noteq> 0 then Some (MYSQL_FAIL, q)
          else
            let use_pending = (ms_replica_username ms = []);
                replica_username = (if use_pending then GetPendingReplicaUserName ms else ms_replica_username ms);
                replica_pwd = (if use_pending then GetPendingReplicaPwd ms else ms_replica_pwd ms)
            in if replica_username = [] then Some (MYSQL_FAIL, q)
               else do {
                 change \<leftarrow> GetChangeMasterQueryString master_ip master_port replica_username replica_pwd;
                 Some (case queries env ms [change, if read_only then super_read_only_on else super_read_only_off,
                     if read_only then read_only_on else read_only_off, ''start slave;''] q of
                   (ret, q) \<Rightarrow> (if ret \<noteq> 0 then MYSQL_FAIL else OK, q))
               })
   }"

definition CheckSlaveRunningStatus ::
  "'q myenv \<Rightarrow> mstore \<Rightarrow> bool \<Rightarrow> (string \<times> u32) option \<Rightarrow> 'q \<Rightarrow> (int \<times> 'q) option" where
  "CheckSlaveRunningStatus env ms connecting export q =
     (if connecting then Some (OK, q)
      else do {
        (ret, slave_running, q) \<leftarrow> Manager_GetValue env ms ''status'' ''Slave_running'' [] local_ip q;
        if ret \<noteq> 0 then Some (OK, q)
        else if \<not> same_nocase slave_running ''ON''
        then (case export of
                Some (ip, port) \<Rightarrow> SlaveStart env ms ip port False q
              | None \<Rightarrow> SlaveStart env ms local_ip (me_engine_port env) True q)
        else Some (OK, q)
      })"

definition CheckMasterRunningStatus :: "'q myenv \<Rightarrow> mstore \<Rightarrow> 'q \<Rightarrow> (int \<times> 'q) option" where
  "CheckMasterRunningStatus env ms q = do {
     (ret, slave_running, q) \<leftarrow> Manager_GetValue env ms ''status'' ''Slave_running'' [] local_ip q;
     if ret \<noteq> 0 then Some (MYSQL_FAIL, q)
     else if slave_running = ''ON''
     then map_option (\<lambda>(ret, q). (if ret \<noteq> 0 then MYSQL_FAIL else OK, q))
            (SlaveStart env ms local_ip (me_engine_port env) True q)
     else Some (OK, q)
   }"

section \<open>The agent monitor\<close>

text \<open>
  The state a round works on: the world of the consensus library with the local node in it, the MySQL
  servers, the flags of the monitors, and the number of log entries the library is told to hold.
\<close>

record ('w, 'q) monitor =
  mt_w :: 'w
  mt_q :: 'q
  mt_init :: bool
  mt_last_check :: u32
  mt_external :: external_monitor
  mt_connecting :: bool
  mt_hold :: u64

record ('w, 'q, 'd) monenv =
  mv_env :: "'d nenv"
  mv_my :: "'q myenv"
  mv_px :: "('w, 'd) paxos_api"
  mv_period :: u32

abbreviation mt_node :: "('w, 'q, 'd) monenv \<Rightarrow> ('w, 'q) monitor \<Rightarrow> 'd node" where
  "mt_node v st \<equiv> px_node (mv_px v) (mt_w st)"

abbreviation mt_store :: "('w, 'q, 'd) monenv \<Rightarrow> ('w, 'q) monitor \<Rightarrow> mstore" where
  "mt_store v st \<equiv> mm_storage (nd_mm (mt_node v st))"

abbreviation mt_is_master :: "('w, 'q, 'd) monenv \<Rightarrow> ('w, 'q) monitor \<Rightarrow> bool" where
  "mt_is_master v st \<equiv> CheckMasterBySvrID (nd_now (mt_node v st)) (ne_svrid (mv_env v)) True (mt_store v st)"

text \<open>Running a function of the servers.\<close>

definition on_mysql :: "('q \<Rightarrow> (int \<times> 'q) option) \<Rightarrow> ('w, 'q) monitor \<Rightarrow> (int \<times> ('w, 'q) monitor) option" where
  "on_mysql f st = map_option (\<lambda>(ret, q). (ret, st\<lparr>mt_q := q\<rparr>)) (f (mt_q st))"

definition export_port :: "('w, 'q, 'd) monenv \<Rightarrow> MasterInfo \<Rightarrow> u32" where
  "export_port v master_info =
     (if mi_export_port master_info = 0 then me_engine_port (mv_my v) else mi_export_port master_info)"

definition AgentMonitor_IsGTIDCompleted ::
  "('w, 'q, 'd) monenv \<Rightarrow> ('w, 'q) monitor \<Rightarrow> (int \<times> ('w, 'q) monitor) option" where
  "AgentMonitor_IsGTIDCompleted v st = do {
     (ret, gtid_list, q) \<leftarrow> GetMySQLMaxGTIDList (mv_my v) (mt_store v st) (mt_q st);
     Some (if ret \<noteq> 0 then SVR_FAIL
           else if IsGTIDCompleted gtid_list (GetNewestGTID (nd_es (mt_node v st))) then OK else DATA_EMPTY,
           st\<lparr>mt_q := q\<rparr>)
   }"

definition AgentMonitor_CheckMasterInit ::
  "('w, 'q, 'd) monenv \<Rightarrow> ('w, 'q) monitor \<Rightarrow> (int \<times> ('w, 'q) monitor) option" where
  "AgentMonitor_CheckMasterInit v st =
     (if mt_is_master v st
      then do {
        (ret, gtid_list, q) \<leftarrow> GetMySQLMaxGTIDList (mv_my v) (mt_store v st) (mt_q st);
        let st = st\<lparr>mt_q := q\<rparr>;
        if ret \<noteq> 0 then Some (ret, st)
        else if IsGTIDCompleted gtid_list (GetNewestGTID (nd_es (mt_node v st)))
        then (case GetMasterInfo (nd_mm (mt_node v st)) of
                (inner_ret, master_info) \<Rightarrow>
                  if inner_ret = 0
                  then map_option (\<lambda>(_, st). (ret, st))
                    (if mi_export_ip master_info = []
                     then on_mysql (\<lambda>q. Some (MasterStart (mv_my v) (mt_store v st) q)) st
                     else on_mysql (SlaveStart (mv_my v) (mt_store v st) (mi_export_ip master_info)
                            (export_port v master_info) False) st)
                  else Some (ret, st))
        else do {
          (ret, st) \<leftarrow> on_mysql (CheckSlaveRunningStatus (mv_my v) (mt_store v st) (mt_connecting st) None) st;
          Some (if ret = 0 then 1 else ret, st)
        }
      }
      else do {
        (ret, gtid_list, q) \<leftarrow> GetRelayLog (mv_my v) (mt_store v st) (mt_q st);
        Some (if ret = MYSQL_FAIL then ret else OK, st\<lparr>mt_q := q\<rparr>)
      })"

definition IsSlaveReady :: "('w, 'q, 'd) monenv \<Rightarrow> ('w, 'q) monitor \<Rightarrow> (bool \<times> ('w, 'q) monitor) option" where
  "IsSlaveReady v st = do {
     (ret, gtid_list, q) \<leftarrow> GetMySQLMaxGTIDList (mv_my v) (mt_store v st) (mt_q st);
     let st = st\<lparr>mt_q := q\<rparr>;
     if ret \<noteq> 0 then Some (False, st)
     else do {
       let nd = mt_node v st;
       (ret, gtid, s) \<leftarrow> GetLastGtid (ne_sv (mv_env v)) gtid_list [] (nd_es nd) (nd_fs nd);
       Some (ret = 0, st\<lparr>mt_w := px_set_node (mv_px v) (nd\<lparr>nd_fs := s\<rparr>) (mt_w st)\<rparr>)
     }
   }"

definition CheckRunning :: "('w, 'q, 'd) monenv \<Rightarrow> ('w, 'q) monitor \<Rightarrow> (int \<times> ('w, 'q) monitor) option" where
  "CheckRunning v st = do {
     (ret, read_only, q) \<leftarrow> Manager_GetValue (mv_my v) (mt_store v st) ''variables'' ''super_read_only'' [] local_ip (mt_q st);
     let st = st\<lparr>mt_q := q\<rparr>;
     if ret \<noteq> 0 then Some (ret, st)
     else if read_only = ''OFF'' then
       (if mt_is_master v st then
          (case GetMasterInfo (nd_mm (mt_node v st)) of
             (ret, master_info) \<Rightarrow>
               if ret \<noteq> OK then Some (ret, st)
               else if mi_export_ip master_info = []
               then do {
                 (ret, st) \<leftarrow> on_mysql (CheckMasterRunningStatus (mv_my v) (mt_store v st)) st;
                 if ret = 0
                 then on_mysql (CheckAdminPermission (mv_my v) (mt_store v st) (GetMemberIPList (nd_mm (mt_node v st)))) st
                 else Some (ret, st)
               }
               else on_mysql (CheckSlaveRunningStatus (mv_my v) (mt_store v st) (mt_connecting st)
                      (Some (mi_export_ip master_info, export_port v master_info))) st)
        else do {
          (ready, st) \<leftarrow> IsSlaveReady v st;
          if ready then on_mysql (SlaveStart (mv_my v) (mt_store v st) local_ip (me_engine_port (mv_my v)) True) st
          else Some (ret, st)
        })
     else if mt_is_master v st then AgentMonitor_CheckMasterInit v st
     else on_mysql (CheckSlaveRunningStatus (mv_my v) (mt_store v st) (mt_connecting st) None) st
   }"

text \<open>
  Setting the accounts goes through the master agent, which creates them in MySQL first: the MySQL servers
  change with the creation, the world with the proposal.
\<close>

definition set_admin ::
  "('w, 'q, 'd) monenv \<Rightarrow> string \<Rightarrow> string \<Rightarrow> string \<Rightarrow> string \<Rightarrow> ('w, 'q) monitor \<Rightarrow> (int \<times> ('w, 'q) monitor) option" where
  "set_admin v now_username now_pwd new_username new_pwd st =
     (let nd = mt_node v st;
          called = new_username \<noteq> [] \<and> IsMaster_info (nd_now nd) (ne_svrid (mv_env v)) (snd (GetMasterInfo (nd_mm nd)))
      in do {
        (created, q) \<leftarrow>
          (if called then CreateMySqlAdminInfo (mv_my v) (mt_store v st) now_username now_pwd new_username new_pwd
             (GetMemberIPList (nd_mm nd)) (mt_q st)
           else Some (OK, mt_q st));
        Some (case MasterAgent_SetMySqlAdminInfo (mv_env v) (mv_px v) (\<lambda>_. created) new_username new_pwd (mt_w st) of
          (ret, w) \<Rightarrow> (ret, st\<lparr>mt_w := w, mt_q := q\<rparr>))
      })"

definition set_replica ::
  "('w, 'q, 'd) monenv \<Rightarrow> string \<Rightarrow> string \<Rightarrow> string \<Rightarrow> string \<Rightarrow> ('w, 'q) monitor \<Rightarrow> (int \<times> ('w, 'q) monitor) option" where
  "set_replica v now_username now_pwd new_username new_pwd st =
     (let nd = mt_node v st;
          called = new_username \<noteq> [] \<and> IsMaster_info (nd_now nd) (ne_svrid (mv_env v)) (snd (GetMasterInfo (nd_mm nd)))
      in do {
        (created, q) \<leftarrow>
          (if called then CreateMySqlReplicaInfo (mv_my v) (mt_store v st) now_username now_pwd new_username new_pwd (mt_q st)
           else Some (OK, mt_q st));
        Some (case MasterAgent_SetMySqlReplicaInfo (mv_env v) (mv_px v) created new_username new_pwd (mt_w st) of
          (ret, w) \<Rightarrow> (ret, st\<lparr>mt_w := w, mt_q := q\<rparr>))
      })"

definition MasterInit :: "('w, 'q, 'd) monenv \<Rightarrow> ('w, 'q) monitor \<Rightarrow> (int \<times> ('w, 'q) monitor) option" where
  "MasterInit v st =
     (case GetMasterInfo (nd_mm (mt_node v st)) of
        (ret, master_info) \<Rightarrow>
          if ret \<noteq> 0 then Some (ret, st)
          else if mi_svr_id master_info = ne_svrid (mv_env v) \<and> \<not> IsTimeOut (nd_now (mt_node v st)) master_info \<and> \<not> mt_init st
          then do {
            (ret, st) \<leftarrow> on_mysql (MasterMonitor_CheckMasterInit (mv_my v) (mt_store v st)) st;
            if ret = OK \<and> \<not> IsMySqlInit (mt_store v st)
            then do {
              (ret, st) \<leftarrow> (if ms_admin_username (mt_store v st) = [] then set_admin v [] [] ''root'' [] st else Some (ret, st));
              if ret \<noteq> 0 then Some (ret, st)
              else do {
                (ret, st) \<leftarrow>
                  (if ms_replica_username (mt_store v st) = [] then set_replica v [] [] ''replica'' ''replica123'' st
                   else Some (ret, st));
                Some (ret, if ret \<noteq> 0 then st else st\<lparr>mt_init := True\<rparr>)
              }
            }
            else Some (ret, st)
          }
          else Some (ret, st))"

text \<open>The mastership is renewed, or taken over when the local MySQL has all events.\<close>

definition CheckMasterTimeOut :: "('w, 'q, 'd) monenv \<Rightarrow> ('w, 'q) monitor \<Rightarrow> (int \<times> ('w, 'q) monitor) option" where
  "CheckMasterTimeOut v st = do {
     (ret, st) \<leftarrow> (if mt_is_master v st then Some (OK, st) else AgentMonitor_IsGTIDCompleted v st);
     if ret < 0 then Some (ret, st)
     else
       let (healthy, em) = IsHealthy (fs_now (nd_fs (mt_node v st))) (mt_external st);
           st = st\<lparr>mt_external := em\<rparr>
       in if \<not> healthy then Some (SVR_FAIL, st)
          else if ret = OK
          then Some (case MasterAgent_SetMaster (mv_env v) (mv_px v) (me_engine_ip (mv_my v)) None (mt_w st) of
                 (_, w) \<Rightarrow> (OK, st\<lparr>mt_w := w\<rparr>))
          else on_mysql (CheckSlaveRunningStatus (mv_my v) (mt_store v st) (mt_connecting st) None) st
   }"

definition CheckCheckPointFiles :: "('w, 'q, 'd) monenv \<Rightarrow> ('w, 'q) monitor \<Rightarrow> ('w, 'q) monitor" where
  "CheckCheckPointFiles v st = st\<lparr>mt_hold := of_int (CP_GetCurrentInstanceInterval (nd_es (mt_node v st))) * 3\<rparr>"

definition set_status :: "('w, 'q, 'd) monenv \<Rightarrow> monitor_comm \<Rightarrow> ('w, 'q) monitor \<Rightarrow> ('w, 'q) monitor" where
  "set_status v mc st =
     (let nd = mt_node v st
      in st\<lparr>mt_w := px_set_node (mv_px v) (nd\<lparr>nd_mm := (nd_mm nd)\<lparr>mm_comm := mc\<rparr>\<rparr>) (mt_w st)\<rparr>)"

text \<open>
  The states of a round fall through: changing the master leads to its initialization, and that to the
  check of the running server. The flag tells whether the mastership is looked at afterwards.
\<close>

definition run_running :: "('w, 'q, 'd) monenv \<Rightarrow> ('w, 'q) monitor \<Rightarrow> (bool \<times> ('w, 'q) monitor) option" where
  "run_running v st = map_option (\<lambda>(ret, st). (ret = OK, st)) (CheckRunning v st)"

definition run_changing_init :: "('w, 'q, 'd) monenv \<Rightarrow> ('w, 'q) monitor \<Rightarrow> (bool \<times> ('w, 'q) monitor) option" where
  "run_changing_init v st = do {
     (ret, st) \<leftarrow> MasterInit v st;
     if ret = OK then run_running v (set_status v (SetStatus RUNNING (mm_comm (nd_mm (mt_node v st)))) st)
     else Some (False, st)
   }"

definition run_changing :: "('w, 'q, 'd) monenv \<Rightarrow> ('w, 'q) monitor \<Rightarrow> (bool \<times> ('w, 'q) monitor) option" where
  "run_changing v st = do {
     (ret, st) \<leftarrow> AgentMonitor_CheckMasterInit v st;
     if ret = OK then run_changing_init v (set_status v (SetStatus MASTER_CHANGING_INIT (mm_comm (nd_mm (mt_node v st)))) st)
     else Some (False, st)
   }"

definition AgentMonitor_round :: "('w, 'q, 'd) monenv \<Rightarrow> ('w, 'q) monitor \<Rightarrow> ('w, 'q) monitor option" where
  "AgentMonitor_round v st =
     (case GetStatus (snd (GetStatus (mm_comm (nd_mm (mt_node v st))))) of
        (status, mc) \<Rightarrow>
          let st = set_status v mc st;
              inited = (mi_version (snd (GetMasterInfo (nd_mm (mt_node v st)))) > 0)
          in if status = NOTHING \<and> \<not> inited then Some st
             else do {
               (check_master, st) \<leftarrow>
                 (case status of
                    RUNNING \<Rightarrow> run_running v st
                  | MASTER_CHANGING_INIT \<Rightarrow> run_changing_init v st
                  | MASTER_CHANGING \<Rightarrow> run_changing v st
                  | _ \<Rightarrow> if inited then run_changing v st else Some (True, st));
               (ms, q) \<leftarrow> CheckMySqlUserInfo (mv_my v) (mt_store v st) (mt_q st);
               let nd = mt_node v st;
               let st = st\<lparr>mt_q := q, mt_w := px_set_node (mv_px v) (nd\<lparr>nd_mm := (nd_mm nd)\<lparr>mm_storage := ms\<rparr>\<rparr>) (mt_w st)\<rparr>;
               let now = fs_now (nd_fs (mt_node v st));
               if check_master \<and> mv_period v \<le> now - mt_last_check st
               then do {
                 (ret, st) \<leftarrow> CheckMasterTimeOut v st;
                 let st = CheckCheckPointFiles v st;
                 Some (if ret = 0 then st\<lparr>mt_last_check := now\<rparr> else st)
               }
               else Some st
             })"

section \<open>Reading back a GTID set\<close>

text \<open>A GTID set as MySQL prints it: one interval from 1 for every UUID, separated by commas and line breaks.\<close>

fun print_gtid_set :: "(string \<times> u64) list \<Rightarrow> string" where
  "print_gtid_set [] = []"
| "print_gtid_set [(uuid, n)] = uuid @ '':1-'' @ show_nat (unat n)"
| "print_gtid_set ((uuid, n) # us) = uuid @ '':1-'' @ show_nat (unat n) @ [CHR '','', CHR 0x0A] @ print_gtid_set us"

definition plain_uuid :: "string \<Rightarrow> bool" where
  "plain_uuid uuid \<longleftrightarrow> uuid \<noteq> [] \<and> uuid_ok uuid \<and> (\<forall>c\<in>set uuid. c \<noteq> CHR '','' \<and> c \<noteq> CHR 0x0A)"

lemma rev_takeWhile_digits:
  assumes "\<forall>c\<in>set ds. is_digit c" "\<not> is_digit x"
  shows "rev (takeWhile is_digit (rev (pre @ [x] @ ds))) = ds"
proof -
  have "takeWhile is_digit (rev ds @ x # rev pre) = rev ds"
    using assms by (subst takeWhile_append2) auto
  then show ?thesis by simp
qed

lemma parse_gtid_entry_split:
  assumes "plain_uuid uuid" "\<forall>c\<in>set ds. is_digit c" "\<not> is_digit x" "CHR 0x00 \<notin> set (pre @ [x])" "hd (pre @ [x]) = CHR '':''"
  shows "parse_gtid_entry (uuid @ pre @ [x] @ ds) =
    (if CHR '':'' \<in> set (tl (pre @ [x])) then Some (Inl GTID_FAIL) else map_option Inr (GenGTID uuid (of_nat (digits_val ds))))"
proof -
  define rest where "rest = pre @ [x] @ ds"
  have u: "CHR '':'' \<notin> set uuid" "CHR 0x00 \<notin> set uuid" "uuid \<noteq> []" "length uuid < 128"
    using assms(1) by (auto simp: plain_uuid_def uuid_ok_def)
  have "CHR 0x00 \<notin> set ds" using assms(2) by (auto simp: is_digit_def)
  then have c: "c_str (uuid @ rest) = uuid @ rest" using assms(4) u(2) by (intro c_str_id) (auto simp: rest_def)
  have h: "rest \<noteq> []" "hd rest = CHR '':''" using assms(5) by (cases pre; simp add: rest_def)+
  then have t: "takeWhile (\<lambda>c. c \<noteq> CHR '':'') (uuid @ rest) = uuid"
    using u(1) by (subst takeWhile_append2) (auto simp: takeWhile_eq_Nil_iff)
  have d: "rev (takeWhile is_digit (rev rest)) = ds" unfolding rest_def by (rule rev_takeWhile_digits [OF assms(2,3)])
  have b: "take (length rest - length ds) rest = pre @ [x]" by (simp add: rest_def)
  have dr: "drop (length uuid) (uuid @ rest) = rest" by simp
  have "parse_gtid_entry (uuid @ rest) =
    (if CHR '':'' \<in> set (tl (pre @ [x])) then Some (Inl GTID_FAIL) else map_option Inr (GenGTID uuid (of_nat (digits_val ds))))"
    using u unfolding parse_gtid_entry_def c t Let_def dr d b by simp
  then show ?thesis by (simp add: rest_def)
qed

lemma parse_gtid_entry_print:
  assumes "plain_uuid uuid"
  shows "parse_gtid_entry (uuid @ '':1-'' @ show_nat (unat n)) = map_option Inr (GenGTID uuid n)"
  using parse_gtid_entry_split [OF assms, of "show_nat (unat n)" "CHR ''-''" "'':1''"]
  by (auto intro: show_nat_digits simp: is_digit_def [of "CHR ''-''"])

lemma ParseMaxGTIDList_loop_plain:
  "\<forall>c\<in>set xs. c \<noteq> CHR '','' \<and> c \<noteq> CHR 0x0A \<Longrightarrow> ParseMaxGTIDList_loop val (xs @ rest) acc = ParseMaxGTIDList_loop (val @ xs) rest acc"
  by (induction xs arbitrary: val) auto

definition entry_text :: "string \<times> u64 \<Rightarrow> string" where
  "entry_text e = fst e @ '':1-'' @ show_nat (unat (snd e))"

lemma entry_text_props:
  assumes "plain_uuid (fst e)"
  shows "\<forall>c\<in>set (entry_text e). c \<noteq> CHR '','' \<and> c \<noteq> CHR 0x0A" "entry_text e \<noteq> []"
    "parse_gtid_entry (entry_text e) = map_option Inr (GenGTID (fst e) (snd e))"
proof -
  have "c \<noteq> CHR '','' \<and> c \<noteq> CHR 0x0A" if "is_digit c" for c using that by (auto simp: is_digit_def)
  then show "\<forall>c\<in>set (entry_text e). c \<noteq> CHR '','' \<and> c \<noteq> CHR 0x0A"
    using assms show_nat_digits [of _ "unat (snd e)"] unfolding entry_text_def plain_uuid_def by auto
  show "entry_text e \<noteq> []" using assms by (simp add: entry_text_def plain_uuid_def)
  show "parse_gtid_entry (entry_text e) = map_option Inr (GenGTID (fst e) (snd e))"
    unfolding entry_text_def by (rule parse_gtid_entry_print [OF assms])
qed

lemma print_gtid_set_Cons:
  "print_gtid_set (e # us) = entry_text e @ (if us = [] then [] else [CHR '','', CHR 0x0A] @ print_gtid_set us)"
  by (cases us; cases e) (simp_all add: entry_text_def)

lemma ParseMaxGTIDList_set:
  assumes "\<forall>e\<in>set us. plain_uuid (fst e)" "us \<noteq> []"
  shows "ParseMaxGTIDList_loop [] (print_gtid_set us) acc =
    Some (OK, acc @ map (\<lambda>e. fst e @ CHR '':'' # show_nat (unat (snd e))) us)"
  using assms
proof (induction us arbitrary: acc)
  case (Cons e us)
  have e: "plain_uuid (fst e)" using Cons.prems by simp
  note p = entry_text_props [OF e]
  have g: "GenGTID (fst e) (snd e) = Some (fst e @ CHR '':'' # show_nat (unat (snd e)))"
    using e by (intro GenGTID_ok) (simp add: plain_uuid_def)
  show ?case
  proof (cases "us = []")
    case True
    have "ParseMaxGTIDList_loop [] (entry_text e @ []) acc = ParseMaxGTIDList_loop (entry_text e) [] acc"
      using ParseMaxGTIDList_loop_plain [OF p(1), of "[]" "[]" acc] by (simp only: append_Nil)
    with True p(2,3) g show ?thesis by (simp add: print_gtid_set_Cons)
  next
    case False
    have "ParseMaxGTIDList_loop [] (entry_text e @ CHR '','' # CHR 0x0A # print_gtid_set us) acc =
        ParseMaxGTIDList_loop (entry_text e) (CHR '','' # CHR 0x0A # print_gtid_set us) acc"
      using ParseMaxGTIDList_loop_plain [OF p(1), of "[]"] by (simp only: append_Nil)
    with False p(2,3) g Cons show ?thesis by (simp add: print_gtid_set_Cons)
  qed
qed simp

text \<open>
  Reading an executed GTID set. A set as MySQL prints it, with one interval from 1 for every server, is
  read as the list of the newest GTIDs, which parse to the servers and their last sequence numbers.
\<close>

theorem ParseMaxGTIDList_roundtrip:
  assumes "\<forall>e\<in>set us. plain_uuid (fst e)"
  shows "\<exists>gtids. ParseMaxGTIDList (print_gtid_set us) [] = Some (OK, gtids) \<and> map ParseGTID gtids = us"
proof -
  have "ParseGTID (fst e @ CHR '':'' # show_nat (unat (snd e))) = e" if "e \<in> set us" for e
    using assms that by (simp add: ParseGTID_print plain_uuid_def uuid_ok_def)
  then have "map ParseGTID (map (\<lambda>e. fst e @ CHR '':'' # show_nat (unat (snd e))) us) = us" by (simp add: map_idI)
  then show ?thesis
    using ParseMaxGTIDList_set [OF assms] by (cases "us = []") (auto simp: ParseMaxGTIDList_def)
qed

theorem ParseMaxGTIDList_roundtrip_witness:
  "\<exists>gtids. ParseMaxGTIDList (print_gtid_set [(''ab-1'', 5), (''cd-2'', 70)]) [] = Some (OK, gtids) \<and>
     map ParseGTID gtids = [(''ab-1'', 5), (''cd-2'', 70)]"
  by (rule ParseMaxGTIDList_roundtrip) (simp add: plain_uuid_def uuid_ok_def)

text \<open>
  A set with a gap is refused. When the set of a server has more than one interval, reading it fails with
  GTID_FAIL, so neither a checkpoint nor a takeover is ever based on it.
\<close>

theorem ParseMaxGTIDList_gap:
  assumes "plain_uuid uuid"
  shows "ParseMaxGTIDList (uuid @ '':1-'' @ show_nat (unat a) @ '':'' @ show_nat (unat b) @ ''-'' @ show_nat (unat n)) [] =
    Some (GTID_FAIL, [])"
proof -
  let ?mid = "show_nat (unat a) @ '':'' @ show_nat (unat b)"
  have dig: "is_digit c \<Longrightarrow> c \<noteq> CHR '','' \<and> c \<noteq> CHR 0x0A \<and> c \<noteq> CHR 0x00" for c by (auto simp: is_digit_def)
  have pl: "c \<noteq> CHR '','' \<and> c \<noteq> CHR 0x0A \<and> c \<noteq> CHR 0x00" if "c \<in> set (show_nat k)" for c k
    by (rule dig [OF show_nat_digits [OF that]])
  have nn: "CHR 0x00 \<notin> set (show_nat k)" for k using pl by blast
  have dd: "\<forall>c\<in>set (show_nat (unat n)). is_digit c" by (blast intro: show_nat_digits)
  have nd: "\<not> is_digit (CHR ''-'')" by (simp add: is_digit_def)
  have nul: "CHR 0x00 \<notin> set (('':1-'' @ ?mid) @ [CHR ''-''])" using nn by simp
  have p: "parse_gtid_entry (uuid @ ('':1-'' @ ?mid) @ [CHR ''-''] @ show_nat (unat n)) = Some (Inl GTID_FAIL)"
    using parse_gtid_entry_split [OF assms dd nd nul] by simp
  let ?s = "uuid @ ('':1-'' @ ?mid) @ [CHR ''-''] @ show_nat (unat n)"
  have u: "\<forall>c\<in>set uuid. c \<noteq> CHR '','' \<and> c \<noteq> CHR 0x0A" "uuid \<noteq> []" using assms by (simp_all add: plain_uuid_def)
  have "\<forall>c\<in>set ?s. c \<noteq> CHR '','' \<and> c \<noteq> CHR 0x0A" unfolding set_append using pl u(1) by (simp add: ball_Un)
  from ParseMaxGTIDList_loop_plain [OF this, of "[]" "[]" "[]"]
  have "ParseMaxGTIDList_loop [] ?s [] = ParseMaxGTIDList_loop ?s [] []" by (simp only: append_Nil append_Nil2)
  also have "\<dots> = Some (GTID_FAIL, [])" using u(2) p by (simp del: append_assoc)
  finally show ?thesis by (simp add: ParseMaxGTIDList_def)
qed

theorem ParseMaxGTIDList_gap_witness:
  "ParseMaxGTIDList (''ab'' @ '':1-'' @ show_nat (unat (3 :: u64)) @ '':'' @ show_nat (unat (5 :: u64)) @ ''-'' @ show_nat (unat (9 :: u64))) [] =
    Some (GTID_FAIL, [])"
  by (rule ParseMaxGTIDList_gap) (simp add: plain_uuid_def uuid_ok_def)

section \<open>What all members have executed\<close>

lemma ParseGTID_parts: "CHR '':'' \<notin> set (fst (ParseGTID g))"
  by (auto simp: ParseGTID_def str_find_None split: option.splits dest: str_find_SomeD)

lemma parse_gtid_entry_no_nul:
  assumes "parse_gtid_entry val = Some (Inr g)"
  shows "CHR 0x00 \<notin> set (fst (ParseGTID g))"
proof -
  let ?u = "takeWhile (\<lambda>c. c \<noteq> CHR '':'') (c_str val)"
  have n: "CHR 0x00 \<notin> set ?u" "CHR '':'' \<notin> set ?u" by (auto simp: c_str_def dest: set_takeWhileD)
  obtain k where "GenGTID ?u k = Some g" using assms by (auto simp: parse_gtid_entry_def Let_def split: if_splits)
  then have "g = ?u @ CHR '':'' # show_nat (unat k)"
    using n by (auto simp: GenGTID_def Let_def c_str_id split: if_splits)
  with n show ?thesis by (simp add: ParseGTID_print)
qed

lemma ParseMaxGTIDList_no_nul:
  "ParseMaxGTIDList_loop val s acc = Some (ret, l) \<Longrightarrow> \<forall>g\<in>set acc. CHR 0x00 \<notin> set (fst (ParseGTID g)) \<Longrightarrow>
     \<forall>g\<in>set l. CHR 0x00 \<notin> set (fst (ParseGTID g))"
proof (induction val s acc rule: ParseMaxGTIDList_loop.induct)
  case (1 val acc)
  show ?case
  proof (cases "val = []")
    case True
    with 1 show ?thesis by simp
  next
    case False
    with "1.prems"(1) obtain r where r: "parse_gtid_entry val = Some r" by (auto simp: bind_eq_Some_conv)
    with False 1 parse_gtid_entry_no_nul show ?thesis by (cases r) auto
  qed
next
  case (2 val c cs acc)
  show ?case
  proof (cases "c = CHR '','' \<and> val \<noteq> []")
    case True
    then obtain r where r: "parse_gtid_entry val = Some r" using "2.prems"(1) by (auto simp: bind_eq_Some_conv)
    show ?thesis
    proof (cases r)
      case (Inl e)
      with True r "2.prems" show ?thesis by auto
    next
      case (Inr g)
      have "\<forall>x\<in>set (acc @ [g]). CHR 0x00 \<notin> set (fst (ParseGTID x))"
        using "2.prems"(2) parse_gtid_entry_no_nul [OF r [unfolded Inr]] by simp
      with True r Inr "2.prems"(1) "2.IH"(3) [of r g] show ?thesis by auto
    qed
  next
    case False
    with "2.prems" "2.IH" show ?thesis by (auto split: if_splits)
  qed
qed

text \<open>The sequence numbers a member reports for a UUID.\<close>

definition seqs :: "string \<Rightarrow> string list \<Rightarrow> u64 list" where
  "seqs uuid l = map snd (filter (\<lambda>p. fst p = uuid) (map ParseGTID l))"

abbreviation seqnos :: "(string, u64 list) smap \<Rightarrow> string \<Rightarrow> u64 list" where
  "seqnos res uuid \<equiv> (case map_of res uuid of None \<Rightarrow> [] | Some l \<Rightarrow> l)"

fun reports :: "'q myenv \<Rightarrow> mstore \<Rightarrow> string list \<Rightarrow> 'q \<Rightarrow> (string list list \<times> 'q) option" where
  "reports env ms [] q = Some ([], q)"
| "reports env ms (ip # iplist) q = do {
     (ret, l, q) \<leftarrow> MonitorComm_GetMySQLMaxGTIDList env ms ''gtid_executed'' ip q;
     if ret \<noteq> 0 then None else map_option (\<lambda>(rs, q). (l # rs, q)) (reports env ms iplist q)
   }"

lemma add_seqno_fold:
  "sm_ok res \<Longrightarrow> sm_ok (fold add_seqno l res) \<and> seqnos (fold add_seqno l res) uuid = seqnos res uuid @ seqs uuid l"
proof (induction l arbitrary: res)
  case (Cons g l)
  have "sm_ok (add_seqno g res)" using Cons.prems by (simp add: add_seqno_def case_prod_beta)
  moreover have "seqnos (add_seqno g res) uuid = seqnos res uuid @ seqs uuid [g]"
    by (simp add: add_seqno_def seqs_def case_prod_beta)
  ultimately show ?case using Cons.IH [of "add_seqno g res"] by (simp add: seqs_def)
qed (simp add: seqs_def)

lemma collect_gtids_reports:
  assumes "collect_gtids env ms iplist res q = Some (OK, res', q')" "sm_ok res"
  shows "\<exists>rs. reports env ms iplist q = Some (rs, q') \<and> length rs = length iplist \<and> sm_ok res' \<and>
    (\<forall>uuid. seqnos res' uuid = seqnos res uuid @ concat (map (seqs uuid) rs)) \<and>
    (\<forall>l\<in>set rs. \<forall>g\<in>set l. CHR 0x00 \<notin> set (fst (ParseGTID g)))"
  using assms
proof (induction iplist arbitrary: res q)
  case (Cons ip iplist)
  obtain ret l q1 where g: "MonitorComm_GetMySQLMaxGTIDList env ms ''gtid_executed'' ip q = Some (ret, l, q1)"
    using Cons.prems(1) by (auto simp: bind_eq_Some_conv)
  with Cons.prems(1) have r: "ret = 0" "collect_gtids env ms iplist (fold add_seqno l res) q1 = Some (OK, res', q')"
    by (auto split: if_splits)
  have n: "\<forall>x\<in>set l. CHR 0x00 \<notin> set (fst (ParseGTID x))"
    using g by (auto simp: MonitorComm_GetMySQLMaxGTIDList_def ParseMaxGTIDList_def bind_eq_Some_conv split: if_splits
        dest!: ParseMaxGTIDList_no_nul)
  from Cons.IH [OF r(2)] add_seqno_fold [OF Cons.prems(2), of l] obtain rs where
    "reports env ms iplist q1 = Some (rs, q')" "length rs = length iplist" "sm_ok res'"
    "\<forall>uuid. seqnos res' uuid = seqnos (fold add_seqno l res) uuid @ concat (map (seqs uuid) rs)"
    "\<forall>l\<in>set rs. \<forall>g\<in>set l. CHR 0x00 \<notin> set (fst (ParseGTID g))" by blast
  with g r(1) n add_seqno_fold [OF Cons.prems(2), of l] show ?case by auto
qed simp

lemma length_concat_le: "\<forall>xs\<in>set xss. length xs \<le> 1 \<Longrightarrow> length (concat xss) \<le> length xss"
proof (induction xss)
  case (Cons xs xss)
  then have "length (concat xss) \<le> length xss" "length xs \<le> 1" by simp_all
  then show ?case by simp
qed simp

lemma concat_singletons:
  "length (concat xss) = length xss \<Longrightarrow> \<forall>xs\<in>set xss. length xs \<le> 1 \<Longrightarrow> \<forall>xs\<in>set xss. length xs = 1"
proof (induction xss)
  case (Cons xs xss)
  have "length (concat xss) \<le> length xss" "length xs \<le> 1" "\<forall>xs\<in>set xss. length xs \<le> 1"
    using Cons.prems(2) length_concat_le [of xss] by simp_all
  then have "length xs = 1" "length (concat xss) = length xss" using Cons.prems(1) by simp_all
  with Cons.IH \<open>\<forall>xs\<in>set xss. length xs \<le> 1\<close> show ?case by simp
qed simp

lemma fold_min_le: "x \<in> set xs \<Longrightarrow> fold min xs a \<le> (x :: 'a :: linorder)" and fold_min_start: "fold min xs a \<le> (a :: 'a :: linorder)"
proof -
  show start: "fold min xs a \<le> a" for xs and a :: 'a
  proof (induction xs arbitrary: a)
    case (Cons y ys)
    from Cons [of "min y a"] show ?case by simp
  qed simp
  show "x \<in> set xs \<Longrightarrow> fold min xs a \<le> x"
  proof (induction xs arbitrary: a)
    case (Cons y ys)
    then show ?case using start [of ys "min y a"] by auto
  qed simp
qed

lemma min_gtids_members:
  "min_gtids n res acc = Some gtids \<Longrightarrow> g \<in> set gtids \<Longrightarrow>
     g \<in> set acc \<or> (\<exists>uuid l. (uuid, l) \<in> set res \<and> length l = n \<and> GenGTID uuid (fold min l (- 1)) = Some g)"
proof (induction n res acc rule: min_gtids.induct)
  case (2 n uuid l res acc)
  then show ?case by (cases "length l = n") (auto simp: bind_eq_Some_conv)
qed simp

text \<open>
  C18: the GTIDs that all members have executed. When every member could be asked and reports each server at
  most once, every GTID of the answer, which is what checkpoints delete up to, has been executed by every
  member.
\<close>

theorem GetGlobalMySQLMaxGTIDList_executed:
  assumes "GetGlobalMySQLMaxGTIDList env ms iplist q = Some (OK, gtids, q')"
  shows "\<exists>rs. reports env ms iplist q = Some (rs, q') \<and>
    ((\<forall>l\<in>set rs. distinct (map (fst \<circ> ParseGTID) l)) \<longrightarrow> (\<forall>g\<in>set gtids. \<forall>l\<in>set rs. IsGTIDCompleted l g))"
proof -
  from assms obtain res where c: "collect_gtids env ms iplist [] q = Some (OK, res, q')" and m: "min_gtids (length iplist) res [] = Some gtids"
    by (auto simp: GetGlobalMySQLMaxGTIDList_def bind_eq_Some_conv split: if_splits)
  from collect_gtids_reports [OF c] obtain rs where rs: "reports env ms iplist q = Some (rs, q')" "length rs = length iplist" "sm_ok res"
    "\<forall>uuid. seqnos res uuid = concat (map (seqs uuid) rs)" "\<forall>l\<in>set rs. \<forall>g\<in>set l. CHR 0x00 \<notin> set (fst (ParseGTID g))"
    by auto
  have "IsGTIDCompleted l g" if d: "\<forall>l\<in>set rs. distinct (map (fst \<circ> ParseGTID) l)" and g: "g \<in> set gtids" and l: "l \<in> set rs" for g l
  proof -
    from min_gtids_members [OF m g] obtain uuid xs where u: "(uuid, xs) \<in> set res" "length xs = length iplist"
      "GenGTID uuid (fold min xs (- 1)) = Some g" by auto
    have "distinct (map fst res)" using rs(3) by (simp add: sm_ok_def strict_sorted_iff)
    then have xs: "xs = concat (map (seqs uuid) rs)" using u(1) rs(4) [rule_format, of uuid] by simp
    have "length (seqs uuid k) \<le> 1" if "k \<in> set rs" for k
    proof -
      have "distinct (map (fst \<circ> ParseGTID) k)" using d that by blast
      then show ?thesis
        by (induction k) (auto simp: seqs_def filter_empty_conv image_iff)
    qed
    then have "length (seqs uuid l) = 1"
      using concat_singletons [of "map (seqs uuid) rs"] u(2) rs(2) xs l by auto
    then have "seqs uuid l \<noteq> []" by auto
    then obtain x where x: "x \<in> set l" "fst (ParseGTID x) = uuid" by (auto simp: seqs_def filter_empty_conv)
    then have sx: "snd (ParseGTID x) \<in> set (seqs uuid l)" by (auto simp: seqs_def)
    have "CHR 0x00 \<notin> set uuid" "CHR '':'' \<notin> set uuid" using rs(5) l x ParseGTID_parts [of x] by auto
    then have pg: "ParseGTID g = (uuid, fold min xs (- 1))"
      using u(3) by (auto simp: GenGTID_def Let_def c_str_id ParseGTID_print split: if_splits)
    have "snd (ParseGTID x) \<in> set xs" using sx l xs by auto
    from fold_min_le [OF this, of "- 1"] x pg show ?thesis by (auto simp: IsGTIDCompleted_def)
  qed
  with rs(1) show ?thesis by blast
qed

text \<open>Two members: one has executed five transactions, the other three.\<close>

definition sample_my :: "unit myenv" where
  "sample_my = \<lparr>me_api = \<lparr>my_connect = (\<lambda>_ _ _ q. (True, q)), my_query = (\<lambda>_ _ q. (0, q)),
       my_store_result = (\<lambda>opt q. (Some ([], [[Some ''gtid_executed'', Some (if mo_ip opt = ''m1'' then ''u:1-5'' else ''u:1-3'')]]), q))\<rparr>,
     me_port = 3306, me_socket = ''s'', me_engine_ip = ''m1'', me_engine_port = 17000, me_svrid = 5\<rparr>"

lemma show_digits: "show_nat 5 = ''5''" "show_nat 3 = ''3''"
  by (simp_all add: show_nat.simps digit_char_def char_of_def bit_Suc_0_iff)

lemma sample_report:
  "MonitorComm_GetMySQLMaxGTIDList sample_my MasterStorage_init ''gtid_executed'' ip () =
     Some (OK, [if ip = ''m1'' then ''u:5'' else ''u:3''], ())"
  by (simp add: MonitorComm_GetMySQLMaxGTIDList_def Manager_GetValue_def Command_GetValue_def fits_def c_str_def quoted_def
      admin_option_def GetQueryResults_def Command_Query_def Connect_def sample_my_def MasterStorage_init_def DoQuery_def
      GetResults_def same_nocase_def ParseMaxGTIDList_def parse_gtid_entry_def Let_def is_digit_def GenGTID_def digits_val_def
      digit_val_def show_digits)

theorem GetGlobalMySQLMaxGTIDList_executed_witness:
  "GetGlobalMySQLMaxGTIDList sample_my MasterStorage_init [''m1'', ''m2''] () = Some (OK, [''u:3''], ()) \<and>
   IsGTIDCompleted [''u:5''] ''u:3'' \<and> IsGTIDCompleted [''u:3''] ''u:3''"
proof -
  have p: "ParseGTID ''u:5'' = (''u'', 5)" "ParseGTID ''u:3'' = (''u'', 3)"
    using ParseGTID_print [of "''u''" 5] ParseGTID_print [of "''u''" 3]
    by (simp_all add: show_digits)
  have g: "GetGlobalMySQLMaxGTIDList sample_my MasterStorage_init [''m1'', ''m2''] () = Some (OK, [''u:3''], ())"
    by (simp add: GetGlobalMySQLMaxGTIDList_def sample_report add_seqno_def p GenGTID_def c_str_def show_digits)
  from GetGlobalMySQLMaxGTIDList_executed [OF g] g show ?thesis by (simp add: sample_report)
qed

end
