(* ===== verification/Lease.thy ===== *)
theory Lease
  imports Paxos_Node
begin

text \<open>
  At most one master. The agents of all nodes propose master records, the consensus library chooses some
  of them in an order all nodes see, and every node executes the chosen records at its own pace. The only
  assumptions are a common clock, which stays below the range of the 32-bit times, and that all nodes use
  the same lease time.
\<close>

section \<open>The cluster\<close>

text \<open>A consensus library that only notes what is sent, to see what the agents propose.\<close>

definition outbox :: "('d node \<times> bytes list, 'd) paxos_api" where
  "outbox = \<lparr>px_node = fst, px_propose = (\<lambda>smid v (nd, out). (0, OK, (nd, out @ [v]))), px_too_large = 1,
     px_show = (\<lambda>w. (0, [])), px_add = (\<lambda>_ w. (0, w)), px_remove = (\<lambda>_ w. (0, w)),
     px_set_node = (\<lambda>nd w. (nd, snd w)), px_run = (\<lambda>_ _ w. (0, w))\<rparr>"

text \<open>Values carry the time at which they were proposed, which no node looks at.\<close>

record 'd cluster =
  cl_now :: nat
  cl_nodes :: "u32 \<Rightarrow> 'd node"
  cl_pos :: "u32 \<Rightarrow> nat"
  cl_sent :: "(nat \<times> bytes) list"
  cl_log :: "(nat \<times> bytes) list"

definition set_clock :: "nat \<Rightarrow> 'd node \<Rightarrow> 'd node" where
  "set_clock t nd = nd\<lparr>nd_fs := (nd_fs nd)\<lparr>fs_now := of_nat t\<rparr>\<rparr>"

definition send :: "bytes list \<Rightarrow> 'd cluster \<Rightarrow> 'd cluster" where
  "send vs cl = cl\<lparr>cl_sent := cl_sent cl @ map (Pair (cl_now cl)) vs\<rparr>"

text \<open>The nodes are known by their server ids.\<close>

inductive runs :: "(u32 \<Rightarrow> 'd nenv) \<Rightarrow> u32 set \<Rightarrow> nat \<Rightarrow> 'd cluster \<Rightarrow> bool" for envs members L where
  boot: "\<forall>i\<in>members. mm_storage (nd_mm (nodes i)) = MasterStorage_init \<Longrightarrow> 0 < t \<Longrightarrow> t + L + 10 < 2 ^ 32 \<Longrightarrow>
     runs envs members L \<lparr>cl_now = t, cl_nodes = (\<lambda>i. set_clock t (nodes i)), cl_pos = (\<lambda>_. 0), cl_sent = [], cl_log = []\<rparr>"
| tick: "runs envs members L cl \<Longrightarrow> cl_now cl \<le> t \<Longrightarrow> t + L + 10 < 2 ^ 32 \<Longrightarrow>
     runs envs members L (cl\<lparr>cl_now := t, cl_nodes := (\<lambda>i. set_clock t (cl_nodes cl i))\<rparr>)"
| set_master: "runs envs members L cl \<Longrightarrow> i \<in> members \<Longrightarrow>
     MasterAgent_SetMaster (envs i) outbox (ne_ip (envs i)) export (cl_nodes cl i, []) = (ret, nd, vs) \<Longrightarrow>
     runs envs members L (send vs cl)"
| admin: "runs envs members L cl \<Longrightarrow> i \<in> members \<Longrightarrow>
     MasterAgent_SetMySqlAdminInfo (envs i) outbox create user pwd (cl_nodes cl i, []) = (ret, nd, vs) \<Longrightarrow>
     runs envs members L (send vs cl)"
| replica: "runs envs members L cl \<Longrightarrow> i \<in> members \<Longrightarrow>
     MasterAgent_SetMySqlReplicaInfo (envs i) outbox created user pwd (cl_nodes cl i, []) = (ret, nd, vs) \<Longrightarrow>
     runs envs members L (send vs cl)"
| notify: "runs envs members L cl \<Longrightarrow> i \<in> members \<Longrightarrow>
     IsMaster (nd_now (cl_nodes cl i)) (ne_svrid (envs i)) (nd_mm (cl_nodes cl i)) \<Longrightarrow>
     MasterAgent_MasterNotify (envs i) outbox (cl_nodes cl i, []) = (ret, nd, vs) \<Longrightarrow> runs envs members L (send vs cl)"
| choose: "runs envs members L cl \<Longrightarrow> e \<in> set (cl_sent cl) \<Longrightarrow> Suc (length (cl_log cl)) < 2 ^ 64 \<Longrightarrow>
     runs envs members L (cl\<lparr>cl_log := cl_log cl @ [e]\<rparr>)"
| execute: "runs envs members L cl \<Longrightarrow> i \<in> members \<Longrightarrow> cl_pos cl i < length (cl_log cl) \<Longrightarrow>
     MasterExecuter_SMExecute (envs i) rand (of_nat (Suc (cl_pos cl i))) (snd (cl_log cl ! cl_pos cl i)) (cl_nodes cl i) = (ret, nd) \<Longrightarrow>
     runs envs members L (cl\<lparr>cl_nodes := (cl_nodes cl)(i := nd), cl_pos := (cl_pos cl)(i := Suc (cl_pos cl i))\<rparr>)"

text \<open>All nodes use one serialization and one lease time, and know their own addresses.\<close>

definition cluster_ok :: "(u32 \<Rightarrow> 'd nenv) \<Rightarrow> u32 set \<Rightarrow> MasterInfo codec \<Rightarrow> nat \<Rightarrow> bool" where
  "cluster_ok envs members c L \<longleftrightarrow> master_codec_ok c \<and> 0 \<notin> members \<and>
     (\<forall>i\<in>members. sv_master (ne_sv (envs i)) = c \<and> unat (sv_lease_time (ne_sv (envs i))) = L \<and>
        ne_svrid (envs i) = i \<and> GetSvrID (ne_ip (envs i)) = i)"

section \<open>What the agents propose\<close>

abbreviation nd_master :: "'d node \<Rightarrow> MasterInfo" where
  "nd_master nd \<equiv> ms_master (mm_storage (nd_mm nd))"

definition proposal_ok :: "'d nenv \<Rightarrow> 'd node \<Rightarrow> MasterInfo \<Rightarrow> bool" where
  "proposal_ok env nd m \<longleftrightarrow> mi_svr_id m = ne_svrid env \<and> mi_version m = mi_version (nd_master nd) \<and>
     (mi_port m \<noteq> None \<or> mi_svr_id (nd_master nd) = ne_svrid env \<and> mi_port m = mi_port (nd_master nd)) \<and>
     (IsMaster (nd_now nd) (ne_svrid env) (nd_mm nd) \<and> m = nd_master nd \<or>
      mi_update_time m = fs_now (nd_fs nd) \<and> mi_lease m = sv_lease_time (ne_sv env) \<and> mi_expire_time m = 0 \<and>
      (IsMaster (nd_now nd) (ne_svrid env) (nd_mm nd) \<or> IsTimeOut (nd_now nd) (nd_master nd)))"

definition sends_ok :: "'d nenv \<Rightarrow> 'd node \<Rightarrow> bytes list \<Rightarrow> bool" where
  "sends_ok env nd vs \<longleftrightarrow> (\<forall>b\<in>set vs. \<exists>m. enc (sv_master (ne_sv env)) m = Some b \<and> proposal_ok env nd m)"

lemma SendMasterInfo_outbox:
  "SendMasterInfo env outbox m (nd, []) = (ret, nd', vs) \<Longrightarrow> proposal_ok env nd m \<Longrightarrow> sends_ok env nd vs"
  by (auto simp: SendMasterInfo_def sends_ok_def outbox_def PaxosAgent_Send_def split: option.splits)

lemma SetMasterInfo_outbox:
  assumes "MasterAgent_SetMasterInfo env outbox info (nd, []) = (ret, nd', vs)"
    and "mi_svr_id info = ne_svrid env" "mi_version info = mi_version (nd_master nd)" "mi_expire_time info = mi_expire_time (nd_master nd)"
    and "mi_port info \<noteq> None \<or> mi_svr_id (nd_master nd) = ne_svrid env \<and> mi_port info = mi_port (nd_master nd)"
  shows "sends_ok env nd vs"
proof (cases "master_proposal env info nd")
  case (Inl r)
  with assms(1) show ?thesis by (simp add: MasterAgent_SetMasterInfo_def outbox_def sends_ok_def)
next
  case (Inr m)
  then have "proposal_ok env nd m"
    using assms(2-5) by (auto simp: master_proposal_def proposal_ok_def IsTimeOut_def split: if_splits)
  moreover have "SendMasterInfo env outbox m (nd, []) = (ret, nd', vs)"
    using Inr assms(1) by (simp add: MasterAgent_SetMasterInfo_def outbox_def)
  ultimately show ?thesis by (rule SendMasterInfo_outbox [rotated])
qed

lemma outbox_node [simp]: "px_node outbox w = fst w"
  by (simp add: outbox_def)

lemma sends_ok_Nil [simp]: "sends_ok env nd []"
  by (simp add: sends_ok_def)

lemma SetMaster_outbox:
  assumes "MasterAgent_SetMaster env outbox (ne_ip env) export (nd, []) = (ret, nd', vs)" "GetSvrID (ne_ip env) = ne_svrid env"
  shows "sends_ok env nd vs"
  using assms
  by (auto simp: MasterAgent_SetMaster_def GenMasterInfoByLocal_def GetMasterInfo_def GetMaster_def
      split: option.splits intro!: SetMasterInfo_outbox)

lemma SetMySqlAdminInfo_outbox:
  assumes "MasterAgent_SetMySqlAdminInfo env outbox create user pwd (nd, []) = (ret, nd', vs)"
  shows "sends_ok env nd vs"
  using assms
  by (auto simp: MasterAgent_SetMySqlAdminInfo_def GetMasterInfo_def GetMaster_def MasterManager_SetMySqlAdminInfo_def
      IsMaster_info_def Let_def split: if_splits intro!: SetMasterInfo_outbox)

lemma SetMySqlReplicaInfo_outbox:
  assumes "MasterAgent_SetMySqlReplicaInfo env outbox created user pwd (nd, []) = (ret, nd', vs)"
  shows "sends_ok env nd vs"
  using assms
  by (auto simp: MasterAgent_SetMySqlReplicaInfo_def GetMasterInfo_def GetMaster_def MasterManager_SetMySqlReplicaInfo_def
      IsMaster_info_def Let_def split: if_splits intro!: SetMasterInfo_outbox)

lemma MasterNotify_outbox:
  assumes "MasterAgent_MasterNotify env outbox (nd, []) = (ret, nd', vs)" "IsMaster (nd_now nd) (ne_svrid env) (nd_mm nd)"
  shows "sends_ok env nd vs"
proof -
  have "proposal_ok env nd (nd_master nd)"
    using assms(2) by (auto simp: proposal_ok_def IsMaster_def CheckMasterBySvrID_def split: if_splits)
  with assms(1) show ?thesis
    by (auto simp: MasterAgent_MasterNotify_def GetMasterInfo_def GetMaster_def intro: SendMasterInfo_outbox)
qed

section \<open>The accepted records\<close>

text \<open>Until when a record makes its server the master, for that server.\<close>

definition valid_until :: "MasterInfo \<Rightarrow> nat" where
  "valid_until m = (if mi_expire_time m = 0 then unat (mi_update_time m) + unat (mi_lease m) else unat (mi_expire_time m))"

definition accept :: "MasterInfo codec \<Rightarrow> (MasterInfo \<times> nat) list \<Rightarrow> nat \<times> bytes \<Rightarrow> (MasterInfo \<times> nat) list" where
  "accept c xs e = (case dec c (snd e) of
     Some m \<Rightarrow> if unat (mi_version m) = length xs then xs @ [(m, fst e)] else xs | None \<Rightarrow> xs)"

definition acc :: "MasterInfo codec \<Rightarrow> (nat \<times> bytes) list \<Rightarrow> (MasterInfo \<times> nat) list" where
  "acc c = foldl (accept c) []"

text \<open>A record renews the one before it, or was proposed after that had run out.\<close>

definition follows :: "MasterInfo \<times> nat \<Rightarrow> MasterInfo \<times> nat \<Rightarrow> bool" where
  "follows x y \<longleftrightarrow> snd x \<le> snd y \<and>
     (valid_until (fst x) < snd y \<or> mi_svr_id (fst x) = mi_svr_id (fst y) \<and> valid_until (fst x) \<le> valid_until (fst y))"

lemma follows_trans: "follows x y \<Longrightarrow> follows y z \<Longrightarrow> follows x z"
  by (auto simp: follows_def)

text \<open>A value that was proposed by a node that had executed at most \<open>k\<close> entries of the log.\<close>

definition sent_ok :: "MasterInfo codec \<Rightarrow> nat \<Rightarrow> (nat \<times> bytes) list \<Rightarrow> nat \<Rightarrow> nat \<times> bytes \<Rightarrow> bool" where
  "sent_ok c L log k e \<longleftrightarrow> (\<exists>m. dec c (snd e) = Some m \<and> mi_svr_id m \<noteq> 0 \<and> mi_port m \<noteq> None \<and> valid_until m \<le> fst e + L \<and>
     unat (mi_update_time m) \<le> fst e \<and> unat (mi_lease m) \<le> L \<and>
     (\<exists>j\<le>k. let xs = acc c (take j log) in unat (mi_version m) = length xs \<and> (xs \<noteq> [] \<longrightarrow> follows (last xs) (m, fst e))))"

lemma sent_ok_mono: "sent_ok c L log k e \<Longrightarrow> k \<le> k' \<Longrightarrow> sent_ok c L log k' e"
  unfolding sent_ok_def by (meson order_trans)

lemma sent_ok_append: "sent_ok c L log k e \<Longrightarrow> k \<le> length log \<Longrightarrow> sent_ok c L (log @ log') k e"
proof -
  assume a: "sent_ok c L log k e" "k \<le> length log"
  then have "take j (log @ log') = take j log" if "j \<le> k" for j using that by simp
  with a(1) show ?thesis unfolding sent_ok_def Let_def by fastforce
qed

lemma acc_append: "acc c (log @ [e]) = accept c (acc c log) e"
  by (simp add: acc_def)

lemma acc_grows: "\<exists>ys. acc c (log @ log') = acc c log @ ys"
proof (induction log' rule: rev_induct)
  case (snoc e log')
  then obtain ys where "acc c (log @ log') = acc c log @ ys" by blast
  then show ?case
    by (simp only: append_assoc [symmetric] acc_append) (auto simp: accept_def split: option.splits)
qed simp

lemma acc_prefix: "j \<le> k \<Longrightarrow> \<exists>ys. acc c (take k log) = acc c (take j log) @ ys"
  using acc_grows [of c "take j log" "drop j (take k log)"] by (metis append_take_drop_id min.absorb1 take_take)

lemma acc_length: "length (acc c log) \<le> length log"
  by (induction log rule: rev_induct) (auto simp: acc_append accept_def acc_def split: option.splits)

text \<open>The next entry of the log: its version is at most the number of accepted records, and if it is accepted it follows the last one.\<close>

lemma acc_next:
  assumes "k < length log" "sent_ok c L log k (log ! k)"
  obtains m where "dec c (snd (log ! k)) = Some m" "mi_svr_id m \<noteq> 0" "mi_port m \<noteq> None" "valid_until m \<le> fst (log ! k) + L"
    "unat (mi_update_time m) \<le> fst (log ! k)" "unat (mi_lease m) \<le> L" "unat (mi_version m) \<le> length (acc c (take k log))"
    "acc c (take (Suc k) log) =
      (if unat (mi_version m) = length (acc c (take k log)) then acc c (take k log) @ [(m, fst (log ! k))] else acc c (take k log))"
    "unat (mi_version m) = length (acc c (take k log)) \<longrightarrow> acc c (take k log) \<noteq> [] \<longrightarrow>
       follows (last (acc c (take k log))) (m, fst (log ! k))"
proof -
  from assms(2) obtain m j where m: "dec c (snd (log ! k)) = Some m" "mi_svr_id m \<noteq> 0" "mi_port m \<noteq> None" "valid_until m \<le> fst (log ! k) + L"
    "unat (mi_update_time m) \<le> fst (log ! k)" "unat (mi_lease m) \<le> L" and j: "j \<le> k" "unat (mi_version m) = length (acc c (take j log))"
    "acc c (take j log) \<noteq> [] \<longrightarrow> follows (last (acc c (take j log))) (m, fst (log ! k))"
    unfolding sent_ok_def Let_def by blast
  obtain ys where ys: "acc c (take k log) = acc c (take j log) @ ys" using acc_prefix [OF j(1)] by blast
  have a: "acc c (take (Suc k) log) = accept c (acc c (take k log)) (log ! k)"
    using assms(1) by (simp add: take_Suc_conv_app_nth acc_append)
  show thesis using j ys m by (intro that [OF m]) (auto simp: a accept_def)
qed

lemma sorted_wrt_before_last: "sorted_wrt P xs \<Longrightarrow> x \<in> set xs \<Longrightarrow> x = last xs \<or> P x (last xs)"
  by (induction xs) auto

lemma acc_sorted:
  assumes "\<forall>p<length log. sent_ok c L log p (log ! p)" "k \<le> length log"
  shows "sorted_wrt follows (acc c (take k log))"
  using assms(2)
proof (induction k)
  case (Suc k)
  let ?xs = "acc c (take k log)"
  from Suc have lt: "k < length log" and s: "sorted_wrt follows ?xs" by auto
  have "follows x (m, t)" if "x \<in> set ?xs" "follows (last ?xs) (m, t)" for x m t
    using sorted_wrt_before_last [OF s that(1)] follows_trans that(2) by blast
  then show ?case
    using s by (rule_tac acc_next [OF lt assms(1) [rule_format, OF lt]]) (auto simp: sorted_wrt_append)
qed (simp add: acc_def)

section \<open>The invariant\<close>

text \<open>The record of a node that has executed \<open>k\<close> entries, of which \<open>xs\<close> were accepted.\<close>

definition node_at :: "nat \<Rightarrow> 'd nenv \<Rightarrow> 'd node \<Rightarrow> nat \<Rightarrow> (MasterInfo \<times> nat) list \<Rightarrow> nat \<Rightarrow> bool" where
  "node_at L env nd now xs k \<longleftrightarrow> fs_now (nd_fs nd) = of_nat now \<and>
     (if xs = [] then nd_master nd = MasterInfo_init
      else let (m, t) = last xs; r = nd_master nd
        in mi_svr_id r = mi_svr_id m \<and> mi_svr_id m \<noteq> 0 \<and> mi_port r = mi_port m \<and> mi_port m \<noteq> None \<and> unat (mi_version r) = length xs \<and> unat (mi_instance_id r) \<le> k \<and>
           mi_update_time r = mi_update_time m \<and> mi_lease r = mi_lease m \<and> unat (mi_lease m) \<le> L \<and> unat (mi_update_time m) \<le> t \<and>
           valid_until m \<le> t + L \<and> valid_until m \<le> unat (mi_expire_time r) \<and>
           (mi_svr_id m = ne_svrid env \<longrightarrow> unat (mi_expire_time r) = valid_until m) \<and> t \<le> now)"

definition cl_inv :: "(u32 \<Rightarrow> 'd nenv) \<Rightarrow> u32 set \<Rightarrow> MasterInfo codec \<Rightarrow> nat \<Rightarrow> 'd cluster \<Rightarrow> bool" where
  "cl_inv envs members c L cl \<longleftrightarrow> 0 < cl_now cl \<and> cl_now cl + L + 10 < 2 ^ 32 \<and> length (cl_log cl) < 2 ^ 64 \<and>
     (\<forall>e\<in>set (cl_sent cl). fst e \<le> cl_now cl \<and> sent_ok c L (cl_log cl) (length (cl_log cl)) e) \<and>
     (\<forall>p<length (cl_log cl). fst (cl_log cl ! p) \<le> cl_now cl \<and> sent_ok c L (cl_log cl) p (cl_log cl ! p)) \<and>
     (\<forall>i\<in>members. cl_pos cl i \<le> length (cl_log cl) \<and>
        node_at L (envs i) (cl_nodes cl i) (cl_now cl) (acc c (take (cl_pos cl i) (cl_log cl))) (cl_pos cl i))"

lemma node_at_clock: "node_at L env nd now xs k \<Longrightarrow> now \<le> t \<Longrightarrow> node_at L env (set_clock t nd) t xs k"
  by (auto simp: node_at_def set_clock_def Let_def split: if_splits prod.splits)

lemma node_at_cases:
  assumes "node_at L env nd now xs k"
  obtains "xs = []" "nd_master nd = MasterInfo_init"
  | m t where "xs \<noteq> []" "last xs = (m, t)" "mi_svr_id (nd_master nd) = mi_svr_id m" "mi_svr_id m \<noteq> 0"
    "mi_port (nd_master nd) = mi_port m" "mi_port m \<noteq> None"
    "unat (mi_version (nd_master nd)) = length xs" "unat (mi_instance_id (nd_master nd)) \<le> k"
    "mi_update_time (nd_master nd) = mi_update_time m" "mi_lease (nd_master nd) = mi_lease m" "unat (mi_lease m) \<le> L" "unat (mi_update_time m) \<le> t" "valid_until m \<le> t + L"
    "valid_until m \<le> unat (mi_expire_time (nd_master nd))"
    "mi_svr_id m = ne_svrid env \<longrightarrow> unat (mi_expire_time (nd_master nd)) = valid_until m" "t \<le> now"
proof (cases "last xs")
  case (Pair m t)
  with assms that show thesis by (cases "xs = []") (simp_all add: node_at_def Let_def)
qed

lemma IsTimeOut_unat: "IsTimeOut (uint (t :: u32)) m \<longleftrightarrow> unat (mi_expire_time m) < unat t"
  using word_less_alt [of "mi_expire_time m" t] word_less_nat_alt [of "mi_expire_time m" t] by (simp add: IsTimeOut_def)

lemma IsMaster_iff:
  "ne_svrid env \<noteq> 0 \<Longrightarrow> IsMaster (nd_now nd) (ne_svrid env) (nd_mm nd) \<longleftrightarrow>
     mi_svr_id (nd_master nd) = ne_svrid env \<and> unat (fs_now (nd_fs nd)) \<le> unat (mi_expire_time (nd_master nd))"
  by (auto simp: IsMaster_def CheckMasterBySvrID_def IsTimeOut_unat word_gt_0 not_less)

lemma unat_of_nat_small: "n < 2 ^ LENGTH('a) \<Longrightarrow> unat (of_nat n :: 'a :: len word) = n"
  by (simp add: unat_of_nat take_bit_nat_eq_self)

lemma unat_now: "now + L + 10 < 2 ^ 32 \<Longrightarrow> unat (of_nat now :: u32) = now"
  by (simp add: unat_of_nat)

text \<open>What a node proposes follows the last record it has accepted.\<close>

lemma proposal_sent:
  assumes at: "node_at L env nd now (acc c (take k log)) k" and k: "k \<le> length log" and p: "proposal_ok env nd m"
    and b: "master_codec_ok c" "enc c m = Some b" and env: "ne_svrid env \<noteq> 0" "unat (sv_lease_time (ne_sv env)) = L"
    and now: "0 < now" "now + L + 10 < 2 ^ 32"
  shows "sent_ok c L log (length log) (now, b)"
proof -
  let ?xs = "acc c (take k log)" and ?r = "nd_master nd"
  have "mi_port m \<noteq> None"
    by (rule node_at_cases [OF at]) (use p env(1) in \<open>auto simp: proposal_ok_def MasterInfo_init_def\<close>)
  then have d: "dec c b = Some m" "mi_port m \<noteq> None" using b by (simp_all add: master_codec_ok_def)
  have t: "unat (fs_now (nd_fs nd)) = now" using at unat_now [OF now(2)] by (simp add: node_at_def)
  have svr: "mi_svr_id m = ne_svrid env" and ver: "mi_version m = mi_version ?r" using p by (simp_all add: proposal_ok_def)
  have to: "IsTimeOut (nd_now nd) ?r \<longleftrightarrow> unat (mi_expire_time ?r) < now" using t by (simp add: IsTimeOut_unat)
  from p t consider (regular) "mi_update_time m = fs_now (nd_fs nd)" "unat (mi_lease m) = L" "valid_until m = now + L"
      "mi_svr_id ?r = ne_svrid env \<or> unat (mi_expire_time ?r) < now"
    | (same) "m = ?r" "mi_svr_id ?r = ne_svrid env" "now \<le> unat (mi_expire_time ?r)"
    by (auto simp: proposal_ok_def IsMaster_iff [OF env(1)] valid_until_def env(2) to)
  then have "valid_until m \<le> now + L \<and> unat (mi_update_time m) \<le> now \<and> unat (mi_lease m) \<le> L \<and> unat (mi_version m) = length ?xs \<and>
      (?xs \<noteq> [] \<longrightarrow> follows (last ?xs) (m, now))"
  proof cases
    case regular
    from at show ?thesis
      by (rule node_at_cases) (use regular t ver svr in \<open>auto simp: MasterInfo_init_def follows_def\<close>)
  next
    case same
    then have "valid_until m = unat (mi_expire_time ?r)" using now(1) by (auto simp: valid_until_def)
    with at show ?thesis
      by (rule_tac node_at_cases) (use same env(1) ver in \<open>auto simp: MasterInfo_init_def follows_def\<close>)
  qed
  with d svr env(1) k show ?thesis unfolding sent_ok_def Let_def by auto
qed

lemma cl_inv_send:
  assumes "cl_inv envs members c L cl" "cluster_ok envs members c L" "sends_ok (envs i) (cl_nodes cl i) vs" "i \<in> members"
  shows "cl_inv envs members c L (send vs cl)"
proof -
  have "sent_ok c L (cl_log cl) (length (cl_log cl)) (cl_now cl, b)" if "b \<in> set vs" for b
  proof -
    from that assms(3) obtain m where "enc (sv_master (ne_sv (envs i))) m = Some b" "proposal_ok (envs i) (cl_nodes cl i) m"
      by (auto simp: sends_ok_def)
    then show ?thesis
      using assms(1,2,4) by (intro proposal_sent [where env = "envs i" and nd = "cl_nodes cl i" and k = "cl_pos cl i" and m = m])
        (auto simp: cl_inv_def cluster_ok_def)
  qed
  with assms(1) show ?thesis by (auto simp: cl_inv_def send_def)
qed

text \<open>Executing the next entry of the log.\<close>

definition expire_of :: "'d nenv \<Rightarrow> nat \<Rightarrow> 'd node \<Rightarrow> MasterInfo \<Rightarrow> u32" where
  "expire_of env rand nd m = (if mi_expire_time m \<noteq> 0 then mi_expire_time m
     else if mi_svr_id m = ne_svrid env then mi_update_time m + mi_lease m
     else of_int (nd_now nd + uint (mi_lease m) + GetExtLeaseTime rand))"

lemma MasterExecuter_record:
  assumes "MasterExecuter_SMExecute env rand i v nd = (ret, nd')" "dec (sv_master (ne_sv env)) v = Some m"
  shows "nd_fs nd' = nd_fs nd" "nd_master nd' = (let r = nd_master nd
     in if mi_svr_id r = 0 \<or> mi_instance_id r < i \<and> mi_version r \<le> mi_version m
        then m\<lparr>mi_instance_id := i, mi_expire_time := expire_of env rand nd m, mi_version := mi_version m + 1\<rparr> else r)"
  using assms
  by (auto simp: MasterExecuter_SMExecute_def expire_of_def SetMasterInfo_def SetMaster_def Let_def split: if_splits)

lemma expire_of_bounds:
  assumes "unat (fs_now (nd_fs nd)) = now" "now + L + 10 < 2 ^ 32" "unat (mi_update_time m) \<le> now" "unat (mi_lease m) \<le> L"
  shows "valid_until m \<le> unat (expire_of env rand nd m)" "mi_svr_id m = ne_svrid env \<Longrightarrow> unat (expire_of env rand nd m) = valid_until m"
proof -
  have s: "unat (mi_update_time m + mi_lease m) = unat (mi_update_time m) + unat (mi_lease m)"
    using assms by (simp add: unat_word_ariths)
  have "nd_now nd = int now" by (simp flip: assms(1))
  then have "nd_now nd + uint (mi_lease m) + GetExtLeaseTime rand = int (now + unat (mi_lease m) + rand mod 10)"
    by (simp add: GetExtLeaseTime_def)
  moreover have "rand mod 10 < 10" by simp
  then have "unat (of_nat (now + unat (mi_lease m) + rand mod 10) :: u32) = now + unat (mi_lease m) + rand mod 10"
    using assms by (intro unat_of_nat_small) simp
  ultimately have o: "unat (of_int (nd_now nd + uint (mi_lease m) + GetExtLeaseTime rand) :: u32) = now + unat (mi_lease m) + rand mod 10"
    by (simp only: of_int_of_nat_eq)
  show "valid_until m \<le> unat (expire_of env rand nd m)" using s o assms(3) by (simp add: valid_until_def expire_of_def)
  show "mi_svr_id m = ne_svrid env \<Longrightarrow> unat (expire_of env rand nd m) = valid_until m"
    using s by (simp add: valid_until_def expire_of_def)
qed

lemma node_at_execute:
  assumes at: "node_at L env nd now (acc c (take k log)) k" and k: "k < length log" "length log < 2 ^ 64"
    and e: "sent_ok c L log k (log ! k)" "fst (log ! k) \<le> now" and c: "sv_master (ne_sv env) = c" and now: "now + L + 10 < 2 ^ 32"
    and ex: "MasterExecuter_SMExecute env rand (of_nat (Suc k)) (snd (log ! k)) nd = (ret, nd')"
  shows "node_at L env nd' now (acc c (take (Suc k) log)) (Suc k)"
proof (rule acc_next [OF k(1) e(1)])
  let ?xs = "acc c (take k log)"
  fix m assume m: "dec c (snd (log ! k)) = Some m" "mi_svr_id m \<noteq> 0" "mi_port m \<noteq> None"
      "valid_until m \<le> fst (log ! k) + L" "unat (mi_update_time m) \<le> fst (log ! k)" "unat (mi_lease m) \<le> L" "unat (mi_version m) \<le> length ?xs"
      "acc c (take (Suc k) log) = (if unat (mi_version m) = length ?xs then ?xs @ [(m, fst (log ! k))] else ?xs)"
  note x = MasterExecuter_record [OF ex, unfolded c, OF m(1)]
  have f: "fs_now (nd_fs nd) = of_nat now" using at by (simp add: node_at_def)
  have "unat (mi_update_time m) \<le> now" using m(5) e(2) by simp
  note b = expire_of_bounds [OF _ now this m(6), of nd env rand, unfolded f, OF unat_now [OF now]]
  have i: "unat (of_nat (Suc k) :: u64) = Suc k" using k by (intro unat_of_nat_small) simp
  have l: "length ?xs < 2 ^ 64 - 1" using acc_length [of c "take k log"] k by simp
  have acc: "(mi_svr_id (nd_master nd) = 0 \<or> mi_instance_id (nd_master nd) < of_nat (Suc k) \<and> mi_version (nd_master nd) \<le> mi_version m)
      \<longleftrightarrow> unat (mi_version m) = length ?xs"
    by (rule node_at_cases [OF at]) (use m(7) i in \<open>auto simp: word_less_nat_alt word_le_nat_alt MasterInfo_init_def\<close>)
  show ?thesis
  proof (cases "unat (mi_version m) = length ?xs")
    case True
    have "unat (mi_version m + 1) = Suc (length ?xs)" using True l by (simp add: unat_word_ariths)
    with True acc x m b i e(2) f show ?thesis by (simp add: node_at_def Let_def)
  next
    case False
    with acc x m f show ?thesis
      by (rule_tac node_at_cases [OF at]) (auto simp: node_at_def Let_def)
  qed
qed

lemma cl_inv_choose:
  assumes "cl_inv envs members c L cl" "e \<in> set (cl_sent cl)" "Suc (length (cl_log cl)) < 2 ^ 64"
  shows "cl_inv envs members c L (cl\<lparr>cl_log := cl_log cl @ [e]\<rparr>)"
proof -
  let ?log = "cl_log cl"
  have "sent_ok c L (?log @ [e]) (length ?log) x" if "x \<in> set (cl_sent cl)" for x
    using assms(1) that by (intro sent_ok_append) (auto simp: cl_inv_def)
  moreover have "sent_ok c L (?log @ [e]) p (?log ! p)" if "p < length ?log" for p
    using assms(1) that by (intro sent_ok_append) (auto simp: cl_inv_def)
  moreover from calculation(1) have "sent_ok c L (?log @ [e]) (Suc (length ?log)) x" if "x \<in> set (cl_sent cl)" for x
    using that by (blast intro: sent_ok_mono le_SucI)
  ultimately show ?thesis
    using assms by (auto simp: cl_inv_def nth_append less_Suc_eq)
qed

lemma cl_inv_runs:
  assumes "runs envs members L cl" "cluster_ok envs members c L"
  shows "cl_inv envs members c L cl"
  using assms
proof (induction rule: runs.induct)
  case (boot nodes t)
  then show ?case
    by (auto simp: cl_inv_def node_at_def acc_def set_clock_def MasterStorage_init_def)
next
  case (tick cl t)
  then show ?case by (auto simp: cl_inv_def intro: node_at_clock)
next
  case (set_master cl i export ret nd vs)
  then show ?case by (auto simp: cluster_ok_def intro!: cl_inv_send [where i = i] SetMaster_outbox)
next
  case (admin cl i create user pwd ret nd vs)
  then show ?case by (auto intro!: cl_inv_send [where i = i] SetMySqlAdminInfo_outbox)
next
  case (replica cl i created user pwd ret nd vs)
  then show ?case by (auto intro!: cl_inv_send [where i = i] SetMySqlReplicaInfo_outbox)
next
  case (notify cl i ret nd vs)
  then show ?case by (auto intro!: cl_inv_send [where i = i] MasterNotify_outbox)
next
  case (choose cl e)
  then show ?case by (intro cl_inv_choose) auto
next
  case (execute cl i rand ret nd)
  then have "cl_inv envs members c L cl" "sv_master (ne_sv (envs i)) = c" by (auto simp: cluster_ok_def)
  moreover from this execute have "node_at L (envs i) nd (cl_now cl) (acc c (take (Suc (cl_pos cl i)) (cl_log cl))) (Suc (cl_pos cl i))"
    by (intro node_at_execute [where nd = "cl_nodes cl i" and rand = rand and ret = ret]) (auto simp: cl_inv_def)
  ultimately show ?case using execute by (auto simp: cl_inv_def)
qed

lemma no_two_masters:
  assumes inv: "cl_inv envs members c L cl" and ok: "cluster_ok envs members c L" and ij: "i \<in> members" "j \<in> members"
    and m: "IsMaster (int (cl_now cl)) i (nd_mm (cl_nodes cl i))" "IsMaster (int (cl_now cl)) j (nd_mm (cl_nodes cl j))"
    and le: "cl_pos cl i \<le> cl_pos cl j"
  shows "i = j"
proof -
  let ?xs = "\<lambda>k. acc c (take (cl_pos cl k) (cl_log cl))"
  have at: "node_at L (envs k) (cl_nodes cl k) (cl_now cl) (?xs k) (cl_pos cl k)" "k \<noteq> 0" "ne_svrid (envs k) = k" if "k \<in> members" for k
    using inv ok that by (auto simp: cl_inv_def cluster_ok_def)
  have now: "unat (fs_now (nd_fs (cl_nodes cl k))) = cl_now cl" if "k \<in> members" for k
    using at(1) [OF that] inv unat_now [of "cl_now cl" L] by (simp add: node_at_def cl_inv_def)
  have rec: "mi_svr_id (nd_master (cl_nodes cl k)) = k \<and> cl_now cl \<le> unat (mi_expire_time (nd_master (cl_nodes cl k)))"
    if "k \<in> members" "IsMaster (int (cl_now cl)) k (nd_mm (cl_nodes cl k))" for k
  proof -
    have "nd_now (cl_nodes cl k) = int (cl_now cl)" by (simp flip: now [OF that(1)])
    with IsMaster_iff [of "envs k" "cl_nodes cl k"] at [OF that(1)] that(2) now [OF that(1)] show ?thesis by simp
  qed
  have last: "?xs k \<noteq> [] \<and> mi_svr_id (fst (last (?xs k))) = k \<and> cl_now cl \<le> valid_until (fst (last (?xs k))) \<and> snd (last (?xs k)) \<le> cl_now cl"
    if "k \<in> members" "IsMaster (int (cl_now cl)) k (nd_mm (cl_nodes cl k))" for k
    by (rule node_at_cases [OF at(1) [OF that(1)]]) (use rec [OF that] at(2,3) [OF that(1)] in \<open>auto simp: MasterInfo_init_def\<close>)
  obtain ys where ys: "?xs j = ?xs i @ ys" using acc_prefix [OF le] by blast
  show ?thesis
  proof (cases "ys = []")
    case True
    with ys last [OF ij(1) m(1)] last [OF ij(2) m(2)] show ?thesis by simp
  next
    case False
    have "sorted_wrt follows (?xs j)" using inv ij by (intro acc_sorted [where L = L]) (auto simp: cl_inv_def)
    then have "follows (last (?xs i)) (last (?xs j))"
      using False last [OF ij(1) m(1)] by (simp add: ys sorted_wrt_append)
    with last [OF ij(1) m(1)] last [OF ij(2) m(2)] show ?thesis by (auto simp: follows_def)
  qed
qed

text \<open>
  C1: there is never more than one master. However the nodes of a cluster propose, renew and execute
  master records, whatever order the proposals are chosen in and however far the nodes lag behind, no two
  different nodes hold an unexpired lease at the same time.
\<close>

theorem at_most_one_master:
  assumes "runs envs members L cl" "cluster_ok envs members c L" "i \<in> members" "j \<in> members"
    and "IsMaster (int (cl_now cl)) i (nd_mm (cl_nodes cl i))" "IsMaster (int (cl_now cl)) j (nd_mm (cl_nodes cl j))"
  shows "i = j"
  using no_two_masters [OF cl_inv_runs [OF assms(1,2)] assms(2,3,4,5,6)]
    no_two_masters [OF cl_inv_runs [OF assms(1,2)] assms(2,4,3,6,5)] by (metis nle_le)

text \<open>Server 5 proposes itself at time 100, and both members execute the record.\<close>

definition lease_record :: MasterInfo where
  "lease_record = MasterInfo_init\<lparr>mi_port := Some 3306, mi_svr_id := 5, mi_update_time := 100, mi_lease := 20\<rparr>"

definition lease_env :: "u32 \<Rightarrow> (string \<times> bytes option) list nenv" where
  "lease_env i = \<lparr>ne_sv = sample_env\<lparr>sv_master := unit_codec lease_record\<rparr>, ne_paxos = unit_codec undefined, ne_svrid = i, ne_ip = GetIP i,
     ne_mysql_port = 3306, ne_max_push = 10, ne_force_checkpoint = False\<rparr>"

definition lease_node :: "(string \<times> bytes option) list node" where
  "lease_node = \<lparr>nd_mm = \<lparr>mm_storage = MasterStorage_init, mm_comm = AgentMonitorComm_init, mm_members = []\<rparr>,
     nd_es = sample_es, nd_cp = CheckPointManager_init, nd_fs = sample_esfs\<rparr>"

lemma lease_cluster_ok: "cluster_ok lease_env {5, 6} (unit_codec lease_record) 20"
  by (simp add: cluster_ok_def lease_env_def sample_env_def master_codec_ok_def GetSvrID_GetIP_id)
    (simp add: unit_codec_def lease_record_def)

lemma lease_SetMaster:
  "MasterAgent_SetMaster (lease_env 5) outbox (GetIP 5) None (set_clock 100 lease_node, []) = (OK, set_clock 100 lease_node, [[1]])"
  by (simp add: MasterAgent_SetMaster_def GenMasterInfoByLocal_def GetMasterInfo_def GetMaster_def lease_env_def
      MasterAgent_SetMasterInfo_def master_proposal_def IsTimeOut_def set_clock_def lease_node_def MasterStorage_init_def
      MasterInfo_init_def SendMasterInfo_def unit_codec_def lease_record_def sample_env_def sample_esfs_def outbox_def
      PaxosAgent_Send_def GetSvrID_GetIP_id)

lemma lease_runs: "\<exists>cl. runs lease_env {5, 6} 20 cl \<and> cl_now cl = 100 \<and> IsMaster 100 5 (nd_mm (cl_nodes cl 5)) \<and> cl_pos cl 6 = 1"
proof -
  define cl0 where "cl0 = \<lparr>cl_now = 100, cl_nodes = (\<lambda>i :: u32. set_clock 100 lease_node), cl_pos = (\<lambda>_. 0), cl_sent = [], cl_log = []\<rparr>"
  have b: "runs lease_env {5, 6} 20 cl0"
    unfolding cl0_def by (rule boot) (simp_all add: lease_node_def)
  have "MasterAgent_SetMaster (lease_env 5) outbox (ne_ip (lease_env 5)) None (cl_nodes cl0 5, []) = (OK, cl_nodes cl0 5, [[1]])"
    using lease_SetMaster by (simp add: cl0_def lease_env_def)
  from choose [OF set_master [OF b _ this], of "(100, [1])"]
  have c: "runs lease_env {5, 6} 20 (cl0\<lparr>cl_sent := [(100, [1])], cl_log := [(100, [1])]\<rparr>)" by (simp add: send_def cl0_def)
  define cl1 where "cl1 = cl0\<lparr>cl_sent := [(100, [1])], cl_log := [(100, [1])]\<rparr>"
  have f: "cl_pos cl1 i = 0" "cl_log cl1 = [(100, [1])]" "cl_nodes cl1 i = set_clock 100 lease_node" "cl_now cl1 = 100" for i
    by (simp_all add: cl1_def cl0_def)
  obtain r5 nd5 where e5: "MasterExecuter_SMExecute (lease_env 5) 0 (of_nat (Suc (cl_pos cl1 5))) (snd (cl_log cl1 ! cl_pos cl1 5)) (cl_nodes cl1 5) =
      (r5, nd5)" by fastforce
  define cl2 where "cl2 = cl1\<lparr>cl_nodes := (cl_nodes cl1)(5 := nd5), cl_pos := (cl_pos cl1)(5 := Suc (cl_pos cl1 5))\<rparr>"
  have r2: "runs lease_env {5, 6} 20 cl2"
    unfolding cl2_def by (rule execute [OF c [folded cl1_def] _ _ e5]) (simp_all add: f)
  obtain r6 nd6 where e6: "MasterExecuter_SMExecute (lease_env 6) 7 (of_nat (Suc (cl_pos cl2 6))) (snd (cl_log cl2 ! cl_pos cl2 6)) (cl_nodes cl2 6) =
      (r6, nd6)" by fastforce
  have "runs lease_env {5, 6} 20 (cl2\<lparr>cl_nodes := (cl_nodes cl2)(6 := nd6), cl_pos := (cl_pos cl2)(6 := Suc (cl_pos cl2 6))\<rparr>)"
    by (rule execute [OF r2 _ _ e6]) (simp_all add: cl2_def f)
  moreover have "nd_master nd5 = lease_record\<lparr>mi_instance_id := 1, mi_expire_time := 120, mi_version := 1\<rparr>"
    using MasterExecuter_record(2) [OF e5, of lease_record]
    by (simp add: f lease_env_def unit_codec_def sample_env_def set_clock_def lease_node_def MasterStorage_init_def MasterInfo_init_def
        expire_of_def lease_record_def)
  then have "IsMaster 100 5 (nd_mm nd5)" by (simp add: IsMaster_def CheckMasterBySvrID_def IsTimeOut_def lease_record_def)
  ultimately show ?thesis
    by (intro exI [of _ "cl2\<lparr>cl_nodes := (cl_nodes cl2)(6 := nd6), cl_pos := (cl_pos cl2)(6 := Suc (cl_pos cl2 6))\<rparr>"])
      (simp add: cl2_def f)
qed

theorem at_most_one_master_witness:
  "\<exists>cl. runs lease_env {5, 6} 20 cl \<and> cl_pos cl 6 = 1 \<and> IsMaster 100 5 (nd_mm (cl_nodes cl 5)) \<and> \<not> IsMaster 100 6 (nd_mm (cl_nodes cl 6))"
proof -
  obtain cl where cl: "runs lease_env {5, 6} 20 cl" "cl_now cl = 100" "IsMaster 100 5 (nd_mm (cl_nodes cl 5))" "cl_pos cl 6 = 1"
    using lease_runs by blast
  from at_most_one_master [OF cl(1) lease_cluster_ok, of 5 6] cl show ?thesis by auto
qed

end
