(* ===== verification/Failover.thy ===== *)
theory Failover
  imports Monitor Lease
begin

text \<open>
  What the agent monitor guarantees when the master changes: a node only asks for the mastership when the
  lease ran out and its MySQL has all events, and it only opens its MySQL for writing when it is the master.
\<close>

section \<open>Taking over the mastership\<close>

lemma SetMaster_outbox_sends:
  assumes "MasterAgent_SetMaster env outbox ip None (nd, []) = (ret, w)" "snd w \<noteq> []"
  shows "IsMaster (nd_now nd) (ne_svrid env) (nd_mm nd) \<or> IsTimeOut (nd_now nd) (nd_master nd)"
  using assms
  by (auto simp: MasterAgent_SetMaster_def GenMasterInfoByLocal_def GetMasterInfo_def GetMaster_def MasterAgent_SetMasterInfo_def
      master_proposal_def IsTimeOut_def split: if_splits)

text \<open>
  C5: a takeover loses no event. When the periodic check of a node proposes it as master, its external
  monitor was healthy, and either it is the master already, or the lease of the old master has run out and
  the local MySQL has executed the newest event of the binlog.
\<close>

theorem takeover_has_all_events:
  assumes "mv_px v = outbox" "mt_w st = (nd, [])" "CheckMasterTimeOut v st = Some (ret, st')" "snd (mt_w st') \<noteq> []"
  shows "fst (IsHealthy (fs_now (nd_fs nd)) (mt_external st)) \<and>
    (IsMaster (nd_now nd) (ne_svrid (mv_env v)) (nd_mm nd) \<or>
     IsTimeOut (nd_now nd) (nd_master nd) \<and>
     (\<exists>gtids q. GetMySQLMaxGTIDList (mv_my v) (mm_storage (nd_mm nd)) (mt_q st) = Some (OK, gtids, q) \<and>
        IsGTIDCompleted gtids (GetNewestGTID (nd_es nd))))"
proof -
  define checked where "checked = (if mt_is_master v st then Some (OK, st) else AgentMonitor_IsGTIDCompleted v st)"
  from assms(3) obtain r s1 where c: "checked = Some (r, s1)"
    by (auto simp: CheckMasterTimeOut_def bind_eq_Some_conv checked_def [symmetric])
  have s1: "mt_w s1 = (nd, [])" "mt_external s1 = mt_external st"
    using c assms(1,2) by (auto simp: checked_def AgentMonitor_IsGTIDCompleted_def bind_eq_Some_conv split: if_splits)
  obtain h em where h: "IsHealthy (fs_now (nd_fs nd)) (mt_external st) = (h, em)" by fastforce
  have run: "(if r < 0 then Some (r, s1) else if \<not> h then Some (SVR_FAIL, s1\<lparr>mt_external := em\<rparr>)
      else if r = OK then Some (case MasterAgent_SetMaster (mv_env v) outbox (me_engine_ip (mv_my v)) None (nd, []) of
        (_, w) \<Rightarrow> (OK, s1\<lparr>mt_external := em, mt_w := w\<rparr>))
      else on_mysql (CheckSlaveRunningStatus (mv_my v) (mm_storage (nd_mm nd)) (mt_connecting s1) None) (s1\<lparr>mt_external := em\<rparr>))
      = Some (ret, st')"
    using assms(3) s1 h assms(1) unfolding CheckMasterTimeOut_def checked_def [symmetric] c
    by (cases "r < 0"; cases h; cases "r = 0"; simp add: Let_def)
  then have ok: "h" "r = OK"
    using assms(4) s1 by (auto simp: on_mysql_def split: if_splits)
  with run have "snd (snd (MasterAgent_SetMaster (mv_env v) outbox (me_engine_ip (mv_my v)) None (nd, []))) \<noteq> []"
    using assms(4) s1 by (auto simp: case_prod_beta)
  then have l: "IsMaster (nd_now nd) (ne_svrid (mv_env v)) (nd_mm nd) \<or> IsTimeOut (nd_now nd) (nd_master nd)"
    by (intro SetMaster_outbox_sends) (simp_all add: prod_eq_iff)
  have "mt_is_master v st \<longleftrightarrow> IsMaster (nd_now nd) (ne_svrid (mv_env v)) (nd_mm nd)"
    using assms(1,2) by (simp add: IsMaster_def)
  with c ok(2) assms(1,2) have "IsMaster (nd_now nd) (ne_svrid (mv_env v)) (nd_mm nd) \<or>
     (\<exists>gtids q. GetMySQLMaxGTIDList (mv_my v) (mm_storage (nd_mm nd)) (mt_q st) = Some (OK, gtids, q) \<and>
        IsGTIDCompleted gtids (GetNewestGTID (nd_es nd)))"
    by (auto simp: checked_def AgentMonitor_IsGTIDCompleted_def bind_eq_Some_conv split: if_splits)
  with l ok(1) h show ?thesis by auto
qed

section \<open>Opening MySQL for writing\<close>

text \<open>A client library that also notes the commands that are sent.\<close>

definition log_api :: "'q mysql_api \<Rightarrow> ('q \<times> string list) mysql_api" where
  "log_api a = \<lparr>my_connect = (\<lambda>ip sock opt (q, l). case my_connect a ip sock opt q of (b, q) \<Rightarrow> (b, (q, l))),
     my_query = (\<lambda>opt c (q, l). case my_query a opt c q of (r, q) \<Rightarrow> (r, (q, l @ [c]))),
     my_store_result = (\<lambda>opt (q, l). case my_store_result a opt q of (r, q) \<Rightarrow> (r, (q, l)))\<rparr>"

definition opened :: "'q \<times> string list \<Rightarrow> bool" where
  "opened q \<longleftrightarrow> super_read_only_off \<in> set (snd q)"

lemma Command_Query_log:
  assumes "me_api env = log_api a" "Command_Query env opt c q = (ret, q')"
  shows "snd q' = snd q \<or> snd q' = snd q @ [c]"
  using assms by (cases q) (auto simp: Command_Query_def Connect_def DoQuery_def log_api_def split: if_splits prod.splits)

lemma GetQueryResults_log:
  assumes "me_api env = log_api a" "GetQueryResults env opt c rs cols q = (ret, rs', cols', q')"
  shows "snd q' = snd q \<or> snd q' = snd q @ [c]"
proof -
  obtain r q1 where c: "Command_Query env opt c q = (r, q1)" using surj_pair [of "Command_Query env opt c q"] by blast
  from Command_Query_log [OF assms(1) c] assms c show ?thesis
    by (cases q1) (auto simp: GetQueryResults_def GetResults_def log_api_def split: if_splits prod.splits option.splits)
qed

lemma Manager_GetValue_log:
  assumes "me_api env = log_api a" "Manager_GetValue env ms ty key val ip q = Some (ret, v, q')"
  shows "opened q' \<longleftrightarrow> opened q"
proof -
  obtain cmd where cmd: "cmd = ''show '' @ c_str ty @ '' like '' @ quoted key @ '';''"
      "fits 128 cmd = Some cmd"
    using assms(2) by (auto simp: Manager_GetValue_def Command_GetValue_def bind_eq_Some_conv fits_def split: if_splits)
  obtain r rs cs q1 where g: "GetQueryResults env (admin_option env ms ip) cmd [] None q = (r, rs, cs, q1)"
    using prod_cases4 by blast
  have "q' = q1" using assms(2) g cmd
    by (auto simp: Manager_GetValue_def Command_GetValue_def bind_eq_Some_conv split: if_splits list.splits)
  moreover have "cmd \<noteq> super_read_only_off" using cmd(1) by simp
  ultimately show ?thesis using GetQueryResults_log [OF assms(1) g] by (auto simp: opened_def)
qed

lemma queries_log:
  assumes "me_api env = log_api a" "super_read_only_off \<notin> set cs" "queries env ms cs q = (ret, q')"
  shows "opened q' \<longleftrightarrow> opened q"
  using assms(2,3)
proof (induction cs arbitrary: q)
  case (Cons c cs)
  obtain r q1 where c: "Manager_Query env ms c local_ip q = (r, q1)" using surj_pair [of "Manager_Query env ms c local_ip q"] by blast
  then have "Command_Query env (admin_option env ms local_ip) c q = (r, q1)" by (simp add: Manager_Query_def)
  from Command_Query_log [OF assms(1) this] Cons.prems(1) have "opened q1 \<longleftrightarrow> opened q" by (auto simp: opened_def)
  with Cons c show ?case by (auto split: if_splits)
qed simp

lemma SlaveStart_log:
  assumes "me_api env = log_api a" "SlaveStart env ms ip port True q = Some (ret, q')"
  shows "opened q' \<longleftrightarrow> opened q"
proof -
  from assms(2) obtain set_id where s: "GetSvrIDString (me_svrid env) = Some set_id" by (auto simp: SlaveStart_def bind_eq_Some_conv)
  obtain r q1 where q1: "queries env ms [''stop slave;'', set_id] q = (r, q1)"
    using surj_pair [of "queries env ms [''stop slave;'', set_id] q"] by blast
  have "set_id \<noteq> super_read_only_off" using s by (auto simp: GetSvrIDString_def fits_def split: if_splits)
  then have o1: "opened q1 \<longleftrightarrow> opened q" by (intro queries_log [OF assms(1) _ q1]) auto
  have o2: "opened q2 \<longleftrightarrow> opened q1" if ch: "GetChangeMasterQueryString ip port u p = Some change"
    and q2: "queries env ms [change, super_read_only_on, read_only_on, ''start slave;''] q1 = (r2, q2)" for u p change r2 q2
  proof -
    have "change \<noteq> super_read_only_off" using ch by (auto simp: GetChangeMasterQueryString_def fits_def split: if_splits)
    then show ?thesis by (intro queries_log [OF assms(1) _ q2]) auto
  qed
  show ?thesis
    using assms(2) s q1 o1 o2 by (auto simp: SlaveStart_def Let_def bind_eq_Some_conv simp del: queries.simps split: if_splits prod.splits)
qed

lemma CheckSlaveRunningStatus_log:
  assumes "me_api env = log_api a" "CheckSlaveRunningStatus env ms connecting None q = Some (ret, q')"
  shows "opened q' \<longleftrightarrow> opened q"
proof (cases connecting)
  case True
  with assms(2) show ?thesis by (simp add: CheckSlaveRunningStatus_def)
next
  case False
  with assms(2) obtain r val q1 where g: "Manager_GetValue env ms ''status'' ''Slave_running'' [] local_ip q = Some (r, val, q1)"
    by (auto simp: CheckSlaveRunningStatus_def bind_eq_Some_conv)
  from False assms(2) g have "q' = q1 \<or> (\<exists>ret. SlaveStart env ms local_ip (me_engine_port env) True q1 = Some (ret, q'))"
    by (auto simp: CheckSlaveRunningStatus_def split: if_splits)
  then show ?thesis
    using SlaveStart_log [OF assms(1)] Manager_GetValue_log [OF assms(1) g] by metis
qed

lemma GetMySQLMaxGTIDList_log:
  assumes "me_api env = log_api a" "GetMySQLMaxGTIDList env ms q = Some (ret, l, q')"
  shows "opened q' \<longleftrightarrow> opened q"
  using assms(2) Manager_GetValue_log [OF assms(1)]
  by (fastforce simp: GetMySQLMaxGTIDList_def MonitorComm_GetMySQLMaxGTIDList_def bind_eq_Some_conv split: if_splits)

text \<open>
  C7: only the master is opened for writing. The check of a running server never switches off
  \<^verbatim>\<open>super_read_only\<close> of the local MySQL when the node does not hold the mastership, whatever state MySQL is in.
\<close>

theorem CheckRunning_opens_only_master:
  assumes "me_api (mv_my v) = log_api a" "CheckRunning v st = Some (ret, st')" "opened (mt_q st')" "\<not> opened (mt_q st)"
  shows "mt_is_master v st"
proof (rule ccontr)
  assume nm: "\<not> mt_is_master v st"
  from assms(2) obtain r ro q1 where g: "Manager_GetValue (mv_my v) (mt_store v st) ''variables'' ''super_read_only'' [] local_ip (mt_q st) =
      Some (r, ro, q1)"
    by (auto simp: CheckRunning_def bind_eq_Some_conv)
  note o1 = Manager_GetValue_log [OF assms(1) g]
  let ?st = "st\<lparr>mt_q := q1\<rparr>"
  from assms(2) g nm consider "st' = ?st"
    | "on_mysql (CheckSlaveRunningStatus (mv_my v) (mt_store v ?st) (mt_connecting ?st) None) ?st = Some (ret, st')"
    | ready s2 where "IsSlaveReady v ?st = Some (ready, s2)"
        "ready \<and> on_mysql (SlaveStart (mv_my v) (mt_store v s2) local_ip (me_engine_port (mv_my v)) True) s2 = Some (ret, st') \<or> st' = s2"
    by (auto simp: CheckRunning_def bind_eq_Some_conv Let_def split: if_splits)
  then show False
  proof cases
    case 1
    with o1 assms(3,4) show False by simp
  next
    case 2
    then obtain q2 where "CheckSlaveRunningStatus (mv_my v) (mt_store v ?st) (mt_connecting ?st) None q1 = Some (ret, q2)" "st' = ?st\<lparr>mt_q := q2\<rparr>"
      by (auto simp: on_mysql_def)
    with CheckSlaveRunningStatus_log [OF assms(1)] o1 assms(3,4) show False by fastforce
  next
    case 3
    then obtain l q2 r2 where l: "GetMySQLMaxGTIDList (mv_my v) (mt_store v ?st) q1 = Some (r2, l, q2)" "mt_q s2 = q2"
      by (auto simp: IsSlaveReady_def bind_eq_Some_conv Let_def split: if_splits)
    note o2 = GetMySQLMaxGTIDList_log [OF assms(1) l(1)]
    show False
    proof (cases "st' = s2")
      case True
      with o1 o2 l(2) assms(3,4) show False by simp
    next
      case False
      with 3 obtain q3 where "SlaveStart (mv_my v) (mt_store v s2) local_ip (me_engine_port (mv_my v)) True q2 = Some (ret, q3)" "mt_q st' = q3"
        using l(2) by (auto simp: on_mysql_def)
      with SlaveStart_log [OF assms(1)] o1 o2 assms(3,4) show False by fastforce
    qed
  qed
qed

section \<open>The relay log\<close>

text \<open>
  The relay log is never seen. The manager does not pass the column names of a query on, so the scan of
  the slave status for GTID sets finds nothing and the list of relay log GTIDs is always empty.
\<close>

theorem GetRelayLog_empty:
  "\<exists>ret q'. GetRelayLog env ms q = Some (ret, [], q')"
proof -
  obtain r rs cs q1 where "GetQueryResults env (admin_option env ms local_ip) ''show slave status;'' [] None q = (r, rs, cs, q1)"
    using prod_cases4 by blast
  then show ?thesis by (auto simp: GetRelayLog_def Manager_QueryResults_def Let_def split: list.splits)
qed

section \<open>Examples\<close>

text \<open>
  Servers that remember the last command: MySQL is read only and has executed nothing, and accepts every
  command. The nodes are those of the lease example, as a new member or as the master.
\<close>

definition quiet_api :: "string mysql_api" where
  "quiet_api = \<lparr>my_connect = (\<lambda>_ _ _ q. (True, q)), my_query = (\<lambda>_ c q. (0, c)),
     my_store_result = (\<lambda>_ q. (Some ([], [if hd (drop 5 q) = CHR ''v'' then [Some ''super_read_only'', Some ''ON'']
       else [Some ''gtid_executed'', None]]), q))\<rparr>"

definition quiet_env :: "(((string \<times> bytes option) list node \<times> bytes list), string \<times> string list, (string \<times> bytes option) list) monenv" where
  "quiet_env = \<lparr>mv_env = lease_env 5,
     mv_my = \<lparr>me_api = log_api quiet_api, me_port = 3306, me_socket = ''s'', me_engine_ip = GetIP 5, me_engine_port = 17000, me_svrid = 5\<rparr>,
     mv_px = outbox, mv_period = 1\<rparr>"

definition quiet_monitor :: "(string \<times> bytes option) list node \<Rightarrow> (((string \<times> bytes option) list node \<times> bytes list), string \<times> string list) monitor" where
  "quiet_monitor nd = \<lparr>mt_w = (set_clock 100 nd, []), mt_q = ([], []), mt_init = False, mt_last_check = 0,
     mt_external = \<lparr>em_flag = 1, em_last_update_time = 100\<rparr>, mt_connecting = False, mt_hold = 0\<rparr>"

definition lease_master :: "(string \<times> bytes option) list node" where
  "lease_master = lease_node\<lparr>nd_mm := (nd_mm lease_node)\<lparr>mm_storage := MasterStorage_init\<lparr>ms_master := lease_record\<lparr>mi_expire_time := 120\<rparr>\<rparr>\<rparr>\<rparr>"

lemma quiet_value:
  assumes "ms_admin_username ms = []"
  shows "Manager_GetValue (mv_my quiet_env) ms ''variables'' ''super_read_only'' [] local_ip (q, l) =
      Some (OK, ''ON'', (''show variables like '' @ quoted ''super_read_only'' @ '';'', l @ [''show variables like '' @ quoted ''super_read_only'' @ '';'']))"
    "\<exists>q'. Manager_GetValue (mv_my quiet_env) ms ''global variables'' ''gtid_executed'' [] local_ip (q, l) = Some (OK, [], q')"
  using assms
  by (simp_all add: Manager_GetValue_def Command_GetValue_def fits_def c_str_def quoted_def admin_option_def GetQueryResults_def
      Command_Query_def Connect_def quiet_env_def DoQuery_def GetResults_def same_nocase_def quiet_api_def log_api_def)

lemma quiet_gtids:
  "ms_admin_username ms = [] \<Longrightarrow> \<exists>q'. GetMySQLMaxGTIDList (mv_my quiet_env) ms (q, l) = Some (OK, [], q')"
  using quiet_value(2) [of ms q l]
  by (auto simp: GetMySQLMaxGTIDList_def MonitorComm_GetMySQLMaxGTIDList_def ParseMaxGTIDList_def)

lemma quiet_env_simps:
  "mv_px quiet_env = outbox" "mv_env quiet_env = lease_env 5" "me_engine_ip (mv_my quiet_env) = GetIP 5" "ne_svrid (lease_env 5) = 5"
  "mt_w (quiet_monitor nd) = (set_clock 100 nd, [])" "mt_q (quiet_monitor nd) = ([], [])"
  "mt_external (quiet_monitor nd) = \<lparr>em_flag = 1, em_last_update_time = 100\<rparr>"
  by (simp_all add: quiet_env_def quiet_monitor_def lease_env_def)

lemma quiet_complete: "IsGTIDCompleted [] (GetNewestGTID sample_es)"
  by (simp add: IsGTIDCompleted_def GetNewestGTID_def GetLastestUpdateGTID_def sample_es_def UUIDHandler_init_def EventDataInfo_init_def)

theorem takeover_has_all_events_witness:
  "\<exists>ret st'. CheckMasterTimeOut quiet_env (quiet_monitor lease_node) = Some (ret, st') \<and> snd (mt_w st') = [[1]] \<and>
     (IsMaster 100 5 (nd_mm lease_node) \<or> IsTimeOut 100 (nd_master lease_node))"
proof -
  let ?st = "quiet_monitor lease_node"
  have s: "ms_admin_username (mm_storage (nd_mm (set_clock 100 lease_node))) = []" "nd_es (set_clock 100 lease_node) = sample_es"
    "fs_now (nd_fs (set_clock 100 lease_node)) = 100" "nd_mm (set_clock 100 lease_node) = nd_mm lease_node"
    by (simp_all add: set_clock_def lease_node_def MasterStorage_init_def)
  obtain q' where g: "GetMySQLMaxGTIDList (mv_my quiet_env) (mm_storage (nd_mm (set_clock 100 lease_node))) ([], []) = Some (OK, [], q')"
    using quiet_gtids [OF s(1)] by blast
  have m: "\<not> CheckMasterBySvrID 100 5 True (mm_storage (nd_mm lease_node))"
    by (simp add: CheckMasterBySvrID_def lease_node_def MasterStorage_init_def MasterInfo_init_def)
  have h: "IsHealthy 100 \<lparr>em_flag = 1, em_last_update_time = 100\<rparr> = (True, \<lparr>em_flag = 1, em_last_update_time = 100\<rparr>)"
    by (simp add: IsHealthy_def CheckTimeOut_def PROXY_MONITOR_FLAG_def)
  have "\<exists>st'. CheckMasterTimeOut quiet_env ?st = Some (OK, st') \<and> snd (mt_w st') = [[1]]"
    using g m s
    by (simp add: CheckMasterTimeOut_def AgentMonitor_IsGTIDCompleted_def Let_def h quiet_complete quiet_env_simps lease_SetMaster)
  then obtain st' where c: "CheckMasterTimeOut quiet_env ?st = Some (OK, st')" "snd (mt_w st') = [[1]]" by blast
  from takeover_has_all_events [OF quiet_env_simps(1,5) c(1)] c s show ?thesis by (auto simp: quiet_env_simps)
qed

lemma lease_master_facts:
  "ms_admin_username (mm_storage (nd_mm lease_master)) = []" "nd_es (set_clock 100 lease_master) = sample_es"
  "mi_export_ip (ms_master (mm_storage (nd_mm lease_master))) = []"
  "fs_now (nd_fs (set_clock 100 lease_master)) = 100" "nd_mm (set_clock 100 lease_master) = nd_mm lease_master"
  "CheckMasterBySvrID 100 5 True (mm_storage (nd_mm lease_master))"
  by (simp_all add: CheckMasterBySvrID_def IsTimeOut_def set_clock_def lease_master_def lease_node_def MasterStorage_init_def
      lease_record_def MasterInfo_init_def)

theorem CheckRunning_opens_only_master_witness:
  "\<exists>st'. CheckRunning quiet_env (quiet_monitor lease_master) = Some (OK, st') \<and> opened (mt_q st') \<and>
     \<not> opened (mt_q (quiet_monitor lease_master)) \<and> mt_is_master quiet_env (quiet_monitor lease_master)"
proof -
  let ?st = "quiet_monitor lease_master" and ?ms = "mm_storage (nd_mm lease_master)"
  note s = lease_master_facts(1-5) and m = lease_master_facts(6)
  note v = quiet_value(1) [OF s(1), of "[]" "[]"]
  obtain q' where g: "GetMySQLMaxGTIDList (mv_my quiet_env) ?ms
      (''show variables like '' @ quoted ''super_read_only'' @ '';'', [''show variables like '' @ quoted ''super_read_only'' @ '';'']) = Some (OK, [], q')"
    using quiet_gtids [OF s(1)] by blast
  have o: "opened (snd (MasterStart (mv_my quiet_env) ?ms q'))"
    using s(1) by (cases q') (simp add: MasterStart_def Manager_Query_def Command_Query_def Connect_def DoQuery_def admin_option_def
        quiet_env_def log_api_def quiet_api_def opened_def)
  have "\<exists>st'. CheckRunning quiet_env ?st = Some (OK, st') \<and> opened (mt_q st')"
    using v g s m o
    by (simp add: CheckRunning_def AgentMonitor_CheckMasterInit_def GetMasterInfo_def GetMaster_def on_mysql_def Let_def case_prod_beta
        quiet_env_simps quiet_complete)
  then obtain st' where c: "CheckRunning quiet_env ?st = Some (OK, st')" "opened (mt_q st')" by blast
  have "me_api (mv_my quiet_env) = log_api quiet_api" "\<not> opened (mt_q ?st)" by (simp_all add: quiet_env_def quiet_monitor_def opened_def)
  with CheckRunning_opens_only_master [OF _ c] c show ?thesis by blast
qed

end
