(* ===== verification/Net.thy ===== *)
theory Net
  imports Phx_Utils
begin

text \<open>
  Packages on sockets (\<^verbatim>\<open>phxcomm/net/net.cpp\<close>): four bytes of header, of which three are the length of the
  body and one is a sequence number. A socket delivers the bytes of its peer in arbitrary pieces.
\<close>

section \<open>Sockets\<close>

text \<open>
  \<open>sk_chunks\<close> are the pieces \<^verbatim>\<open>recv\<close> will return, at most as long as asked for; after the last piece the
  connection is closed, or broken when \<open>sk_broken\<close>. \<open>sk_room\<close> is the number of bytes \<^verbatim>\<open>send\<close> still takes.
\<close>

record socket =
  sk_chunks :: "bytes list"
  sk_broken :: bool
  sk_sent :: bytes
  sk_room :: nat

definition NET_SOCKET_FAIL :: int where [simp]: "NET_SOCKET_FAIL = -1"
definition NET_SOCKET_LOST :: int where [simp]: "NET_SOCKET_LOST = -1000"

definition sock_recv :: "nat \<Rightarrow> socket \<Rightarrow> int \<times> bytes \<times> socket" where
  "sock_recv n sk =
     (case sk_chunks sk of
        [] \<Rightarrow> (if sk_broken sk then -1 else 0, [], sk)
      | c # cs \<Rightarrow>
          if length c \<le> n then (int (length c), c, sk\<lparr>sk_chunks := cs\<rparr>)
          else (int n, take n c, sk\<lparr>sk_chunks := drop n c # cs\<rparr>))"

definition sock_send :: "bytes \<Rightarrow> socket \<Rightarrow> int \<times> socket" where
  "sock_send data sk =
     (let n = min (length data) (sk_room sk)
      in (int n, sk\<lparr>sk_sent := sk_sent sk @ take n data, sk_room := sk_room sk - n\<rparr>))"

section \<open>Packages\<close>

text \<open>Receiving exactly \<open>want\<close> bytes; what was read before a failure stays in the buffer.\<close>

lemma sock_recv_less: "sock_recv n sk = (len, b, sk') \<Longrightarrow> 0 < len \<Longrightarrow> 0 < n \<Longrightarrow> length b = nat len \<and> length b \<le> n \<and> b \<noteq> []"
  by (auto simp: sock_recv_def split: list.splits if_splits)

function NetIO_Receive_n :: "nat \<Rightarrow> bytes \<Rightarrow> socket \<Rightarrow> int \<times> bytes \<times> socket" where
  "NetIO_Receive_n want buffer sk =
     (if want = 0 then (OK, buffer, sk)
      else case sock_recv want sk of
        (read_len, b, sk') \<Rightarrow>
          if read_len = 0 then (NET_SOCKET_LOST, buffer, sk')
          else if read_len < 0 then (NET_SOCKET_FAIL, buffer, sk')
          else NetIO_Receive_n (want - length b) (buffer @ b) sk')"
  by pat_completeness auto
termination
  by (relation "measure (\<lambda>(want, buffer, sk). want)") (auto dest: sock_recv_less [OF sym])

declare NetIO_Receive_n.simps [simp del]

text \<open>\<open>None\<close> is the descriptor -1. The body buffer is resized before it is read, so a failure leaves zeros in it.\<close>

definition NetIO_Receive :: "socket option \<Rightarrow> int \<times> bytes \<times> socket option" where
  "NetIO_Receive fd =
     (case fd of
        None \<Rightarrow> (NET_SOCKET_FAIL, [], None)
      | Some sk \<Rightarrow>
          case NetIO_Receive_n 4 [] sk of
            (ret, header, sk) \<Rightarrow>
              if ret \<noteq> 0 then (ret, [], Some sk)
              else
                let body_len = le_val (take 3 header)
                in case NetIO_Receive_n body_len [] sk of
                  (ret, body, sk) \<Rightarrow> (ret, header @ body @ replicate (body_len - length body) 0, Some sk))"

definition NetIO_Send :: "bytes \<Rightarrow> socket option \<Rightarrow> int \<times> socket option" where
  "NetIO_Send send_buffer fd =
     (case fd of
        None \<Rightarrow> (NET_SOCKET_FAIL, None)
      | Some sk \<Rightarrow>
          case sock_send send_buffer sk of
            (n, sk) \<Rightarrow> (if n = int (length send_buffer) then OK else NET_SOCKET_FAIL, Some sk))"

text \<open>Only the low three bytes of the length are sent. On the descriptor -1 the system calls fail.\<close>

definition NetIO_SendWithSeq :: "bytes \<Rightarrow> u8 \<Rightarrow> socket option \<Rightarrow> int \<times> socket option" where
  "NetIO_SendWithSeq send_buffer seqno fd =
     (case fd of
        None \<Rightarrow> (NET_SOCKET_FAIL, None)
      | Some sk \<Rightarrow>
          case sock_send (le_bytes 3 (length send_buffer) @ [seqno]) sk of
            (n, sk) \<Rightarrow>
              if n \<noteq> 4 then (NET_SOCKET_FAIL, Some sk)
              else case sock_send send_buffer sk of
                (n, sk) \<Rightarrow> (if n \<noteq> int (length send_buffer) then NET_SOCKET_FAIL else OK, Some sk))"

section \<open>Framing\<close>

lemma NetIO_Receive_n_prefix:
  assumes "[] \<notin> set (sk_chunks sk)" "concat (sk_chunks sk) = data @ rest"
  shows "\<exists>cs. NetIO_Receive_n (length data) buffer sk = (OK, buffer @ data, sk\<lparr>sk_chunks := cs\<rparr>) \<and> [] \<notin> set cs \<and> concat cs = rest"
  using assms
proof (induction "length data" arbitrary: data buffer sk rule: less_induct)
  case less
  show ?case
  proof (cases "data = []")
    case True
    with less.prems show ?thesis by (intro exI [of _ "sk_chunks sk"]) (simp add: NetIO_Receive_n.simps)
  next
    case False
    with less.prems obtain c cs where c: "sk_chunks sk = c # cs" "c \<noteq> []" "[] \<notin> set cs" by (cases "sk_chunks sk") auto
    show ?thesis
    proof (cases "length c \<le> length data")
      case True
      have "concat (sk_chunks sk) = c @ concat cs" using c(1) by simp
      with less.prems(2) True have t: "c = take (length c) data" "concat cs = drop (length c) data @ rest"
        by (simp_all add: append_eq_append_conv_if)
      define d where "d = drop (length c) data"
      have d: "data = c @ d" "concat cs = d @ rest"
        using t append_take_drop_id [of "length c" data] by (simp_all add: d_def)
      have "length d < length data" using d(1) c(2) by simp
      from less.hyps [OF this, of "sk\<lparr>sk_chunks := cs\<rparr>" "buffer @ c"] c(3) d(2) obtain ds where
        r: "NetIO_Receive_n (length d) (buffer @ c) (sk\<lparr>sk_chunks := cs\<rparr>) = (OK, (buffer @ c) @ d, sk\<lparr>sk_chunks := ds\<rparr>)"
        "[] \<notin> set ds" "concat ds = rest" by auto
      have "NetIO_Receive_n (length data) buffer sk = NetIO_Receive_n (length d) (buffer @ c) (sk\<lparr>sk_chunks := cs\<rparr>)"
        using True False c(1,2) d(1) by (subst NetIO_Receive_n.simps) (simp add: sock_recv_def)
      with r d(1) show ?thesis by (intro exI [of _ ds]) simp
    next
      case long: False
      have "take (length data) c = data" "concat (drop (length data) c # cs) = rest"
        using less.prems(2) c(1) long by (auto simp: append_eq_append_conv_if)
      moreover have "NetIO_Receive_n (length data) buffer sk = (OK, buffer @ take (length data) c, sk\<lparr>sk_chunks := drop (length data) c # cs\<rparr>)"
        using c(1) long False by (simp add: NetIO_Receive_n.simps [of "length data" buffer sk] sock_recv_def NetIO_Receive_n.simps [of 0])
      ultimately show ?thesis using c(3) long by (intro exI [of _ "drop (length data) c # cs"]) simp
    qed
  qed
qed

lemma sock_send_all: "length data \<le> sk_room sk \<Longrightarrow>
    sock_send data sk = (int (length data), sk\<lparr>sk_sent := sk_sent sk @ data, sk_room := sk_room sk - length data\<rparr>)"
  by (simp add: sock_send_def Let_def)

lemma SendWithSeq_bytes:
  assumes "4 + length data \<le> sk_room sk"
  shows "\<exists>sk'. NetIO_SendWithSeq data seqno (Some sk) = (OK, Some sk') \<and>
    sk_sent sk' = sk_sent sk @ le_bytes 3 (length data) @ [seqno] @ data"
  using assms sock_send_all [of "le_bytes 3 (length data) @ [seqno]" sk]
  by (simp add: NetIO_SendWithSeq_def sock_send_all)

text \<open>
  Packages survive the network. A body of less than $2^{24}$ bytes that was sent with a sequence number is
  received as exactly this package, in whatever pieces the network delivers it and whatever follows it, and
  the bytes that follow are left for the next call.
\<close>

theorem SendWithSeq_Receive:
  assumes "length data < 2 ^ 24" "4 + length data \<le> sk_room sk" "sk_sent sk = []" "[] \<notin> set (sk_chunks peer)"
    and "NetIO_SendWithSeq data seqno (Some sk) = (ret, Some sk')" "concat (sk_chunks peer) = sk_sent sk' @ rest"
  shows "ret = OK \<and> (\<exists>peer'. NetIO_Receive (Some peer) = (OK, le_bytes 3 (length data) @ [seqno] @ data, Some peer') \<and>
    concat (sk_chunks peer') = rest)"
proof -
  from SendWithSeq_bytes [OF assms(2), of seqno] assms(3,5)
  have s: "ret = OK" "sk_sent sk' = (le_bytes 3 (length data) @ [seqno]) @ data" by auto
  from NetIO_Receive_n_prefix [OF assms(4), of "le_bytes 3 (length data) @ [seqno]" "data @ rest" "[]"] s(2) assms(6)
  obtain cs where h: "NetIO_Receive_n 4 [] peer = (OK, le_bytes 3 (length data) @ [seqno], peer\<lparr>sk_chunks := cs\<rparr>)" "[] \<notin> set cs"
    "concat cs = data @ rest" by auto
  from NetIO_Receive_n_prefix [of "peer\<lparr>sk_chunks := cs\<rparr>" data rest "[]"] h(2,3)
  obtain ds where b: "NetIO_Receive_n (length data) [] (peer\<lparr>sk_chunks := cs\<rparr>) = (OK, data, peer\<lparr>sk_chunks := ds\<rparr>)" "concat ds = rest"
    by auto
  have "le_val (take 3 (le_bytes 3 (length data) @ [seqno])) = length data" using assms(1) by (simp add: le_val_le_bytes)
  with s(1) h(1) b show ?thesis by (simp add: NetIO_Receive_def Let_def)
qed

text \<open>
  A body of $2^{24}$ bytes or more breaks the stream. It is sent without an error, but its header carries the
  length modulo $2^{24}$, so the receiver takes only the first part as the package and reads the rest of the body
  as further headers.
\<close>

theorem SendWithSeq_long_body:
  assumes "2 ^ 24 \<le> length data" "4 + length data \<le> sk_room sk" "sk_sent sk = []" "[] \<notin> set (sk_chunks peer)"
    and "NetIO_SendWithSeq data seqno (Some sk) = (ret, Some sk')" "concat (sk_chunks peer) = sk_sent sk'"
  shows "ret = OK \<and> (\<exists>peer'. NetIO_Receive (Some peer) =
      (OK, le_bytes 3 (length data) @ [seqno] @ take (length data mod 2 ^ 24) data, Some peer') \<and>
    concat (sk_chunks peer') = drop (length data mod 2 ^ 24) data \<and> concat (sk_chunks peer') \<noteq> [])"
proof -
  let ?n = "length data mod 2 ^ 24"
  from SendWithSeq_bytes [OF assms(2), of seqno] assms(3,5)
  have s: "ret = OK" "sk_sent sk' = (le_bytes 3 (length data) @ [seqno]) @ take ?n data @ drop ?n data" by auto
  from NetIO_Receive_n_prefix [OF assms(4), of "le_bytes 3 (length data) @ [seqno]" "take ?n data @ drop ?n data" "[]"] s(2) assms(6)
  obtain cs where h: "NetIO_Receive_n 4 [] peer = (OK, le_bytes 3 (length data) @ [seqno], peer\<lparr>sk_chunks := cs\<rparr>)" "[] \<notin> set cs"
    "concat cs = take ?n data @ drop ?n data" by auto
  have n: "?n < 2 ^ 24" "length (take ?n data) = ?n" by (simp_all add: min_absorb2)
  from NetIO_Receive_n_prefix [of "peer\<lparr>sk_chunks := cs\<rparr>" "take ?n data" "drop ?n data" "[]"] h(2,3) n(2)
  obtain ds where b: "NetIO_Receive_n ?n [] (peer\<lparr>sk_chunks := cs\<rparr>) = (OK, take ?n data, peer\<lparr>sk_chunks := ds\<rparr>)"
    "concat ds = drop ?n data" by auto
  have v: "le_val (take 3 (le_bytes 3 (length data) @ [seqno])) = ?n" by (simp add: le_val_le_bytes)
  have "?n < length data" using n(1) assms(1) by linarith
  with s(1) h(1) b v n(2) show ?thesis by (simp add: NetIO_Receive_def Let_def del: concat_eq_Nil_conv)
qed

text \<open>A package of two bytes that arrives in three pieces, followed by another byte.\<close>

definition sample_peer :: socket where
  "sample_peer = \<lparr>sk_chunks = [[2, 0], [0, 9, 7], [8, 5]], sk_broken = False, sk_sent = [], sk_room = 100\<rparr>"

theorem SendWithSeq_Receive_witness:
  "\<exists>peer'. NetIO_Receive (Some sample_peer) = (OK, [2, 0, 0, 9, 7, 8], Some peer') \<and> concat (sk_chunks peer') = [5]"
proof -
  have "le_bytes 2 0 = [0, 0]" unfolding numeral_2_eq_2 by simp
  then have "le_bytes 3 2 = [2, 0, 0]" using le_bytes.simps(2) [of 2 2] by simp
  then have l: "le_bytes 3 (Suc (Suc 0)) = [2, 0, 0]" unfolding numeral_2_eq_2 .
  have n: "NetIO_SendWithSeq [7, 8] 9 (Some sample_peer) = (OK, Some (sample_peer\<lparr>sk_sent := [2, 0, 0, 9, 7, 8], sk_room := 94\<rparr>))"
    by (simp add: NetIO_SendWithSeq_def sock_send_def sample_peer_def Let_def l)
  show ?thesis
    using SendWithSeq_Receive [OF _ _ _ _ n, of sample_peer "[5]"] by (simp add: sample_peer_def l)
qed

definition long_peer :: socket where
  "long_peer = \<lparr>sk_chunks = [le_bytes 3 (2 ^ 24) @ [9] @ replicate (2 ^ 24) 7], sk_broken = False, sk_sent = [], sk_room = 2 ^ 24 + 4\<rparr>"

theorem SendWithSeq_long_body_witness:
  "\<exists>peer'. NetIO_Receive (Some long_peer) = (OK, le_bytes 3 (2 ^ 24) @ [9], Some peer') \<and> concat (sk_chunks peer') = replicate (2 ^ 24) 7"
proof -
  let ?d = "replicate (2 ^ 24) 7 :: bytes"
  have l: "length ?d = 2 ^ 24" by (simp only: length_replicate)
  have r: "4 + length ?d \<le> sk_room long_peer" "sk_sent long_peer = []" by (simp_all only: l) (simp_all add: long_peer_def)
  obtain sk' where s: "NetIO_SendWithSeq ?d 9 (Some long_peer) = (OK, Some sk')" "sk_sent sk' = le_bytes 3 (length ?d) @ [9] @ ?d"
    using SendWithSeq_bytes [OF r(1), of 9] r(2) by auto
  have "[] \<notin> set (sk_chunks long_peer)" "concat (sk_chunks long_peer) = sk_sent sk'"
    unfolding s(2) l by (simp_all add: long_peer_def)
  from SendWithSeq_long_body [OF _ r this(1) s(1) this(2)] show ?thesis by (simp only: l) auto
qed

end
