(* ===== verification/Repl.thy ===== *)
theory Repl
  imports Failover Net
begin

text \<open>
  Replication to the local MySQL (\<^verbatim>\<open>core/repl\<close>): a relay between a MySQL slave and the MySQL master during the
  login (\<^verbatim>\<open>replication_slave.cpp\<close>), then the transfer of the stored events (\<^verbatim>\<open>replication_transfer.cpp\<close>) over a
  shared context (\<^verbatim>\<open>replication_ctx.cpp\<close>, \<^verbatim>\<open>replication_impl.cpp\<close>). Arguments of log messages are not modelled.
\<close>

section \<open>The context\<close>

text \<open>The two connections; \<open>None\<close> is a closed one.\<close>

record repl_ctx =
  rc_seq :: u8
  rc_selfconn :: bool
  rc_inited :: bool
  rc_close :: bool
  rc_master_fd :: "socket option"
  rc_slave_fd :: "socket option"

definition SetSeq :: "u8 \<Rightarrow> repl_ctx \<Rightarrow> repl_ctx" where
  "SetSeq seqno ctx = ctx\<lparr>rc_seq := seqno\<rparr>"

definition Notify :: "repl_ctx \<Rightarrow> repl_ctx" where
  "Notify ctx = ctx\<lparr>rc_inited := True\<rparr>"

definition SetMasterFD :: "socket option \<Rightarrow> repl_ctx \<Rightarrow> repl_ctx" where
  "SetMasterFD fd ctx = ctx\<lparr>rc_close := False, rc_master_fd := fd\<rparr>"

definition CloseMasterFD :: "repl_ctx \<Rightarrow> repl_ctx" where
  "CloseMasterFD ctx = ctx\<lparr>rc_master_fd := None\<rparr>"

definition CloseSlaveFD :: "repl_ctx \<Rightarrow> repl_ctx" where
  "CloseSlaveFD ctx = ctx\<lparr>rc_slave_fd := None\<rparr>"

definition Ctx_Close :: "repl_ctx \<Rightarrow> repl_ctx" where
  "Ctx_Close ctx = Notify ((CloseSlaveFD (CloseMasterFD ctx))\<lparr>rc_close := True\<rparr>)"

text \<open>
  The address of the MySQL the slave is connected to: the current master until a replication account is
  known, then the local server, whose connection is marked as one to itself.
\<close>

definition InitFakeMaster :: "u32 \<Rightarrow> MasterInfo \<Rightarrow> mstore \<Rightarrow> repl_ctx \<Rightarrow> string \<times> u32 \<times> repl_ctx" where
  "InitFakeMaster engine_svrid info ms ctx =
     (let ip = GetIP (mi_svr_id info);
          ctx = (if mi_svr_id info = engine_svrid then ctx else ctx\<lparr>rc_selfconn := False\<rparr>);
          port = (case mi_port info of Some p \<Rightarrow> p | None \<Rightarrow> 0)
      in if IsReplicaProcess ms then (GetIP engine_svrid, port, ctx\<lparr>rc_selfconn := True\<rparr>) else (ip, port, ctx))"

section \<open>Rewriting the server id\<close>

text \<open>A row of a result: fields with a length byte in front, as offsets and lengths, until one does not fit.\<close>

function row_fields :: "bytes \<Rightarrow> nat \<Rightarrow> (nat \<times> nat) list" where
  "row_fields buffer pos =
     (if pos < length buffer then
        (let len = unat (buffer ! pos)
         in if pos + 1 + len > length buffer then [] else (pos + 1, len) # row_fields buffer (pos + 1 + len))
      else [])"
  by pat_completeness auto
termination
  by (relation "measure (\<lambda>(buffer, pos). length buffer - pos)") auto

declare row_fields.simps [simp del]

definition lower_byte :: "byte \<Rightarrow> byte" where
  "lower_byte b = (if 65 \<le> b \<and> b \<le> 90 then b + 32 else b)"

text \<open>\<^verbatim>\<open>strncasecmp\<close> over the length of the key, against a text that ends with a zero.\<close>

fun same_prefix_nocase :: "bytes \<Rightarrow> bytes \<Rightarrow> bool" where
  "same_prefix_nocase [] b = True"
| "same_prefix_nocase (x # a) [] = (x = 0)"
| "same_prefix_nocase (x # a) (y # b) = (lower_byte x = lower_byte y \<and> (x = 0 \<or> same_prefix_nocase a b))"

definition bump :: "byte \<Rightarrow> byte" where
  "bump b = (if sint b < 57 then b + 1 else b)"

definition ReWriteCommand :: "bytes \<Rightarrow> bytes \<Rightarrow> bytes \<Rightarrow> bool \<times> bytes" where
  "ReWriteCommand key val check_key =
     (if same_prefix_nocase key check_key
      then (\<exists>b\<in>set (tl val). sint b < 57, case val of [] \<Rightarrow> [] | b # bs \<Rightarrow> b # map bump bs)
      else (False, val))"

definition put_bytes :: "bytes \<Rightarrow> nat \<Rightarrow> bytes \<Rightarrow> bytes" where
  "put_bytes buffer pos val = take pos buffer @ val @ drop (pos + length val) buffer"

definition IsQuerryEnd :: "bytes \<Rightarrow> bool" where
  "IsQuerryEnd buffer \<longleftrightarrow> length buffer < 8 \<and> buffer \<noteq> [] \<and> hd buffer = 254"

definition PraseCommand :: "u32 \<Rightarrow> bytes \<Rightarrow> int \<times> bytes" where
  "PraseCommand my_svrid buffer =
     (if IsQuerryEnd buffer then (0, buffer)
      else case row_fields buffer 0 of
        (kp, kl) # (vp, vl) # _ \<Rightarrow>
          (let key = take kl (drop kp buffer); val = take vl (drop vp buffer)
           in case ReWriteCommand key val (str_bytes ''server_id'') of
             (ok, new) \<Rightarrow>
               if ok
               then (if foldl (\<lambda>a b. a * 10 + of_int (sint b) - 48) 0 val \<noteq> my_svrid then SVR_ID_CONFIT else 0, put_bytes buffer vp new)
               else case ReWriteCommand key new (str_bytes ''server_uuid'') of (_, new) \<Rightarrow> (0, put_bytes buffer vp new))
      | _ \<Rightarrow> (0, buffer))"

section \<open>The relay\<close>

text \<open>What is left to read on a connection; every package that is received takes at least its header of it.\<close>

definition fd_bytes :: "socket option \<Rightarrow> nat" where
  "fd_bytes fd = (case fd of None \<Rightarrow> 0 | Some sk \<Rightarrow> length (concat (sk_chunks sk)))"

lemma sock_recv_bytes: "sock_recv n sk = (len, b, sk') \<Longrightarrow> concat (sk_chunks sk) = b @ concat (sk_chunks sk')"
  by (auto simp: sock_recv_def split: list.splits if_splits)

lemma NetIO_Receive_n_bytes:
  "NetIO_Receive_n want buffer sk = (ret, b, sk') \<Longrightarrow>
     length (concat (sk_chunks sk')) + length b = length (concat (sk_chunks sk)) + length buffer \<and>
     (ret = 0 \<longrightarrow> length b = length buffer + want)"
proof (induction want buffer sk rule: NetIO_Receive_n.induct)
  case (1 want buffer sk)
  obtain len c sk1 where c: "sock_recv want sk = (len, c, sk1)" using prod_cases3 by blast
  note bytes = arg_cong [OF sock_recv_bytes [OF c], of length]
  show ?case
  proof (cases "want = 0 \<or> len \<le> 0")
    case True
    then have "want \<noteq> 0 \<Longrightarrow> c = []" using c by (auto simp: sock_recv_def split: list.splits if_splits)
    with True "1.prems" c bytes show ?thesis
      by (subst (asm) NetIO_Receive_n.simps) (auto split: if_splits)
  next
    case False
    then have r: "NetIO_Receive_n (want - length c) (buffer @ c) sk1 = (ret, b, sk')"
      using "1.prems" c by (subst (asm) NetIO_Receive_n.simps) auto
    have "length (concat (sk_chunks sk')) + length b = length (concat (sk_chunks sk1)) + length (buffer @ c) \<and>
        (ret = 0 \<longrightarrow> length b = length (buffer @ c) + (want - length c))"
      by (rule "1.IH" [OF _ c [symmetric] refl _ _ r]) (use False in auto)
    with bytes sock_recv_less [OF c] False show ?thesis by auto
  qed
qed

lemma NetIO_Receive_bytes:
  assumes "NetIO_Receive fd = (ret, b, fd')"
  shows "fd_bytes fd' \<le> fd_bytes fd" "ret = 0 \<Longrightarrow> fd_bytes fd' < fd_bytes fd"
proof -
  have "fd_bytes fd' \<le> fd_bytes fd \<and> (ret = 0 \<longrightarrow> fd_bytes fd' < fd_bytes fd)"
  proof (cases fd)
    case None
    with assms show ?thesis by (simp add: NetIO_Receive_def)
  next
    case (Some sk)
    obtain r1 h sk1 where 1: "NetIO_Receive_n 4 [] sk = (r1, h, sk1)" using prod_cases3 by blast
    obtain r2 c sk2 where 2: "NetIO_Receive_n (le_val (take 3 h)) [] sk1 = (r2, c, sk2)" using prod_cases3 by blast
    have "fd' = Some sk1 \<and> ret = r1 \<and> ret \<noteq> 0 \<or> fd' = Some sk2 \<and> r1 = 0"
      using assms Some 1 2 by (auto simp: NetIO_Receive_def Let_def split: if_splits)
    with Some NetIO_Receive_n_bytes [OF 1] NetIO_Receive_n_bytes [OF 2] show ?thesis
      by (auto simp: fd_bytes_def simp del: length_concat)
  qed
  then show "fd_bytes fd' \<le> fd_bytes fd" "ret = 0 \<Longrightarrow> fd_bytes fd' < fd_bytes fd" by auto
qed

lemma NetIO_Send_bytes: "NetIO_Send b fd = (ret, fd') \<Longrightarrow> fd_bytes fd' = fd_bytes fd"
  by (auto simp: NetIO_Send_def sock_send_def fd_bytes_def Let_def split: option.splits if_splits)

datatype CommandStatus = ST_MSG | ST_QUERY | ST_EVENT | ST_RUNNING

text \<open>An error package of the master is logged with its number and text, which are read without a check of the length.\<close>

definition ReceivePkg :: "repl_ctx \<Rightarrow> (int \<times> bytes \<times> repl_ctx) option" where
  "ReceivePkg ctx =
     (case NetIO_Receive (rc_master_fd ctx) of
        (ret, recv_buff, fd) \<Rightarrow>
          let ctx = ctx\<lparr>rc_master_fd := fd\<rparr>
          in if ret \<noteq> 0 then Some (SOCKET_FAIL, recv_buff, ctx)
             else if recv_buff = [] then Some (DATA_EMPTY, recv_buff, ctx)
             else if 4 < length recv_buff \<and> recv_buff ! 4 = 255 \<and> length recv_buff < 7 then None
             else Some (OK, recv_buff, ctx))"

lemma ReceivePkg_bytes:
  assumes "ReceivePkg ctx = Some (ret, b, ctx')"
  shows "fd_bytes (rc_master_fd ctx') \<le> fd_bytes (rc_master_fd ctx)"
    "ret = 0 \<Longrightarrow> fd_bytes (rc_master_fd ctx') < fd_bytes (rc_master_fd ctx)"
    "rc_slave_fd ctx' = rc_slave_fd ctx"
proof -
  obtain r c fd where r: "NetIO_Receive (rc_master_fd ctx) = (r, c, fd)" using prod_cases3 by blast
  have "ctx' = ctx\<lparr>rc_master_fd := fd\<rparr>" "ret = 0 \<Longrightarrow> r = 0"
    using assms r by (auto simp: ReceivePkg_def Let_def split: if_splits)
  with NetIO_Receive_bytes [OF r] show "fd_bytes (rc_master_fd ctx') \<le> fd_bytes (rc_master_fd ctx)"
    "ret = 0 \<Longrightarrow> fd_bytes (rc_master_fd ctx') < fd_bytes (rc_master_fd ctx)"
    "rc_slave_fd ctx' = rc_slave_fd ctx" by auto
qed

definition DealWithSingalMsg :: "repl_ctx \<Rightarrow> (int \<times> bytes list \<times> repl_ctx) option" where
  "DealWithSingalMsg ctx =
     map_option (\<lambda>(ret, recv_buff, ctx). (ret, if recv_buff \<noteq> [] then [recv_buff] else [], ctx)) (ReceivePkg ctx)"

text \<open>
  The loops over the packages of a query result. Their own result code is a local of each round: the loops
  end at the first failure or at the end package, and \<open>DealWithQuery\<close> returns 0 in both cases.
\<close>

function query_fields :: "bytes list \<Rightarrow> repl_ctx \<Rightarrow> (bytes list \<times> repl_ctx) option" where
  "query_fields send_buffer ctx = do {
     (ret, recv_buff, ctx) \<leftarrow> ReceivePkg ctx;
     let send_buffer = (if ret = 0 then send_buffer @ [recv_buff] else send_buffer);
     if length recv_buff < 5 \<or> ret \<noteq> 0 \<or> IsQuerryEnd (drop 4 recv_buff) then Some (send_buffer, ctx)
     else query_fields send_buffer ctx
   }"
  by pat_completeness auto
termination
  by (relation "measure (\<lambda>(send_buffer, ctx). fd_bytes (rc_master_fd ctx))") (auto intro: ReceivePkg_bytes(2))

function query_rows :: "u32 \<Rightarrow> bytes list \<Rightarrow> repl_ctx \<Rightarrow> (bytes list \<times> repl_ctx) option" where
  "query_rows my_svrid send_buffer ctx = do {
     (ret, recv_buff, ctx) \<leftarrow> ReceivePkg ctx;
     if length recv_buff < 5 \<or> ret \<noteq> 0 then Some (send_buffer, ctx)
     else
       let recv_buff = (if rc_selfconn ctx then take 4 recv_buff @ snd (PraseCommand my_svrid (drop 4 recv_buff)) else recv_buff);
           send_buffer = send_buffer @ [recv_buff]
       in if IsQuerryEnd (drop 4 recv_buff) then Some (send_buffer, ctx) else query_rows my_svrid send_buffer ctx
   }"
  by pat_completeness auto
termination
  by (relation "measure (\<lambda>(my_svrid, send_buffer, ctx). fd_bytes (rc_master_fd ctx))") (auto intro: ReceivePkg_bytes(2))

declare query_fields.simps [simp del] query_rows.simps [simp del]

definition DealWithQuery :: "u32 \<Rightarrow> repl_ctx \<Rightarrow> (int \<times> bytes list \<times> repl_ctx) option" where
  "DealWithQuery my_svrid ctx = do {
     (ret, recv_buff, ctx) \<leftarrow> ReceivePkg ctx;
     if ret \<noteq> 0 then Some (ret, [], ctx)
     else if length recv_buff < 5 \<or> recv_buff ! 4 = 0 then Some (OK, [recv_buff], ctx)
     else do {
       (send_buffer, ctx) \<leftarrow> query_fields [recv_buff] ctx;
       (send_buffer, ctx) \<leftarrow> query_rows my_svrid send_buffer ctx;
       Some (0, send_buffer, ctx)
     }
   }"

definition DealWithEvent :: "CommandStatus \<Rightarrow> repl_ctx \<Rightarrow> (int \<times> bytes list \<times> CommandStatus \<times> repl_ctx) option" where
  "DealWithEvent status ctx = do {
     (ret, recv_buff, ctx) \<leftarrow> ReceivePkg ctx;
     if ret \<noteq> 0 then Some (ret, [], status, ctx)
     else if (recv_buff @ [0]) ! 4 = 0xFE then Some (MASTER_FAIL, [], status, ctx)
     else do {
       (ret, info) \<leftarrow> ParseEvent (recv_buff @ [0]) 5 (of_nat (length recv_buff) - 5) EventInfo_init;
       if ret \<noteq> 0 then Some (ret, [], status, ctx)
       else
         let ty = ei_event_type info;
             status = (if ty = EVENT_GTID \<or> ty = EVENT_PERCONA_GTID \<or> ty = EVENT_HEARTBEAT then ST_RUNNING else status);
             send_buffer = (if status = ST_RUNNING \<and> ty \<noteq> EVENT_HEARTBEAT then [] else [recv_buff]);
             ctx = (if send_buffer \<noteq> [] then SetSeq (recv_buff ! 3 + 1) ctx else ctx)
         in Some (0, send_buffer, status, ctx)
     }
   }"

fun send_all :: "bytes list \<Rightarrow> repl_ctx \<Rightarrow> int \<times> repl_ctx" where
  "send_all [] ctx = (OK, ctx)"
| "send_all (b # bs) ctx =
     (case NetIO_Send b (rc_slave_fd ctx) of
        (ret, fd) \<Rightarrow> let ctx = ctx\<lparr>rc_slave_fd := fd\<rparr> in if ret \<noteq> 0 then (ret, ctx) else send_all bs ctx)"

definition DealWithMaster :: "u32 \<Rightarrow> CommandStatus \<Rightarrow> repl_ctx \<Rightarrow> (int \<times> bytes list \<times> CommandStatus \<times> repl_ctx) option" where
  "DealWithMaster my_svrid status ctx =
     (case status of
        ST_MSG \<Rightarrow> map_option (\<lambda>(r, b, c). (r, b, status, c)) (DealWithSingalMsg ctx)
      | ST_QUERY \<Rightarrow> map_option (\<lambda>(r, b, c). (r, b, status, c)) (DealWithQuery my_svrid ctx)
      | ST_EVENT \<Rightarrow> DealWithEvent status ctx
      | ST_RUNNING \<Rightarrow> Some (OK, [], status, ctx))"

lemma DealWithMaster_bytes:
  assumes "DealWithMaster my_svrid status ctx = Some (0, send_buffer, ST_EVENT, ctx')"
  shows "fd_bytes (rc_master_fd ctx') < fd_bytes (rc_master_fd ctx)"
  using assms
  by (auto simp: DealWithMaster_def DealWithEvent_def SetSeq_def Let_def bind_eq_Some_conv ReceivePkg_bytes(2)
      split: CommandStatus.splits if_splits)

lemma send_all_bytes:
  "send_all bs ctx = (ret, ctx') \<Longrightarrow>
     rc_master_fd ctx' = rc_master_fd ctx \<and> fd_bytes (rc_slave_fd ctx') = fd_bytes (rc_slave_fd ctx)"
  by (induction bs arbitrary: ctx) (auto simp: Let_def NetIO_Send_bytes split: prod.splits if_splits)

text \<open>Packages of the master are passed on; after the GTID command until the first event that is stored here.\<close>

function ProcessWithMasterMsg :: "u32 \<Rightarrow> CommandStatus \<Rightarrow> repl_ctx \<Rightarrow> (int \<times> CommandStatus \<times> repl_ctx) option" where
  "ProcessWithMasterMsg my_svrid status ctx =
     (if status = ST_RUNNING then Some (OK, status, ctx)
      else do {
        (ret, send_buffer, status', ctx') \<leftarrow> DealWithMaster my_svrid status ctx;
        if send_buffer = [] then Some (if status' = ST_RUNNING then OK else DATA_EMPTY, status', ctx')
        else if ret \<noteq> OK then Some (ret, status', ctx')
        else case send_all send_buffer ctx' of
          (ret, ctx'') \<Rightarrow>
            if ret \<noteq> 0 then Some (ret, status', ctx'')
            else if status' = ST_EVENT then ProcessWithMasterMsg my_svrid status' ctx''
            else Some (OK, status', ctx'')
      })"
  by pat_completeness auto
termination
  by (relation "measure (\<lambda>(my_svrid, status, ctx). fd_bytes (rc_master_fd ctx))")
    (auto dest!: DealWithMaster_bytes send_all_bytes [OF sym])

declare ProcessWithMasterMsg.simps [simp del]

section \<open>Commands of the slave\<close>

definition DealWithGTIDCommand ::
  "'d nenv \<Rightarrow> bytes \<Rightarrow> 'd node \<Rightarrow> (int \<times> 'd node) option" where
  "DealWithGTIDCommand env recv_buff nd = do {
     (ret, info) \<leftarrow> ParsePreviousGTIDCommand (recv_buff @ [0]) 5 (of_nat (length recv_buff - 5)) EventInfo_init;
     if ret \<noteq> 0 then Some (ret, nd)
     else EventManager_SignUpGTIDs env (map snd (ei_previous_gtidlist info)) nd
   }"

definition DealWithSlaveMsg ::
  "'d nenv \<Rightarrow> bytes \<Rightarrow> CommandStatus \<Rightarrow> 'd node \<Rightarrow> (int \<times> CommandStatus \<times> 'd node) option" where
  "DealWithSlaveMsg env recv_buff status nd =
     (let command_id = (recv_buff @ [0]) ! 4
      in if command_id = 3 then Some (OK, ST_QUERY, nd)
         else if command_id = 5 \<or> command_id = 21 then Some (OK, ST_MSG, nd)
         else if command_id = 30
         then map_option (\<lambda>(ret, nd). if ret \<noteq> 0 then (ret, status, nd) else (OK, ST_EVENT, nd))
                (DealWithGTIDCommand env recv_buff nd)
         else Some (SLAVE_FAIL, status, nd))"

definition ProcessWithSlaveMsg ::
  "'d nenv \<Rightarrow> CommandStatus \<Rightarrow> repl_ctx \<Rightarrow> 'd node \<Rightarrow> (int \<times> CommandStatus \<times> repl_ctx \<times> 'd node) option" where
  "ProcessWithSlaveMsg env status ctx nd =
     (case NetIO_Receive (rc_slave_fd ctx) of
        (ret, recv_buff, fd) \<Rightarrow>
          let ctx = ctx\<lparr>rc_slave_fd := fd\<rparr>
          in if ret \<noteq> 0 then Some (SOCKET_FAIL, status, ctx, nd)
             else if recv_buff = [] then Some (DATA_EMPTY, status, ctx, nd)
             else do {
               (ret, status, nd) \<leftarrow> DealWithSlaveMsg env recv_buff status nd;
               if ret \<noteq> 0 then Some (ret, status, ctx, nd)
               else case NetIO_Send recv_buff (rc_master_fd ctx) of
                 (ret, fd) \<Rightarrow> Some (if ret \<noteq> 0 then SOCKET_FAIL else OK, status, ctx\<lparr>rc_master_fd := fd\<rparr>, nd)
             })"

text \<open>The code of \<^verbatim>\<open>IsGTIDCompleted\<close>, which is 0 when everything is there, is used as a truth value.\<close>

definition CheckIsMaster :: "('w, 'q, 'd) monenv \<Rightarrow> ('w, 'q) monitor \<Rightarrow> (int \<times> ('w, 'q) monitor) option" where
  "CheckIsMaster v st =
     (if mt_is_master v st
      then do {
        (completed, st) \<leftarrow> AgentMonitor_IsGTIDCompleted v st;
        if completed \<noteq> 0
        then Some (case MasterAgent_MasterNotify (mv_env v) (mv_px v) (mt_w st) of (ret, w) \<Rightarrow> (ret, st\<lparr>mt_w := w\<rparr>))
        else Some (NOT_MASTER, st)
      }
      else Some (NOT_MASTER, st))"

lemma query_fields_slave:
  "query_fields send_buffer ctx = Some (b, ctx') \<Longrightarrow> rc_slave_fd ctx' = rc_slave_fd ctx"
proof (induction "fd_bytes (rc_master_fd ctx)" arbitrary: send_buffer ctx rule: less_induct)
  case less
  note step = query_fields.simps [of send_buffer ctx]
  obtain ret c ctx1 where r: "ReceivePkg ctx = Some (ret, c, ctx1)"
    using less.prems step by (cases "ReceivePkg ctx") auto
  show ?case
  proof (cases "length c < 5 \<or> ret \<noteq> 0 \<or> IsQuerryEnd (drop 4 c)")
    case True
    with less.prems step r ReceivePkg_bytes(3) [OF r] show ?thesis by (auto simp: Let_def)
  next
    case False
    then have "query_fields (send_buffer @ [c]) ctx1 = Some (b, ctx')" using less.prems step r by (simp add: Let_def)
    from less.hyps [OF _ this] False ReceivePkg_bytes [OF r] show ?thesis by simp
  qed
qed

lemma query_rows_slave:
  "query_rows my_svrid send_buffer ctx = Some (b, ctx') \<Longrightarrow> rc_slave_fd ctx' = rc_slave_fd ctx"
proof (induction "fd_bytes (rc_master_fd ctx)" arbitrary: send_buffer ctx rule: less_induct)
  case less
  note step = query_rows.simps [of my_svrid send_buffer ctx]
  obtain ret c ctx1 where r: "ReceivePkg ctx = Some (ret, c, ctx1)"
    using less.prems step by (cases "ReceivePkg ctx") auto
  define c' where "c' = (if rc_selfconn ctx1 then take 4 c @ snd (PraseCommand my_svrid (drop 4 c)) else c)"
  have step': "query_rows my_svrid send_buffer ctx =
      (if length c < 5 \<or> ret \<noteq> 0 then Some (send_buffer, ctx1)
       else if IsQuerryEnd (drop 4 c') then Some (send_buffer @ [c'], ctx1) else query_rows my_svrid (send_buffer @ [c']) ctx1)"
    unfolding step r by (simp add: c'_def Let_def)
  show ?case
  proof (cases "length c < 5 \<or> ret \<noteq> 0 \<or> IsQuerryEnd (drop 4 c')")
    case True
    with less.prems step' ReceivePkg_bytes(3) [OF r] show ?thesis by (auto split: if_splits)
  next
    case False
    then have "query_rows my_svrid (send_buffer @ [c']) ctx1 = Some (b, ctx')" using less.prems step' by simp
    from less.hyps [OF _ this] False ReceivePkg_bytes [OF r] show ?thesis by simp
  qed
qed

lemma DealWithMaster_slave:
  assumes "DealWithMaster my_svrid status ctx = Some (ret, b, status', ctx')"
  shows "rc_slave_fd ctx' = rc_slave_fd ctx"
  using assms
  by (auto simp: DealWithMaster_def DealWithEvent_def DealWithQuery_def DealWithSingalMsg_def SetSeq_def Let_def bind_eq_Some_conv
      dest!: ReceivePkg_bytes(3) query_fields_slave query_rows_slave
      split: CommandStatus.splits if_splits)

lemma ProcessWithMasterMsg_step:
  assumes "status \<noteq> ST_RUNNING" "DealWithMaster my_svrid status ctx = Some (r, b, s1, c1)" "send_all b c1 = (r2, c2)"
  shows "ProcessWithMasterMsg my_svrid status ctx =
     (if b \<noteq> [] \<and> r = OK \<and> r2 = 0 \<and> s1 = ST_EVENT then ProcessWithMasterMsg my_svrid s1 c2
      else Some (if b = [] then if s1 = ST_RUNNING then OK else DATA_EMPTY else if r \<noteq> OK then r else r2, s1,
        if b = [] \<or> r \<noteq> OK then c1 else c2))"
  by (subst ProcessWithMasterMsg.simps) (simp add: assms)

lemma ProcessWithMasterMsg_bytes:
  "ProcessWithMasterMsg my_svrid status ctx = Some (ret, status', ctx') \<Longrightarrow> fd_bytes (rc_slave_fd ctx') = fd_bytes (rc_slave_fd ctx)"
proof (induction "fd_bytes (rc_master_fd ctx)" arbitrary: status ctx rule: less_induct)
  case less
  show ?case
  proof (cases "status = ST_RUNNING \<or> DealWithMaster my_svrid status ctx = None")
    case True
    with less.prems show ?thesis by (subst (asm) ProcessWithMasterMsg.simps) (auto split: if_splits)
  next
    case False
    then obtain r b s1 c1 where d: "DealWithMaster my_svrid status ctx = Some (r, b, s1, c1)" by auto
    obtain r2 c2 where a: "send_all b c1 = (r2, c2)" by (cases "send_all b c1") auto
    note s = DealWithMaster_slave [OF d] send_all_bytes [OF a]
    note step = ProcessWithMasterMsg_step [OF _ d a]
    show ?thesis
    proof (cases "b \<noteq> [] \<and> r = OK \<and> r2 = 0 \<and> s1 = ST_EVENT")
      case True
      then have lt: "fd_bytes (rc_master_fd c2) < fd_bytes (rc_master_fd ctx)" using d s DealWithMaster_bytes by auto
      have "ProcessWithMasterMsg my_svrid s1 c2 = Some (ret, status', ctx')" using less.prems False True step by auto
      from less.hyps [OF lt this] s show ?thesis by simp
    next
      case F: False
      with less.prems False step s show ?thesis by (auto split: if_splits)
    qed
  qed
qed

lemma ProcessWithSlaveMsg_bytes:
  assumes "ProcessWithSlaveMsg env status ctx nd = Some (0, status', ctx', nd')"
  shows "fd_bytes (rc_slave_fd ctx') < fd_bytes (rc_slave_fd ctx)"
proof -
  obtain r b fd where r: "NetIO_Receive (rc_slave_fd ctx) = (r, b, fd)" using prod_cases3 by blast
  obtain r2 fd2 where s: "NetIO_Send b (rc_master_fd ctx) = (r2, fd2)" by (cases "NetIO_Send b (rc_master_fd ctx)") auto
  note eq = assms [unfolded ProcessWithSlaveMsg_def r prod.case Let_def]
  have "r = 0" "b \<noteq> []" using eq by (auto split: if_splits)
  then obtain d where "DealWithSlaveMsg env b status nd = Some d" using eq by (cases "DealWithSlaveMsg env b status nd") auto
  with eq \<open>r = 0\<close> \<open>b \<noteq> []\<close> s have "rc_slave_fd ctx' = fd" by (cases d) (auto split: if_splits)
  with NetIO_Receive_bytes(2) [OF r \<open>r = 0\<close>] show ?thesis by simp
qed

text \<open>The login of a slave, from its first package until the events can be transferred.\<close>

function Slave_login ::
  "('w, 'q, 'd) monenv \<Rightarrow> CommandStatus \<Rightarrow> repl_ctx \<Rightarrow> ('w, 'q) monitor \<Rightarrow> (int \<times> repl_ctx \<times> ('w, 'q) monitor) option" where
  "Slave_login v status ctx st = do {
     (ret, status1, ctx1) \<leftarrow> ProcessWithMasterMsg (ne_svrid (mv_env v)) status ctx;
     if ret \<noteq> 0 then Some (ret, ctx1, st)
     else if status1 = ST_RUNNING
     then map_option (\<lambda>(_, st). (ret, Notify ctx1, st)) (CheckIsMaster v st)
     else do {
       (ret, status2, ctx2, nd) \<leftarrow> ProcessWithSlaveMsg (mv_env v) status1 ctx1 (mt_node v st);
       let st = st\<lparr>mt_w := px_set_node (mv_px v) nd (mt_w st)\<rparr>;
       if ret \<noteq> 0 then Some (ret, ctx2, st) else Slave_login v status2 ctx2 st
     }
   }"
  by pat_completeness auto
termination
  by (relation "measure (\<lambda>(v, status, ctx, st). fd_bytes (rc_slave_fd ctx))")
    (auto dest!: ProcessWithMasterMsg_bytes ProcessWithSlaveMsg_bytes)

declare Slave_login.simps [simp del]

definition Slave_Process ::
  "('w, 'q, 'd) monenv \<Rightarrow> repl_ctx \<Rightarrow> ('w, 'q) monitor \<Rightarrow> (int \<times> repl_ctx \<times> ('w, 'q) monitor) option" where
  "Slave_Process v ctx st =
     map_option (\<lambda>(ret, ctx, st). (ret, ctx, st\<lparr>mt_connecting := False\<rparr>))
       (Slave_login v ST_MSG ctx (st\<lparr>mt_connecting := True\<rparr>))"

section \<open>The transfer\<close>

text \<open>The checksum of what was sent must be the stored one; otherwise the process stops.\<close>

definition CountCheckSum ::
  "'d nenv \<Rightarrow> bytes list \<Rightarrow> string \<Rightarrow> u64 \<Rightarrow> 'd node \<Rightarrow> (u64 \<times> 'd node) option" where
  "CountCheckSum env event_list max_gtid checksum nd = do {
     (ret, info, nd) \<leftarrow> EventManager_GetGTIDInfo env max_gtid EventDataInfo_init nd;
     if checksum = 0 then Some (di_checksum info, nd)
     else
       let checksum = foldl (\<lambda>c ev. GetCheckSum c (drop GetEventHeaderSize ev)) checksum event_list
       in if ret \<noteq> 0 \<or> checksum \<noteq> di_checksum info then None else Some (checksum, nd)
   }"

definition Transfer_GetEvents ::
  "'d nenv \<Rightarrow> u64 \<Rightarrow> 'd node \<Rightarrow> (int \<times> bytes list \<times> u64 \<times> 'd node) option" where
  "Transfer_GetEvents env checksum nd = do {
     (ret, event_data, nd) \<leftarrow> GetEvents env [] (if checksum = 0 then 1 else 0) nd;
     if ret \<noteq> 0 then Some (ret, [], checksum, nd)
     else do {
       (ret, event_list, max_gtid, _) \<leftarrow> ParseEventList event_data True [];
       (checksum, nd) \<leftarrow> CountCheckSum env event_list max_gtid checksum nd;
       Some (ret, event_list, checksum, nd)
     }
   }"

fun send_with_seq :: "bytes list \<Rightarrow> repl_ctx \<Rightarrow> int \<times> repl_ctx" where
  "send_with_seq [] ctx = (OK, ctx)"
| "send_with_seq (b # bs) ctx =
     (case NetIO_SendWithSeq b (rc_seq ctx) (rc_slave_fd ctx) of
        (ret, fd) \<Rightarrow>
          let ctx = SetSeq (rc_seq ctx + 1) (ctx\<lparr>rc_slave_fd := fd\<rparr>)
          in if ret \<noteq> 0 then (ret, ctx) else send_with_seq bs ctx)"

text \<open>One round of the transfer; the flag tells whether another one follows.\<close>

definition Transfer_round ::
  "'d nenv \<Rightarrow> int \<Rightarrow> u64 \<Rightarrow> repl_ctx \<Rightarrow> 'd node \<Rightarrow> (bool \<times> int \<times> u64 \<times> repl_ctx \<times> 'd node) option" where
  "Transfer_round env ret checksum ctx nd =
     (if rc_close ctx then Some (False, ret, checksum, ctx, nd)
      else do {
        (ret, recv_buff, checksum, nd) \<leftarrow> Transfer_GetEvents env checksum nd;
        if ret \<noteq> OK \<and> ret \<noteq> DATA_EMPTY then Some (False, ret, checksum, ctx, nd)
        else if rc_slave_fd ctx = None then Some (False, ret, checksum, ctx, nd)
        else if recv_buff = [] then Some (True, ret, checksum, ctx, nd)
        else case send_with_seq recv_buff ctx of
          (ret, ctx) \<Rightarrow> Some (ret = 0, ret, checksum, ctx, nd)
      })"

section \<open>Query results\<close>

text \<open>
  A result that was cut off is passed on. Once the first package of a query result has arrived, the
  relay reports success, also when the connection to the master is lost in the middle of the result.
\<close>

theorem DealWithQuery_cut_off:
  assumes "ReceivePkg ctx = Some (OK, first, ctx1)" "5 \<le> length first" "first ! 4 \<noteq> 0"
    and "rc_master_fd ctx1 = Some sk" "sk_chunks sk = []"
  shows "\<exists>ctx'. DealWithQuery my_svrid ctx = Some (OK, [first], ctx')"
proof -
  let ?ret = "if sk_broken sk then NET_SOCKET_FAIL else NET_SOCKET_LOST"
  have n: "NetIO_Receive (Some sk) = (?ret, [], Some sk)"
    using assms(5) by (simp add: NetIO_Receive_def NetIO_Receive_n.simps sock_recv_def)
  have r: "ReceivePkg ctx1 = Some (SOCKET_FAIL, [], ctx1\<lparr>rc_master_fd := Some sk\<rparr>)"
    using n assms(4) by (simp add: ReceivePkg_def)
  have same: "ctx1\<lparr>rc_master_fd := Some sk\<rparr> = ctx1" using assms(4) by simp
  have "query_fields [first] ctx1 = Some ([first], ctx1)" "query_rows my_svrid [first] ctx1 = Some ([first], ctx1)"
    using r same by (simp_all add: query_fields.simps query_rows.simps)
  with assms(1-3) show ?thesis by (simp add: DealWithQuery_def)
qed

text \<open>A connection on which one package of a result arrives before it is lost.\<close>

definition cut_ctx :: repl_ctx where
  "cut_ctx = \<lparr>rc_seq = 0, rc_selfconn = False, rc_inited = False, rc_close = False,
     rc_master_fd = Some \<lparr>sk_chunks = [[1, 0, 0, 1, 2]], sk_broken = True, sk_sent = [], sk_room = 100\<rparr>, rc_slave_fd = None\<rparr>"

theorem DealWithQuery_cut_off_witness:
  "\<exists>ctx'. DealWithQuery 5 cut_ctx = Some (OK, [[1, 0, 0, 1, 2]], ctx')"
proof -
  let ?sk = "\<lparr>sk_chunks = [], sk_broken = True, sk_sent = [], sk_room = 100\<rparr>"
  have "NetIO_Receive_n 4 [] \<lparr>sk_chunks = [[1, 0, 0, 1, 2]], sk_broken = True, sk_sent = [], sk_room = 100\<rparr> =
      (OK, [1, 0, 0, 1], \<lparr>sk_chunks = [[2]], sk_broken = True, sk_sent = [], sk_room = 100\<rparr>)"
    by (simp add: NetIO_Receive_n.simps sock_recv_def)
  moreover have "NetIO_Receive_n 1 [] \<lparr>sk_chunks = [[2]], sk_broken = True, sk_sent = [], sk_room = 100\<rparr> = (OK, [2], ?sk)"
    by (simp add: NetIO_Receive_n.simps sock_recv_def)
  ultimately have "ReceivePkg cut_ctx = Some (OK, [1, 0, 0, 1, 2], cut_ctx\<lparr>rc_master_fd := Some ?sk\<rparr>)"
    by (simp add: ReceivePkg_def NetIO_Receive_def cut_ctx_def)
  from DealWithQuery_cut_off [OF this] show ?thesis by simp
qed

section \<open>The server id\<close>

lemma row_fields_two:
  assumes "length k < 256" "length v < 256"
  shows "row_fields (of_nat (length k) # k @ of_nat (length v) # v) 0 = [(1, length k), (length k + 2, length v)]"
proof -
  let ?b = "of_nat (length k) # k @ of_nat (length v) # (v :: bytes)"
  have "unat (of_nat (length k) :: byte) = length k" "unat (of_nat (length v) :: byte) = length v"
    using assms by (simp_all add: unat_of_nat)
  moreover have "row_fields ?b (length k + length v + 2) = []" by (simp add: row_fields.simps)
  ultimately have "row_fields ?b (Suc (length k)) = [(length k + 2, length v)]"
    by (subst row_fields.simps) (simp add: nth_append Let_def numeral_eq_Suc add.commute add.left_commute)
  with \<open>unat (of_nat (length k) :: byte) = length k\<close> show ?thesis
    by (subst row_fields.simps) (simp add: Let_def numeral_eq_Suc)
qed

text \<open>A row with two fields.\<close>

definition row2 :: "bytes \<Rightarrow> bytes \<Rightarrow> bytes" where
  "row2 k v = of_nat (length k) # k @ of_nat (length v) # v"

lemma bump_id: "bump b = b \<longleftrightarrow> \<not> sint b < 57"
  by (simp add: bump_def)

lemma map_bump_id: "map bump bs = bs \<longleftrightarrow> \<not> (\<exists>b\<in>set bs. sint b < 57)"
  by (induction bs) (auto simp: bump_id)

text \<open>
  The faked server id. In a row with the server id, every digit after the first that is below 9 is
  increased and nothing else changes, so the slave sees another id, of the same length, exactly when such
  a digit exists.
\<close>

theorem PraseCommand_server_id:
  assumes "length v < 256"
  shows "\<exists>w. snd (PraseCommand my_svrid (row2 (str_bytes ''server_id'') v)) = row2 (str_bytes ''server_id'') w \<and>
    length w = length v \<and> take 1 w = take 1 v \<and> drop 1 w = map bump (drop 1 v) \<and>
    (w \<noteq> v \<longleftrightarrow> (\<exists>b\<in>set (drop 1 v). sint b < 57))"
proof -
  let ?k = "str_bytes ''server_id''" and ?w = "case v of [] \<Rightarrow> [] | b # bs \<Rightarrow> b # map bump bs"
  let ?b = "row2 ?k v"
  have k: "length ?k = 9" by (simp add: str_bytes_def)
  have rf: "row_fields ?b 0 = [(1, 9), (11, length v)]" using row_fields_two [of ?k v] assms k by (simp add: row2_def)
  have b: "?b = (9 # ?k @ [of_nat (length v)]) @ v" using k by (simp add: row2_def)
  have ne: "\<not> IsQuerryEnd ?b" by (simp add: IsQuerryEnd_def row2_def k)
  have f: "take 9 (drop 1 ?b) = ?k" "take (length v) (drop 11 ?b) = v" unfolding b using k by simp_all
  have rw: "ReWriteCommand ?k u ?k = (\<exists>b\<in>set (tl u). sint b < 57, case u of [] \<Rightarrow> [] | b # bs \<Rightarrow> b # map bump bs)"
    "ReWriteCommand ?k u (str_bytes ''server_uuid'') = (False, u)" for u
    by (simp_all add: ReWriteCommand_def str_bytes_def lower_byte_def)
  have w: "length ?w = length v" "take 1 ?w = take 1 v" "drop 1 ?w = map bump (drop 1 v)"
    "?w \<noteq> v \<longleftrightarrow> (\<exists>b\<in>set (drop 1 v). sint b < 57)"
    by (cases v; simp add: map_bump_id)+
  have "put_bytes ?b 11 ?w = (9 # ?k @ [of_nat (length v)]) @ ?w" unfolding b put_bytes_def using k w(1) by simp
  then have "put_bytes ?b 11 ?w = row2 ?k ?w" using k w(1) by (simp add: row2_def)
  with ne rf f rw have "snd (PraseCommand my_svrid ?b) = row2 ?k ?w"
    by (simp add: PraseCommand_def Let_def)
  with w show ?thesis by blast
qed

theorem PraseCommand_server_id_witness:
  "\<exists>w. snd (PraseCommand 17 (row2 (str_bytes ''server_id'') (str_bytes ''19''))) = row2 (str_bytes ''server_id'') w \<and> w = str_bytes ''19''"
  using PraseCommand_server_id [of "str_bytes ''19''" 17] by (auto simp: str_bytes_def)

end
