(* ===== verification/Rpc.thy ===== *)
theory Rpc
  imports Failover
begin

text \<open>
  The service of the binlog server: its messages (\<^verbatim>\<open>proto/phxbinlogsvr.proto\<close>), the client
  (\<^verbatim>\<open>rpccomm/phxbinlog_client.cpp\<close> over \<^verbatim>\<open>phxrpc/client/phxbinlog_stub_phxrpc.cpp\<close>) and the server
  (\<^verbatim>\<open>rpccomm/phxbinlog_svr_logic.cpp\<close> over the agent of \<^verbatim>\<open>core/agent\<close>). The RPC library is a parameter.
\<close>

section \<open>Messages\<close>

record BinLogBuffer =
  bb_oldgtid :: string
  bb_newgtid :: string
  bb_eventbuffer :: bytes

record RpcMasterInfo =
  rm_ip :: string
  rm_expire_time :: u32
  rm_version :: u32
  rm_update_time :: "u32 option"
  rm_current_time :: "u32 option"

record ExportIPInfo =
  xi_ip :: string
  xi_port :: u32

record MySqlUserModefiedInfo =
  um_now_admin_username :: string
  um_now_admin_pwd :: string
  um_new_username :: string
  um_new_pwd :: string

record MemberList =
  ml_ip_list :: "string list"
  ml_port :: u32

text \<open>The generated classes; the messages with one field are coded by their field.\<close>

record rpc_codecs =
  rk_binlog :: "BinLogBuffer codec"
  rk_master :: "RpcMasterInfo codec"
  rk_export :: "ExportIPInfo codec"
  rk_heart :: "u32 codec"
  rk_change :: "string codec"
  rk_user :: "MySqlUserModefiedInfo codec"
  rk_members :: "MemberList codec"

datatype rpc_method =
    SendBinLog | GetMasterInfoFromGlobal | GetMasterInfoFromLocal | GetLastSendGtidFromGlobal
  | GetLastSendGtidFromLocal | SetExportIP | HeartBeat | AddMember | RemoveMember | SetMySqlAdminInfo
  | SetMySqlReplicaInfo | GetMemberList | InitBinlogSvrMaster

section \<open>Calls\<close>

text \<open>
  The library: \<open>rp_call\<close> opens a connection to an address and calls a method, \<open>None\<close> when it cannot be
  opened; \<open>rp_order\<close> is the order in which calls that are made together end. \<open>'n\<close> is the network.
\<close>

record 'n rpc_api =
  rp_call :: "string \<Rightarrow> u32 \<Rightarrow> rpc_method \<Rightarrow> bytes \<Rightarrow> 'n \<Rightarrow> (int \<times> bytes) option \<times> 'n"
  rp_order :: "nat \<Rightarrow> 'n \<Rightarrow> nat list"

definition RpcCallWithIP :: "'n rpc_api \<Rightarrow> rpc_method \<Rightarrow> string \<Rightarrow> u32 \<Rightarrow> bytes \<Rightarrow> 'n \<Rightarrow> int \<times> bytes \<times> 'n" where
  "RpcCallWithIP api func ip port req n =
     (case rp_call api ip port func req n of
        (None, n) \<Rightarrow> (-1, [], n)
      | (Some (ret, resp), n) \<Rightarrow> (ret, if ret = 0 then resp else [], n))"

text \<open>
  A call to all members. An answer that did not arrive stays at -202; when more than half of the members
  have answered, the others are not waited for.
\<close>

fun call_in_order ::
  "'n rpc_api \<Rightarrow> rpc_method \<Rightarrow> string list \<Rightarrow> u32 \<Rightarrow> bytes \<Rightarrow> nat list \<Rightarrow> nat \<Rightarrow> (bytes \<times> int) list \<Rightarrow> 'n \<Rightarrow> (bytes \<times> int) list \<times> 'n" where
  "call_in_order api func iplist port req [] success_count resp_bufferlist n = (resp_bufferlist, n)"
| "call_in_order api func iplist port req (i # is) success_count resp_bufferlist n =
     (if i < length iplist
      then case rp_call api (iplist ! i) port func req n of
        (None, n) \<Rightarrow> call_in_order api func iplist port req is success_count resp_bufferlist n
      | (Some (ret, resp), n) \<Rightarrow>
          let resp_bufferlist = resp_bufferlist[i := (resp, ret)];
              success_count = (if ret = 0 then success_count + 1 else success_count)
          in if ret = 0 \<and> length iplist < 2 * success_count then (resp_bufferlist, n)
             else call_in_order api func iplist port req is success_count resp_bufferlist n
      else call_in_order api func iplist port req is success_count resp_bufferlist n)"

definition RpcCallWithIPList ::
  "'n rpc_api \<Rightarrow> rpc_method \<Rightarrow> string list \<Rightarrow> u32 \<Rightarrow> bytes \<Rightarrow> 'n \<Rightarrow> int \<times> (bytes \<times> int) list \<times> 'n" where
  "RpcCallWithIPList api func iplist port req n =
     (case call_in_order api func iplist port req (rp_order api (length iplist) n) 0 (replicate (length iplist) ([], -202)) n of
        (resp_bufferlist, n) \<Rightarrow> (0, resp_bufferlist, n))"

section \<open>The client\<close>

text \<open>
  The client of one server, at the address of its stub. The remaining time of a lease is computed on the
  clock of the server that answered and added to the local clock, \<open>now\<close>.
\<close>

record 'n client =
  cl_api :: "'n rpc_api"
  cl_codecs :: rpc_codecs
  cl_ip :: string
  cl_port :: u32

definition RpcCall :: "'n client \<Rightarrow> rpc_method \<Rightarrow> bytes \<Rightarrow> 'n \<Rightarrow> int \<times> bytes \<times> 'n" where
  "RpcCall c func req n = RpcCallWithIP (cl_api c) func (cl_ip c) (cl_port c) req n"

definition DecodeMasterInfo :: "RpcMasterInfo codec \<Rightarrow> int \<Rightarrow> bytes \<Rightarrow> (string \<times> u32 \<times> u32) option" where
  "DecodeMasterInfo c now decode_buffer =
     map_option (\<lambda>master_info.
       let update_time = (case rm_update_time master_info of Some t \<Rightarrow> t | None \<Rightarrow> 0);
           current_time = (case rm_current_time master_info of Some t \<Rightarrow> t | None \<Rightarrow> 0);
           delta_time = (if current_time \<noteq> 0 then rm_expire_time master_info - current_time
             else rm_expire_time master_info - of_int now)
       in (rm_ip master_info, if update_time = 0 then rm_expire_time master_info else of_int now + delta_time,
           rm_version master_info)) (dec c decode_buffer)"

definition EncodeBinLogBuffer :: "BinLogBuffer codec \<Rightarrow> string \<Rightarrow> string \<Rightarrow> bytes \<Rightarrow> bytes option" where
  "EncodeBinLogBuffer c old_gtid new_gtid eventbuffer =
     enc c \<lparr>bb_oldgtid = old_gtid, bb_newgtid = new_gtid, bb_eventbuffer = eventbuffer\<rparr>"

text \<open>A request that is coded and sent, without an answer.\<close>

definition send_request :: "'n client \<Rightarrow> rpc_method \<Rightarrow> bytes option \<Rightarrow> 'n \<Rightarrow> int \<times> 'n" where
  "send_request c func req n =
     (case req of None \<Rightarrow> (BUFFER_FAIL, n) | Some b \<Rightarrow> (case RpcCall c func b n of (ret, _, n) \<Rightarrow> (ret, n)))"

definition Client_SendBinLog_gtid :: "'n client \<Rightarrow> string \<Rightarrow> string \<Rightarrow> bytes \<Rightarrow> 'n \<Rightarrow> int \<times> 'n" where
  "Client_SendBinLog_gtid c oldgtid newgtid event_buffer n =
     send_request c SendBinLog (EncodeBinLogBuffer (rk_binlog (cl_codecs c)) oldgtid newgtid event_buffer) n"

definition Client_SendBinLog :: "'n client \<Rightarrow> string \<Rightarrow> bytes \<Rightarrow> 'n \<Rightarrow> (int \<times> string \<times> 'n) option" where
  "Client_SendBinLog c oldgtid event_buffer n = do {
     (ret, _, max_gtid, _) \<leftarrow> ParseEventList event_buffer False [];
     if ret \<noteq> 0 then Some (BUFFER_FAIL, max_gtid, n)
     else Some (case Client_SendBinLog_gtid c oldgtid max_gtid event_buffer n of (ret, n) \<Rightarrow> (ret, max_gtid, n))
   }"

definition Client_SetExportIP :: "'n client \<Rightarrow> string \<Rightarrow> u32 \<Rightarrow> 'n \<Rightarrow> int \<times> 'n" where
  "Client_SetExportIP c ip port n =
     send_request c SetExportIP (enc (rk_export (cl_codecs c)) \<lparr>xi_ip = ip, xi_port = port\<rparr>) n"

definition Client_AddMember :: "'n client \<Rightarrow> string \<Rightarrow> 'n \<Rightarrow> int \<times> 'n" where
  "Client_AddMember c ip n = send_request c AddMember (enc (rk_change (cl_codecs c)) ip) n"

definition Client_RemoveMember :: "'n client \<Rightarrow> string \<Rightarrow> 'n \<Rightarrow> int \<times> 'n" where
  "Client_RemoveMember c ip n = send_request c RemoveMember (enc (rk_change (cl_codecs c)) ip) n"

definition Client_HeartBeat :: "'n client \<Rightarrow> u32 \<Rightarrow> 'n \<Rightarrow> int \<times> 'n" where
  "Client_HeartBeat c flag n = send_request c HeartBeat (enc (rk_heart (cl_codecs c)) flag) n"

definition Client_SetMySqlAdminInfo :: "'n client \<Rightarrow> string \<Rightarrow> string \<Rightarrow> string \<Rightarrow> string \<Rightarrow> 'n \<Rightarrow> int \<times> 'n" where
  "Client_SetMySqlAdminInfo c now_admin_username now_admin_pwd new_admin_username new_admin_pwd n =
     send_request c SetMySqlAdminInfo (enc (rk_user (cl_codecs c))
       \<lparr>um_now_admin_username = now_admin_username, um_now_admin_pwd = now_admin_pwd,
        um_new_username = new_admin_username, um_new_pwd = new_admin_pwd\<rparr>) n"

definition Client_SetMySqlReplicaInfo :: "'n client \<Rightarrow> string \<Rightarrow> string \<Rightarrow> string \<Rightarrow> string \<Rightarrow> 'n \<Rightarrow> int \<times> 'n" where
  "Client_SetMySqlReplicaInfo c now_admin_username now_admin_pwd new_replica_username new_replica_pwd n =
     send_request c SetMySqlReplicaInfo (enc (rk_user (cl_codecs c))
       \<lparr>um_now_admin_username = now_admin_username, um_now_admin_pwd = now_admin_pwd,
        um_new_username = new_replica_username, um_new_pwd = new_replica_pwd\<rparr>) n"

definition Client_InitBinlogSvrMaster :: "'n client \<Rightarrow> 'n \<Rightarrow> int \<times> 'n" where
  "Client_InitBinlogSvrMaster c n = send_request c InitBinlogSvrMaster (Some []) n"

definition Client_GetMemberList :: "'n client \<Rightarrow> string list \<Rightarrow> u32 \<Rightarrow> 'n \<Rightarrow> int \<times> string list \<times> u32 \<times> 'n" where
  "Client_GetMemberList c ip_list port n =
     (case RpcCall c GetMemberList [] n of
        (ret, resp, n) \<Rightarrow>
          if ret \<noteq> 0 then (ret, ip_list, port, n)
          else case dec (rk_members (cl_codecs c)) resp of
            None \<Rightarrow> (BUFFER_FAIL, ip_list, port, n)
          | Some ml \<Rightarrow> (ret, ip_list @ ml_ip_list ml, ml_port ml, n))"

definition Client_GetMaster ::
  "'n client \<Rightarrow> int \<Rightarrow> rpc_method \<Rightarrow> string \<times> u32 \<times> u32 \<Rightarrow> 'n \<Rightarrow> int \<times> (string \<times> u32 \<times> u32) \<times> 'n" where
  "Client_GetMaster c now func m n =
     (case RpcCall c func [] n of
        (ret, resp, n) \<Rightarrow>
          if ret \<noteq> 0 then (ret, m, n)
          else case DecodeMasterInfo (rk_master (cl_codecs c)) now resp of
            None \<Rightarrow> (BUFFER_FAIL, m, n)
          | Some m \<Rightarrow> (ret, m, n))"

definition Client_GetLastSendGtid :: "'n client \<Rightarrow> rpc_method \<Rightarrow> string \<Rightarrow> string \<Rightarrow> 'n \<Rightarrow> int \<times> string \<times> 'n" where
  "Client_GetLastSendGtid c func uuid last_send_gtid n =
     (case RpcCall c func (str_bytes uuid) n of
        (ret, resp, n) \<Rightarrow> (ret, if ret = 0 then bytes_str resp else last_send_gtid, n))"

subsection \<open>Asking all members\<close>

text \<open>The answer with the highest version wins, of equal versions the one that expires first.\<close>

fun pick_master ::
  "RpcMasterInfo codec \<Rightarrow> int \<Rightarrow> (bytes \<times> int) list \<Rightarrow> int \<Rightarrow> nat \<Rightarrow> string \<times> u32 \<times> u32 \<Rightarrow> int \<times> nat \<times> (string \<times> u32 \<times> u32)" where
  "pick_master c now [] ret ok_num m = (ret, ok_num, m)"
| "pick_master c now ((resp, code) # rs) ret ok_num (ip, expire_time, version) =
     (if code \<noteq> 0 then pick_master c now rs code ok_num (ip, expire_time, version)
      else case DecodeMasterInfo c now resp of
        None \<Rightarrow> pick_master c now rs BUFFER_FAIL ok_num (ip, expire_time, version)
      | Some (t_ip, t_expire_time, t_version) \<Rightarrow>
          pick_master c now rs ret (ok_num + 1)
            (if t_version > version \<or> t_version = version \<and> t_expire_time < expire_time
             then (t_ip, t_expire_time, t_version) else (ip, expire_time, version)))"

fun last_error :: "(bytes \<times> int) list \<Rightarrow> int \<Rightarrow> int" where
  "last_error [] ret = ret"
| "last_error ((resp, code) # rs) ret = last_error rs (if code \<noteq> 0 then code else ret)"

definition GetGlobalMaster ::
  "'n client \<Rightarrow> int \<Rightarrow> string list \<Rightarrow> u32 \<Rightarrow> bool \<Rightarrow> string \<times> u32 \<times> u32 \<Rightarrow> 'n \<Rightarrow> int \<times> (string \<times> u32 \<times> u32) \<times> 'n" where
  "GetGlobalMaster c now iplist port require_majority m n =
     (case RpcCallWithIPList (cl_api c) GetMasterInfoFromLocal iplist port [] n of
        (ret, resp_bufferlist, n) \<Rightarrow>
          if ret \<noteq> 0 then (last_error resp_bufferlist ret, m, n)
          else case pick_master (rk_master (cl_codecs c)) now resp_bufferlist ret 0 m of
            (ret, ok_num, m) \<Rightarrow>
              (if \<not> require_majority \<and> ok_num > 0 \<or> 2 * ok_num \<ge> length iplist then OK else last_error resp_bufferlist ret, m, n))"

fun pick_gtid :: "(bytes \<times> int) list \<Rightarrow> int \<Rightarrow> nat \<Rightarrow> string \<Rightarrow> int \<times> nat \<times> string" where
  "pick_gtid [] ret ok_num last_send_gtid = (ret, ok_num, last_send_gtid)"
| "pick_gtid ((resp, code) # rs) ret ok_num last_send_gtid =
     (if code \<noteq> 0 then pick_gtid rs code ok_num last_send_gtid
      else pick_gtid rs ret (ok_num + 1)
             (if GTIDCmp last_send_gtid (bytes_str resp) < 0 then bytes_str resp else last_send_gtid))"

definition GetGlobalLastSendGtid ::
  "'n client \<Rightarrow> string list \<Rightarrow> u32 \<Rightarrow> string \<Rightarrow> string \<Rightarrow> 'n \<Rightarrow> int \<times> string \<times> 'n" where
  "GetGlobalLastSendGtid c iplist port uuid last_send_gtid n =
     (case RpcCallWithIPList (cl_api c) GetLastSendGtidFromLocal iplist port (str_bytes uuid) n of
        (ret, resp_bufferlist, n) \<Rightarrow>
          if ret \<noteq> 0 then (ret, last_send_gtid, n)
          else case pick_gtid resp_bufferlist ret 0 last_send_gtid of
            (ret, ok_num, g) \<Rightarrow> (if 2 * ok_num \<ge> length iplist then OK else ret, g, n))"

section \<open>The server\<close>

text \<open>
  What the handlers of a server use: the monitor with its node and its MySQL, a client for the other
  members, the port of the consensus library and the leader to follow. The network \<open>'n\<close> is threaded beside.
\<close>

record ('w, 'q, 'd, 'n) svrenv =
  sr_mon :: "('w, 'q, 'd) monenv"
  sr_client :: "'n client"
  sr_paxos_port :: u32
  sr_follow_ip :: string

abbreviation sr_time :: "('w, 'q, 'd, 'n) svrenv \<Rightarrow> ('w, 'q) monitor \<Rightarrow> u32" where
  "sr_time v st \<equiv> fs_now (nd_fs (mt_node (sr_mon v) st))"

definition GetIPList :: "('w, 'q, 'd, 'n) svrenv \<Rightarrow> ('w, 'q) monitor \<Rightarrow> string list" where
  "GetIPList v st = GetMemberIPList (nd_mm (mt_node (sr_mon v) st))"

definition Svr_SendBinLog :: "('w, 'q, 'd, 'n) svrenv \<Rightarrow> bytes \<Rightarrow> ('w, 'q) monitor \<Rightarrow> int \<times> ('w, 'q) monitor" where
  "Svr_SendBinLog v event_buffer st =
     (if event_buffer = [] then (BUFFER_FAIL, st)
      else case dec (rk_binlog (cl_codecs (sr_client v))) event_buffer of
        None \<Rightarrow> (BUFFER_FAIL, st)
      | Some req \<Rightarrow>
          (case DataManager_SendEvent (mv_env (sr_mon v)) (mv_px (sr_mon v)) (bb_oldgtid req) (bb_newgtid req) (bb_eventbuffer req) (mt_w st) of
             (ret, w) \<Rightarrow> (ret, st\<lparr>mt_w := w\<rparr>)))"

definition Svr_SetExportIP :: "('w, 'q, 'd, 'n) svrenv \<Rightarrow> bytes \<Rightarrow> ('w, 'q) monitor \<Rightarrow> int \<times> ('w, 'q) monitor" where
  "Svr_SetExportIP v req_buff st =
     (case dec (rk_export (cl_codecs (sr_client v))) req_buff of
        None \<Rightarrow> (BUFFER_FAIL, st)
      | Some req \<Rightarrow>
          (case MasterAgent_SetExportIP (mv_env (sr_mon v)) (mv_px (sr_mon v)) (xi_ip req) (xi_port req) (mt_w st) of
             (ret, w) \<Rightarrow> (ret, st\<lparr>mt_w := w\<rparr>)))"

text \<open>The lease as this server knows it, with its clock.\<close>

definition RealGetLocalMasterInfo ::
  "('w, 'q, 'd, 'n) svrenv \<Rightarrow> ('w, 'q) monitor \<Rightarrow> int \<times> RpcMasterInfo option \<times> ('w, 'q) monitor" where
  "RealGetLocalMasterInfo v st =
     (let nd = mt_node (sr_mon v) st
      in case GetMasterInfo_rpc (nd_now nd) (ne_svrid (mv_env (sr_mon v))) (nd_mm nd) of
        (ret, m, mm) \<Rightarrow>
          (ret, map_option (\<lambda>(ip, update_time, expire_time, version).
             \<lparr>rm_ip = ip, rm_expire_time = expire_time, rm_version = version, rm_update_time = Some update_time,
              rm_current_time = Some (sr_time v st)\<rparr>) m,
           st\<lparr>mt_w := px_set_node (mv_px (sr_mon v)) (nd\<lparr>nd_mm := mm\<rparr>) (mt_w st)\<rparr>))"

definition Svr_GetMasterInfoFromLocal ::
  "('w, 'q, 'd, 'n) svrenv \<Rightarrow> ('w, 'q) monitor \<Rightarrow> int \<times> bytes \<times> ('w, 'q) monitor" where
  "Svr_GetMasterInfoFromLocal v st =
     (case RealGetLocalMasterInfo v st of
        (ret, m, st) \<Rightarrow>
          (case m of
             None \<Rightarrow> (ret, [], st)
           | Some m \<Rightarrow> (case enc (rk_master (cl_codecs (sr_client v))) m of None \<Rightarrow> (BUFFER_FAIL, [], st) | Some b \<Rightarrow> (ret, b, st))))"

text \<open>The lease as all members know it; the answer carries an expiry on the clock of this server.\<close>

definition RealGetMasterInfo ::
  "('w, 'q, 'd, 'n) svrenv \<Rightarrow> ('w, 'q) monitor \<Rightarrow> 'n \<Rightarrow> int \<times> RpcMasterInfo \<times> 'n" where
  "RealGetMasterInfo v st n =
     (case GetGlobalMaster (sr_client v) (uint (sr_time v st)) (GetIPList v st) (cl_port (sr_client v)) True ([], 0, 0) n of
        (ret, (ip, expire_time, version), n) \<Rightarrow>
          (ret, \<lparr>rm_ip = ip, rm_expire_time = expire_time, rm_version = version, rm_update_time = None, rm_current_time = None\<rparr>, n))"

definition Svr_GetMasterInfoFromGlobal ::
  "('w, 'q, 'd, 'n) svrenv \<Rightarrow> ('w, 'q) monitor \<Rightarrow> 'n \<Rightarrow> int \<times> bytes \<times> 'n" where
  "Svr_GetMasterInfoFromGlobal v st n =
     (case RealGetMasterInfo v st n of
        (ret, m, n) \<Rightarrow>
          if ret \<noteq> 0 then (ret, [], n)
          else case enc (rk_master (cl_codecs (sr_client v))) m of None \<Rightarrow> (BUFFER_FAIL, [], n) | Some b \<Rightarrow> (ret, b, n))"

definition Svr_GetLastSendGTIDFromLocal :: "('w, 'q, 'd, 'n) svrenv \<Rightarrow> string \<Rightarrow> ('w, 'q) monitor \<Rightarrow> int \<times> string" where
  "Svr_GetLastSendGTIDFromLocal v uuid st = (OK, GetLastSendGTID uuid (mt_node (sr_mon v) st))"

text \<open>The newest GTID of a server is looked up on the master, after all chosen values were executed there.\<close>

definition RealGetLastSendGTID ::
  "('w, 'q, 'd, 'n) svrenv \<Rightarrow> string \<Rightarrow> string \<Rightarrow> ('w, 'q) monitor \<Rightarrow> 'n \<Rightarrow> int \<times> string \<times> ('w, 'q) monitor \<times> 'n" where
  "RealGetLastSendGTID v uuid gtid st n =
     (case GetGlobalMaster (sr_client v) (uint (sr_time v st)) (GetIPList v st) (cl_port (sr_client v)) True ([], 0, 0) n of
        (ret, (ip, _, _), n) \<Rightarrow>
          if ret \<noteq> 0 then (ret, gtid, st, n)
          else if ip = me_engine_ip (mv_my (sr_mon v))
          then (case EventAgent_FlushData (mv_env (sr_mon v)) (mv_px (sr_mon v)) (mt_w st) of
                  (ret, w) \<Rightarrow>
                    let st = st\<lparr>mt_w := w\<rparr>
                    in if ret = 0 then (OK, snd (Svr_GetLastSendGTIDFromLocal v uuid st), st, n) else (ret, gtid, st, n))
          else case Client_GetLastSendGtid ((sr_client v)\<lparr>cl_ip := ip\<rparr>) GetLastSendGtidFromGlobal uuid gtid n of
            (ret, gtid, n) \<Rightarrow> (ret, gtid, st, n))"

definition Svr_HeartBeat :: "('w, 'q, 'd, 'n) svrenv \<Rightarrow> bytes \<Rightarrow> ('w, 'q) monitor \<Rightarrow> int \<times> ('w, 'q) monitor" where
  "Svr_HeartBeat v req_buffer st =
     (case dec (rk_heart (cl_codecs (sr_client v))) req_buffer of
        None \<Rightarrow> (BUFFER_FAIL, st)
      | Some flag \<Rightarrow> (0, st\<lparr>mt_external := ExternalMonitor_SetHeartBeat (sr_time v st) flag (mt_external st)\<rparr>))"

definition Svr_AddMember :: "('w, 'q, 'd, 'n) svrenv \<Rightarrow> bytes \<Rightarrow> ('w, 'q) monitor \<Rightarrow> int \<times> ('w, 'q) monitor" where
  "Svr_AddMember v req_buffer st =
     (case dec (rk_change (cl_codecs (sr_client v))) req_buffer of
        None \<Rightarrow> (BUFFER_FAIL, st)
      | Some ip \<Rightarrow> (case PaxosAgent_AddMember (mv_px (sr_mon v)) (sr_paxos_port v) ip (mt_w st) of (ret, w) \<Rightarrow> (ret, st\<lparr>mt_w := w\<rparr>)))"

definition Svr_RemoveMember ::
  "('w, 'q, 'd, 'n) svrenv \<Rightarrow> bytes \<Rightarrow> ('w, 'q) monitor \<Rightarrow> (int \<times> ('w, 'q) monitor) option" where
  "Svr_RemoveMember v req_buffer st =
     (case dec (rk_change (cl_codecs (sr_client v))) req_buffer of
        None \<Rightarrow> Some (BUFFER_FAIL, st)
      | Some ip \<Rightarrow> do {
          (removed, q) \<leftarrow> RemoveMemberAdminPermission (mv_my (sr_mon v)) (mt_store (sr_mon v) st) ip (mt_q st);
          Some (case MasterAgent_RemoveMember (mv_px (sr_mon v)) (sr_paxos_port v) (\<lambda>_. removed) ip (mt_w st) of
            (ret, w) \<Rightarrow> (ret, st\<lparr>mt_w := w, mt_q := q\<rparr>))
        })"

definition Svr_SetMySqlAdminInfo ::
  "('w, 'q, 'd, 'n) svrenv \<Rightarrow> bytes \<Rightarrow> ('w, 'q) monitor \<Rightarrow> (int \<times> ('w, 'q) monitor) option" where
  "Svr_SetMySqlAdminInfo v req_buffer st =
     (case dec (rk_user (cl_codecs (sr_client v))) req_buffer of
        None \<Rightarrow> Some (BUFFER_FAIL, st)
      | Some u \<Rightarrow> set_admin (sr_mon v) (um_now_admin_username u) (um_now_admin_pwd u) (um_new_username u) (um_new_pwd u) st)"

definition Svr_SetMySqlReplicaInfo ::
  "('w, 'q, 'd, 'n) svrenv \<Rightarrow> bytes \<Rightarrow> ('w, 'q) monitor \<Rightarrow> (int \<times> ('w, 'q) monitor) option" where
  "Svr_SetMySqlReplicaInfo v req_buffer st =
     (case dec (rk_user (cl_codecs (sr_client v))) req_buffer of
        None \<Rightarrow> Some (BUFFER_FAIL, st)
      | Some u \<Rightarrow> set_replica (sr_mon v) (um_now_admin_username u) (um_now_admin_pwd u) (um_new_username u) (um_new_pwd u) st)"

definition Svr_GetMemberList :: "('w, 'q, 'd, 'n) svrenv \<Rightarrow> ('w, 'q) monitor \<Rightarrow> int \<times> bytes" where
  "Svr_GetMemberList v st =
     (case enc (rk_members (cl_codecs (sr_client v))) \<lparr>ml_ip_list = GetIPList v st, ml_port = cl_port (sr_client v)\<rparr> of
        None \<Rightarrow> (BUFFER_FAIL, []) | Some b \<Rightarrow> (OK, b))"

definition Svr_InitBinlogSvrMaster :: "('w, 'q, 'd, 'n) svrenv \<Rightarrow> ('w, 'q) monitor \<Rightarrow> (int \<times> ('w, 'q) monitor) option" where
  "Svr_InitBinlogSvrMaster v st =
     map_option (\<lambda>(ret, w). (ret, st\<lparr>mt_w := w\<rparr>))
       (MasterAgent_InitMaster (mv_px (sr_mon v)) (sr_follow_ip v) (me_engine_ip (mv_my (sr_mon v)), sr_paxos_port v) (mt_w st))"

section \<open>The newest master\<close>

definition answer :: "RpcMasterInfo codec \<Rightarrow> int \<Rightarrow> bytes \<times> int \<Rightarrow> (string \<times> u32 \<times> u32) option" where
  "answer c now r = (if snd r = 0 then DecodeMasterInfo c now (fst r) else None)"

lemma pick_master_answers:
  "pick_master c now rs ret k m = (ret', k', m') \<Longrightarrow>
     k' = k + length (filter (\<lambda>r. answer c now r \<noteq> None) rs) \<and>
     (m' = m \<or> (\<exists>r\<in>set rs. answer c now r = Some m')) \<and> snd (snd m) \<le> snd (snd m') \<and>
     (\<forall>r\<in>set rs. \<forall>a. answer c now r = Some a \<longrightarrow> snd (snd a) \<le> snd (snd m'))"
proof (induction rs arbitrary: ret k m)
  case (Cons r rs)
  obtain resp code where r: "r = (resp, code)" by fastforce
  obtain ip e ve where m: "m = (ip, e, ve)" using prod_cases3 by blast
  show ?case
  proof (cases "answer c now r")
    case None
    then obtain ret1 where "pick_master c now rs ret1 k m = (ret', k', m')"
      using Cons.prems r m by (auto simp: answer_def split: if_splits)
    from Cons.IH [OF this] None show ?thesis by simp
  next
    case (Some a)
    obtain ip' e' ve' where a: "a = (ip', e', ve')" using prod_cases3 by blast
    let ?m = "if ve' > ve \<or> ve' = ve \<and> e' < e then a else m"
    have "pick_master c now rs ret (k + 1) ?m = (ret', k', m')"
      using Cons.prems Some r m a by (auto simp: answer_def split: if_splits)
    note ih = Cons.IH [OF this]
    have "snd (snd m) \<le> snd (snd ?m)" "snd (snd a) \<le> snd (snd ?m)" using a m by auto
    with ih Some show ?thesis by (auto simp del: not_None_eq split: if_splits)
  qed
qed simp

lemma call_in_order_length: "length (fst (call_in_order api func ips port req is k rs n)) = length rs"
proof (induction "is" arbitrary: k rs n)
  case (Cons i "is")
  then show ?case by (auto simp: Let_def split: prod.splits option.splits)
qed simp

text \<open>What the members answered: the \<open>i\<close>th is the reply of member \<open>i\<close>.\<close>

definition replies :: "'n client \<Rightarrow> string list \<Rightarrow> u32 \<Rightarrow> 'n \<Rightarrow> (bytes \<times> int) list" where
  "replies c iplist port n = fst (snd (RpcCallWithIPList (cl_api c) GetMasterInfoFromLocal iplist port [] n))"

lemma replies_length: "length (replies c iplist port n) = length iplist"
  using call_in_order_length [of "cl_api c" GetMasterInfoFromLocal iplist port "[]" "rp_order (cl_api c) (length iplist) n" 0
      "replicate (length iplist) ([], -202)" n]
  by (simp add: replies_def RpcCallWithIPList_def case_prod_beta)

lemma last_error_neq: "ret \<noteq> 0 \<Longrightarrow> last_error rs ret \<noteq> 0"
  by (induction rs ret rule: last_error.induct) auto

lemma pick_master_all:
  "pick_master c now rs ret k m = (0, k', m') \<Longrightarrow> ret = 0 \<and> (\<forall>r\<in>set rs. answer c now r \<noteq> None)"
proof (induction rs arbitrary: ret k m)
  case (Cons r rs)
  obtain resp code where r: "r = (resp, code)" by fastforce
  obtain ip e ve where m: "m = (ip, e, ve)" using prod_cases3 by blast
  show ?case
  proof (cases "answer c now r")
    case None
    then obtain ret1 where p: "pick_master c now rs ret1 k m = (0, k', m')" "ret1 \<noteq> 0"
      using Cons.prems r m by (auto simp: answer_def split: if_splits)
    from Cons.IH [OF p(1)] p(2) show ?thesis by simp
  next
    case (Some a)
    then obtain m1 where "pick_master c now rs ret (k + 1) m1 = (0, k', m')"
      using Cons.prems r m by (cases a) (auto simp: answer_def split: if_splits)
    from Cons.IH [OF this] Some show ?thesis by (simp del: not_None_eq)
  qed
qed simp

lemma GetGlobalMaster_OK:
  assumes "GetGlobalMaster c now iplist port True m n = (OK, m', n')"
  shows "length iplist \<le> 2 * length (filter (\<lambda>r. answer (rk_master (cl_codecs c)) now r \<noteq> None) (replies c iplist port n))"
    and "\<forall>r\<in>set (replies c iplist port n). \<forall>a. answer (rk_master (cl_codecs c)) now r = Some a \<longrightarrow> snd (snd a) \<le> snd (snd m')"
    and "m' = m \<or> (\<exists>r\<in>set (replies c iplist port n). answer (rk_master (cl_codecs c)) now r = Some m')"
proof -
  let ?c = "rk_master (cl_codecs c)" and ?rs = "replies c iplist port n"
  obtain ret k m1 where p: "pick_master ?c now ?rs 0 0 m = (ret, k, m1)" using prod_cases3 by blast
  have m: "m' = m1" and l: "length iplist \<le> 2 * k \<or> last_error ?rs ret = 0"
    using assms p by (auto simp: GetGlobalMaster_def replies_def RpcCallWithIPList_def case_prod_beta split: if_splits)
  note a = pick_master_answers [OF p]
  have "length iplist \<le> k" if "last_error ?rs ret = 0"
  proof -
    have "ret = 0" using that last_error_neq by blast
    with pick_master_all [of ?c now ?rs 0 0 m k m1] p have "filter (\<lambda>r. answer ?c now r \<noteq> None) ?rs = ?rs" by (simp add: filter_id_conv)
    with a replies_length [of c iplist port n] show ?thesis by simp
  qed
  with l have "length iplist \<le> 2 * k" by linarith
  with a m show "length iplist \<le> 2 * length (filter (\<lambda>r. answer ?c now r \<noteq> None) ?rs)"
    "\<forall>r\<in>set ?rs. \<forall>x. answer ?c now r = Some x \<longrightarrow> snd (snd x) \<le> snd (snd m')"
    "m' = m \<or> (\<exists>r\<in>set ?rs. answer ?c now r = Some m')"
    by simp_all
qed

text \<open>
  C12: the newest master of a quorum. When a group with an odd number of members is asked for its master, the
  answer is one that a member gave, and it is at least as new as what some member of any majority knows, so
  a lease that a majority has executed is never missed.
\<close>

theorem GetGlobalMaster_quorum:
  assumes "GetGlobalMaster c now iplist port True ([], 0, 0) n = (OK, (ip, expire_time, version), n')" "odd (length iplist)"
    and "M \<subseteq> {..<length iplist}" "length iplist < 2 * card M"
  shows "\<exists>i\<in>M. \<exists>ip_i expire_i version_i.
    answer (rk_master (cl_codecs c)) now (replies c iplist port n ! i) = Some (ip_i, expire_i, version_i) \<and> version_i \<le> version"
proof -
  let ?a = "answer (rk_master (cl_codecs c)) now" and ?rs = "replies c iplist port n"
  let ?A = "{i. i < length iplist \<and> ?a (?rs ! i) \<noteq> None}"
  have "card ?A = length (filter (\<lambda>r. ?a r \<noteq> None) ?rs)"
    by (simp add: length_filter_conv_card replies_length)
  with GetGlobalMaster_OK(1) [OF assms(1)] have "length iplist \<le> 2 * card ?A" by simp
  moreover have "length iplist \<noteq> 2 * j" for j using assms(2) by auto
  ultimately have "length iplist < 2 * card ?A" using le_neq_implies_less by blast
  moreover have "card ?A + card M \<le> length iplist" if "?A \<inter> M = {}"
  proof -
    have "card ?A + card M = card (?A \<union> M)" using that finite_subset [OF assms(3)] by (intro card_Un_disjoint [symmetric]) auto
    also have "\<dots> \<le> card {..<length iplist}" using assms(3) by (intro card_mono) auto
    finally show ?thesis by simp
  qed
  ultimately obtain i where i: "i \<in> ?A" "i \<in> M" using assms(4) by fastforce
  then obtain x where x: "?a (?rs ! i) = Some x" by blast
  have "?rs ! i \<in> set ?rs" using i(1) replies_length [of c iplist port n] by simp
  with GetGlobalMaster_OK(2) [OF assms(1)] x have "snd (snd x) \<le> version" by fastforce
  with i(2) x show ?thesis by (intro bexI [OF _ i(2)]) (cases x; simp)
qed

text \<open>Three or four servers; the last two cannot be reached.\<close>

definition wire_master :: RpcMasterInfo where
  "wire_master = \<lparr>rm_ip = ''10.0.0.1'', rm_expire_time = 120, rm_version = 7, rm_update_time = Some 100, rm_current_time = Some 110\<rparr>"

definition wire_codecs :: rpc_codecs where
  "wire_codecs = \<lparr>rk_binlog = \<lparr>enc = (\<lambda>_. None), dec = (\<lambda>_. None)\<rparr>,
     rk_master = \<lparr>enc = (\<lambda>m. if m = wire_master then Some [7] else None), dec = (\<lambda>b. if b = [7] then Some wire_master else None)\<rparr>,
     rk_export = \<lparr>enc = (\<lambda>_. None), dec = (\<lambda>_. None)\<rparr>, rk_heart = \<lparr>enc = (\<lambda>_. None), dec = (\<lambda>_. None)\<rparr>,
     rk_change = \<lparr>enc = (\<lambda>_. None), dec = (\<lambda>_. None)\<rparr>, rk_user = \<lparr>enc = (\<lambda>_. None), dec = (\<lambda>_. None)\<rparr>,
     rk_members = \<lparr>enc = (\<lambda>_. None), dec = (\<lambda>_. None)\<rparr>\<rparr>"

definition wire_client :: "unit client" where
  "wire_client = \<lparr>cl_api = \<lparr>rp_call = (\<lambda>ip port func req n. (if ip = ''a'' \<or> ip = ''b'' then Some (0, [7]) else None, n)),
     rp_order = (\<lambda>len n. [0..<len])\<rparr>, cl_codecs = wire_codecs, cl_ip = ''a'', cl_port = 17000\<rparr>"

lemma wire_answer:
  "DecodeMasterInfo (rk_master wire_codecs) 1000 [7] = Some (''10.0.0.1'', 1010, 7)"
  by (simp add: DecodeMasterInfo_def wire_codecs_def wire_master_def)

lemma wire_global:
  "GetGlobalMaster wire_client 1000 [''a'', ''b'', ''c''] 17000 True ([], 0, 0) () = (OK, (''10.0.0.1'', 1010, 7), ())"
  "GetGlobalMaster wire_client 1000 [''a'', ''b'', ''c'', ''d''] 17000 True ([], 0, 0) () = (OK, (''10.0.0.1'', 1010, 7), ())"
  by (simp_all add: GetGlobalMaster_def RpcCallWithIPList_def wire_client_def upt_rec wire_answer)

theorem GetGlobalMaster_quorum_witness:
  "\<exists>i\<in>{1, 2}. \<exists>ip_i expire_i version_i.
    answer (rk_master wire_codecs) 1000 (replies wire_client [''a'', ''b'', ''c''] 17000 () ! i) = Some (ip_i, expire_i, version_i) \<and>
    version_i \<le> 7"
  using GetGlobalMaster_quorum [OF wire_global(1), of "{1, 2}"] by (simp add: wire_client_def)

section \<open>Half of the members\<close>

text \<open>
  C39: half is taken for a majority. Asking a group succeeds exactly when the members that answered, counted
  twice, are at least as many as the group; in a group with an even number of members two disjoint halves
  can therefore give two different answers.
\<close>

theorem GetGlobalMaster_half:
  "fst (GetGlobalMaster c now iplist port True m n) = OK \<longleftrightarrow>
    length iplist \<le> 2 * length (filter (\<lambda>r. answer (rk_master (cl_codecs c)) now r \<noteq> None) (replies c iplist port n))"
proof -
  let ?c = "rk_master (cl_codecs c)" and ?rs = "replies c iplist port n"
  obtain ret k m1 where p: "pick_master ?c now ?rs 0 0 m = (ret, k, m1)" using prod_cases3 by blast
  obtain r m' n' where g: "GetGlobalMaster c now iplist port True m n = (r, m', n')" using prod_cases3 by blast
  have "r = OK" if "length iplist \<le> 2 * k"
    using that g p by (auto simp: GetGlobalMaster_def replies_def RpcCallWithIPList_def case_prod_beta)
  with GetGlobalMaster_OK(1) [of c now iplist port m n m' n'] g pick_master_answers [OF p] show ?thesis by auto
qed

section \<open>The lease over the wire\<close>

text \<open>
  C13: the remaining time of a lease. A client that gets the lease from a server computes the same remaining
  time on its own clock as the server has on its clock, whatever the difference between the clocks. The lease
  has not run out, the record was set and the server's clock is not 0, and no time exceeds 32 bits.
\<close>

theorem lease_over_the_wire:
  assumes "codec_ok (rk_master (cl_codecs (sr_client v)))" "Svr_GetMasterInfoFromLocal v st = (OK, buffer, st')"
    and "mi_update_time (ms_master (mt_store (sr_mon v) st)) \<noteq> 0" "sr_time v st \<noteq> 0"
    and "sr_time v st \<le> mi_expire_time (ms_master (mt_store (sr_mon v) st))"
    and "0 \<le> now" "now + uint (mi_expire_time (ms_master (mt_store (sr_mon v) st))) < 2 ^ 32"
  shows "\<exists>expire_time version.
    DecodeMasterInfo (rk_master (cl_codecs (sr_client v))) now buffer =
      Some (GetIP (mi_svr_id (ms_master (mt_store (sr_mon v) st))), expire_time, version) \<and>
    uint expire_time - now = uint (mi_expire_time (ms_master (mt_store (sr_mon v) st))) - uint (sr_time v st)"
proof -
  let ?m = "ms_master (mt_store (sr_mon v) st)" and ?t = "sr_time v st"
  let ?e = "of_int now + (mi_expire_time ?m - ?t)"
  obtain mm where l: "RealGetLocalMasterInfo v st =
      (OK, Some \<lparr>rm_ip = GetIP (mi_svr_id ?m), rm_expire_time = mi_expire_time ?m, rm_version = ucast (mi_version ?m),
        rm_update_time = Some (mi_update_time ?m), rm_current_time = Some ?t\<rparr>, mm)"
    using assms(2) by (auto simp: Svr_GetMasterInfoFromLocal_def RealGetLocalMasterInfo_def GetMasterInfo_rpc_def GetMaster_def Let_def
        split: if_splits option.splits)
  with assms(1,2) have "dec (rk_master (cl_codecs (sr_client v))) buffer =
      Some \<lparr>rm_ip = GetIP (mi_svr_id ?m), rm_expire_time = mi_expire_time ?m, rm_version = ucast (mi_version ?m),
        rm_update_time = Some (mi_update_time ?m), rm_current_time = Some ?t\<rparr>"
    by (auto simp: Svr_GetMasterInfoFromLocal_def dest: codec_okD split: option.splits)
  with assms(3,4) have "DecodeMasterInfo (rk_master (cl_codecs (sr_client v))) now buffer =
      Some (GetIP (mi_svr_id ?m), ?e, ucast (mi_version ?m))"
    by (simp add: DecodeMasterInfo_def Let_def)
  moreover have "uint ?e = now + (uint (mi_expire_time ?m) - uint ?t)"
  proof -
    have d: "uint (mi_expire_time ?m - ?t) = uint (mi_expire_time ?m) - uint ?t" using assms(5) by (simp add: uint_sub_lem word_le_def)
    have "now < 2 ^ 32" using assms(7) uint_ge_0 [of "mi_expire_time ?m"] by linarith
    then have u: "uint (of_int now :: u32) = now" using assms(6) by (simp add: uint_word_of_int)
    have "uint (of_int now :: u32) + uint (mi_expire_time ?m - ?t) < 2 ^ 32"
      unfolding d u using assms(7) uint_ge_0 [of ?t] by linarith
    then have "uint ?e = uint (of_int now :: u32) + uint (mi_expire_time ?m - ?t)" by (intro uint_add_lem [THEN iffD1]) simp
    then show ?thesis unfolding d u .
  qed
  ultimately show ?thesis by auto
qed

text \<open>The master of the lease example, as it is sent.\<close>

definition lease_wire :: RpcMasterInfo where
  "lease_wire = \<lparr>rm_ip = GetIP 5, rm_expire_time = 120, rm_version = ucast (mi_version lease_record),
     rm_update_time = Some (mi_update_time lease_record), rm_current_time = Some 100\<rparr>"

definition lease_svr ::
  "(((string \<times> bytes option) list node \<times> bytes list), string \<times> string list, (string \<times> bytes option) list, unit) svrenv" where
  "lease_svr = \<lparr>sr_mon = quiet_env, sr_client = wire_client\<lparr>cl_codecs := wire_codecs\<lparr>rk_master :=
     \<lparr>enc = (\<lambda>m. if m = lease_wire then Some [7] else None), dec = (\<lambda>b. if b = [7] then Some lease_wire else None)\<rparr>\<rparr>\<rparr>,
     sr_paxos_port = 17001, sr_follow_ip = []\<rparr>"

theorem lease_over_the_wire_witness:
  "\<exists>expire_time version. DecodeMasterInfo (rk_master (cl_codecs (sr_client lease_svr))) 5000 [7] = Some (GetIP 5, expire_time, version) \<and>
     uint expire_time = 5020"
proof -
  let ?st = "quiet_monitor lease_master"
  have nd: "mt_node (sr_mon lease_svr) ?st = set_clock 100 lease_master" by (simp add: lease_svr_def quiet_env_simps)
  have m: "ms_master (mm_storage (nd_mm lease_master)) = lease_record\<lparr>mi_expire_time := 120\<rparr>"
    by (simp add: lease_master_def)
  have t: "fs_now (nd_fs (set_clock 100 lease_master)) = 100" "nd_mm (set_clock 100 lease_master) = nd_mm lease_master"
    by (simp_all add: lease_master_facts)
  have "GetMasterInfo_rpc 100 5 (nd_mm lease_master) =
      (OK, Some (GetIP 5, mi_update_time lease_record, 120, ucast (mi_version lease_record)), nd_mm lease_master)"
    using lease_master_facts(6)
    by (simp add: GetMasterInfo_rpc_def IsMasterChanging_def GetStatus_def GetMaster_def lease_master_def lease_node_def
        AgentMonitorComm_init_def Let_def lease_record_def)
  then have "\<exists>st'. Svr_GetMasterInfoFromLocal lease_svr ?st = (OK, [7], st')"
    using t by (simp add: Svr_GetMasterInfoFromLocal_def RealGetLocalMasterInfo_def nd lease_svr_def lease_wire_def quiet_env_simps Let_def)
  then obtain st' where "Svr_GetMasterInfoFromLocal lease_svr ?st = (OK, [7], st')" by blast
  moreover have "codec_ok (rk_master (cl_codecs (sr_client lease_svr)))" by (simp add: codec_ok_def lease_svr_def)
  ultimately show ?thesis
    using lease_over_the_wire [of lease_svr ?st "[7]" st' 5000] by (simp add: nd m t lease_record_def)
qed

end
