(* ===== verification/Token_Bucket.thy ===== *)
theory Token_Bucket
  imports Phx_Prelude
begin

text \<open>
  The contract of the buckets that limit requests: tokens are taken by requests and filled up to a capacity
  when a new period begins. In one period no more tokens are granted than the capacity.
\<close>

text \<open>The beginning of the period; the remainder by a period of 0 traps.\<close>

definition period_start :: "u32 \<Rightarrow> u32 \<Rightarrow> u32 option" where
  "period_start period now = (if period = 0 then None else Some (now - now mod period))"

text \<open>Serving requests at given times, with the tokens granted to all of them.\<close>

fun serve_all :: "(u32 \<Rightarrow> 'r \<Rightarrow> 'b \<Rightarrow> (int \<times> 'b) option) \<Rightarrow> (u32 \<times> 'r) list \<Rightarrow> 'b \<Rightarrow> (int \<times> 'b) option" where
  "serve_all serve [] b = Some (0, b)"
| "serve_all serve ((now, r) # rs) b =
     (case serve now r b of
        None \<Rightarrow> None
      | Some (k, b) \<Rightarrow> (case serve_all serve rs b of None \<Rightarrow> None | Some (k', b) \<Rightarrow> Some (k + k', b)))"

locale token_bucket =
  fixes serve :: "u32 \<Rightarrow> 'r \<Rightarrow> 'b \<Rightarrow> (int \<times> 'b) option"
    and tokens :: "'b \<Rightarrow> int" and capacity :: "'b \<Rightarrow> int" and filled :: "'b \<Rightarrow> u32" and period :: "'b \<Rightarrow> u32"
  assumes serve_keeps: "serve now r b = Some (k, b') \<Longrightarrow> capacity b' = capacity b \<and> period b' = period b"
    and serve_fills: "serve now r b = Some (k, b') \<Longrightarrow> period_start (period b) now = Some (filled b')"
    and serve_takes: "serve now r b = Some (k, b') \<Longrightarrow> k + tokens b' = (if filled b = filled b' then tokens b else capacity b)"
    and serve_pays: "serve now r b = Some (k, b') \<Longrightarrow> 0 \<le> k \<and> (0 < k \<longrightarrow> 0 \<le> tokens b')"
    and serve_returns: "period b \<noteq> 0 \<Longrightarrow> serve now r b \<noteq> None"
begin

lemma serve_all_returns: "period b \<noteq> 0 \<Longrightarrow> serve_all serve rs b \<noteq> None"
proof (induction rs arbitrary: b)
  case (Cons x rs)
  obtain now r where x [simp]: "x = (now, r)" by (cases x)
  obtain k b' where b': "serve now r b = Some (k, b')" using serve_returns [OF Cons.prems] by fastforce
  show ?case using Cons.IH [of b'] Cons.prems serve_keeps [OF b'] by (auto simp: b' split: option.splits)
qed simp

lemma serve_all_period:
  assumes "serve_all serve rs b = Some (k, b')" "\<forall>x\<in>set rs. period_start (period b) (fst x) = Some t"
    and "filled b = t" "0 \<le> tokens b"
  shows "0 \<le> k \<and> 0 \<le> tokens b' \<and> k + tokens b' = tokens b"
  using assms
proof (induction rs arbitrary: b k)
  case (Cons x rs)
  obtain now r where x [simp]: "x = (now, r)" by (cases x)
  obtain k1 b1 k2 where s: "serve now r b = Some (k1, b1)" "serve_all serve rs b1 = Some (k2, b')" "k = k1 + k2"
    using Cons.prems(1) by (auto split: option.splits)
  have f: "filled b1 = t" using serve_fills [OF s(1)] Cons.prems(2) by simp
  have t: "k1 + tokens b1 = tokens b" using serve_takes [OF s(1)] f Cons.prems(3) by simp
  have "0 \<le> tokens b1" using serve_pays [OF s(1)] t Cons.prems(4) by (cases "0 < k1") auto
  from Cons.IH [OF s(2) _ f this] have "0 \<le> k2 \<and> 0 \<le> tokens b' \<and> k2 + tokens b' = tokens b1"
    using Cons.prems(2) serve_keeps [OF s(1)] by simp
  with t s(3) serve_pays [OF s(1)] show ?case by simp
qed simp

text \<open>What is granted in one period, whatever was left from the periods before.\<close>

lemma granted_le_capacity:
  assumes "serve_all serve rs b = Some (k, b')" "\<forall>x\<in>set rs. period_start (period b) (fst x) = Some t"
    and "0 \<le> tokens b" "tokens b \<le> capacity b"
  shows "0 \<le> k \<and> k \<le> capacity b"
proof (cases rs)
  case (Cons x rs')
  obtain now r where x [simp]: "x = (now, r)" by (cases x)
  obtain k1 b1 k2 where s: "serve now r b = Some (k1, b1)" "serve_all serve rs' b1 = Some (k2, b')" "k = k1 + k2"
    using assms(1) Cons by (auto split: option.splits)
  have f: "filled b1 = t" using serve_fills [OF s(1)] assms(2) Cons by simp
  have le: "k1 + tokens b1 \<le> capacity b" "0 \<le> k1 + tokens b1" using serve_takes [OF s(1)] assms(3,4) by (auto split: if_splits)
  have "0 \<le> tokens b1" using serve_pays [OF s(1)] le by (cases "0 < k1") auto
  from serve_all_period [OF s(2) _ f this] have "0 \<le> k2 \<and> 0 \<le> tokens b' \<and> k2 + tokens b' = tokens b1"
    using assms(2) Cons serve_keeps [OF s(1)] by simp
  then show ?thesis using le s(3) serve_pays [OF s(1)] by linarith
qed (use assms in simp)

end

end
