(* ===== verification/Freq_Control.thy ===== *)
theory Freq_Control
  imports Token_Bucket Gtid
begin

text \<open>
  Limits on the requests for a database (\<^verbatim>\<open>phxsqlproxy/plugin/requestfilter\<close>): the tokens of
  \<^verbatim>\<open>freqctrlconfig.cpp\<close> and the filter \<^verbatim>\<open>freqfilter_plugin.cpp\<close> that takes them. Every process of the proxy has
  buckets of its own. They have no lock: the limits hold for requests that are served one after the other, and
  the last section shows what threads that share a bucket can do.
\<close>

section \<open>Tokens\<close>

text \<open>
  Tokens of a database for a period, taken by requests and filled up when the next period begins. The
  remainder by a period of 0 traps.
\<close>

record DBToken =
  tk_read_token :: int
  tk_write_token :: int
  tk_period :: int

record FreqCtrlBucket =
  fb_token :: DBToken
  fb_read_bucket :: int
  fb_write_bucket :: int
  fb_last_refill_time :: u32

definition FreqCtrlBucket_init :: FreqCtrlBucket where
  "FreqCtrlBucket_init = \<lparr>fb_token = \<lparr>tk_read_token = 0, tk_write_token = 0, tk_period = 0\<rparr>, fb_read_bucket = 0,
     fb_write_bucket = 0, fb_last_refill_time = 0\<rparr>"

definition fb_period :: "FreqCtrlBucket \<Rightarrow> u32" where
  "fb_period b = of_int (tk_period (fb_token b))"

definition fill :: "u32 \<Rightarrow> FreqCtrlBucket \<Rightarrow> FreqCtrlBucket" where
  "fill t b = b\<lparr>fb_last_refill_time := t, fb_read_bucket := tk_read_token (fb_token b), fb_write_bucket := tk_write_token (fb_token b)\<rparr>"

definition Refill :: "u32 \<Rightarrow> FreqCtrlBucket \<Rightarrow> FreqCtrlBucket option" where
  "Refill now b = map_option (\<lambda>t. fill t b) (period_start (fb_period b) now)"

definition Sedb_token :: "u32 \<Rightarrow> DBToken \<Rightarrow> FreqCtrlBucket \<Rightarrow> FreqCtrlBucket option" where
  "Sedb_token now db_token b = Refill now (b\<lparr>fb_token := db_token\<rparr>)"

definition refill_if_due :: "u32 \<Rightarrow> FreqCtrlBucket \<Rightarrow> FreqCtrlBucket option" where
  "refill_if_due now b =
     map_option (\<lambda>t. if fb_last_refill_time b \<noteq> t then fill t b else b) (period_start (fb_period b) now)"

definition ApplyReadToken :: "u32 \<Rightarrow> int \<Rightarrow> FreqCtrlBucket \<Rightarrow> (bool \<times> FreqCtrlBucket) option" where
  "ApplyReadToken now count b =
     map_option (\<lambda>b. if fb_read_bucket b \<ge> count then (True, b\<lparr>fb_read_bucket := fb_read_bucket b - count\<rparr>) else (False, b))
       (refill_if_due now b)"

definition ApplyWriteToken :: "u32 \<Rightarrow> int \<Rightarrow> FreqCtrlBucket \<Rightarrow> (bool \<times> FreqCtrlBucket) option" where
  "ApplyWriteToken now count b =
     map_option (\<lambda>b. if fb_write_bucket b \<ge> count then (True, b\<lparr>fb_write_bucket := fb_write_bucket b - count\<rparr>) else (False, b))
       (refill_if_due now b)"

definition HasReadToken :: "u32 \<Rightarrow> FreqCtrlBucket \<Rightarrow> (bool \<times> FreqCtrlBucket) option" where
  "HasReadToken now b = map_option (\<lambda>b. (fb_read_bucket b > 0, b)) (refill_if_due now b)"

definition HasWriteToken :: "u32 \<Rightarrow> FreqCtrlBucket \<Rightarrow> (bool \<times> FreqCtrlBucket) option" where
  "HasWriteToken now b = map_option (\<lambda>b. (fb_write_bucket b > 0, b)) (refill_if_due now b)"

text \<open>
  The buckets of the databases in the configuration. \<open>get\<close> and \<open>get_int\<close> are the reader of the file, with
  the default of an entry that is missing.
\<close>

definition INT_MAX :: int where
  "INT_MAX = 2147483647"

fun read_databases ::
  "(string \<Rightarrow> string \<Rightarrow> string \<Rightarrow> string) \<Rightarrow> (string \<Rightarrow> string \<Rightarrow> int \<Rightarrow> int) \<Rightarrow> u32 \<Rightarrow> nat list \<Rightarrow> (string \<Rightarrow> FreqCtrlBucket option)
     \<Rightarrow> (string \<Rightarrow> FreqCtrlBucket option) option" where
  "read_databases get get_int now [] db_bucket = Some db_bucket"
| "read_databases get get_int now (i # is) db_bucket =
     (let sect = ''DB'' @ show_nat i; db_name = get sect ''DBName'' [];
        token = \<lparr>tk_read_token = get_int sect ''ReadToken'' INT_MAX, tk_write_token = get_int sect ''WriteToken'' INT_MAX,
          tk_period = get_int sect ''Period'' 60\<rparr>
      in if db_name = [] then read_databases get get_int now is db_bucket
         else case Sedb_token now token FreqCtrlBucket_init of
           None \<Rightarrow> None
         | Some bucket \<Rightarrow> read_databases get get_int now is (db_bucket(db_name \<mapsto> bucket)))"

definition FreqCtrlConfig_ReadConfig ::
  "(string \<Rightarrow> string \<Rightarrow> string \<Rightarrow> string) \<Rightarrow> (string \<Rightarrow> string \<Rightarrow> int \<Rightarrow> int) \<Rightarrow> u32 \<Rightarrow> (string \<Rightarrow> FreqCtrlBucket option) option" where
  "FreqCtrlConfig_ReadConfig get get_int now =
     read_databases get get_int now [0..<nat (get_int ''General'' ''DBCount'' 0)] (\<lambda>_. None)"

text \<open>One request, with no other thread in between.\<close>

definition Apply :: "u32 \<Rightarrow> string \<Rightarrow> bool \<Rightarrow> (string \<Rightarrow> FreqCtrlBucket option) \<Rightarrow> (bool \<times> (string \<Rightarrow> FreqCtrlBucket option)) option" where
  "Apply now db_name is_write_query db_bucket =
     (case db_bucket db_name of
        None \<Rightarrow> Some (True, db_bucket)
      | Some b \<Rightarrow>
          map_option (\<lambda>(ok, b). (ok, db_bucket(db_name \<mapsto> b))) ((if is_write_query then ApplyWriteToken else ApplyReadToken) now 1 b))"

section \<open>The filter\<close>

definition to_upper :: "char \<Rightarrow> char" where
  "to_upper c = (if 97 \<le> (of_char c :: nat) \<and> (of_char c :: nat) \<le> 122 then char_of (of_char c - 32 :: nat) else c)"

text \<open>
  A request is a write when one of its words is one of four, in the order of the code: the index is
  advanced twice after a separator, and the last word is not looked at.
\<close>

function is_write_query :: "string \<Rightarrow> nat \<Rightarrow> nat \<Rightarrow> bool" where
  "is_write_query sql i begin' =
     (if i < length sql
      then if sql ! i = CHR '' '' \<or> sql ! i = CHR '';''
        then i > begin' \<and> take (i - begin') (drop begin' sql) \<in> {''INSERT'', ''UPDATE'', ''REPLACE'', ''DELETE''} \<or>
          is_write_query sql (i + 2) (i + 1)
        else is_write_query sql (i + 1) begin'
      else False)"
  by pat_completeness auto
termination
  by (relation "measure (\<lambda>(sql, i, begin'). length sql - i)") auto

declare is_write_query.simps [simp del]

definition FreqFilter_CanExecute ::
  "u32 \<Rightarrow> bool \<Rightarrow> string \<Rightarrow> bytes \<Rightarrow> (string \<Rightarrow> FreqCtrlBucket option) \<Rightarrow> (bool \<times> (string \<Rightarrow> FreqCtrlBucket option)) option" where
  "FreqFilter_CanExecute now is_master_port db_name buf db_bucket =
     (if length buf < 6 \<or> buf ! 4 \<noteq> 3 then Some (True, db_bucket)
      else if \<not> is_master_port then Apply now db_name False db_bucket
      else Apply now db_name (is_write_query (map to_upper (bytes_str (drop 5 buf))) 0 0) db_bucket)"

section \<open>The limits hold\<close>

text \<open>
  Requests for one database as the bucket serves them: the read tokens that requests get, which a write
  never takes, and the write tokens.
\<close>

definition serve_read :: "u32 \<Rightarrow> bool \<Rightarrow> FreqCtrlBucket \<Rightarrow> (int \<times> FreqCtrlBucket) option" where
  "serve_read now is_write b =
     (if is_write then map_option (\<lambda>(ok, b). (0, b)) (ApplyWriteToken now 1 b)
      else map_option (\<lambda>(ok, b). (if ok then 1 else 0, b)) (ApplyReadToken now 1 b))"

definition serve_write :: "u32 \<Rightarrow> bool \<Rightarrow> FreqCtrlBucket \<Rightarrow> (int \<times> FreqCtrlBucket) option" where
  "serve_write now is_write b =
     (if is_write then map_option (\<lambda>(ok, b). (if ok then 1 else 0, b)) (ApplyWriteToken now 1 b)
      else map_option (\<lambda>(ok, b). (0, b)) (ApplyReadToken now 1 b))"

lemmas freq_defs = ApplyReadToken_def ApplyWriteToken_def refill_if_due_def fill_def fb_period_def period_start_def

interpretation freq_read: token_bucket serve_read fb_read_bucket "\<lambda>b. tk_read_token (fb_token b)" fb_last_refill_time fb_period
  by unfold_locales (auto simp: serve_read_def freq_defs split: if_splits)

interpretation freq_write: token_bucket serve_write fb_write_bucket "\<lambda>b. tk_write_token (fb_token b)" fb_last_refill_time fb_period
  by unfold_locales (auto simp: serve_write_def freq_defs split: if_splits)

text \<open>Requests for all databases, with their time and whether they write, and whether each was let through.\<close>

fun run_requests ::
  "(u32 \<times> string \<times> bool) list \<Rightarrow> (string \<Rightarrow> FreqCtrlBucket option) \<Rightarrow> (bool list \<times> (string \<Rightarrow> FreqCtrlBucket option)) option" where
  "run_requests [] m = Some ([], m)"
| "run_requests ((now, db_name, is_write) # rs) m =
     (case Apply now db_name is_write m of
        None \<Rightarrow> None
      | Some (ok, m) \<Rightarrow> map_option (\<lambda>(oks, m). (ok # oks, m)) (run_requests rs m))"

abbreviation granted :: "string \<Rightarrow> bool \<Rightarrow> (u32 \<times> string \<times> bool) list \<Rightarrow> bool list \<Rightarrow> int" where
  "granted db_name is_write rs oks \<equiv> int (length (filter (\<lambda>((_, d, w), ok). d = db_name \<and> w = is_write \<and> ok) (zip rs oks)))"

abbreviation requests_of :: "string \<Rightarrow> (u32 \<times> string \<times> bool) list \<Rightarrow> (u32 \<times> bool) list" where
  "requests_of db_name rs \<equiv> map (\<lambda>(now, _, w). (now, w)) (filter (\<lambda>(_, d, _). d = db_name) rs)"

lemma run_requests_serve:
  assumes "run_requests rs m = Some (oks, m')" "m db_name = Some b"
  shows "(\<exists>b'. serve_all serve_read (requests_of db_name rs) b = Some (granted db_name False rs oks, b')) \<and>
    (\<exists>b'. serve_all serve_write (requests_of db_name rs) b = Some (granted db_name True rs oks, b'))"
  using assms
proof (induction rs arbitrary: m b oks)
  case (Cons x rs)
  obtain now d w where x [simp]: "x = (now, d, w)" by (cases x)
  obtain ok m1 oks1 where a: "Apply now d w m = Some (ok, m1)" "run_requests rs m1 = Some (oks1, m')" "oks = ok # oks1"
    using Cons.prems(1) by (auto split: option.splits)
  show ?case
  proof (cases "d = db_name")
    case False
    then have "m1 db_name = Some b" using a(1) Cons.prems(2) by (auto simp: Apply_def split: option.splits)
    from Cons.IH [OF a(2) this] False show ?thesis by (simp add: a(3))
  next
    case True
    then obtain b1 where b1: "(if w then ApplyWriteToken else ApplyReadToken) now 1 b = Some (ok, b1)" "m1 db_name = Some b1"
      using a(1) Cons.prems(2) by (auto simp: Apply_def)
    from Cons.IH [OF a(2) b1(2)] True b1(1) show ?thesis by (cases w) (auto simp: a(3) serve_read_def serve_write_def)
  qed
qed simp

lemma limits_hold:
  assumes "run_requests rs m = Some (oks, m')" "m db_name = Some b"
    and "\<forall>(now, d, w)\<in>set rs. d = db_name \<longrightarrow> period_start (fb_period b) now = Some t"
    and "0 \<le> fb_read_bucket b" "fb_read_bucket b \<le> tk_read_token (fb_token b)"
    and "0 \<le> fb_write_bucket b" "fb_write_bucket b \<le> tk_write_token (fb_token b)"
  shows "granted db_name False rs oks \<le> tk_read_token (fb_token b) \<and> granted db_name True rs oks \<le> tk_write_token (fb_token b)"
proof -
  have t: "\<forall>x\<in>set (requests_of db_name rs). period_start (fb_period b) (fst x) = Some t" using assms(3) by auto
  from run_requests_serve [OF assms(1,2)] obtain b1 b2 where
    r: "serve_all serve_read (requests_of db_name rs) b = Some (granted db_name False rs oks, b1)" and
    w: "serve_all serve_write (requests_of db_name rs) b = Some (granted db_name True rs oks, b2)" by blast
  from freq_read.granted_le_capacity [OF r t assms(4,5)] freq_write.granted_le_capacity [OF w t assms(6,7)] show ?thesis by blast
qed

text \<open>A bucket holds at most the tokens of its database. Requests keep this, whenever they come.\<close>

definition bucket_ok :: "FreqCtrlBucket \<Rightarrow> bool" where
  "bucket_ok b \<longleftrightarrow> 0 \<le> fb_read_bucket b \<and> fb_read_bucket b \<le> tk_read_token (fb_token b) \<and>
     0 \<le> fb_write_bucket b \<and> fb_write_bucket b \<le> tk_write_token (fb_token b)"

lemma Apply_bucket:
  assumes "Apply now d w m = Some (ok, m')" "m db_name = Some b" "bucket_ok b"
  shows "\<exists>b'. m' db_name = Some b' \<and> fb_token b' = fb_token b \<and> bucket_ok b'"
proof (cases "d = db_name")
  case True
  with assms obtain b' where "(if w then ApplyWriteToken else ApplyReadToken) now 1 b = Some (ok, b')" "m' db_name = Some b'"
    by (auto simp: Apply_def)
  with assms(3) show ?thesis by (cases w) (auto simp: bucket_ok_def freq_defs split: if_splits)
next
  case False
  with assms show ?thesis by (auto simp: Apply_def split: option.splits)
qed

lemma run_requests_bucket:
  "run_requests rs m = Some (oks, m') \<Longrightarrow> m db_name = Some b \<Longrightarrow> bucket_ok b \<Longrightarrow>
     length oks = length rs \<and> (\<exists>b'. m' db_name = Some b' \<and> fb_token b' = fb_token b \<and> bucket_ok b')"
proof (induction rs arbitrary: m b oks)
  case (Cons x rs)
  obtain now d w where x [simp]: "x = (now, d, w)" by (cases x)
  obtain ok m1 oks1 where a: "Apply now d w m = Some (ok, m1)" "run_requests rs m1 = Some (oks1, m')" "oks = ok # oks1"
    using Cons.prems(1) by (auto split: option.splits)
  from Apply_bucket [OF a(1) Cons.prems(2,3)] obtain b1 where "m1 db_name = Some b1" "fb_token b1 = fb_token b" "bucket_ok b1" by blast
  from Cons.IH [OF a(2) this(1,3)] this(2) show ?case by (simp add: a(3))
qed simp

lemma run_requests_append:
  "run_requests (rs @ rs') m =
     (case run_requests rs m of
        None \<Rightarrow> None | Some (oks, m1) \<Rightarrow> map_option (\<lambda>(oks', m'). (oks @ oks', m')) (run_requests rs' m1))"
proof (induction rs arbitrary: m)
  case Nil
  then show ?case by (cases "run_requests rs' m") auto
next
  case (Cons x rs)
  obtain now d w where "x = (now, d, w)" by (cases x)
  then show ?case using Cons by (auto simp: option.map_comp comp_def case_prod_unfold split: option.splits)
qed

lemma limits_hold_later:
  assumes "run_requests (rs0 @ rs) m = Some (oks, m')" "m db_name = Some b" "bucket_ok b"
    and "\<forall>(now, d, w)\<in>set rs. d = db_name \<longrightarrow> period_start (fb_period b) now = Some t"
  shows "granted db_name False rs (drop (length rs0) oks) \<le> tk_read_token (fb_token b) \<and>
    granted db_name True rs (drop (length rs0) oks) \<le> tk_write_token (fb_token b)"
proof -
  obtain oks0 m1 oks1 where r: "run_requests rs0 m = Some (oks0, m1)" "run_requests rs m1 = Some (oks1, m')" "oks = oks0 @ oks1"
    using assms(1) by (auto simp: run_requests_append split: option.splits)
  from run_requests_bucket [OF r(1) assms(2,3)] obtain b1 where
    b1: "length oks0 = length rs0" "m1 db_name = Some b1" "fb_token b1 = fb_token b" "bucket_ok b1" by blast
  have "fb_period b1 = fb_period b" by (simp add: fb_period_def b1(3))
  with limits_hold [OF r(2) b1(2), of t] assms(4) b1 show ?thesis by (simp add: bucket_ok_def r(3))
qed

text \<open>
  C26: the limits hold. Whatever requests a process has served before, in one period of a database no more reads
  are let through than it has read tokens, and no more writes than it has write tokens, in whatever order
  requests for it and for other databases come. The requests are served one after the other, and the bucket
  holds at most its tokens at the start.
\<close>

theorem requests_within_limits:
  assumes "run_requests (rs0 @ rs) m = Some (oks, m')" "m db_name = Some b" "bucket_ok b"
    and "\<forall>(now, d, w)\<in>set rs. d = db_name \<longrightarrow> period_start (fb_period b) now = Some t"
  shows "granted db_name False rs (drop (length rs0) oks) \<le> tk_read_token (fb_token b) \<and>
    granted db_name True rs (drop (length rs0) oks) \<le> tk_write_token (fb_token b)"
  by (rule limits_hold_later [OF assms])

text \<open>Three reads and a write of a database with two read tokens.\<close>

definition limited :: "string \<Rightarrow> FreqCtrlBucket option" where
  "limited = [''db'' \<mapsto> \<lparr>fb_token = \<lparr>tk_read_token = 2, tk_write_token = 1, tk_period = 60\<rparr>, fb_read_bucket = 2, fb_write_bucket = 1,
     fb_last_refill_time = 0\<rparr>]"

theorem requests_within_limits_witness:
  "\<exists>oks m'. run_requests ([(59, ''db'', False)] @ [(61, ''db'', False), (62, ''db'', False), (63, ''db'', False), (64, ''db'', True), (65, ''x'', False)]) limited =
      Some (oks, m') \<and> oks = [True, True, True, False, True, True] \<and>
    granted ''db'' False [(61, ''db'', False), (62, ''db'', False), (63, ''db'', False), (64, ''db'', True), (65, ''x'', False)] (drop 1 oks) \<le> 2"
proof -
  let ?rs = "[(61, ''db'', False), (62, ''db'', False), (63, ''db'', False), (64, ''db'', True), (65, ''x'', False)] :: (u32 \<times> string \<times> bool) list"
  have "\<exists>m'. run_requests ([(59, ''db'', False)] @ ?rs) limited = Some ([True, True, True, False, True, True], m')"
    by (simp add: limited_def Apply_def freq_defs)
  then obtain m' where r: "run_requests ([(59, ''db'', False)] @ ?rs) limited = Some ([True, True, True, False, True, True], m')" by blast
  have "granted ''db'' False ?rs (drop (length [(59 :: u32, ''db'', False)]) [True, True, True, False, True, True]) \<le> 2"
    using requests_within_limits [OF r, of "''db''" _ 60] by (simp add: limited_def bucket_ok_def fb_period_def period_start_def)
  with r show ?thesis by simp
qed

section \<open>Threads that share a bucket\<close>

text \<open>
  The workers of a process share its buckets. Between two threads in \<^verbatim>\<open>ApplyToken\<close>, here for a read, the other may run
  after the bucket was filled and after the number of tokens was loaded.
\<close>

datatype apply_pc = Ap_start | Ap_filled | Ap_loaded int | Ap_done bool

record shared_bucket =
  sb_bucket :: FreqCtrlBucket
  sb_pc :: "nat \<Rightarrow> apply_pc"

inductive apply_step :: "u32 \<Rightarrow> shared_bucket \<Rightarrow> shared_bucket \<Rightarrow> bool" for now where
  fill: "\<lbrakk>sb_pc s i = Ap_start; refill_if_due now (sb_bucket s) = Some b\<rbrakk>
    \<Longrightarrow> apply_step now s \<lparr>sb_bucket = b, sb_pc = (sb_pc s)(i := Ap_filled)\<rparr>"
| load: "sb_pc s i = Ap_filled \<Longrightarrow> apply_step now s (s\<lparr>sb_pc := (sb_pc s)(i := Ap_loaded (fb_read_bucket (sb_bucket s)))\<rparr>)"
| store: "\<lbrakk>sb_pc s i = Ap_loaded n; 1 \<le> n\<rbrakk>
    \<Longrightarrow> apply_step now s \<lparr>sb_bucket = (sb_bucket s)\<lparr>fb_read_bucket := n - 1\<rparr>, sb_pc = (sb_pc s)(i := Ap_done True)\<rparr>"
| refuse: "\<lbrakk>sb_pc s i = Ap_loaded n; n < 1\<rbrakk> \<Longrightarrow> apply_step now s (s\<lparr>sb_pc := (sb_pc s)(i := Ap_done False)\<rparr>)"

text \<open>The steps of a thread that is alone are the call.\<close>

lemma apply_alone:
  assumes "ApplyReadToken now 1 (sb_bucket s) = Some (ok, b)" "sb_pc s i = Ap_start"
  shows "(apply_step now)\<^sup>*\<^sup>* s \<lparr>sb_bucket = b, sb_pc = (sb_pc s)(i := Ap_done ok)\<rparr>"
proof -
  obtain b0 where f: "refill_if_due now (sb_bucket s) = Some b0" using assms(1) by (auto simp: ApplyReadToken_def)
  let ?s1 = "\<lparr>sb_bucket = b0, sb_pc = (sb_pc s)(i := Ap_filled)\<rparr>"
  let ?s2 = "?s1\<lparr>sb_pc := (sb_pc ?s1)(i := Ap_loaded (fb_read_bucket (sb_bucket ?s1)))\<rparr>"
  have "apply_step now s ?s1" by (rule apply_step.fill [OF assms(2) f])
  moreover have "apply_step now ?s1 ?s2" by (rule apply_step.load) simp
  moreover have "apply_step now ?s2 \<lparr>sb_bucket = b, sb_pc = (sb_pc s)(i := Ap_done ok)\<rparr>"
    using apply_step.store [of ?s2 i "fb_read_bucket b0" now] apply_step.refuse [of ?s2 i "fb_read_bucket b0" now] assms(1) f
    by (cases "1 \<le> fb_read_bucket b0") (auto simp: ApplyReadToken_def)
  ultimately show ?thesis by (meson converse_rtranclp_into_rtranclp r_into_rtranclp)
qed

text \<open>Threads that all load before one of them stores.\<close>

lemma race_fill:
  assumes "period_start (fb_period b) now = Some (fb_last_refill_time b)"
  shows "(apply_step now)\<^sup>*\<^sup>* \<lparr>sb_bucket = b, sb_pc = (\<lambda>_. Ap_start)\<rparr> \<lparr>sb_bucket = b, sb_pc = (\<lambda>i. if i < n then Ap_loaded (fb_read_bucket b) else Ap_start)\<rparr>"
proof (induction n)
  case (Suc n)
  let ?s = "\<lparr>sb_bucket = b, sb_pc = (\<lambda>i. if i < n then Ap_loaded (fb_read_bucket b) else Ap_start)\<rparr>"
  let ?s1 = "\<lparr>sb_bucket = b, sb_pc = (sb_pc ?s)(n := Ap_filled)\<rparr>"
  let ?s2 = "?s1\<lparr>sb_pc := (sb_pc ?s1)(n := Ap_loaded (fb_read_bucket (sb_bucket ?s1)))\<rparr>"
  have "apply_step now ?s ?s1" using assms by (intro apply_step.fill) (auto simp: refill_if_due_def)
  moreover have "apply_step now ?s1 ?s2" by (rule apply_step.load) simp
  moreover have "?s2 = \<lparr>sb_bucket = b, sb_pc = (\<lambda>i. if i < Suc n then Ap_loaded (fb_read_bucket b) else Ap_start)\<rparr>"
    by (auto simp: fun_eq_iff less_Suc_eq)
  ultimately show ?case using Suc by (metis (no_types, lifting) rtranclp.rtrancl_into_rtrancl)
qed simp

lemma race_store:
  assumes "1 \<le> n" "k \<le> m"
  shows "\<exists>b'. (apply_step now)\<^sup>*\<^sup>* \<lparr>sb_bucket = b, sb_pc = (\<lambda>i. if i < m then Ap_loaded n else Ap_start)\<rparr>
    \<lparr>sb_bucket = b', sb_pc = (\<lambda>i. if i < k then Ap_done True else if i < m then Ap_loaded n else Ap_start)\<rparr>"
  using assms(2)
proof (induction k)
  case (Suc k)
  then obtain b' where r: "(apply_step now)\<^sup>*\<^sup>* \<lparr>sb_bucket = b, sb_pc = (\<lambda>i. if i < m then Ap_loaded n else Ap_start)\<rparr>
    \<lparr>sb_bucket = b', sb_pc = (\<lambda>i. if i < k then Ap_done True else if i < m then Ap_loaded n else Ap_start)\<rparr>" by auto
  let ?s = "\<lparr>sb_bucket = b', sb_pc = (\<lambda>i. if i < k then Ap_done True else if i < m then Ap_loaded n else Ap_start)\<rparr>"
  let ?s1 = "\<lparr>sb_bucket = (sb_bucket ?s)\<lparr>fb_read_bucket := n - 1\<rparr>, sb_pc = (sb_pc ?s)(k := Ap_done True)\<rparr>"
  have "apply_step now ?s ?s1" using assms(1) Suc.prems by (intro apply_step.store) auto
  moreover have "sb_pc ?s1 = (\<lambda>i. if i < Suc k then Ap_done True else if i < m then Ap_loaded n else Ap_start)"
    by (auto simp: fun_eq_iff less_Suc_eq)
  ultimately show ?case using r by (metis (no_types, lifting) rtranclp.rtrancl_into_rtrancl shared_bucket.select_convs(2))
qed auto

text \<open>
  C35: threads that share a bucket exceed its limit. As long as one token is left in the period, any number of
  threads that apply for it at the same time can all get it.
\<close>

theorem racing_requests_exceed_limit:
  assumes "1 \<le> fb_read_bucket b" "period_start (fb_period b) now = Some (fb_last_refill_time b)"
  shows "\<exists>s. (apply_step now)\<^sup>*\<^sup>* \<lparr>sb_bucket = b, sb_pc = (\<lambda>_. Ap_start)\<rparr> s \<and> (\<forall>i<n. sb_pc s i = Ap_done True)"
proof -
  obtain b' where "(apply_step now)\<^sup>*\<^sup>* \<lparr>sb_bucket = b, sb_pc = (\<lambda>i. if i < n then Ap_loaded (fb_read_bucket b) else Ap_start)\<rparr>
    \<lparr>sb_bucket = b', sb_pc = (\<lambda>i. if i < n then Ap_done True else if i < n then Ap_loaded (fb_read_bucket b) else Ap_start)\<rparr>"
    using race_store [OF assms(1) order.refl] by blast
  from rtranclp_trans [OF race_fill [OF assms(2)] this] show ?thesis by (intro exI conjI) (assumption, simp)
qed

theorem racing_requests_exceed_limit_witness:
  "\<exists>s. (apply_step 61)\<^sup>*\<^sup>* \<lparr>sb_bucket = \<lparr>fb_token = \<lparr>tk_read_token = 1, tk_write_token = 1, tk_period = 60\<rparr>, fb_read_bucket = 1, fb_write_bucket = 1,
       fb_last_refill_time = 60\<rparr>, sb_pc = (\<lambda>_. Ap_start)\<rparr> s \<and> (\<forall>i<3. sb_pc s i = Ap_done True)"
  by (rule racing_requests_exceed_limit) (simp_all add: fb_period_def period_start_def)

end
