(* ===== verification/Proxy.thy ===== *)
theory Proxy
  imports Rpc Net Freq_Control
begin

text \<open>
  The proxy in front of MySQL (\<^verbatim>\<open>phxsqlproxy\<close>): the cached state of the group (\<^verbatim>\<open>group_status_cache.cpp\<close>), the
  choice of the server a connection goes to (\<^verbatim>\<open>io_router.cpp\<close>), and the transfer of requests and answers with
  its checks (\<^verbatim>\<open>io_channel.cpp\<close>). Statistics and log messages are not modelled; an error
  code \<^verbatim>\<open>-__LINE__\<close> is the negated line of the source.
\<close>

section \<open>Configuration\<close>

record proxy_config =
  pc_specified_master_ip :: string
  pc_only_proxy :: bool
  pc_mysql_port :: int
  pc_try_best :: bool
  pc_master_enable_read_port :: bool
  pc_proxy_protocol :: int

record WorkerConfig =
  wc_listen_ip :: string
  wc_port :: int
  wc_proxy_port :: int
  wc_fork_proc_count :: int
  wc_worker_thread_count :: int
  wc_io_routine_count :: int
  wc_is_master_port :: bool

text \<open>\<open>get\<close> is the reader of the configuration file, with the default of a missing entry.\<close>

definition ReadMasterWorkerConfig :: "(string \<Rightarrow> int \<Rightarrow> int) \<Rightarrow> string \<Rightarrow> int \<Rightarrow> WorkerConfig" where
  "ReadMasterWorkerConfig get svr_ip svr_port =
     (let proxy_port = get ''MasterProxyPort'' 0
      in \<lparr>wc_listen_ip = svr_ip, wc_port = svr_port, wc_proxy_port = if proxy_port = 0 then svr_port + 2 else proxy_port,
           wc_fork_proc_count = get ''MasterForkProcCnt'' 1, wc_worker_thread_count = get ''MasterWorkerThread'' 3,
           wc_io_routine_count = get ''MasterIORoutineCnt'' 1000, wc_is_master_port = True\<rparr>)"

definition ReadSlaveWorkerConfig :: "(string \<Rightarrow> int \<Rightarrow> int) \<Rightarrow> string \<Rightarrow> int \<Rightarrow> WorkerConfig" where
  "ReadSlaveWorkerConfig get svr_ip svr_port =
     (let port = get ''SlavePort'' 0; proxy_port = get ''SlaveProxyPort'' 0;
          port = (if port = 0 then svr_port + 1 else port)
      in \<lparr>wc_listen_ip = svr_ip, wc_port = port, wc_proxy_port = if proxy_port = 0 then port + 2 else proxy_port,
           wc_fork_proc_count = get ''SlaveForkProcCnt'' 1, wc_worker_thread_count = get ''SlaveWorkerThread'' 3,
           wc_io_routine_count = get ''SlaveIORoutineCnt'' 1000, wc_is_master_port = False\<rparr>)"

section \<open>The state of the group\<close>

record group_status =
  gs_master_ip :: string
  gs_expired_time :: u32
  gs_version :: u32
  gs_membership :: "string list"
  gs_last_failure :: "string \<Rightarrow> u64"

definition GroupStatusCache_init :: group_status where
  "GroupStatusCache_init = \<lparr>gs_master_ip = [], gs_expired_time = 0, gs_version = 0, gs_membership = [], gs_last_failure = (\<lambda>_. 0)\<rparr>"

definition IsMasterValid :: "int \<Rightarrow> string \<Rightarrow> u32 \<Rightarrow> bool" where
  "IsMasterValid now master_ip expired_time \<longleftrightarrow> master_ip \<noteq> [] \<and> \<not> expired_time < of_int now"

text \<open>The master the local server knows, or when it does not answer, one that another member knows.\<close>

definition fetch_master ::
  "proxy_config \<Rightarrow> WorkerConfig \<Rightarrow> 'n client \<Rightarrow> int \<Rightarrow> group_status \<Rightarrow> 'n \<Rightarrow> int \<times> (string \<times> u32 \<times> u32) \<times> 'n" where
  "fetch_master cfg wc c now gs n =
     (case Client_GetMaster c now GetMasterInfoFromGlobal ([], 0, 0) n of
        (ret, m, n) \<Rightarrow>
          if ret = 0 then (0, m, n)
          else if \<not> pc_try_best cfg \<or> gs_membership gs = [] then (-85, m, n)
          else case GetGlobalMaster c now (gs_membership gs) (cl_port c) False m n of
            (ret, m, n) \<Rightarrow>
              (if ret \<noteq> 0 then -92 else if fst m = wc_listen_ip wc then -98 else 0, m, n))"

definition adopt_master :: "int \<Rightarrow> string \<times> u32 \<times> u32 \<Rightarrow> group_status \<Rightarrow> int \<times> group_status" where
  "adopt_master now m gs =
     (case m of
        (master_ip, expired_time, version) \<Rightarrow>
          if \<not> IsMasterValid now master_ip expired_time then (-104, gs)
          else if version < gs_version gs then (-110, gs)
          else if version > gs_version gs \<or> expired_time < gs_expired_time gs
          then (0, gs\<lparr>gs_master_ip := master_ip, gs_expired_time := expired_time, gs_version := version\<rparr>)
          else (0, gs))"

definition UpdateMasterStatus ::
  "proxy_config \<Rightarrow> WorkerConfig \<Rightarrow> 'n client \<Rightarrow> int \<Rightarrow> group_status \<Rightarrow> 'n \<Rightarrow> int \<times> group_status \<times> 'n" where
  "UpdateMasterStatus cfg wc c now gs n =
     (if pc_specified_master_ip cfg \<noteq> [] then (0, gs, n)
      else case fetch_master cfg wc c now gs n of
        (ret, m, n) \<Rightarrow>
          if ret \<noteq> 0 then (ret, gs, n) else (case adopt_master now m gs of (ret, gs) \<Rightarrow> (ret, gs, n)))"

definition UpdateMembership :: "'n client \<Rightarrow> group_status \<Rightarrow> 'n \<Rightarrow> int \<times> group_status \<times> 'n" where
  "UpdateMembership c gs n =
     (case Client_GetMemberList c [] 0 n of
        (ret, membership, _, n) \<Rightarrow>
          let ret = (if ret = 0 \<and> membership = [] then -133 else ret)
          in (ret, if ret = 0 then gs\<lparr>gs_membership := membership\<rparr> else gs, n))"

definition Cache_GetMaster :: "proxy_config \<Rightarrow> int \<Rightarrow> group_status \<Rightarrow> int \<times> string" where
  "Cache_GetMaster cfg now gs =
     (if pc_specified_master_ip cfg \<noteq> [] then (0, pc_specified_master_ip cfg)
      else if IsMasterValid now (gs_master_ip gs) (gs_expired_time gs) then (0, gs_master_ip gs)
      else (-174, []))"

definition IsMember :: "string \<Rightarrow> group_status \<Rightarrow> bool" where
  "IsMember ip gs \<longleftrightarrow> ip \<in> set (gs_membership gs)"

text \<open>The member other than the master whose last failure is the oldest.\<close>

fun pick_slave :: "(string \<Rightarrow> u64) \<Rightarrow> string \<Rightarrow> string list \<Rightarrow> string \<times> u64 \<Rightarrow> string" where
  "pick_slave last_failure master_ip [] (slave_ip, t_last_failure) = slave_ip"
| "pick_slave last_failure master_ip (ip # ips) (slave_ip, t_last_failure) =
     pick_slave last_failure master_ip ips
       (if ip \<noteq> master_ip \<and> (slave_ip = [] \<or> last_failure ip < t_last_failure) then (ip, last_failure ip)
        else (slave_ip, t_last_failure))"

definition GetSlave :: "string \<Rightarrow> group_status \<Rightarrow> int \<times> string" where
  "GetSlave master_ip gs =
     (let slave_ip = pick_slave (gs_last_failure gs) master_ip (gs_membership gs) ([], 0)
      in (if slave_ip \<noteq> [] then 0 else -1, slave_ip))"

definition Cache_MarkFailure :: "string \<Rightarrow> u64 \<Rightarrow> group_status \<Rightarrow> group_status" where
  "Cache_MarkFailure ip now_ms gs = gs\<lparr>gs_last_failure := (gs_last_failure gs)(ip := now_ms)\<rparr>"

section \<open>Routing\<close>

text \<open>Where a connection on the master port or on the slave port goes.\<close>

definition Master_GetDestEndpoint :: "proxy_config \<Rightarrow> WorkerConfig \<Rightarrow> int \<Rightarrow> group_status \<Rightarrow> int + string \<times> int" where
  "Master_GetDestEndpoint cfg wc now gs =
     (case Cache_GetMaster cfg now gs of
        (ret, master_ip) \<Rightarrow>
          if ret \<noteq> 0 then Inl (-124)
          else if master_ip = wc_listen_ip wc then Inr (local_ip, pc_mysql_port cfg)
          else Inr (master_ip, if pc_proxy_protocol cfg \<noteq> 0 then wc_proxy_port wc else wc_port wc))"

definition Slave_GetDestEndpoint :: "proxy_config \<Rightarrow> WorkerConfig \<Rightarrow> int \<Rightarrow> group_status \<Rightarrow> int + string \<times> int" where
  "Slave_GetDestEndpoint cfg wc now gs =
     (case Cache_GetMaster cfg now gs of
        (ret, master_ip) \<Rightarrow>
          if ret \<noteq> 0 then Inl (-164)
          else if master_ip = wc_listen_ip wc \<and> \<not> pc_master_enable_read_port cfg
          then (case GetSlave master_ip gs of
                  (ret, slave_ip) \<Rightarrow>
                    if ret \<noteq> 0 then Inl (-172)
                    else Inr (slave_ip, if pc_proxy_protocol cfg \<noteq> 0 then wc_proxy_port wc else wc_port wc))
          else Inr (local_ip, pc_mysql_port cfg))"

text \<open>
  \<open>endpoint\<close> is one of the two choices, \<open>usable\<close> whether an address is well formed, and \<open>connect\<close> whether the
  connection was established; the connected address is remembered for failures of the slave port.
\<close>

definition ConnectDest ::
  "proxy_config \<Rightarrow> int + string \<times> int \<Rightarrow> (string \<Rightarrow> bool) \<Rightarrow> (string \<times> int \<Rightarrow> bool) \<Rightarrow> int + string \<times> int" where
  "ConnectDest cfg endpoint usable connect =
     (case (if pc_only_proxy cfg then Inr (local_ip, pc_mysql_port cfg) else endpoint) of
        Inl _ \<Rightarrow> Inl (-63)
      | Inr dest \<Rightarrow> if \<not> usable (fst dest) then Inl (-76) else if \<not> connect dest then Inl (-87) else Inr dest)"

definition Slave_MarkFailure :: "string \<Rightarrow> u64 \<Rightarrow> group_status \<Rightarrow> group_status" where
  "Slave_MarkFailure connect_dest now_ms gs =
     (if connect_dest \<noteq> [] \<and> connect_dest \<noteq> local_ip then Cache_MarkFailure connect_dest now_ms gs else gs)"

section \<open>The transfer of a connection\<close>

text \<open>A filter, with its state; the one of the library lets everything through.\<close>

type_synonym 'f request_filter = "int \<Rightarrow> bool \<Rightarrow> string \<Rightarrow> bytes \<Rightarrow> 'f \<Rightarrow> (bool \<times> 'f) option"

definition RequestFilter_CanExecute :: "'f request_filter" where
  "RequestFilter_CanExecute now is_master_port db_name buf f = Some (True, f)"

text \<open>
  The log message about a refused request constructs a string of all but five bytes, which throws for a shorter one.
\<close>

definition Master_CanExecute ::
  "proxy_config \<Rightarrow> WorkerConfig \<Rightarrow> 'f request_filter \<Rightarrow> int \<Rightarrow> group_status \<Rightarrow> string \<times> int \<Rightarrow> string \<Rightarrow> bytes \<Rightarrow> 'f \<Rightarrow> (bool \<times> 'f) option" where
  "Master_CanExecute cfg wc flt now gs dest db_name buf f =
     (case Cache_GetMaster cfg now gs of
        (ret, master_ip) \<Rightarrow>
          if ret \<noteq> 0 then Some (False, f)
          else do {
            let can_execute = (if fst dest = local_ip then master_ip = wc_listen_ip wc else master_ip = fst dest);
            (can_execute, f) \<leftarrow> (if can_execute \<and> snd dest = pc_mysql_port cfg then flt now True db_name buf f else Some (can_execute, f));
            if \<not> can_execute \<and> length buf < 5 then None else Some (can_execute, f)
          })"

definition Slave_CanExecute ::
  "proxy_config \<Rightarrow> WorkerConfig \<Rightarrow> 'f request_filter \<Rightarrow> int \<Rightarrow> group_status \<Rightarrow> string \<times> int \<Rightarrow> string \<Rightarrow> bytes \<Rightarrow> 'f \<Rightarrow> (bool \<times> 'f) option" where
  "Slave_CanExecute cfg wc flt now gs dest db_name buf f =
     (case Cache_GetMaster cfg now gs of
        (ret, master_ip) \<Rightarrow>
          if ret \<noteq> 0 \<or> \<not> pc_master_enable_read_port cfg \<and> master_ip = fst dest then Some (False, f)
          else do {
            (can_execute, f) \<leftarrow> (if snd dest = pc_mysql_port cfg then flt now False db_name buf f else Some (True, f));
            if \<not> can_execute \<and> length buf < 5 then None else Some (can_execute, f)
          })"

text \<open>Reading past the bytes that were received is undefined, as is a string of a negative length.\<close>

definition strlen_at :: "bytes \<Rightarrow> nat \<Rightarrow> nat option" where
  "strlen_at buf offset = (if 0 \<in> set (drop offset buf) then Some (length (takeWhile (\<lambda>b. b \<noteq> 0) (drop offset buf))) else None)"

definition DecodedLengthBinary :: "bytes \<Rightarrow> (u64 \<times> nat) option" where
  "DecodedLengthBinary buf =
     (case buf of
        [] \<Rightarrow> None
      | first # rest \<Rightarrow>
          let len = (\<lambda>k. if length buf < k + 1 then Some (-1, 0) else Some (of_nat (le_val (take k rest)), k + 1))
          in if first = 251 then Some (0, 1) else if first = 252 then len 2 else if first = 253 then len 3
             else if first = 254 then len 8 else Some (ucast first, 1))"

definition GetDBNameFromAuthBuf :: "bytes \<Rightarrow> string \<Rightarrow> string option" where
  "GetDBNameFromAuthBuf buf db_name =
     (if length buf < 36 \<or> \<not> bit (le_val (take 4 (drop 4 buf))) 3 then Some db_name
      else do {
        username \<leftarrow> strlen_at buf 36;
        let offset = 36 + username + 1;
        (len, len_field_size) \<leftarrow> DecodedLengthBinary (drop offset buf);
        if len = -1 then Some db_name
        else do {
          let offset = offset + len_field_size + unat len;
          n \<leftarrow> strlen_at buf offset;
          Some (if n \<noteq> 0 then bytes_str (take n (drop offset buf)) else db_name)
        }
      })"

definition GetDBNameFromReqBuf :: "bytes \<Rightarrow> string \<Rightarrow> string option" where
  "GetDBNameFromReqBuf buf db_name =
     (if length buf > 5 \<and> buf ! 4 = 2
      then let buf_len = le_val (take 3 buf)
           in if buf_len = 0 \<or> length buf < 5 + (buf_len - 1) then None else Some (bytes_str (take (buf_len - 1) (drop 5 buf)))
      else Some db_name)"

definition WriteToDest :: "bytes \<Rightarrow> socket \<Rightarrow> int \<times> socket" where
  "WriteToDest buf dest = (case sock_send buf dest of (n, dest) \<Rightarrow> (if n < int (length buf) then -148 else n, dest))"

text \<open>What polling and reading a connection gave: bytes, its end, only an error flag, or nothing.\<close>

datatype poll_event = PollIn bytes | PollClosed | PollHup | PollErr | PollNone

record channel =
  ch_dest :: "string \<times> int"
  ch_authed :: bool
  ch_db_name :: string

text \<open>\<open>check\<close> is the test of the channel, \<open>None\<close> for the direction from the server, which is not checked.\<close>

definition TransMsgDirect ::
  "(string \<Rightarrow> bytes \<Rightarrow> 'f \<Rightarrow> (bool \<times> 'f) option) option \<Rightarrow> poll_event \<Rightarrow> channel \<Rightarrow> 'f \<Rightarrow> socket \<Rightarrow> (int \<times> channel \<times> 'f \<times> socket) option" where
  "TransMsgDirect check ev ch f dest =
     (case ev of
        PollIn buf \<Rightarrow>
          (case check of
             None \<Rightarrow> Some (case WriteToDest buf dest of (n, dest) \<Rightarrow> (if n < 0 then -189 else n, ch, f, dest))
           | Some can \<Rightarrow> do {
               db \<leftarrow> (if ch_authed ch then GetDBNameFromReqBuf else GetDBNameFromAuthBuf) buf (ch_db_name ch);
               let ch = ch\<lparr>ch_authed := True, ch_db_name := db\<rparr>;
               (ok, f) \<leftarrow> can db buf f;
               Some (if ok then (case WriteToDest buf dest of (n, dest) \<Rightarrow> (if n < 0 then -189 else n, ch, f, dest))
                     else (-1, ch, f, dest))
             })
      | PollClosed \<Rightarrow> Some (-1, ch, f, dest)
      | PollErr \<Rightarrow> Some (-198, ch, f, dest)
      | _ \<Rightarrow> Some (0, ch, f, dest))"

text \<open>
  The rounds of a connection, each with the time, the state of the group and what the two sides sent. The
  result is the number of bytes when one side ended, and the connections.
\<close>

type_synonym poll_round = "int \<times> group_status \<times> poll_event \<times> poll_event"

fun TransMsg ::
  "(int \<Rightarrow> group_status \<Rightarrow> string \<times> int \<Rightarrow> string \<Rightarrow> bytes \<Rightarrow> 'f \<Rightarrow> (bool \<times> 'f) option) \<Rightarrow> poll_round list \<Rightarrow> int \<Rightarrow> channel \<Rightarrow> 'f \<Rightarrow> socket \<Rightarrow> socket
    \<Rightarrow> (bool \<times> int \<times> 'f \<times> socket \<times> socket) option" where
  "TransMsg can [] byte_size_tot ch f client sqlsvr = Some (False, byte_size_tot, f, client, sqlsvr)"
| "TransMsg can ((now, gs, from_client, from_server) # rounds) byte_size_tot ch f client sqlsvr = do {
     (byte_size, ch, f, sqlsvr) \<leftarrow> TransMsgDirect (Some (can now gs (ch_dest ch))) from_client ch f sqlsvr;
     if byte_size < 0 then Some (True, byte_size_tot, f, client, sqlsvr)
     else do {
       (byte_size2, ch, f, client) \<leftarrow> TransMsgDirect None from_server ch f client;
       if byte_size2 < 0 then Some (True, byte_size_tot + byte_size, f, client, sqlsvr)
       else TransMsg can rounds (byte_size_tot + byte_size + byte_size2) ch f client sqlsvr
     }
   }"

section \<open>Writes go to the master\<close>

lemma WriteToDest_sent: "WriteToDest buf sk = (n, sk') \<Longrightarrow> \<exists>k. sk_sent sk' = sk_sent sk @ take k buf"
  by (intro exI [of _ "min (length buf) (sk_room sk)"]) (auto simp: WriteToDest_def sock_send_def Let_def split: if_splits)

definition goes_to_master :: "proxy_config \<Rightarrow> WorkerConfig \<Rightarrow> string \<Rightarrow> int \<Rightarrow> group_status \<Rightarrow> bool" where
  "goes_to_master cfg wc dest now gs \<longleftrightarrow>
     (\<exists>master_ip. Cache_GetMaster cfg now gs = (0, master_ip) \<and>
        (if dest = local_ip then master_ip = wc_listen_ip wc else master_ip = dest))"

lemma Master_CanExecute_dest:
  "Master_CanExecute cfg wc flt now gs dest db buf f = Some (True, f') \<Longrightarrow> goes_to_master cfg wc (fst dest) now gs"
proof -
  assume a: "Master_CanExecute cfg wc flt now gs dest db buf f = Some (True, f')"
  obtain ret ip where m: "Cache_GetMaster cfg now gs = (ret, ip)" by (cases "Cache_GetMaster cfg now gs")
  define can where "can = (if fst dest = local_ip then ip = wc_listen_ip wc else ip = fst dest)"
  have "ret = 0" using a m by (auto simp: Master_CanExecute_def split: if_splits)
  moreover have "can" using a m \<open>ret = 0\<close> by (simp add: Master_CanExecute_def can_def [symmetric] split: if_splits)
  ultimately show ?thesis using m by (simp add: goes_to_master_def can_def)
qed

lemma TransMsgDirect_client:
  assumes "TransMsgDirect (Some can) ev ch f sk = Some (n, ch', f', sk')"
  shows "ch_dest ch' = ch_dest ch \<and>
    (sk_sent sk' = sk_sent sk \<or>
     (\<exists>buf db k f'. ev = PollIn buf \<and> can db buf f = Some (True, f') \<and> sk_sent sk' = sk_sent sk @ take k buf))"
proof (cases ev)
  case (PollIn buf)
  with assms obtain db ok f1 where c: "can db buf f = Some (ok, f1)" and r:
      "(if ok then case WriteToDest buf sk of (n, dest) \<Rightarrow> (if n < 0 then -189 else n, ch\<lparr>ch_authed := True, ch_db_name := db\<rparr>, f1, dest)
        else (-1, ch\<lparr>ch_authed := True, ch_db_name := db\<rparr>, f1, sk)) = (n, ch', f', sk')"
    by (auto simp: TransMsgDirect_def bind_eq_Some_conv Let_def)
  obtain k sk1 where w: "WriteToDest buf sk = (k, sk1)" by (cases "WriteToDest buf sk")
  show ?thesis
  proof (cases ok)
    case True
    with r w have "sk' = sk1" "ch_dest ch' = ch_dest ch" by auto
    with WriteToDest_sent [OF w] PollIn c True show ?thesis by auto
  next
    case False
    with r show ?thesis by auto
  qed
qed (use assms in \<open>auto simp: TransMsgDirect_def\<close>)

lemma TransMsgDirect_server: "TransMsgDirect None ev ch f sk = Some (n, ch', f', sk') \<Longrightarrow> ch' = ch"
  by (auto simp: TransMsgDirect_def split: poll_event.splits prod.splits)

text \<open>
  C14: writes go to the master. On the master port, whatever is passed to the server of a connection are parts
  of requests, each of which was read at a time when the proxy knew a master with a valid lease and the server
  of the connection was this master.
\<close>

theorem TransMsg_only_to_master:
  assumes "TransMsg (Master_CanExecute cfg wc flt) rounds tot ch f client sqlsvr = Some (ended, tot', f', client', sqlsvr')"
  shows "\<exists>parts. sk_sent sqlsvr' = sk_sent sqlsvr @ concat parts \<and>
    (\<forall>part\<in>set parts. \<exists>now gs buf reply k. (now, gs, PollIn buf, reply) \<in> set rounds \<and> part = take k buf \<and>
       goes_to_master cfg wc (fst (ch_dest ch)) now gs)"
proof -
  let ?can = "Master_CanExecute cfg wc flt"
  define ok where "ok rs dest part \<longleftrightarrow> (\<exists>now gs buf reply k. (now, gs, PollIn buf, reply) \<in> set rs \<and> part = take k buf \<and>
       goes_to_master cfg wc dest now gs)" for rs :: "poll_round list" and dest part
  have mono: "ok rs dest part \<Longrightarrow> ok (r # rs) dest part" for r rs dest part by (auto simp: ok_def)
  have "\<exists>parts. sk_sent sqlsvr' = sk_sent sqlsvr @ concat parts \<and> (\<forall>part\<in>set parts. ok rounds (fst (ch_dest ch)) part)"
    using assms
  proof (induction rounds arbitrary: tot ch f client sqlsvr)
    case Nil
    then show ?case by (intro exI [of _ "[]"]) simp
  next
    case (Cons r rounds)
    obtain now gs ev rev where r: "r = (now, gs, ev, rev)" using prod_cases4 by blast
    obtain n1 ch1 f1 sv1 where d: "TransMsgDirect (Some (?can now gs (ch_dest ch))) ev ch f sqlsvr = Some (n1, ch1, f1, sv1)"
      using Cons.prems r by (auto simp: bind_eq_Some_conv)
    note c = TransMsgDirect_client [OF d]
    have "\<exists>part. sk_sent sv1 = sk_sent sqlsvr @ concat part \<and> (\<forall>p\<in>set part. ok (r # rounds) (fst (ch_dest ch)) p)"
    proof (cases "sk_sent sv1 = sk_sent sqlsvr")
      case True
      then show ?thesis by (intro exI [of _ "[]"]) simp
    next
      case False
      with c obtain buf db k f' where b: "ev = PollIn buf" "?can now gs (ch_dest ch) db buf f = Some (True, f')"
          "sk_sent sv1 = sk_sent sqlsvr @ take k buf" by blast
      from Master_CanExecute_dest [OF b(2)] b r show ?thesis by (intro exI [of _ "[take k buf]"]) (auto simp: ok_def)
    qed
    then obtain part where part: "sk_sent sv1 = sk_sent sqlsvr @ concat part" "\<forall>p\<in>set part. ok (r # rounds) (fst (ch_dest ch)) p" by blast
    show ?case
    proof (cases "sqlsvr' = sv1")
      case True
      with part show ?thesis by blast
    next
      case False
      then obtain t2 ch2 f2 cl2 where t: "TransMsg ?can rounds t2 ch2 f2 cl2 sv1 = Some (ended, tot', f', client', sqlsvr')" "ch2 = ch1"
        using Cons.prems r d by (auto simp: bind_eq_Some_conv dest!: TransMsgDirect_server split: if_splits)
      from Cons.IH [OF t(1)] t(2) c obtain parts where p: "sk_sent sqlsvr' = sk_sent sv1 @ concat parts"
          "\<forall>part\<in>set parts. ok rounds (fst (ch_dest ch)) part" by auto
      then have "\<forall>q\<in>set (part @ parts). ok (r # rounds) (fst (ch_dest ch)) q" using part(2) mono [of rounds _ _ r] by auto
      with part(1) p(1) show ?thesis by (intro exI [of _ "part @ parts"]) simp
    qed
  qed
  then show ?thesis by (simp add: ok_def)
qed

text \<open>A proxy on the master's machine, with one request and its answer.\<close>

definition proxy_cfg :: proxy_config where
  "proxy_cfg = \<lparr>pc_specified_master_ip = [], pc_only_proxy = False, pc_mysql_port = 3306, pc_try_best = False,
     pc_master_enable_read_port = False, pc_proxy_protocol = 0\<rparr>"

definition proxy_wc :: WorkerConfig where
  "proxy_wc = ReadMasterWorkerConfig (\<lambda>_ d. d) ''10.0.0.1'' 54321"

definition proxy_gs :: group_status where
  "proxy_gs = GroupStatusCache_init\<lparr>gs_master_ip := ''10.0.0.1'', gs_expired_time := 120, gs_version := 7,
     gs_membership := [''10.0.0.1'', ''10.0.0.2'', ''10.0.0.3''], gs_last_failure := (\<lambda>_. 0)(''10.0.0.2'' := 5)\<rparr>"

definition proxy_sock :: socket where
  "proxy_sock = \<lparr>sk_chunks = [], sk_broken = False, sk_sent = [], sk_room = 100\<rparr>"

definition proxy_request :: bytes where
  "proxy_request = [2, 0, 0, 0, 3, 65]"

theorem TransMsg_only_to_master_witness:
  "\<exists>parts. proxy_request = concat parts \<and>
    (\<forall>part\<in>set parts. \<exists>k. part = take k proxy_request \<and> goes_to_master proxy_cfg proxy_wc local_ip 100 proxy_gs)"
proof -
  let ?ch = "\<lparr>ch_dest = (local_ip, 3306), ch_authed = True, ch_db_name = []\<rparr>"
  let ?rounds = "[(100, proxy_gs, PollIn proxy_request, PollNone), (100, proxy_gs, PollClosed, PollNone)]"
  have "TransMsg (Master_CanExecute proxy_cfg proxy_wc RequestFilter_CanExecute) ?rounds 0 ?ch () proxy_sock proxy_sock =
      Some (True, 6, (), proxy_sock, proxy_sock\<lparr>sk_sent := proxy_request, sk_room := 94\<rparr>)"
    by (simp add: TransMsgDirect_def GetDBNameFromReqBuf_def proxy_request_def Master_CanExecute_def Cache_GetMaster_def IsMasterValid_def
        proxy_cfg_def proxy_gs_def proxy_wc_def ReadMasterWorkerConfig_def RequestFilter_CanExecute_def WriteToDest_def sock_send_def
        proxy_sock_def GroupStatusCache_init_def)
  from TransMsg_only_to_master [OF this] show ?thesis by (auto simp: proxy_sock_def)
qed

section \<open>The cache\<close>

text \<open>The valid masters that were fetched in a sequence of updates, with the time and the network of each.\<close>

fun run_updates ::
  "proxy_config \<Rightarrow> WorkerConfig \<Rightarrow> 'n client \<Rightarrow> (int \<times> 'n) list \<Rightarrow> group_status \<times> (string \<times> u32 \<times> u32) list \<Rightarrow> group_status \<times> (string \<times> u32 \<times> u32) list" where
  "run_updates cfg wc c [] (gs, seen) = (gs, seen)"
| "run_updates cfg wc c ((now, n) # us) (gs, seen) =
     (case fetch_master cfg wc c now gs n of
        (ret, m, _) \<Rightarrow>
          run_updates cfg wc c us (fst (snd (UpdateMasterStatus cfg wc c now gs n)),
            if ret = 0 \<and> IsMasterValid now (fst m) (fst (snd m)) then seen @ [m] else seen))"

definition cache_inv :: "group_status \<Rightarrow> (string \<times> u32 \<times> u32) list \<Rightarrow> bool" where
  "cache_inv gs seen \<longleftrightarrow>
     (gs_version gs = 0 \<and> gs_expired_time gs = 0 \<or> (gs_master_ip gs, gs_expired_time gs, gs_version gs) \<in> set seen) \<and>
     (\<forall>(ip, expired_time, version)\<in>set seen. version \<le> gs_version gs \<and> (version = gs_version gs \<longrightarrow> gs_expired_time gs \<le> expired_time))"

lemma adopt_master_inv:
  assumes "cache_inv gs seen"
  shows "cache_inv (snd (adopt_master now m gs)) (if IsMasterValid now (fst m) (fst (snd m)) then seen @ [m] else seen)"
  using assms by (cases m) (auto simp: cache_inv_def adopt_master_def word_gt_0)

text \<open>
  C17: the cache is careful. After any updates, the cached master is one of the valid masters that were fetched,
  none of them has a newer version, and none with this version expires earlier. No master is configured, and
  only the updates of the master status change the cache.
\<close>

theorem UpdateMasterStatus_newest:
  assumes "pc_specified_master_ip cfg = []" "run_updates cfg wc c us (GroupStatusCache_init, []) = (gs, seen)"
  shows "(gs_version gs = 0 \<or> (gs_master_ip gs, gs_expired_time gs, gs_version gs) \<in> set seen) \<and>
    (\<forall>(ip, expired_time, version)\<in>set seen. version \<le> gs_version gs \<and> (version = gs_version gs \<longrightarrow> gs_expired_time gs \<le> expired_time))"
proof -
  have "cache_inv gs' seen' \<Longrightarrow> run_updates cfg wc c us (gs', seen') = (gs, seen) \<Longrightarrow> cache_inv gs seen" for gs' seen'
  proof (induction us arbitrary: gs' seen')
    case (Cons u us)
    obtain now n where u: "u = (now, n)" by fastforce
    obtain ret m n' where f: "fetch_master cfg wc c now gs' n = (ret, m, n')" using prod_cases3 by blast
    let ?gs = "fst (snd (UpdateMasterStatus cfg wc c now gs' n))"
    let ?seen = "if ret = 0 \<and> IsMasterValid now (fst m) (fst (snd m)) then seen' @ [m] else seen'"
    have "?gs = (if ret = 0 then snd (adopt_master now m gs') else gs')"
      using assms(1) f by (simp add: UpdateMasterStatus_def case_prod_beta)
    then have "cache_inv ?gs ?seen" using Cons.prems(1) adopt_master_inv [OF Cons.prems(1), of now m] by (simp split: if_splits)
    moreover have "run_updates cfg wc c us (?gs, ?seen) = (gs, seen)" using Cons.prems(2) u f by simp
    ultimately show ?case by (rule Cons.IH)
  qed simp
  from this [of GroupStatusCache_init "[]"] assms(2) show ?thesis by (auto simp: cache_inv_def GroupStatusCache_init_def)
qed

theorem UpdateMasterStatus_newest_witness:
  "\<exists>gs seen. run_updates proxy_cfg proxy_wc wire_client [(1000, ()), (1003, ())] (GroupStatusCache_init, []) = (gs, seen) \<and>
     gs_expired_time gs = 1010 \<and> seen = [(''10.0.0.1'', 1010, 7), (''10.0.0.1'', 1013, 7)] \<and>
     (\<forall>(ip, expired_time, version)\<in>set seen. version \<le> gs_version gs)"
proof -
  have "DecodeMasterInfo (rk_master wire_codecs) 1003 [7] = Some (''10.0.0.1'', 1013, 7)"
    by (simp add: DecodeMasterInfo_def wire_codecs_def wire_master_def)
  then have r: "run_updates proxy_cfg proxy_wc wire_client [(1000, ()), (1003, ())] (GroupStatusCache_init, []) =
      (GroupStatusCache_init\<lparr>gs_master_ip := ''10.0.0.1'', gs_expired_time := 1010, gs_version := 7\<rparr>,
       [(''10.0.0.1'', 1010, 7), (''10.0.0.1'', 1013, 7)])"
    by (simp add: fetch_master_def UpdateMasterStatus_def Client_GetMaster_def RpcCall_def RpcCallWithIP_def wire_client_def wire_answer
        proxy_cfg_def adopt_master_def IsMasterValid_def GroupStatusCache_init_def)
  have "pc_specified_master_ip proxy_cfg = []" by (simp add: proxy_cfg_def)
  from UpdateMasterStatus_newest [OF this r] show ?thesis unfolding r by simp
qed

section \<open>Choosing a slave\<close>

lemma pick_slave_inv:
  assumes "pick_slave lf master ips (s, t) = ip" "s = [] \<or> t = lf s \<and> s \<noteq> master" "[] \<notin> set ips"
  shows "ip = s \<and> s = [] \<and> set ips \<subseteq> {master} \<or>
    ip \<noteq> [] \<and> ip \<noteq> master \<and> ip \<in> insert s (set ips) \<and> (s \<noteq> [] \<longrightarrow> lf ip \<le> lf s) \<and> (\<forall>x\<in>set ips - {master}. lf ip \<le> lf x)"
  using assms
proof (induction ips arbitrary: s t)
  case (Cons x ips)
  show ?case
  proof (cases "x \<noteq> master \<and> (s = [] \<or> lf x < t)")
    case True
    with Cons.prems Cons.IH [of x "lf x"] show ?thesis by auto
  next
    case False
    with Cons.prems Cons.IH [of s t] show ?thesis by auto
  qed
qed auto

text \<open>
  The choice of a slave. A slave is found exactly when there is a member other than the master; it is
  such a member, and no other one failed longer ago.
\<close>

theorem GetSlave_least_failed:
  assumes "[] \<notin> set (gs_membership gs)"
  shows "case GetSlave master_ip gs of
    (ret, slave_ip) \<Rightarrow>
      (ret = 0 \<longleftrightarrow> \<not> set (gs_membership gs) \<subseteq> {master_ip}) \<and>
      (ret = 0 \<longrightarrow> slave_ip \<in> set (gs_membership gs) - {master_ip} \<and>
        (\<forall>ip\<in>set (gs_membership gs) - {master_ip}. gs_last_failure gs slave_ip \<le> gs_last_failure gs ip))"
  using pick_slave_inv [OF refl, of "[]" 0 "gs_last_failure gs" master_ip "gs_membership gs"] assms
  by (auto simp: GetSlave_def Let_def)

theorem GetSlave_least_failed_witness:
  "GetSlave ''10.0.0.1'' proxy_gs = (0, ''10.0.0.3'') \<and>
   gs_last_failure proxy_gs ''10.0.0.3'' \<le> gs_last_failure proxy_gs ''10.0.0.2''"
proof -
  have "GetSlave ''10.0.0.1'' proxy_gs = (0, ''10.0.0.3'')" by (simp add: GetSlave_def proxy_gs_def GroupStatusCache_init_def)
  with GetSlave_least_failed [of proxy_gs "''10.0.0.1''"] show ?thesis by (auto simp: proxy_gs_def)
qed

end
