(* ===== verification/Proxy_Header.thy ===== *)
theory Proxy_Header
  imports Proxy
begin

text \<open>
  The proxy protocol (\<^verbatim>\<open>proxy_protocol_handler.cpp\<close>, \<^verbatim>\<open>phxsqlproxyutil.cpp\<close>): a proxy that passes a connection on
  sends a header with the addresses of the original one, as text (version 1) or in binary form (version 2).
\<close>

section \<open>Addresses\<close>

text \<open>A socket address, with the bytes of the address in network order; \<open>SA_None\<close> is any other family.\<close>

datatype sock_addr = SA_None | SA_IP4 bytes u16 | SA_IP6 bytes u16

text \<open>Splitting at a character: an empty word at the end is dropped.\<close>

function SplitStr :: "string \<Rightarrow> char \<Rightarrow> string list" where
  "SplitStr s delim =
     (if s = [] then []
      else let rest = dropWhile (\<lambda>c. c \<noteq> delim) s
           in takeWhile (\<lambda>c. c \<noteq> delim) s # (if rest = [] then [] else SplitStr (tl rest) delim))"
  by pat_completeness auto
termination
proof (relation "measure (\<lambda>(s, delim). length s)", goal_cases)
  case (2 s delim rest)
  then have "length rest \<le> length s" by (simp add: length_dropWhile_le)
  moreover have "0 < length s" using 2(1) by simp
  ultimately show ?case unfolding in_measure by (simp del: length_greater_0_conv)
qed simp

declare SplitStr.simps [simp del]

text \<open>\<^verbatim>\<open>inet_ntop\<close> and \<^verbatim>\<open>inet_pton\<close> for version 4: four numbers up to 255 without leading zeros.\<close>

fun inet_ntop4 :: "bytes \<Rightarrow> string" where
  "inet_ntop4 [] = []"
| "inet_ntop4 [b] = show_nat (unat b)"
| "inet_ntop4 (b # bs) = show_nat (unat b) @ ''.'' @ inet_ntop4 bs"

definition octet :: "string \<Rightarrow> byte option" where
  "octet s = (if s \<noteq> [] \<and> list_all is_digit s \<and> (hd s = CHR ''0'' \<longrightarrow> length s = 1) \<and> digits_val s \<le> 255
     then Some (of_nat (digits_val s)) else None)"

fun inet_pton4 :: "nat \<Rightarrow> string \<Rightarrow> bytes option" where
  "inet_pton4 0 s = None"
| "inet_pton4 (Suc n) s =
     (let rest = dropWhile (\<lambda>c. c \<noteq> CHR ''.'') s
      in case octet (takeWhile (\<lambda>c. c \<noteq> CHR ''.'') s) of
        None \<Rightarrow> None
      | Some b \<Rightarrow> if n = 0 then (if rest = [] then Some [b] else None)
          else if rest = [] then None else map_option (\<lambda>bs. b # bs) (inet_pton4 n (tl rest)))"

definition SetAddr :: "string \<Rightarrow> u16 \<Rightarrow> bool \<times> sock_addr" where
  "SetAddr ip port =
     (if ip \<in> {[], ''0'', ''0.0.0.0'', ''*''} then (True, SA_IP4 [0, 0, 0, 0] port)
      else case inet_pton4 4 ip of Some a \<Rightarrow> (True, SA_IP4 a port) | None \<Rightarrow> (False, SA_IP4 [0, 0, 0, 0] port))"

text \<open>The text form of version 6 is that of the C library: \<open>ntop6\<close> and \<open>pton6\<close>.\<close>

definition SetAddr6 :: "(string \<Rightarrow> bytes option) \<Rightarrow> string \<Rightarrow> u16 \<Rightarrow> bool \<times> sock_addr" where
  "SetAddr6 pton6 ip port =
     (if ip \<in> {[], ''0'', ''::'', ''*''} then (True, SA_IP6 (replicate 16 0) port)
      else case pton6 ip of Some a \<Rightarrow> (True, SA_IP6 a port) | None \<Rightarrow> (False, SA_IP6 (replicate 16 0) port))"

definition SockAddrToIPPort :: "(bytes \<Rightarrow> string) \<Rightarrow> sock_addr \<Rightarrow> int + string \<times> u16" where
  "SockAddrToIPPort ntop6 a =
     (case a of SA_None \<Rightarrow> Inl (-172) | SA_IP4 b port \<Rightarrow> Inr (inet_ntop4 b, port) | SA_IP6 b port \<Rightarrow> Inr (ntop6 b, port))"

text \<open>\<^verbatim>\<open>atoi\<close>: the value is clamped to 64 bits and cut to 32.\<close>

definition atoi :: "string \<Rightarrow> int" where
  "atoi s =
     (case scan_unsigned s of
        (None, _, _) \<Rightarrow> 0
      | (Some n, neg, _) \<Rightarrow>
          let v = (if neg then max (- int n) (- (2 ^ 63)) else min (int n) (2 ^ 63 - 1)) in sint (of_int v :: u32))"

section \<open>Making a header\<close>

definition MakeProxyHeaderV1 :: "(bytes \<Rightarrow> string) \<Rightarrow> sock_addr \<Rightarrow> sock_addr \<Rightarrow> int + string" where
  "MakeProxyHeaderV1 ntop6 src dst =
     (case (case (src, dst) of (SA_IP4 _ _, SA_IP4 _ _) \<Rightarrow> Some ''PROXY TCP4 '' | (SA_IP6 _ _, SA_IP6 _ _) \<Rightarrow> Some ''PROXY TCP6 '' | _ \<Rightarrow> None) of
        None \<Rightarrow> Inr (''PROXY UNKNOWN'' @ [CHR 0x0D, CHR 0x0A])
      | Some header \<Rightarrow>
          (case (SockAddrToIPPort ntop6 src, SockAddrToIPPort ntop6 dst) of
             (Inr (src_ip, src_port), Inr (dst_ip, dst_port)) \<Rightarrow>
               Inr (header @ src_ip @ '' '' @ dst_ip @ '' '' @ show_nat (unat src_port) @ '' '' @ show_nat (unat dst_port) @
                 [CHR 0x0D, CHR 0x0A])
           | (Inl _, _) \<Rightarrow> Inl (-307)
           | _ \<Rightarrow> Inl (-310)))"

definition be16 :: "u16 \<Rightarrow> bytes" where
  "be16 w = [ucast (drop_bit 8 w), ucast w]"

definition be16_val :: "bytes \<Rightarrow> u16" where
  "be16_val b = ucast (b ! 0) * 256 + ucast (b ! 1)"

definition PP2_SIGNATURE :: bytes where
  "PP2_SIGNATURE = [0x0D, 0x0A, 0x0D, 0x0A, 0, 0x0D, 0x0A, 0x51, 0x55, 0x49, 0x54, 0x0A]"

definition MakeProxyHeaderV2 :: "sock_addr \<Rightarrow> sock_addr \<Rightarrow> bytes" where
  "MakeProxyHeaderV2 src dst =
     (case (src, dst) of
        (SA_IP4 a p, SA_IP4 b q) \<Rightarrow> PP2_SIGNATURE @ [0x21, 0x11] @ be16 12 @ a @ b @ be16 p @ be16 q
      | (SA_IP6 a p, SA_IP6 b q) \<Rightarrow> PP2_SIGNATURE @ [0x21, 0x21] @ be16 36 @ a @ b @ be16 p @ be16 q
      | _ \<Rightarrow> PP2_SIGNATURE @ [0x21, 0x00] @ be16 0)"

text \<open>A header is written in one piece; a connection that takes no byte is tried again, here for ever.\<close>

definition SendProxyHeader :: "(bytes \<Rightarrow> string) \<Rightarrow> int \<Rightarrow> sock_addr \<Rightarrow> sock_addr \<Rightarrow> socket \<Rightarrow> (int \<times> socket) option" where
  "SendProxyHeader ntop6 proxy_protocol src dst sk =
     (if proxy_protocol = 0 then Some (0, sk)
      else case (if proxy_protocol = 1 then map_sum id str_bytes (MakeProxyHeaderV1 ntop6 src dst)
                 else if proxy_protocol = 2 then Inr (MakeProxyHeaderV2 src dst) else Inl (-277)) of
        Inl ret \<Rightarrow> Some (ret, sk)
      | Inr header \<Rightarrow>
          (case sock_send header sk of
             (n, sk) \<Rightarrow> if n = 0 then None else Some (if n \<noteq> int (length header) then -284 else n, sk)))"

section \<open>Reading a header\<close>

text \<open>
  The length of the header and the addresses. \<open>None\<close> is undefined: a line without a second word, and
  addresses that are longer than what was received.
\<close>

definition ParseProxyHeaderV1 ::
  "(string \<Rightarrow> bytes option) \<Rightarrow> bytes \<Rightarrow> sock_addr \<Rightarrow> sock_addr \<Rightarrow> (int \<times> sock_addr \<times> sock_addr) option" where
  "ParseProxyHeaderV1 pton6 hdr src dst =
     (let line = takeWhile (\<lambda>b. b \<noteq> 0x0D) (butlast hdr); size = length line + 2
      in if length line = length hdr - 1 \<or> hdr ! (length line + 1) \<noteq> 0x0A then Some (-189, src, dst)
         else
           let tokens = SplitStr (bytes_str line) CHR '' ''
           in if length tokens < 2 then None
              else if tokens ! 1 = ''UNKNOWN'' then Some (int size, src, dst)
              else if length tokens \<noteq> 6 then Some (-197, src, dst)
              else
                let src_port = atoi (tokens ! 4); dst_port = atoi (tokens ! 5);
                    set_addr = (if tokens ! 1 = ''TCP4'' then Some SetAddr else if tokens ! 1 = ''TCP6'' then Some (SetAddr6 pton6) else None)
                in if src_port < 0 \<or> src_port > 65535 \<or> dst_port < 0 \<or> dst_port > 65535 then Some (-205, src, dst)
                   else case set_addr of
                     None \<Rightarrow> Some (int size, src, dst)
                   | Some f \<Rightarrow>
                       (case f (c_str (tokens ! 2)) (of_int src_port) of
                          (ok, a) \<Rightarrow>
                            if \<not> ok then Some (if tokens ! 1 = ''TCP4'' then -210 else -217, a, dst)
                            else case f (c_str (tokens ! 3)) (of_int dst_port) of
                              (ok, b) \<Rightarrow> Some (if ok then int size else if tokens ! 1 = ''TCP4'' then -213 else -220, a, b)))"

definition ParseProxyHeaderV2 :: "bytes \<Rightarrow> sock_addr \<Rightarrow> sock_addr \<Rightarrow> (int \<times> sock_addr \<times> sock_addr) option" where
  "ParseProxyHeaderV2 hdr src dst =
     (let size = 16 + unat (be16_val (drop 14 hdr)); cmd = hdr ! 12 AND 0x0F; fam = hdr ! 13; part = (\<lambda>i n. take n (drop i hdr))
      in if length hdr < size then Some (-230, src, dst)
         else if cmd = 1
         then (if fam = 0x11
               then if length hdr < 28 then None
                 else Some (int size, SA_IP4 (part 16 4) (be16_val (part 24 2)), SA_IP4 (part 20 4) (be16_val (part 26 2)))
               else if fam = 0x21
               then if length hdr < 52 then None
                 else Some (int size, SA_IP6 (part 16 16) (be16_val (part 48 2)), SA_IP6 (part 32 16) (be16_val (part 50 2)))
               else if fam = 0 then Some (int size, src, dst) else Some (-254, src, dst))
         else if cmd = 0 then Some (int size, src, dst) else Some (-259, src, dst))"

definition IsProxyHeaderNeed :: "(bytes \<Rightarrow> string) \<Rightarrow> WorkerConfig \<Rightarrow> group_status \<Rightarrow> sock_addr \<Rightarrow> sock_addr \<Rightarrow> int" where
  "IsProxyHeaderNeed ntop6 wc gs src dst =
     (case SockAddrToIPPort ntop6 src of
        Inl _ \<Rightarrow> -124
      | Inr (src_ip, _) \<Rightarrow>
          (case SockAddrToIPPort ntop6 dst of
             Inl _ \<Rightarrow> -127
           | Inr (_, dst_port) \<Rightarrow>
               if uint dst_port \<noteq> wc_proxy_port wc then 0 else if \<not> IsMember src_ip gs then -138 else 1))"

text \<open>
  \<open>src\<close> and \<open>dst\<close> are the addresses of the connection, \<open>peek\<close> is what it has received, at most 108 bytes, or
  \<open>None\<close> for an error. A header that was read is taken off the connection, and \<open>took\<close> is what reading it off returns.
\<close>

definition ProcessProxyHeader ::
  "(bytes \<Rightarrow> string) \<Rightarrow> (string \<Rightarrow> bytes option) \<Rightarrow> WorkerConfig \<Rightarrow> group_status \<Rightarrow> sock_addr \<Rightarrow> sock_addr \<Rightarrow> bytes option \<Rightarrow> int
    \<Rightarrow> (int \<times> sock_addr \<times> sock_addr) option" where
  "ProcessProxyHeader ntop6 pton6 wc gs src dst peek took =
     (let ret = IsProxyHeaderNeed ntop6 wc gs src dst
      in if ret \<le> 0 then Some (ret, src, dst)
         else case peek of
           None \<Rightarrow> Some (-163, src, dst)
         | Some hdr \<Rightarrow>
             map_option (\<lambda>(hdr_size, src, dst). (if hdr_size > 0 \<and> took \<noteq> hdr_size then -178 else hdr_size, src, dst))
               (if length hdr \<ge> 16 \<and> take 12 hdr = PP2_SIGNATURE \<and> hdr ! 12 AND 0xF0 = 0x20 then ParseProxyHeaderV2 hdr src dst
                else if length hdr \<ge> 8 \<and> take 6 hdr = str_bytes ''PROXY '' then ParseProxyHeaderV1 pton6 hdr src dst
                else Some (-171, src, dst)))"

section \<open>Round trips\<close>

lemma unat_u16_less: "unat (w :: u16) < 65536"
  using unsigned_less [of w] by simp

lemma high_byte: "unat (ucast (ucast (drop_bit 8 w) :: byte) :: u16) = unat (w :: u16) div 256"
proof -
  have "unat w div 256 < 256" using unat_u16_less [of w] by auto
  then show ?thesis by (simp add: unsigned_ucast_eq take_bit_eq_mod drop_bit_eq_div unat_div unat_mod)
qed

lemma low_byte: "unat (ucast (ucast w :: byte) :: u16) = unat (w :: u16) mod 256"
  by (simp add: unsigned_ucast_eq take_bit_eq_mod unat_mod)

lemma be16_val_be16: "be16_val (be16 w @ rest) = w"
proof -
  let ?h = "ucast (ucast (drop_bit 8 w) :: byte) :: u16" and ?l = "ucast (ucast w :: byte) :: u16"
  have e: "unat ?h * 256 + unat ?l = unat w" "unat ?h * 256 < 65536"
    using high_byte [of w] low_byte [of w] unat_u16_less [of w] by simp_all
  then have "unat (?h * 256 + ?l) = unat ?h * 256 + unat ?l" using unat_u16_less [of w] by (simp add: unat_word_ariths)
  with e show ?thesis by (simp add: be16_val_def be16_def word_unat_eq_iff)
qed

lemma length_be16 [simp]: "length (be16 w) = 2"
  by (simp add: be16_def)

lemma PP2_length [simp]: "length PP2_SIGNATURE = 12"
  by (simp add: PP2_SIGNATURE_def)

lemma ParseProxyHeaderV2_addresses:
  assumes "hdr = PP2_SIGNATURE @ [0x21, fam] @ be16 n @ a @ b @ be16 p @ be16 q @ rest" "length a = k" "length b = k" "unat n = 2 * k + 4"
  shows "hdr ! 12 = 0x21" "hdr ! 13 = fam" "be16_val (drop 14 hdr) = n" "take k (drop 16 hdr) = a" "take k (drop (16 + k) hdr) = b"
    "be16_val (take 2 (drop (16 + 2 * k) hdr)) = p" "be16_val (take 2 (drop (18 + 2 * k) hdr)) = q"
    "16 + unat (be16_val (drop 14 hdr)) \<le> length hdr"
proof -
  have d: "drop 16 hdr = a @ b @ be16 p @ be16 q @ rest" using assms(1) by simp
  have dd: "drop (16 + j) hdr = drop j (drop 16 hdr)" for j by (simp add: add.commute)
  have e: "drop (16 + k) hdr = b @ be16 p @ be16 q @ rest" unfolding dd d using assms(2) by simp
  have f: "drop (16 + 2 * k) hdr = be16 p @ be16 q @ rest" unfolding dd d using assms(2,3) by simp
  have g: "drop (18 + 2 * k) hdr = be16 q @ rest" using dd [of "2 + 2 * k"] assms(2,3) unfolding d by simp
  show "hdr ! 12 = 0x21" "hdr ! 13 = fam" "be16_val (drop 14 hdr) = n" using assms(1) by (simp_all add: nth_append be16_val_be16)
  then show "16 + unat (be16_val (drop 14 hdr)) \<le> length hdr" using assms by simp
  show "take k (drop 16 hdr) = a" "take k (drop (16 + k) hdr) = b" unfolding d e using assms(2,3) by simp_all
  show "be16_val (take 2 (drop (16 + 2 * k) hdr)) = p" "be16_val (take 2 (drop (18 + 2 * k) hdr)) = q"
    unfolding f g using be16_val_be16 [of p "[]"] be16_val_be16 [of q "[]"] by simp_all
qed

text \<open>
  C33: the binary header. A header of version 2 that was made for two addresses of the same family is read to its
  end, and gives these addresses, whatever follows it on the connection.
\<close>

theorem ProxyHeaderV2_roundtrip:
  assumes "src = SA_IP4 a p \<and> dst = SA_IP4 b q \<and> length a = 4 \<and> length b = 4 \<or>
    src = SA_IP6 a p \<and> dst = SA_IP6 b q \<and> length a = 16 \<and> length b = 16"
  shows "ParseProxyHeaderV2 (MakeProxyHeaderV2 src dst @ rest) src' dst' = Some (int (length (MakeProxyHeaderV2 src dst)), src, dst)"
  using assms
proof
  assume s: "src = SA_IP4 a p \<and> dst = SA_IP4 b q \<and> length a = 4 \<and> length b = 4"
  then have h: "MakeProxyHeaderV2 src dst @ rest = PP2_SIGNATURE @ [0x21, 0x11] @ be16 12 @ a @ b @ be16 p @ be16 q @ rest"
    by (simp add: MakeProxyHeaderV2_def)
  from ParseProxyHeaderV2_addresses [OF h, of 4] s show ?thesis
    by (simp add: ParseProxyHeaderV2_def Let_def MakeProxyHeaderV2_def)
next
  assume s: "src = SA_IP6 a p \<and> dst = SA_IP6 b q \<and> length a = 16 \<and> length b = 16"
  then have h: "MakeProxyHeaderV2 src dst @ rest = PP2_SIGNATURE @ [0x21, 0x21] @ be16 36 @ a @ b @ be16 p @ be16 q @ rest"
    by (simp add: MakeProxyHeaderV2_def)
  from ParseProxyHeaderV2_addresses [OF h, of 16] s show ?thesis
    by (simp add: ParseProxyHeaderV2_def Let_def MakeProxyHeaderV2_def)
qed

theorem ProxyHeaderV2_roundtrip_witness:
  "ParseProxyHeaderV2 (MakeProxyHeaderV2 (SA_IP4 [10, 0, 0, 1] 4000) (SA_IP4 [10, 0, 0, 2] 54321) @ [1, 2, 3]) SA_None SA_None =
     Some (28, SA_IP4 [10, 0, 0, 1] 4000, SA_IP4 [10, 0, 0, 2] 54321)"
  using ProxyHeaderV2_roundtrip [of "SA_IP4 [10, 0, 0, 1] 4000" "[10, 0, 0, 1]" 4000 "SA_IP4 [10, 0, 0, 2] 54321" "[10, 0, 0, 2]" 54321
      "[1, 2, 3]" SA_None SA_None]
  by (simp add: MakeProxyHeaderV2_def)

subsection \<open>The text header\<close>

lemma until_char:
  assumes "c \<notin> set w"
  shows "takeWhile (\<lambda>x. x \<noteq> c) (w @ c # r) = w" "dropWhile (\<lambda>x. x \<noteq> c) (w @ c # r) = c # r"
    "takeWhile (\<lambda>x. x \<noteq> c) w = w" "dropWhile (\<lambda>x. x \<noteq> c) w = []"
  using assms by (induction w) auto

lemma SplitStr_word: "delim \<notin> set w \<Longrightarrow> SplitStr (w @ delim # rest) delim = w # SplitStr rest delim"
  by (subst SplitStr.simps) (simp add: until_char)

lemma SplitStr_last: "delim \<notin> set w \<Longrightarrow> w \<noteq> [] \<Longrightarrow> SplitStr w delim = [w]"
  by (subst SplitStr.simps) (simp add: until_char)

lemma hd_show_nat_neq_0: "0 < n \<Longrightarrow> hd (show_nat n) \<noteq> CHR ''0''"
proof (induction n rule: show_nat.induct)
  case (1 n)
  show ?case
  proof (cases "n < 10")
    case True
    then have "digit_val (hd (show_nat n)) = n" by (simp add: show_nat.simps [of n])
    with 1(2) show ?thesis by (auto simp: digit_val_def)
  next
    case False
    with 1 show ?thesis by (simp add: show_nat.simps [of n])
  qed
qed

lemma octet_show_nat: "octet (show_nat (unat (b :: byte))) = Some b"
proof -
  have "unat b < 256" using unsigned_less [of b] by simp
  moreover have "length (show_nat 0) = 1" by (simp add: show_nat.simps)
  moreover have "list_all is_digit (show_nat (unat b))" by (simp add: list_all_iff show_nat_digits)
  ultimately show ?thesis using hd_show_nat_neq_0 [of "unat b"] by (cases "unat b = 0") (auto simp: octet_def unat_eq_0)
qed

lemma dot_not_digit: "\<not> is_digit CHR ''.''" "\<not> is_digit CHR '' ''" "\<not> is_digit CHR 0x0D" "\<not> is_digit CHR 0x00"
  by (simp_all add: is_digit_def)

lemma show_nat_notin: "\<not> is_digit c \<Longrightarrow> c \<notin> set (show_nat n)"
  using show_nat_digits by blast

lemma inet_pton4_step:
  "inet_pton4 (Suc (Suc n)) (show_nat (unat (b :: byte)) @ CHR ''.'' # rest) = map_option (\<lambda>bs. b # bs) (inet_pton4 (Suc n) rest)"
proof -
  have "CHR ''.'' \<notin> set (show_nat (unat b))" by (simp add: show_nat_notin dot_not_digit)
  note until_char [OF this]
  then show ?thesis by (subst inet_pton4.simps) (simp add: octet_show_nat del: inet_pton4.simps)
qed

lemma inet_pton4_end: "inet_pton4 (Suc 0) (show_nat (unat (b :: byte))) = Some [b]"
proof -
  have "CHR ''.'' \<notin> set (show_nat (unat b))" by (simp add: show_nat_notin dot_not_digit)
  note until_char(3,4) [OF this]
  then show ?thesis by (simp add: octet_show_nat del: takeWhile_eq_all_conv dropWhile_eq_Nil_conv)
qed

lemma inet_pton4_ntop4: "length a = 4 \<Longrightarrow> inet_pton4 4 (inet_ntop4 a) = Some a"
proof -
  assume "length a = 4"
  then obtain w x y z where a: "a = [w, x, y, z]" by (auto simp: length_Suc_conv numeral_eq_Suc)
  have "(4 :: nat) = Suc (Suc (Suc (Suc 0)))" by simp
  then show ?thesis unfolding a \<open>4 = _\<close>
    by (simp add: inet_pton4_step inet_pton4_end del: inet_pton4.simps)
qed

lemma SetAddr_ntop4:
  assumes "length a = 4"
  shows "SetAddr (inet_ntop4 a) p = (True, SA_IP4 a p)"
proof -
  have "inet_pton4 4 [] = None" "inet_pton4 4 ''0'' = None" "inet_pton4 4 ''*'' = None"
    by (simp_all add: numeral_eq_Suc octet_def is_digit_def)
  moreover have "inet_pton4 4 ''0.0.0.0'' = Some [0, 0, 0, 0]"
    by (simp add: numeral_eq_Suc octet_def is_digit_def digits_val_def digit_val_def)
  ultimately show ?thesis using inet_pton4_ntop4 [OF assms] by (auto simp: SetAddr_def)
qed

lemma inet_ntop4_chars: "c \<in> set (inet_ntop4 a) \<Longrightarrow> is_digit c \<or> c = CHR ''.''"
  by (induction a rule: inet_ntop4.induct) (auto dest: show_nat_digits)

lemma inet_ntop4_notin:
  "CHR '' '' \<notin> set (inet_ntop4 a)" "CHR 0x0D \<notin> set (inet_ntop4 a)" "CHR 0x00 \<notin> set (inet_ntop4 a)"
  using inet_ntop4_chars [of _ a] dot_not_digit by auto

lemma sint_small: "0 \<le> x \<Longrightarrow> x < 65536 \<Longrightarrow> sint (word_of_int x :: u32) = x"
  by (simp add: sint_uint uint_word_of_int signed_take_bit_int_eq_self)

lemma uint_u16: "int (unat (p :: u16)) = uint p" "0 \<le> uint p" "uint p < 65536"
proof -
  show "int (unat p) = uint p" "0 \<le> uint p" by simp_all
  have "int (unat p) < 65536" using unat_u16_less [of p] by linarith
  then show "uint p < 65536" by simp
qed

lemma atoi_show_nat: "atoi (show_nat (unat (p :: u16))) = uint p"
proof -
  have "min (uint p) 9223372036854775807 = uint p" using uint_u16(3) [of p] by simp
  then show ?thesis using scan_unsigned_show_nat [of "[]" "unat p"] sint_small [OF uint_u16(2,3) [of p]]
    by (simp add: atoi_def Let_def)
qed

lemma str_bytes_append [simp]: "str_bytes (a @ b) = str_bytes a @ str_bytes b"
  by (simp add: str_bytes_def)

lemma str_bytes_CR: "CHR 0x0D \<notin> set s \<Longrightarrow> 13 \<notin> set (str_bytes s)"
proof -
  assume a: "CHR 0x0D \<notin> set s"
  have "c = CHR 0x0D" if "of_nat (of_char c) = (13 :: byte)" for c :: char
  proof -
    have "of_char c < (256 :: nat)" by simp
    then have "unat (of_nat (of_char c) :: byte) = of_char c" by (simp add: unat_of_nat)
    with that have "of_char c = (of_char (CHR 0x0D) :: nat)" by simp
    then show ?thesis by (simp only: of_char_eq_iff)
  qed
  with a show ?thesis by (fastforce simp: str_bytes_def)
qed

text \<open>
  The text header. A header of version 1 that was made for two addresses of version 4 is read to its end, and
  gives these addresses, whatever follows it on the connection.
\<close>

theorem ProxyHeaderV1_roundtrip:
  assumes "length a = 4" "length b = 4"
  shows "\<exists>header. MakeProxyHeaderV1 ntop6 (SA_IP4 a p) (SA_IP4 b q) = Inr header \<and>
    ParseProxyHeaderV1 pton6 (str_bytes header @ rest) src dst = Some (int (length header), SA_IP4 a p, SA_IP4 b q)"
proof -
  let ?A = "inet_ntop4 a" and ?B = "inet_ntop4 b" and ?P = "show_nat (unat p)" and ?Q = "show_nat (unat q)"
  define line where "line = ''PROXY'' @ CHR '' '' # ''TCP4'' @ CHR '' '' # ?A @ CHR '' '' # ?B @ CHR '' '' # ?P @ CHR '' '' # ?Q"
  have m: "MakeProxyHeaderV1 ntop6 (SA_IP4 a p) (SA_IP4 b q) = Inr (line @ [CHR 0x0D, CHR 0x0A])"
    by (simp add: MakeProxyHeaderV1_def SockAddrToIPPort_def line_def)
  have "CHR 0x0D \<notin> set line" by (auto simp: line_def inet_ntop4_notin show_nat_notin dot_not_digit)
  note cr = until_char(1) [OF str_bytes_CR [OF this]]
  have t: "SplitStr line CHR '' '' = [''PROXY'', ''TCP4'', ?A, ?B, ?P, ?Q]"
    unfolding line_def by (simp only: SplitStr_word SplitStr_last inet_ntop4_notin show_nat_notin dot_not_digit not_False_eq_True show_nat_neq_Nil
        list.set(1) list.set(2) insert_iff empty_iff char.inject simp_thms)
  have "butlast (str_bytes (line @ [CHR 0x0D, CHR 0x0A]) @ rest) = str_bytes line @ 13 # butlast (10 # rest)"
    by (simp add: str_bytes_def butlast_append)
  then have l: "takeWhile (\<lambda>b. b \<noteq> 13) (butlast (str_bytes (line @ [CHR 0x0D, CHR 0x0A]) @ rest)) = str_bytes line" by (simp add: cr)
  have n: "(str_bytes (line @ [CHR 0x0D, CHR 0x0A]) @ rest) ! (length (str_bytes line) + 1) = 10"
    "length (str_bytes (line @ [CHR 0x0D, CHR 0x0A]) @ rest) = length (str_bytes line) + 2 + length rest" "length (str_bytes line) = length line"
    by (simp_all add: str_bytes_def nth_append)
  have c: "c_str ?A = ?A" "c_str ?B = ?B" by (simp_all add: c_str_id inet_ntop4_notin)
  have u: "uint p \<le> 65535" "uint q \<le> 65535" using uint_u16(3) [of p] uint_u16(3) [of q] by linarith+
  have "ParseProxyHeaderV1 pton6 (str_bytes (line @ [CHR 0x0D, CHR 0x0A]) @ rest) src dst =
      Some (int (length line + 2), SA_IP4 a p, SA_IP4 b q)"
    unfolding ParseProxyHeaderV1_def Let_def l n(1,2) bytes_str_inverse t
    using u by (simp add: n(3) c atoi_show_nat SetAddr_ntop4 assms)
  with m show ?thesis by (intro exI conjI) auto
qed

theorem ProxyHeaderV1_roundtrip_witness:
  "\<exists>header. MakeProxyHeaderV1 (\<lambda>_. []) (SA_IP4 [10, 0, 0, 1] 4000) (SA_IP4 [10, 0, 0, 2] 54321) = Inr header \<and>
    ParseProxyHeaderV1 (\<lambda>_. None) (str_bytes header @ [1, 2]) SA_None SA_None =
      Some (int (length header), SA_IP4 [10, 0, 0, 1] 4000, SA_IP4 [10, 0, 0, 2] 54321)"
  using ProxyHeaderV1_roundtrip [of "[10, 0, 0, 1]" "[10, 0, 0, 2]" "\<lambda>_. []" 4000 54321 "\<lambda>_. None" "[1, 2]" SA_None SA_None] by simp

section \<open>A header without words\<close>

text \<open>
  A short header is undefined. On the proxy port, a member that sends the eight bytes of the word \<open>PROXY\<close>, a
  space and the end of a line makes the handler read a second word that does not exist.
\<close>

theorem ProcessProxyHeader_short:
  assumes "IsProxyHeaderNeed ntop6 wc gs src dst > 0"
  shows "ProcessProxyHeader ntop6 pton6 wc gs src dst (Some (str_bytes (''PROXY '' @ [CHR 0x0D, CHR 0x0A]))) took = None"
proof -
  have "SplitStr ''PROXY '' CHR '' '' = [''PROXY'']" using SplitStr_word [of "CHR '' ''" "''PROXY''" "[]"] by (simp add: SplitStr.simps)
  moreover have "bytes_str [80, 82, 79, 88, 89, 32] = ''PROXY ''" using bytes_str_inverse [of "''PROXY ''"] by (simp add: str_bytes_def)
  ultimately show ?thesis using assms by (simp add: ProcessProxyHeader_def str_bytes_def PP2_SIGNATURE_def ParseProxyHeaderV1_def Let_def)
qed

theorem ProcessProxyHeader_short_witness:
  "ProcessProxyHeader (\<lambda>_. []) (\<lambda>_. None) proxy_wc (proxy_gs\<lparr>gs_membership := [inet_ntop4 [10, 0, 0, 2]]\<rparr>)
     (SA_IP4 [10, 0, 0, 2] 4000) (SA_IP4 [10, 0, 0, 1] 54323) (Some (str_bytes (''PROXY '' @ [CHR 0x0D, CHR 0x0A]))) 8 = None"
  by (rule ProcessProxyHeader_short)
    (simp add: IsProxyHeaderNeed_def SockAddrToIPPort_def IsMember_def proxy_wc_def ReadMasterWorkerConfig_def)

end
