(* ===== verification/Phxsync.thy ===== *)
theory Phxsync
  imports Rpc Replicas
begin

text \<open>
  The plugin that MySQL runs (\<^verbatim>\<open>phx_percona/percona/plugin/phxsync_phxrpc\<close>): every group of transactions is
  sent to the binlog server before it is committed (\<^verbatim>\<open>phxsync_utils.cc\<close>), and before recovery the
  transactions that the binlog servers do not know are cut off the binlog (\<^verbatim>\<open>init_with_phxbinlogsvr.cc\<close>).
  The reader of log events and the file layer of MySQL are parameters.
\<close>

section \<open>Binlog files\<close>

text \<open>
  A log event, as far as the plugin looks at it: the set of an event with the previous GTIDs may be
  unreadable; a GTID has the uuid of its server and a number.
\<close>

datatype log_event = FormatDescription | Rotate | PreviousGtids bool | GtidEvent string int | OtherEvent

text \<open>
  \<open>be_events\<close> are the events \<^verbatim>\<open>Log_event::read_log_event\<close> returns one after the other behind the magic
  number, with their sizes, with or without a test of their checksums; \<open>be_parse\<close> and \<open>be_print\<close> are
  \<^verbatim>\<open>Gtid::parse\<close> and \<^verbatim>\<open>Gtid::to_string\<close>; \<open>be_lines\<close> are the lines \<^verbatim>\<open>my_b_gets\<close> returns; the flags say
  whether the index can be read through a cache, whether a file can be truncated, and whether the new index
  can be created, given a cache, written, and renamed.
\<close>

record binlog_env =
  be_events :: "bool \<Rightarrow> bytes \<Rightarrow> (log_event \<times> nat) list"
  be_parse :: "string \<Rightarrow> (string \<times> int) option"
  be_print :: "string \<times> int \<Rightarrow> string"
  be_lines :: "bytes \<Rightarrow> string list"
  be_normalize :: "string \<Rightarrow> string option"
  be_reads :: bool
  be_truncates :: "string \<Rightarrow> bool"
  be_creates :: bool
  be_caches :: bool
  be_syncs :: bool
  be_renames :: bool

record binlog_state =
  bs_files :: "string \<Rightarrow> bytes option"
  bs_last_gtid :: string

definition BINLOG_MAGIC :: bytes where
  "BINLOG_MAGIC = [0xfe, 0x62, 0x69, 0x6e]"

definition open_binlog_file :: "string \<Rightarrow> binlog_state \<Rightarrow> bytes option" where
  "open_binlog_file log_file_name st =
     (case bs_files st log_file_name of
        None \<Rightarrow> None
      | Some b \<Rightarrow> if take 4 b = BINLOG_MAGIC then Some b else None)"

section \<open>Sending the binlog\<close>

definition repl_phx_read_binlog_buffer ::
  "string \<Rightarrow> nat \<Rightarrow> nat option \<Rightarrow> bytes \<Rightarrow> binlog_state \<Rightarrow> (int \<times> bytes) option" where
  "repl_phx_read_binlog_buffer log_file_name begin_offset end_offset binlog_buffer st =
     (case open_binlog_file log_file_name st of
        None \<Rightarrow> Some (-59, binlog_buffer)
      | Some b \<Rightarrow>
          let end_offset = (case end_offset of None \<Rightarrow> length b | Some e \<Rightarrow> e)
          in if end_offset < begin_offset then None
             else map_option (\<lambda>bs. (0, binlog_buffer @ bs)) (rd b begin_offset (end_offset - begin_offset)))"

text \<open>
  The buffer is sent until the server answers; an event that is already stored counts as sent. An answer
  that never comes is a loop that never ends.
\<close>

partial_function (option) send_loop :: "'n client \<Rightarrow> string \<Rightarrow> bytes \<Rightarrow> 'n \<Rightarrow> (int \<times> 'n) option" where
  "send_loop c oldgtid binlog_buffer n =
     (case Client_SendBinLog c oldgtid binlog_buffer n of
        None \<Rightarrow> None
      | Some (ret, _, n) \<Rightarrow>
          let ret = (if ret = 3000 then 0 else ret)
          in if ret \<ge> 0 then Some (ret, n) else send_loop c oldgtid binlog_buffer n)"

text \<open>The process ends, or the hook returns.\<close>

datatype hook_end = Exited | Returned int

definition read_flushed ::
  "string \<Rightarrow> string \<Rightarrow> nat \<Rightarrow> string \<Rightarrow> nat \<Rightarrow> binlog_state \<Rightarrow> (bool \<times> bytes) option" where
  "read_flushed dir_path prev_log_file_name prev_log_pos log_file_name log_pos st =
     (let prev_log_file = dir_path @ ''/'' @ prev_log_file_name; log_file = dir_path @ ''/'' @ log_file_name
      in if prev_log_file_name = log_file_name
         then do {
           (ret, buf) \<leftarrow> repl_phx_read_binlog_buffer prev_log_file prev_log_pos (Some log_pos) [] st;
           Some (ret = 0, buf)
         }
         else do {
           (ret, buf) \<leftarrow> repl_phx_read_binlog_buffer prev_log_file prev_log_pos None [] st;
           (ret', buf) \<leftarrow> repl_phx_read_binlog_buffer log_file 0 (Some log_pos) buf st;
           Some (ret = 0 \<and> ret' = 0, buf)
         })"

definition repl_phx_report_binlog_to_binlogsvr ::
  "'n client \<Rightarrow> string \<Rightarrow> bool \<Rightarrow> string \<Rightarrow> string \<Rightarrow> nat \<Rightarrow> string \<Rightarrow> nat \<Rightarrow> binlog_state \<Rightarrow> 'n \<Rightarrow> (hook_end \<times> binlog_state \<times> 'n) option" where
  "repl_phx_report_binlog_to_binlogsvr c server_uuid super_read_only dir_path prev_log_file_name prev_log_pos log_file_name log_pos st n = do {
     (ok, binlog_buffer) \<leftarrow> read_flushed dir_path prev_log_file_name prev_log_pos log_file_name log_pos st;
     if \<not> ok then Some (Exited, st, n)
     else do {
       (ret, _, max_gtid, _) \<leftarrow> ParseEventList binlog_buffer False [];
       if ret \<noteq> 0 \<or> length max_gtid < length server_uuid then Some (Exited, st, n)
       else if super_read_only then Some (Returned ret, st\<lparr>bs_last_gtid := max_gtid\<rparr>, n)
       else do {
         (ret, n) \<leftarrow> send_loop c (bs_last_gtid st) binlog_buffer n;
         if ret \<noteq> 0 then Some (Exited, st, n)
         else Some (Returned ret, st\<lparr>bs_last_gtid := max_gtid\<rparr>, n)
       }
     }
   }"

section \<open>Cutting the binlog before recovery\<close>

text \<open>\<^verbatim>\<open>read_gtids_from_binlog\<close> for a set of previous GTIDs only: whether the file holds a GTID.\<close>

datatype read_status = GOT_GTIDS | GOT_PREVIOUS_GTIDS | NO_GTIDS | READ_BINLOG_ERROR | TRUNCATED

fun read_gtids :: "(log_event \<times> nat) list \<Rightarrow> read_status \<Rightarrow> read_status" where
  "read_gtids [] ret = ret"
| "read_gtids ((ev, _) # evs) ret =
     (case ev of
        FormatDescription \<Rightarrow> read_gtids evs ret
      | Rotate \<Rightarrow> read_gtids evs ret
      | PreviousGtids readable \<Rightarrow> if readable then read_gtids evs GOT_PREVIOUS_GTIDS else READ_BINLOG_ERROR
      | GtidEvent _ _ \<Rightarrow> if ret \<noteq> GOT_PREVIOUS_GTIDS then READ_BINLOG_ERROR else GOT_GTIDS
      | OtherEvent \<Rightarrow> if ret \<noteq> GOT_PREVIOUS_GTIDS then ret else read_gtids evs ret)"

definition read_gtids_from_binlog :: "binlog_env \<Rightarrow> string \<Rightarrow> binlog_state \<Rightarrow> read_status" where
  "read_gtids_from_binlog env filename st =
     (case open_binlog_file filename st of None \<Rightarrow> TRUNCATED | Some b \<Rightarrow> read_gtids (be_events env False b) NO_GTIDS)"

definition is_gtid_in_binlog_file :: "binlog_env \<Rightarrow> string \<Rightarrow> binlog_state \<Rightarrow> bool" where
  "is_gtid_in_binlog_file env binlog_file_name st \<longleftrightarrow> read_gtids_from_binlog env binlog_file_name st = GOT_GTIDS"

text \<open>The position of the first event to cut off, and the last GTID before it.\<close>

fun truncate_scan :: "binlog_env \<Rightarrow> string \<times> int \<Rightarrow> (log_event \<times> nat) list \<Rightarrow> nat \<Rightarrow> string \<Rightarrow> nat option \<times> string" where
  "truncate_scan env g [] pos lg = (None, lg)"
| "truncate_scan env g ((ev, sz) # evs) pos lg =
     (case ev of
        GtidEvent sid gno \<Rightarrow>
          if sid = fst g \<and> gno \<ge> snd g then (Some pos, lg)
          else truncate_scan env g evs (pos + sz) (be_print env (sid, gno))
      | _ \<Rightarrow> truncate_scan env g evs (pos + sz) lg)"

definition truncate_one :: "binlog_env \<Rightarrow> string \<Rightarrow> string \<times> int \<Rightarrow> binlog_state \<Rightarrow> int \<times> binlog_state" where
  "truncate_one env binlog_file_name g st =
     (case open_binlog_file binlog_file_name st of
        None \<Rightarrow> (-243, st)
      | Some b \<Rightarrow>
          (case truncate_scan env g (be_events env True b) 4 (bs_last_gtid st) of
             (None, lg) \<Rightarrow> (1, st\<lparr>bs_last_gtid := lg\<rparr>)
           | (Some pos, lg) \<Rightarrow>
               if be_truncates env binlog_file_name
               then (0, st\<lparr>bs_last_gtid := lg, bs_files := (bs_files st)(binlog_file_name \<mapsto> take pos b)\<rparr>)
               else (-1, st\<lparr>bs_last_gtid := lg\<rparr>)))"

text \<open>Files are cut and listed until one was cut; \<open>new\<close> are the files kept so far.\<close>

fun truncate_files ::
  "binlog_env \<Rightarrow> string \<times> int \<Rightarrow> string list \<Rightarrow> string list \<Rightarrow> int \<Rightarrow> binlog_state \<Rightarrow> int \<times> string list \<times> binlog_state" where
  "truncate_files env g [] new ret st = (ret, new, st)"
| "truncate_files env g (f # fs) new ret st =
     (case truncate_one env f g st of
        (ret, st) \<Rightarrow> if ret \<le> 0 then (ret, new @ [f], st) else truncate_files env g fs (new @ [f]) ret st)"

fun last_gtid_file :: "binlog_env \<Rightarrow> string list \<Rightarrow> binlog_state \<Rightarrow> string option" where
  "last_gtid_file env [] st = None"
| "last_gtid_file env (f # rev_files) st = (if is_gtid_in_binlog_file env f st then Some f else last_gtid_file env rev_files st)"

definition truncate_by_gtid ::
  "binlog_env \<Rightarrow> string list \<Rightarrow> nat \<Rightarrow> string \<times> int \<Rightarrow> binlog_state \<Rightarrow> int \<times> string list \<times> binlog_state" where
  "truncate_by_gtid env binlog_filename_vector begin_index g st =
     (case truncate_files env g (drop begin_index binlog_filename_vector) (take begin_index binlog_filename_vector) 0 st of
        (ret, new, st) \<Rightarrow>
          let st = (if bs_last_gtid st = []
                    then case last_gtid_file env (rev new) st of
                        None \<Rightarrow> st | Some f \<Rightarrow> snd (truncate_one env f g st)
                    else st)
          in (if ret \<ge> 0 then 0 else ret, new, st))"

definition index_bytes :: "string list \<Rightarrow> bytes" where
  "index_bytes names = concat (map (\<lambda>n. str_bytes n @ [10]) names)"

text \<open>The new index is written over the start of a file of that name that was left behind, and renamed.\<close>

definition generate_new_index_file :: "binlog_env \<Rightarrow> string \<Rightarrow> string list \<Rightarrow> binlog_state \<Rightarrow> int \<times> binlog_state" where
  "generate_new_index_file env binlog_index_file_name names st =
     (let tmp = binlog_index_file_name @ ''.phxsync''
      in if \<not> be_creates env then (-316, st)
         else
           let old = (case bs_files st tmp of None \<Rightarrow> [] | Some b \<Rightarrow> b)
           in if \<not> be_caches env then (-323, st\<lparr>bs_files := (bs_files st)(tmp \<mapsto> old)\<rparr>)
              else
           let b = overwrite 0 (index_bytes names) old; st = st\<lparr>bs_files := (bs_files st)(tmp \<mapsto> b)\<rparr>
           in if \<not> be_syncs env then (1, st)
              else if \<not> be_renames env then (1, st)
              else (0, st\<lparr>bs_files := (bs_files st)(tmp := None, binlog_index_file_name \<mapsto> b)\<rparr>))"

fun index_names :: "binlog_env \<Rightarrow> string list \<Rightarrow> int \<times> string list" where
  "index_names env [] = (0, [])"
| "index_names env (fname # lines) =
     (if length fname \<le> 1 then (0, [])
      else case be_normalize env fname of
        None \<Rightarrow> (-186, [])
      | Some full_log_name \<Rightarrow> (case index_names env lines of (ret, names) \<Rightarrow> (ret, butlast full_log_name # names)))"

definition get_binlog_file_list :: "binlog_env \<Rightarrow> string \<Rightarrow> binlog_state \<Rightarrow> int \<times> string list" where
  "get_binlog_file_list env binlog_index_file_name st =
     (case bs_files st binlog_index_file_name of
        None \<Rightarrow> (-170, [])
      | Some b \<Rightarrow> if be_reads env then index_names env (be_lines env b) else (-175, []))"

text \<open>The newest GTID of this server that the binlog servers have; asked for until there is an answer.\<close>

partial_function (option) ask_loop :: "'n client \<Rightarrow> string \<Rightarrow> string \<Rightarrow> 'n \<Rightarrow> (int \<times> string \<times> 'n) option" where
  "ask_loop c server_uuid last_commit_gtid n =
     (case Client_GetLastSendGtid c GetLastSendGtidFromGlobal server_uuid last_commit_gtid n of
        (ret, gtid, n) \<Rightarrow> if ret < 0 then ask_loop c server_uuid gtid n else Some (ret, gtid, n))"

definition get_last_gtid_in_binlogsvr :: "'n client \<Rightarrow> string \<Rightarrow> 'n \<Rightarrow> (int \<times> string \<times> 'n) option" where
  "get_last_gtid_in_binlogsvr c server_uuid n =
     (if length server_uuid \<le> 1 then Some (0, [], n) else ask_loop c server_uuid [] n)"

text \<open>The first GTID that is cut off. Its number is a signed 64-bit integer, whose overflow is undefined.\<close>

definition first_uncommitted :: "binlog_env \<Rightarrow> string \<Rightarrow> string \<Rightarrow> (int + string \<times> int) option" where
  "first_uncommitted env server_uuid last_commit_gtid =
     (if last_commit_gtid = []
      then case be_parse env (server_uuid @ '':1'') of None \<Rightarrow> Some (Inl (-82)) | Some g \<Rightarrow> Some (Inr g)
      else case be_parse env last_commit_gtid of
        None \<Rightarrow> Some (Inl (-88))
      | Some (sid, gno) \<Rightarrow> if gno + 1 < 2 ^ 63 then Some (Inr (sid, gno + 1)) else None)"

text \<open>The last file with a GTID, counted from the front.\<close>

fun last_gtid_index :: "binlog_env \<Rightarrow> string list \<Rightarrow> nat \<Rightarrow> binlog_state \<Rightarrow> nat option" where
  "last_gtid_index env files 0 st = None"
| "last_gtid_index env files (Suc i) st =
     (if is_gtid_in_binlog_file env (files ! i) st then Some i else last_gtid_index env files i st)"

definition truncate_while_init ::
  "binlog_env \<Rightarrow> 'n client \<Rightarrow> string \<Rightarrow> string \<Rightarrow> binlog_state \<Rightarrow> 'n \<Rightarrow> (int \<times> binlog_state \<times> 'n) option" where
  "truncate_while_init env c server_uuid binlog_index_file_name st n =
     (if server_uuid = [] then Some (0, st, n)
      else do {
        (ret, last_commit_gtid, n) \<leftarrow> get_last_gtid_in_binlogsvr c server_uuid n;
        if ret \<noteq> 0 then Some (-69, st, n)
        else do {
          first \<leftarrow> first_uncommitted env server_uuid last_commit_gtid;
          case first of
            Inl e \<Rightarrow> Some (e, st, n)
          | Inr g \<Rightarrow>
              (case get_binlog_file_list env binlog_index_file_name st of
                 (ret, files) \<Rightarrow>
                   if ret \<noteq> 0 then Some (-96, st, n)
                   else
                     (case (case last_gtid_index env files (length files) st of
                              None \<Rightarrow> (0, [], st) | Some i \<Rightarrow> truncate_by_gtid env files i g st) of
                        (ret, new, st) \<Rightarrow>
                          if ret \<noteq> 0 then Some (-112, st, n)
                          else if length new \<noteq> length files \<and> new \<noteq> []
                          then (case generate_new_index_file env binlog_index_file_name new st of (ret, st) \<Rightarrow> Some (ret, st, n))
                          else Some (0, st, n)))
        }
      })"

text \<open>Before recovery the server ends when the binlog cannot be cut.\<close>

definition repl_phx_report_binlog_before_recovery ::
  "binlog_env \<Rightarrow> 'n client \<Rightarrow> string \<Rightarrow> string \<Rightarrow> binlog_state \<Rightarrow> 'n \<Rightarrow> (hook_end \<times> binlog_state \<times> 'n) option" where
  "repl_phx_report_binlog_before_recovery env c server_uuid log_bin_index st n =
     map_option (\<lambda>(ret, st, n). (if ret \<noteq> 0 then Exited else Returned ret, st, n))
       (truncate_while_init env c server_uuid log_bin_index st n)"

section \<open>The binlog after recovery\<close>

text \<open>The binlog is the sequence of the events of its files.\<close>

definition uncommitted :: "string \<times> int \<Rightarrow> log_event \<Rightarrow> bool" where
  "uncommitted g ev \<longleftrightarrow> (case ev of GtidEvent sid gno \<Rightarrow> sid = fst g \<and> gno \<ge> snd g | _ \<Rightarrow> False)"

definition file_events :: "binlog_env \<Rightarrow> string \<Rightarrow> binlog_state \<Rightarrow> log_event list" where
  "file_events env f st = (case open_binlog_file f st of None \<Rightarrow> [] | Some b \<Rightarrow> map fst (be_events env True b))"

definition binlog :: "binlog_env \<Rightarrow> string list \<Rightarrow> binlog_state \<Rightarrow> log_event list" where
  "binlog env files st = concat (map (\<lambda>f. file_events env f st) files)"

text \<open>A file that is cut between two events holds the events before the cut.\<close>

definition reader_ok :: "binlog_env \<Rightarrow> bool" where
  "reader_ok env \<longleftrightarrow> (\<forall>b es e es'. take 4 b = BINLOG_MAGIC \<longrightarrow> be_events env True b = es @ e # es' \<longrightarrow>
     be_events env True (take (4 + sum_list (map snd es)) b) = es)"

text \<open>Names that are written to an index are read back.\<close>

definition names_ok :: "binlog_env \<Rightarrow> string list \<Rightarrow> bool" where
  "names_ok env names \<longleftrightarrow>
     (\<forall>k. be_lines env (index_bytes (take k names)) = map (\<lambda>n. n @ [CHR 0x0A]) (take k names)) \<and>
     (\<forall>n\<in>set names. n \<noteq> [] \<and> be_normalize env (n @ [CHR 0x0A]) = Some (n @ [CHR 0x0A]))"

lemma binlog_simps [simp]:
  "binlog env [] st = []" "binlog env (f # fs) st = file_events env f st @ binlog env fs st"
  "binlog env (fs @ fs') st = binlog env fs st @ binlog env fs' st"
  by (simp_all add: binlog_def)

lemma truncate_scan_None: "truncate_scan env g evs pos lg = (None, lg') \<Longrightarrow> ev \<in> set evs \<Longrightarrow> \<not> uncommitted g (fst ev)"
proof (induction evs arbitrary: pos lg)
  case (Cons a evs)
  obtain x sz where "a = (x, sz)" by (cases a)
  with Cons show ?case by (cases x) (auto simp: uncommitted_def split: if_splits)
qed simp

lemma truncate_scan_Some:
  assumes "truncate_scan env g evs pos lg = (Some p, lg')"
  shows "\<exists>es e es'. evs = es @ e # es' \<and> uncommitted g (fst e) \<and> (\<forall>x\<in>set es. \<not> uncommitted g (fst x)) \<and> p = pos + sum_list (map snd es)"
  using assms
proof (induction evs arbitrary: pos lg)
  case (Cons a evs)
  obtain ev sz where a [simp]: "a = (ev, sz)" by (cases a)
  show ?case
  proof (cases "uncommitted g ev")
    case True
    then show ?thesis using Cons.prems by (intro exI [of _ "[]"] exI [of _ a] exI [of _ evs]) (auto simp: uncommitted_def split: log_event.splits)
  next
    case False
    then obtain lg1 where "truncate_scan env g evs (pos + sz) lg1 = (Some p, lg')"
      using Cons.prems by (cases ev) (auto simp: uncommitted_def split: if_splits)
    from Cons.IH [OF this] obtain es e es' where "evs = es @ e # es'" "uncommitted g (fst e)"
      "\<forall>x\<in>set es. \<not> uncommitted g (fst x)" "p = pos + sz + sum_list (map snd es)" by blast
    then show ?thesis using False by (intro exI [of _ "a # es"] exI [of _ e] exI [of _ es']) auto
  qed
qed simp

lemma cut_file_events:
  assumes "reader_ok env" "open_binlog_file f st = Some b"
    and "truncate_scan env g (be_events env True b) 4 (bs_last_gtid st) = (Some pos, lg)"
  shows "list_ex (uncommitted g) (file_events env f st)"
    and "file_events env f (st\<lparr>bs_last_gtid := lg, bs_files := (bs_files st)(f \<mapsto> take pos b)\<rparr>) =
      takeWhile (\<lambda>ev. \<not> uncommitted g ev) (file_events env f st)"
proof -
  from truncate_scan_Some [OF assms(3)] obtain es e es' where e: "be_events env True b = es @ e # es'" "uncommitted g (fst e)"
    "\<forall>x\<in>set es. \<not> uncommitted g (fst x)" "pos = 4 + sum_list (map snd es)" by blast
  have fe: "file_events env f st = map fst es @ fst e # map fst es'" using assms(2) e(1) by (simp add: file_events_def)
  have tw: "takeWhile (\<lambda>ev. \<not> uncommitted g ev) (file_events env f st) = map fst es"
    unfolding fe using e(2,3) by (subst takeWhile_append2) auto
  show "list_ex (uncommitted g) (file_events env f st)" unfolding fe using e(2) by simp
  have m: "take 4 b = BINLOG_MAGIC" using assms(2) by (auto simp: open_binlog_file_def split: option.splits if_splits)
  have "be_events env True (take pos b) = es" using assms(1) e(1,4) m unfolding reader_ok_def by blast
  moreover have "take 4 (take pos b) = BINLOG_MAGIC" using m e(4) by (simp add: min_def)
  ultimately show "file_events env f (st\<lparr>bs_last_gtid := lg, bs_files := (bs_files st)(f \<mapsto> take pos b)\<rparr>) =
      takeWhile (\<lambda>ev. \<not> uncommitted g ev) (file_events env f st)"
    unfolding tw by (simp add: file_events_def open_binlog_file_def)
qed

lemma truncate_one_files:
  assumes "reader_ok env" "truncate_one env f g st = (ret, st')"
  shows "f' \<noteq> f \<Longrightarrow> bs_files st' f' = bs_files st f'"
    and "0 \<le> ret \<Longrightarrow> file_events env f st' = takeWhile (\<lambda>ev. \<not> uncommitted g ev) (file_events env f st)"
    and "\<not> list_ex (uncommitted g) (file_events env f st) \<Longrightarrow> bs_files st' = bs_files st"
    and "0 < ret \<longleftrightarrow> \<not> list_ex (uncommitted g) (file_events env f st) \<and> open_binlog_file f st \<noteq> None"
proof -
  consider (closed) "open_binlog_file f st = None" "ret = -243" "st' = st"
    | (whole) b lg where "open_binlog_file f st = Some b" "truncate_scan env g (be_events env True b) 4 (bs_last_gtid st) = (None, lg)"
        "ret = 1" "st' = st\<lparr>bs_last_gtid := lg\<rparr>"
    | (cut) b lg pos where "open_binlog_file f st = Some b" "truncate_scan env g (be_events env True b) 4 (bs_last_gtid st) = (Some pos, lg)"
        "ret = 0 \<and> st' = st\<lparr>bs_last_gtid := lg, bs_files := (bs_files st)(f \<mapsto> take pos b)\<rparr> \<or> ret = -1 \<and> st' = st\<lparr>bs_last_gtid := lg\<rparr>"
    using assms(2) by (fastforce simp: truncate_one_def split: option.splits prod.splits if_splits)
  then have "(f' \<noteq> f \<longrightarrow> bs_files st' f' = bs_files st f') \<and>
    (0 \<le> ret \<longrightarrow> file_events env f st' = takeWhile (\<lambda>ev. \<not> uncommitted g ev) (file_events env f st)) \<and>
    (\<not> list_ex (uncommitted g) (file_events env f st) \<longrightarrow> bs_files st' = bs_files st) \<and>
    (0 < ret \<longleftrightarrow> \<not> list_ex (uncommitted g) (file_events env f st) \<and> open_binlog_file f st \<noteq> None)"
  proof cases
    case closed
    then show ?thesis by (simp add: file_events_def)
  next
    case whole
    then have "\<not> list_ex (uncommitted g) (file_events env f st)"
      using truncate_scan_None [OF whole(2)] by (auto simp: file_events_def list_ex_iff)
    moreover from this have "takeWhile (\<lambda>ev. \<not> uncommitted g ev) (file_events env f st) = file_events env f st"
      by (simp add: takeWhile_eq_all_conv list_ex_iff)
    moreover have "file_events env f st' = file_events env f st" using whole by (simp add: file_events_def open_binlog_file_def)
    ultimately show ?thesis using whole(1,3,4) by (metis less_numeral_extra(1) option.distinct(1) binlog_state.select_convs(1) binlog_state.surjective binlog_state.update_convs(2))
  next
    case cut
    from cut_file_events [OF assms(1) cut(1,2)] cut(3) show ?thesis by (elim disjE conjE) simp_all
  qed
  then show "f' \<noteq> f \<Longrightarrow> bs_files st' f' = bs_files st f'"
    and "0 \<le> ret \<Longrightarrow> file_events env f st' = takeWhile (\<lambda>ev. \<not> uncommitted g ev) (file_events env f st)"
    and "\<not> list_ex (uncommitted g) (file_events env f st) \<Longrightarrow> bs_files st' = bs_files st"
    and "0 < ret \<longleftrightarrow> \<not> list_ex (uncommitted g) (file_events env f st) \<and> open_binlog_file f st \<noteq> None"
    by blast+
qed

lemma file_events_cong: "bs_files st' f = bs_files st f \<Longrightarrow> file_events env f st' = file_events env f st"
  by (simp add: file_events_def open_binlog_file_def)

lemma binlog_cong: "(\<And>f. f \<in> set fs \<Longrightarrow> bs_files st' f = bs_files st f) \<Longrightarrow> binlog env fs st' = binlog env fs st"
  unfolding binlog_def by (intro arg_cong [of _ _ concat] map_cong refl file_events_cong)

lemma takeWhile_some: "list_ex (\<lambda>x. \<not> P x) xs \<Longrightarrow> takeWhile P (xs @ ys) = takeWhile P xs"
  by (induction xs) auto

lemma takeWhile_none: "\<not> list_ex (\<lambda>x. \<not> P x) xs \<Longrightarrow> takeWhile P (xs @ ys) = xs @ takeWhile P ys"
  by (induction xs) auto

lemma truncate_files_binlog:
  assumes "reader_ok env" "truncate_files env g fs new ret0 st = (ret, new', st')" "0 \<le> ret" "0 \<le> ret0" "distinct fs"
  shows "(\<forall>f. f \<notin> set fs \<longrightarrow> bs_files st' f = bs_files st f) \<and>
    (\<exists>k. new' = new @ take k fs \<and> binlog env (take k fs) st' = takeWhile (\<lambda>ev. \<not> uncommitted g ev) (binlog env fs st))"
  using assms(2-)
proof (induction fs arbitrary: new ret0 st)
  case Nil
  then show ?case by simp
next
  case (Cons f fs)
  obtain r1 st1 where t: "truncate_one env f g st = (r1, st1)" by (cases "truncate_one env f g st")
  note t1 = truncate_one_files [OF assms(1) t]
  have others: "f' \<noteq> f \<Longrightarrow> bs_files st1 f' = bs_files st f'" for f' by (rule t1(1))
  show ?case
  proof (cases "r1 \<le> 0")
    case True
    have "(ret, new', st') = (r1, new @ [f], st1)" using Cons.prems(1) True by (simp only: truncate_files.simps t split: prod.split if_split) simp
    then have r: "ret = r1" "new' = new @ [f]" "st' = st1" "r1 = 0" using True Cons.prems(2) by simp_all
    have "open_binlog_file f st \<noteq> None" using t r(4) by (auto simp: truncate_one_def split: option.splits)
    with t1(4) r(4) have "list_ex (uncommitted g) (file_events env f st)" by simp
    then have "takeWhile (\<lambda>ev. \<not> uncommitted g ev) (file_events env f st @ binlog env fs st) = file_events env f st1"
      using t1(2) r(4) by (simp add: takeWhile_some)
    then have "binlog env (take 1 (f # fs)) st1 = takeWhile (\<lambda>ev. \<not> uncommitted g ev) (binlog env (f # fs) st)"
      by simp
    then show ?thesis unfolding r using others by (intro conjI exI [of _ 1]) simp_all
  next
    case False
    then have "truncate_files env g fs (new @ [f]) r1 st1 = (ret, new', st')" using Cons.prems(1) by (simp add: t)
    moreover have "0 \<le> r1" "distinct fs" using False Cons.prems(4) by simp_all
    ultimately obtain k where
      k: "\<forall>f'. f' \<notin> set fs \<longrightarrow> bs_files st' f' = bs_files st1 f'" "new' = (new @ [f]) @ take k fs"
        "binlog env (take k fs) st' = takeWhile (\<lambda>ev. \<not> uncommitted g ev) (binlog env fs st1)"
      using Cons.IH [OF _ Cons.prems(2)] by blast
    have n: "\<not> list_ex (uncommitted g) (file_events env f st)" using t1(4) False by simp
    have same: "bs_files st1 = bs_files st" by (rule t1(3) [OF n])
    have "file_events env f st' = file_events env f st" using k(1) same Cons.prems(4) by (intro file_events_cong) simp
    moreover have "binlog env fs st1 = binlog env fs st" using same by (intro binlog_cong) simp
    ultimately have "binlog env (take (Suc k) (f # fs)) st' = takeWhile (\<lambda>ev. \<not> uncommitted g ev) (binlog env (f # fs) st)"
      using k(3) n by (simp add: takeWhile_none)
    then show ?thesis using k(1,2) same by (intro conjI exI [of _ "Suc k"]) simp_all
  qed
qed

lemma last_gtid_index_Some:
  "last_gtid_index env files n st = Some i \<Longrightarrow> i < n \<and> is_gtid_in_binlog_file env (files ! i) st \<and>
     (\<forall>j. i < j \<longrightarrow> j < n \<longrightarrow> \<not> is_gtid_in_binlog_file env (files ! j) st)"
  by (induction n) (auto simp: less_Suc_eq split: if_splits)

lemma last_gtid_index_None:
  "last_gtid_index env files n st = None \<Longrightarrow> j < n \<Longrightarrow> \<not> is_gtid_in_binlog_file env (files ! j) st"
  by (induction n) (auto simp: less_Suc_eq split: if_splits)

lemma last_gtid_file_set: "last_gtid_file env fs st = Some f \<Longrightarrow> f \<in> set fs"
  by (induction fs) (auto split: if_splits)

text \<open>
  The transactions that were not committed are at the end: in the last file that holds a GTID or behind it.
  A group of transactions is sent before the next one is written, so only the last group can be missing.
\<close>

definition tail_only :: "binlog_env \<Rightarrow> string \<times> int \<Rightarrow> string list \<Rightarrow> binlog_state \<Rightarrow> bool" where
  "tail_only env g files st \<longleftrightarrow>
     (\<forall>j<length files. list_ex (uncommitted g) (file_events env (files ! j) st) \<longrightarrow>
        (\<exists>i\<le>j. is_gtid_in_binlog_file env (files ! i) st) \<and>
        (\<forall>i<length files. j < i \<longrightarrow> \<not> is_gtid_in_binlog_file env (files ! i) st))"

lemma binlog_none: "(\<And>f. f \<in> set fs \<Longrightarrow> \<not> list_ex (uncommitted g) (file_events env f st)) \<Longrightarrow> \<not> list_ex (uncommitted g) (binlog env fs st)"
  by (induction fs) auto

lemma truncate_one_keeps:
  assumes "reader_ok env" "truncate_one env f g st = (ret, st')"
  shows "\<exists>rest. binlog env fs st' = takeWhile (\<lambda>ev. \<not> uncommitted g ev) (binlog env fs st) @ rest"
proof (induction fs)
  case (Cons a fs)
  let ?P = "\<lambda>ev. \<not> uncommitted g ev" and ?e = "file_events env a st"
  note t = truncate_one_files [OF assms]
  have a: "file_events env a st' = ?e \<or> file_events env a st' = takeWhile ?P ?e"
  proof (cases "a = f")
    case True
    have "ret < 0 \<longrightarrow> bs_files st' = bs_files st"
      using assms(2) by (auto simp: truncate_one_def split: option.splits prod.splits if_splits)
    then show ?thesis using t(2) True by (metis file_events_cong not_less)
  next
    case False
    then show ?thesis using t(1) [of a] file_events_cong [of st' a st env] by simp
  qed
  show ?case
  proof (cases "list_ex (uncommitted g) ?e")
    case True
    then have "takeWhile ?P (binlog env (a # fs) st) = takeWhile ?P ?e" by (simp add: takeWhile_some)
    with a show ?thesis by (metis append.assoc binlog_simps(2) takeWhile_dropWhile_id)
  next
    case False
    then have n: "takeWhile ?P ?e = ?e" by (simp add: takeWhile_eq_all_conv list_ex_iff)
    with a have "file_events env a st' = ?e" by metis
    moreover have "takeWhile ?P (binlog env (a # fs) st) = ?e @ takeWhile ?P (binlog env fs st)" using False by (simp add: takeWhile_none)
    ultimately show ?thesis using Cons.IH by auto
  qed
qed simp

lemma takeWhile_inner: "takeWhile P (xs @ takeWhile P ys) = takeWhile P (xs @ ys)"
  by (induction xs) (auto simp: takeWhile_idem)

text \<open>
  What \<^verbatim>\<open>truncate_by_gtid\<close> leaves: nothing before the first uncommitted transaction is lost, and the rest is cut
  off when all uncommitted transactions are in the files from \<open>i\<close> on.
\<close>

lemma truncate_by_gtid_binlog:
  assumes "reader_ok env" "truncate_by_gtid env files i g st = (0, new, st')" "distinct files"
  defines "K \<equiv> takeWhile (\<lambda>ev. \<not> uncommitted g ev) (binlog env files st)"
  shows "\<forall>f. f \<notin> set files \<longrightarrow> bs_files st' f = bs_files st f" and "\<exists>k. new = take k files"
    and "\<exists>rest. binlog env new st' = K @ rest"
    and "(\<And>f. f \<in> set (take i files) \<Longrightarrow> \<not> list_ex (uncommitted g) (file_events env f st)) \<Longrightarrow> binlog env new st' = K"
proof -
  obtain ret st1 where t: "truncate_files env g (drop i files) (take i files) 0 st = (ret, new, st1)" "0 \<le> ret"
    and st': "st' = (if bs_last_gtid st1 = [] then case last_gtid_file env (rev new) st1 of
        None \<Rightarrow> st1 | Some f \<Rightarrow> snd (truncate_one env f g st1) else st1)"
    using assms(2) by (auto simp: truncate_by_gtid_def Let_def split: prod.splits if_splits)
  have d: "distinct (drop i files)" "set (take i files) \<inter> set (drop i files) = {}"
    using assms(3) by (metis append_take_drop_id distinct_append)+
  from truncate_files_binlog [OF assms(1) t order.refl d(1)] obtain k where
    k: "\<forall>f. f \<notin> set (drop i files) \<longrightarrow> bs_files st1 f = bs_files st f" "new = take i files @ take k (drop i files)"
      "binlog env (take k (drop i files)) st1 = takeWhile (\<lambda>ev. \<not> uncommitted g ev) (binlog env (drop i files) st)" by blast
  have b: "binlog env (take i files) st1 = binlog env (take i files) st" using k(1) d(2) by (intro binlog_cong) auto
  have all: "binlog env files st = binlog env (take i files) st @ binlog env (drop i files) st"
    by (metis append_take_drop_id binlog_simps(3))
  have K: "takeWhile (\<lambda>ev. \<not> uncommitted g ev) (binlog env new st1) = K"
    unfolding k(2) K_def all by (simp add: b k(3) takeWhile_inner)
  show "\<exists>k. new = take k files" by (intro exI [of _ "i + k"]) (simp add: k(2) take_add)
  then have new: "set new \<subseteq> set files" by (auto dest: in_set_takeD)
  consider "st' = st1" | f where "f \<in> set new" "st' = snd (truncate_one env f g st1)"
  proof (cases "bs_last_gtid st1 = [] \<and> last_gtid_file env (rev new) st1 \<noteq> None")
    case True
    then obtain f where "last_gtid_file env (rev new) st1 = Some f" by blast
    with st' True that(2) [of f] last_gtid_file_set [of env "rev new" st1 f] show thesis by simp
  next
    case False
    then have "st' = st1" using st' by (cases "bs_last_gtid st1 = []") auto
    then show thesis by (rule that(1))
  qed
  then have "(\<forall>f. f \<notin> set files \<longrightarrow> bs_files st' f = bs_files st1 f) \<and> (\<exists>rest. binlog env new st' = K @ rest) \<and>
      (binlog env new st1 = K \<longrightarrow> binlog env new st' = K)"
  proof cases
    case 1
    moreover have "binlog env new st1 = K @ dropWhile (\<lambda>ev. \<not> uncommitted g ev) (binlog env new st1)" unfolding K [symmetric] by simp
    ultimately show ?thesis by blast
  next
    case (2 f)
    obtain r where r: "truncate_one env f g st1 = (r, st')" using 2(2) by (metis prod.collapse)
    have "binlog env new st' = K" if K': "binlog env new st1 = K"
    proof -
      have "\<not> list_ex (uncommitted g) (binlog env new st1)" unfolding K' K_def by (auto simp: list_ex_iff dest: set_takeWhileD)
      then have "\<not> list_ex (uncommitted g) (file_events env f st1)" using 2(1) by (auto simp: list_ex_iff binlog_def)
      from truncate_one_files(3) [OF assms(1) r this] binlog_cong [of new st' st1 env] K' show ?thesis by simp
    qed
    moreover have "bs_files st' f' = bs_files st1 f'" if "f' \<notin> set files" for f'
      using that 2(1) new by (intro truncate_one_files(1) [OF assms(1) r]) auto
    ultimately show ?thesis using truncate_one_keeps [OF assms(1) r, of new] K by simp
  qed
  note x = this
  show "\<forall>f. f \<notin> set files \<longrightarrow> bs_files st' f = bs_files st f" using conjunct1 [OF x] k(1) by (metis in_set_dropD)
  show "\<exists>rest. binlog env new st' = K @ rest" using x by blast
  assume "\<And>f. f \<in> set (take i files) \<Longrightarrow> \<not> list_ex (uncommitted g) (file_events env f st)"
  then have "\<not> list_ex (\<lambda>ev. \<not> \<not> uncommitted g ev) (binlog env (take i files) st)" using binlog_none by simp
  then have "binlog env new st1 = K" unfolding K_def all k(2) by (simp add: b k(3) takeWhile_none)
  with x show "binlog env new st' = K" by blast
qed

lemma truncate_files_new: "truncate_files env g fs new r st = (ret, new', st') \<Longrightarrow> new \<noteq> [] \<or> fs \<noteq> [] \<Longrightarrow> new' \<noteq> []"
proof (induction fs arbitrary: new r st)
  case (Cons f fs)
  obtain r1 st1 where t: "truncate_one env f g st = (r1, st1)" by (cases "truncate_one env f g st")
  show ?case using Cons.prems(1) Cons.IH [of "new @ [f]" r1 st1] by (simp add: t split: if_splits) blast
qed simp

lemma truncate_by_gtid_new: "truncate_by_gtid env files i g st = (ret, new, st') \<Longrightarrow> i < length files \<Longrightarrow> new \<noteq> []"
  using truncate_files_new [of env g "drop i files" "take i files" 0 st] by (auto simp: truncate_by_gtid_def Let_def split: prod.splits)

lemma index_bytes_read:
  assumes "names_ok env names"
  shows "index_names env (map (\<lambda>n. n @ [CHR 0x0A]) (take k names)) = (0, take k names)"
proof -
  have "\<forall>n\<in>set ns. n \<noteq> [] \<and> be_normalize env (n @ [CHR 0x0A]) = Some (n @ [CHR 0x0A]) \<Longrightarrow>
      index_names env (map (\<lambda>n. n @ [CHR 0x0A]) ns) = (0, ns)" for ns
    by (induction ns) auto
  then show ?thesis using assms by (auto simp: names_ok_def dest: in_set_takeD)
qed

lemma generate_new_index_file_OK:
  assumes "generate_new_index_file env idx names st = (0, st')" "bs_files st (idx @ ''.phxsync'') = None"
  shows "bs_files st' idx = Some (index_bytes names)" "f \<noteq> idx \<Longrightarrow> f \<noteq> idx @ ''.phxsync'' \<Longrightarrow> bs_files st' f = bs_files st f"
  using assms by (auto simp: generate_new_index_file_def Let_def overwrite_def split: if_splits)

text \<open>
  C6: the binlog after recovery. When the plugin lets MySQL recover, the files of the index hold at least the
  events of the binlog before, up to the first transaction of this server that the binlog servers do not
  have: nothing before it is lost. They hold exactly these events when the transactions to cut off are all in
  the last file that holds a GTID of any server, or behind it. The index must not be one of the files, and no
  new index may have been left behind by an earlier attempt.
\<close>

theorem recovery_cuts_uncommitted:
  assumes "reader_ok env" "repl_phx_report_binlog_before_recovery env c server_uuid idx st n = Some (Returned 0, st', n')"
    and "get_last_gtid_in_binlogsvr c server_uuid n = Some (0, last_commit_gtid, n')" "server_uuid \<noteq> []"
    and "first_uncommitted env server_uuid last_commit_gtid = Some (Inr g)"
    and "get_binlog_file_list env idx st = (0, files)" "names_ok env files"
    and "distinct files" "idx \<notin> set files" "idx @ ''.phxsync'' \<notin> set files" "bs_files st (idx @ ''.phxsync'') = None"
  shows "\<exists>files' rest. get_binlog_file_list env idx st' = (0, files') \<and>
    binlog env files' st' = takeWhile (\<lambda>ev. \<not> uncommitted g ev) (binlog env files st) @ rest \<and>
    (tail_only env g files st \<longrightarrow> rest = [])"
proof (cases "last_gtid_index env files (length files) st")
  case None
  then have "st' = st" using assms(2-6) by (auto simp: repl_phx_report_binlog_before_recovery_def truncate_while_init_def)
  moreover have "\<not> list_ex (uncommitted g) (binlog env files st)" if tail: "tail_only env g files st"
  proof (rule binlog_none)
    fix f assume "f \<in> set files"
    then obtain j where "j < length files" "f = files ! j" by (auto simp: in_set_conv_nth)
    then show "\<not> list_ex (uncommitted g) (file_events env f st)" using tail last_gtid_index_None [OF None] unfolding tail_only_def by (metis le_less_trans)
  qed
  then have "dropWhile (\<lambda>ev. \<not> uncommitted g ev) (binlog env files st) = []" if "tail_only env g files st"
    using that by (simp add: list_ex_iff)
  ultimately show ?thesis using assms(6) by (metis takeWhile_dropWhile_id)
next
  case (Some i)
  obtain new st1 where t: "truncate_by_gtid env files i g st = (0, new, st1)"
    and r: "if length new \<noteq> length files \<and> new \<noteq> [] then generate_new_index_file env idx new st1 = (0, st') else st' = st1"
    using assms(2-6) Some by (auto simp: repl_phx_report_binlog_before_recovery_def truncate_while_init_def split: prod.splits if_splits)
  note i = last_gtid_index_Some [OF Some] and b = truncate_by_gtid_binlog [OF assms(1) t assms(8)]
  have "\<not> list_ex (uncommitted g) (file_events env f st)" if tail: "tail_only env g files st" and f: "f \<in> set (take i files)" for f
  proof -
    obtain j where "j < i" "f = files ! j" using f i by (auto simp: in_set_conv_nth)
    then show ?thesis using tail i unfolding tail_only_def by (meson less_trans)
  qed
  then obtain rest where rest: "binlog env new st1 = takeWhile (\<lambda>ev. \<not> uncommitted g ev) (binlog env files st) @ rest"
    "tail_only env g files st \<longrightarrow> rest = []" using b(3,4) by (metis append_Nil2)
  obtain k where k: "new = take k files" using b(2) by blast
  have "get_binlog_file_list env idx st' = (0, new) \<and> binlog env new st' = binlog env new st1"
  proof (cases "length new \<noteq> length files \<and> new \<noteq> []")
    case True
    with r have gen: "generate_new_index_file env idx new st1 = (0, st')" by simp
    have "bs_files st1 (idx @ ''.phxsync'') = None" using b(1) assms(10,11) by simp
    note o = generate_new_index_file_OK [OF gen this]
    have "get_binlog_file_list env idx st' = (0, new)"
      using o(1) index_bytes_read [OF assms(7), of k] assms(6,7) by (auto simp: get_binlog_file_list_def names_ok_def k split: option.splits if_splits)
    moreover have "binlog env new st' = binlog env new st1"
      using assms(9,10) in_set_takeD [of _ k files] by (intro binlog_cong o(2)) (auto simp: k)
    ultimately show ?thesis by blast
  next
    case False
    then have "new = files" "st' = st1" using k truncate_by_gtid_new [OF t] i r by (auto split: if_splits)
    then show ?thesis using b(1) assms(6,9) by (simp add: get_binlog_file_list_def)
  qed
  with rest show ?thesis by auto
qed

lemma truncate_files_none:
  assumes "reader_ok env" "truncate_files env g fs new ret0 st = (ret, new', st')" "0 \<le> ret"
    and "\<not> list_ex (uncommitted g) (binlog env fs st)"
  shows "bs_files st' = bs_files st \<and> new' = new @ fs"
  using assms(2-)
proof (induction fs arbitrary: new ret0 st)
  case (Cons f fs)
  obtain r1 st1 where t: "truncate_one env f g st = (r1, st1)" by (cases "truncate_one env f g st")
  note t1 = truncate_one_files [OF assms(1) t]
  have n: "\<not> list_ex (uncommitted g) (file_events env f st)" "\<not> list_ex (uncommitted g) (binlog env fs st)" using Cons.prems(3) by simp_all
  have same: "bs_files st1 = bs_files st" by (rule t1(3) [OF n(1)])
  have "0 < r1"
  proof (rule ccontr)
    assume "\<not> 0 < r1"
    then have "open_binlog_file f st = None" "ret = r1" using t1(4) n(1) Cons.prems(1) by (auto simp: t)
    with t Cons.prems(2) show False by (simp add: truncate_one_def)
  qed
  then have "truncate_files env g fs (new @ [f]) r1 st1 = (ret, new', st')" using Cons.prems(1) by (simp add: t)
  moreover have "binlog env fs st1 = binlog env fs st" using same by (intro binlog_cong) simp
  ultimately have "bs_files st' = bs_files st1 \<and> new' = (new @ [f]) @ fs" using n(2) by (intro Cons.IH [OF _ Cons.prems(2)]) simp_all
  then show ?case using same by simp
qed simp

lemma last_gtid_file_index:
  "n \<le> length files \<Longrightarrow> last_gtid_file env (rev (take n files)) st = map_option ((!) files) (last_gtid_index env files n st)"
  by (induction n) (simp_all add: take_Suc_conv_app_nth)

lemma is_gtid_in_binlog_file_cong: "bs_files st' = bs_files st \<Longrightarrow> is_gtid_in_binlog_file env f st' = is_gtid_in_binlog_file env f st"
  by (simp add: is_gtid_in_binlog_file_def read_gtids_from_binlog_def open_binlog_file_def)

lemma last_gtid_index_cong:
  assumes "bs_files st' = bs_files st"
  shows "last_gtid_index env files n st' = last_gtid_index env files n st"
  by (induction n) (simp_all add: is_gtid_in_binlog_file_cong [OF assms])

text \<open>
  C34: the cut starts at the last file that holds a GTID of any server. When this file and those behind it hold
  no transaction to cut off, the recovery hook returns with all files as they were, even if an older file
  holds some.
\<close>

theorem recovery_skips_older_files:
  assumes "reader_ok env" "repl_phx_report_binlog_before_recovery env c server_uuid idx st n = Some (Returned 0, st', n')"
    and "get_last_gtid_in_binlogsvr c server_uuid n = Some (0, last_commit_gtid, n')" "server_uuid \<noteq> []"
    and "first_uncommitted env server_uuid last_commit_gtid = Some (Inr g)"
    and "get_binlog_file_list env idx st = (0, files)" "last_gtid_index env files (length files) st = Some i"
    and "\<not> list_ex (uncommitted g) (binlog env (drop i files) st)"
  shows "bs_files st' = bs_files st"
proof -
  obtain new st1 where t: "truncate_by_gtid env files i g st = (0, new, st1)"
    and r: "if length new \<noteq> length files \<and> new \<noteq> [] then generate_new_index_file env idx new st1 = (0, st') else st' = st1"
    using assms(2-7) by (auto simp: repl_phx_report_binlog_before_recovery_def truncate_while_init_def split: prod.splits if_splits)
  from t obtain ret st2 where t2: "truncate_files env g (drop i files) (take i files) 0 st = (ret, new, st2)" "0 \<le> ret"
    and st1: "st1 = (if bs_last_gtid st2 = [] then case last_gtid_file env (rev new) st2 of
        None \<Rightarrow> st2 | Some f \<Rightarrow> snd (truncate_one env f g st2) else st2)"
    by (auto simp: truncate_by_gtid_def Let_def split: prod.splits if_splits)
  from truncate_files_none [OF assms(1) t2 assms(8)] have same: "bs_files st2 = bs_files st" "new = files" by simp_all
  have i: "i < length files" using last_gtid_index_Some [OF assms(7)] by simp
  then have "files ! i \<in> set (drop i files)" by (metis Cons_nth_drop_Suc list.set_intros(1))
  then have "\<not> list_ex (uncommitted g) (file_events env (files ! i) st2)"
    using assms(8) file_events_cong [of st2 "files ! i" st env] same(1) by (auto simp: list_ex_iff binlog_def)
  then have "bs_files (snd (truncate_one env (files ! i) g st2)) = bs_files st2"
    by (metis assms(1) prod.collapse truncate_one_files(3))
  moreover have "last_gtid_file env (rev files) st2 = Some (files ! i)"
    using last_gtid_file_index [of "length files" files env st2] assms(7) last_gtid_index_cong [OF same(1)] by simp
  ultimately have "bs_files st1 = bs_files st" using st1 same by simp
  with r same(2) show ?thesis by simp
qed

text \<open>
  Three files, in which every event is one byte behind the magic number; the server committed its first two
  transactions, and the third one is in the second file. The third file holds none.
\<close>

fun split_lines :: "bytes \<Rightarrow> string \<Rightarrow> string list" where
  "split_lines [] l = (if l = [] then [] else [l])"
| "split_lines (b # bs) l =
     (if b = 10 then (l @ [CHR 0x0A]) # split_lines bs [] else split_lines bs (l @ [char_of (unat b)]))"

definition tiny_event :: "byte \<Rightarrow> log_event \<times> nat" where
  "tiny_event b = (if b = 0 then FormatDescription else if b = 9 then PreviousGtids True
     else if b = 8 then GtidEvent ''cd'' 1 else GtidEvent ''ab'' (uint b), 1)"

definition tiny_env :: binlog_env where
  "tiny_env = \<lparr>be_events = (\<lambda>_ b. map tiny_event (drop 4 b)),
     be_parse = (\<lambda>s. if s = ''ab:2'' then Some (''ab'', 2) else None), be_print = (\<lambda>_. ''ab:2''),
     be_lines = (\<lambda>b. split_lines b []), be_normalize = Some, be_reads = True, be_truncates = (\<lambda>_. True), be_creates = True, be_caches = True, be_syncs = True,
     be_renames = True\<rparr>"

definition tiny_client :: "unit client" where
  "tiny_client = \<lparr>cl_api = \<lparr>rp_call = (\<lambda>_ _ _ _ n. (Some (0, str_bytes ''ab:2''), n)), rp_order = (\<lambda>n _. [0..<n])\<rparr>,
     cl_codecs = wire_codecs, cl_ip = [], cl_port = 0\<rparr>"

definition tiny_names :: "string list" where
  "tiny_names = [''f1'', ''f2'', ''f3'']"

definition tiny_files :: binlog_state where
  "tiny_files = \<lparr>bs_files = [''i'' \<mapsto> index_bytes tiny_names, ''f1'' \<mapsto> BINLOG_MAGIC @ [0, 9, 1],
       ''f2'' \<mapsto> BINLOG_MAGIC @ [0, 9, 2, 3], ''f3'' \<mapsto> BINLOG_MAGIC @ [0, 9]], bs_last_gtid = []\<rparr>"

lemma tiny_lines: "be_lines tiny_env (index_bytes (take k tiny_names)) = map (\<lambda>n. n @ [CHR 0x0A]) (take k tiny_names)"
proof -
  have "take k tiny_names \<in> {[], [''f1''], [''f1'', ''f2''], tiny_names}"
    by (cases k; cases "k - 1"; cases "k - 2") (auto simp: tiny_names_def take_Cons' split: nat.splits)
  moreover have "char_of (102 :: nat) = CHR ''f''" "char_of (49 :: nat) = CHR ''1''" "char_of (50 :: nat) = CHR ''2''" "char_of (51 :: nat) = CHR ''3''"
    by code_simp+
  ultimately show ?thesis by (auto simp: tiny_env_def index_bytes_def tiny_names_def str_bytes_def)
qed

lemma tiny_names_ok: "names_ok tiny_env tiny_names"
  using tiny_lines by (auto simp: names_ok_def) (simp_all add: tiny_names_def tiny_env_def)

lemma tiny_reader: "reader_ok tiny_env"
proof -
  have l: "snd (tiny_event b) = 1" for b by (simp add: tiny_event_def)
  have "map tiny_event (drop 4 (take (4 + sum_list (map snd es)) b)) = es" if "map tiny_event (drop 4 b) = es @ e # es'" for b es e es'
  proof -
    have "set es \<subseteq> set (map tiny_event (drop 4 b))" unfolding that by auto
    then have "snd x = 1" if "x \<in> set es" for x using that l by fastforce
    then have "map snd es = replicate (length es) 1" by (intro replicate_eqI) auto
    then have "sum_list (map snd es) = length es" by (simp add: sum_list_replicate)
    then show ?thesis using arg_cong [OF that, of "take (length es)"] by (simp add: take_map drop_take)
  qed
  then show ?thesis by (simp add: reader_ok_def tiny_env_def)
qed

lemma tiny_open: "open_binlog_file ''f1'' tiny_files = Some (BINLOG_MAGIC @ [0, 9, 1])"
    "open_binlog_file ''f2'' tiny_files = Some (BINLOG_MAGIC @ [0, 9, 2, 3])" "open_binlog_file ''f3'' tiny_files = Some (BINLOG_MAGIC @ [0, 9])"
  by (simp_all add: open_binlog_file_def tiny_files_def BINLOG_MAGIC_def)

lemma tiny_gtids: "is_gtid_in_binlog_file tiny_env ''f1'' tiny_files" "is_gtid_in_binlog_file tiny_env ''f2'' tiny_files"
    "\<not> is_gtid_in_binlog_file tiny_env ''f3'' tiny_files"
  by (simp_all add: is_gtid_in_binlog_file_def read_gtids_from_binlog_def tiny_open tiny_env_def tiny_event_def BINLOG_MAGIC_def)

lemma tiny_binlog:
  "file_events tiny_env ''f1'' tiny_files = [FormatDescription, PreviousGtids True, GtidEvent ''ab'' 1]"
  "file_events tiny_env ''f2'' tiny_files = [FormatDescription, PreviousGtids True, GtidEvent ''ab'' 2, GtidEvent ''ab'' 3]"
  "file_events tiny_env ''f3'' tiny_files = [FormatDescription, PreviousGtids True]"
  by (simp_all add: file_events_def tiny_open tiny_env_def tiny_event_def BINLOG_MAGIC_def)

lemma tiny_tail: "tail_only tiny_env (''ab'', 3) tiny_names tiny_files"
  using tiny_gtids tiny_binlog
  by (simp add: tail_only_def tiny_names_def All_less_Suc uncommitted_def) (intro exI [of _ 0]; simp)

lemma tiny_list: "get_binlog_file_list tiny_env ''i'' tiny_files = (0, tiny_names)"
proof -
  have "be_reads tiny_env" by (simp add: tiny_env_def)
  then show ?thesis using index_bytes_read [OF tiny_names_ok, of 3] tiny_lines [of 3] by (simp add: get_binlog_file_list_def tiny_files_def tiny_names_def)
qed

lemma tiny_asked: "get_last_gtid_in_binlogsvr tiny_client ''ab'' () = Some (0, ''ab:2'', ())"
proof -
  have "bytes_str (str_bytes ''ab:2'') = ''ab:2''" by code_simp
  then have "Client_GetLastSendGtid tiny_client GetLastSendGtidFromGlobal ''ab'' [] () = (0, ''ab:2'', ())"
    by (simp add: Client_GetLastSendGtid_def RpcCall_def RpcCallWithIP_def tiny_client_def)
  then show ?thesis unfolding get_last_gtid_in_binlogsvr_def by (subst ask_loop.simps) simp
qed

lemma tiny_recovery: "\<exists>st'. repl_phx_report_binlog_before_recovery tiny_env tiny_client ''ab'' ''i'' tiny_files () = Some (Returned 0, st', ())"
proof -
  have i: "last_gtid_index tiny_env tiny_names (length tiny_names) tiny_files = Some 1"
    using tiny_gtids by (simp add: tiny_names_def eval_nat_numeral)
  let ?st = "tiny_files\<lparr>bs_last_gtid := ''ab:2'', bs_files := (bs_files tiny_files)(''f2'' \<mapsto> BINLOG_MAGIC @ [0, 9, 2])\<rparr>"
  have "truncate_one tiny_env ''f2'' (''ab'', 3) tiny_files = (0, ?st)"
    by (simp add: truncate_one_def tiny_open BINLOG_MAGIC_def) (simp add: tiny_env_def tiny_event_def)
  then have "truncate_by_gtid tiny_env tiny_names 1 (''ab'', 3) tiny_files = (0, [''f1'', ''f2''], ?st)"
    by (simp add: truncate_by_gtid_def tiny_names_def)
  moreover obtain st' where "generate_new_index_file tiny_env ''i'' [''f1'', ''f2''] ?st = (0, st')"
    by (simp add: generate_new_index_file_def tiny_env_def Let_def)
  moreover have "first_uncommitted tiny_env ''ab'' ''ab:2'' = Some (Inr (''ab'', 3))" by (simp add: first_uncommitted_def tiny_env_def)
  ultimately show ?thesis
    using tiny_asked tiny_list i
    by (simp add: repl_phx_report_binlog_before_recovery_def truncate_while_init_def tiny_names_def)
qed

theorem recovery_cuts_uncommitted_witness:
  "\<exists>st' files'. repl_phx_report_binlog_before_recovery tiny_env tiny_client ''ab'' ''i'' tiny_files () = Some (Returned 0, st', ()) \<and>
     get_binlog_file_list tiny_env ''i'' st' = (0, files') \<and>
     binlog tiny_env files' st' =
       [FormatDescription, PreviousGtids True, GtidEvent ''ab'' 1, FormatDescription, PreviousGtids True, GtidEvent ''ab'' 2]"
proof -
  obtain st' where r: "repl_phx_report_binlog_before_recovery tiny_env tiny_client ''ab'' ''i'' tiny_files () = Some (Returned 0, st', ())"
    using tiny_recovery by blast
  have "first_uncommitted tiny_env ''ab'' ''ab:2'' = Some (Inr (''ab'', 3))" by (simp add: first_uncommitted_def tiny_env_def)
  moreover have "distinct tiny_names" "''i'' \<notin> set tiny_names" "''i'' @ ''.phxsync'' \<notin> set tiny_names" "bs_files tiny_files (''i'' @ ''.phxsync'') = None"
    by (simp_all add: tiny_names_def tiny_files_def)
  ultimately have "\<exists>files'. get_binlog_file_list tiny_env ''i'' st' = (0, files') \<and>
      binlog tiny_env files' st' = takeWhile (\<lambda>ev. \<not> uncommitted (''ab'', 3) ev) (binlog tiny_env tiny_names tiny_files)"
    using recovery_cuts_uncommitted [OF tiny_reader r tiny_asked _ _ tiny_list tiny_names_ok] tiny_tail by (metis append_Nil2 list.distinct(1))
  with r show ?thesis by (simp add: tiny_binlog tiny_names_def uncommitted_def)
qed

text \<open>The same files, but the third one holds a transaction of another server: the third transaction stays.\<close>

definition mixed_files :: binlog_state where
  "mixed_files = tiny_files\<lparr>bs_files := (bs_files tiny_files)(''f3'' \<mapsto> BINLOG_MAGIC @ [0, 9, 8])\<rparr>"

lemma mixed_open: "open_binlog_file ''f2'' mixed_files = Some (BINLOG_MAGIC @ [0, 9, 2, 3])" "open_binlog_file ''f3'' mixed_files = Some (BINLOG_MAGIC @ [0, 9, 8])"
  by (simp_all add: open_binlog_file_def mixed_files_def tiny_files_def BINLOG_MAGIC_def)

lemma mixed_list: "get_binlog_file_list tiny_env ''i'' mixed_files = (0, tiny_names)"
  using tiny_list by (simp add: get_binlog_file_list_def mixed_files_def)

lemma mixed_events:
  "file_events tiny_env ''f2'' mixed_files = [FormatDescription, PreviousGtids True, GtidEvent ''ab'' 2, GtidEvent ''ab'' 3]"
  "file_events tiny_env ''f3'' mixed_files = [FormatDescription, PreviousGtids True, GtidEvent ''cd'' 1]"
  by (simp_all add: file_events_def mixed_open tiny_env_def tiny_event_def BINLOG_MAGIC_def)

lemma mixed_index: "last_gtid_index tiny_env tiny_names (length tiny_names) mixed_files = Some 2"
proof -
  have "is_gtid_in_binlog_file tiny_env ''f3'' mixed_files"
    by (simp add: is_gtid_in_binlog_file_def read_gtids_from_binlog_def mixed_open tiny_env_def tiny_event_def BINLOG_MAGIC_def)
  then show ?thesis by (simp add: tiny_names_def eval_nat_numeral)
qed

lemma mixed_recovery: "\<exists>st'. repl_phx_report_binlog_before_recovery tiny_env tiny_client ''ab'' ''i'' mixed_files () = Some (Returned 0, st', ())"
proof -
  have "truncate_one tiny_env ''f3'' (''ab'', 3) mixed_files = (1, mixed_files\<lparr>bs_last_gtid := ''ab:2''\<rparr>)"
    by (simp add: truncate_one_def mixed_open BINLOG_MAGIC_def) (simp add: tiny_env_def tiny_event_def)
  then have "truncate_by_gtid tiny_env tiny_names 2 (''ab'', 3) mixed_files = (0, tiny_names, mixed_files\<lparr>bs_last_gtid := ''ab:2''\<rparr>)"
    by (simp add: truncate_by_gtid_def tiny_names_def)
  moreover have "first_uncommitted tiny_env ''ab'' ''ab:2'' = Some (Inr (''ab'', 3))" by (simp add: first_uncommitted_def tiny_env_def)
  ultimately show ?thesis
    using tiny_asked mixed_list mixed_index by (simp add: repl_phx_report_binlog_before_recovery_def truncate_while_init_def)
qed

theorem recovery_skips_older_files_witness:
  "\<exists>st'. repl_phx_report_binlog_before_recovery tiny_env tiny_client ''ab'' ''i'' mixed_files () = Some (Returned 0, st', ()) \<and>
     bs_files st' = bs_files mixed_files \<and> GtidEvent ''ab'' 3 \<in> set (file_events tiny_env ''f2'' st') \<and> uncommitted (''ab'', 3) (GtidEvent ''ab'' 3)"
proof -
  obtain st' where r: "repl_phx_report_binlog_before_recovery tiny_env tiny_client ''ab'' ''i'' mixed_files () = Some (Returned 0, st', ())"
    using mixed_recovery by blast
  have "first_uncommitted tiny_env ''ab'' ''ab:2'' = Some (Inr (''ab'', 3))" by (simp add: first_uncommitted_def tiny_env_def)
  moreover have "\<not> list_ex (uncommitted (''ab'', 3)) (binlog tiny_env (drop 2 tiny_names) mixed_files)"
    by (simp add: tiny_names_def mixed_events uncommitted_def)
  ultimately have same: "bs_files st' = bs_files mixed_files"
    using recovery_skips_older_files [OF tiny_reader r tiny_asked _ _ mixed_list mixed_index] by blast
  then have "file_events tiny_env ''f2'' st' = file_events tiny_env ''f2'' mixed_files" by (intro file_events_cong) simp
  with r same show ?thesis by (simp add: mixed_events uncommitted_def)
qed

section \<open>Nothing is committed before it is stored\<close>

text \<open>An answer that is not negative comes from the server, which has handled the request.\<close>

definition delivers :: "'n rpc_api \<Rightarrow> ('w, 'q, 'd, 'm) svrenv \<Rightarrow> ('n \<Rightarrow> ('w, 'q) monitor) \<Rightarrow> bool" where
  "delivers api v view \<longleftrightarrow> (\<forall>ip port req n ret resp n'. rp_call api ip port SendBinLog req n = (Some (ret, resp), n') \<longrightarrow>
     0 \<le> ret \<longrightarrow> Svr_SendBinLog v req (view n) = (ret, view n'))"

text \<open>Attempts that fail, one after the other.\<close>

inductive retries :: "'n client \<Rightarrow> string \<Rightarrow> bytes \<Rightarrow> 'n \<Rightarrow> 'n \<Rightarrow> bool" for c oldgtid buf where
  enough: "retries c oldgtid buf n n"
| again: "Client_SendBinLog c oldgtid buf n = Some (ret, g, n1) \<Longrightarrow> ret < 0 \<Longrightarrow> retries c oldgtid buf n1 n2 \<Longrightarrow> retries c oldgtid buf n n2"

lemma send_loop_answer:
  assumes "send_loop c oldgtid buf n = Some r"
  shows "\<exists>n1 ret g. retries c oldgtid buf n n1 \<and> Client_SendBinLog c oldgtid buf n1 = Some (ret, g, snd r) \<and> fst r = (if ret = EVENT_EXIST then 0 else ret) \<and> 0 \<le> fst r"
proof (rule send_loop.raw_induct [where P = "\<lambda>c oldgtid buf n r. \<exists>n1 ret g.
    retries c oldgtid buf n n1 \<and> Client_SendBinLog c oldgtid buf n1 = Some (ret, g, snd r) \<and> fst r = (if ret = EVENT_EXIST then 0 else ret) \<and> 0 \<le> fst r", OF _ assms])
  fix send_loop and c :: "'n client" and oldgtid buf n and r :: "int \<times> 'n"
  let ?P = "\<exists>n1 ret g. retries c oldgtid buf n n1 \<and> Client_SendBinLog c oldgtid buf n1 = Some (ret, g, snd r) \<and> fst r = (if ret = EVENT_EXIST then 0 else ret) \<and> 0 \<le> fst r"
  assume IH: "\<And>c oldgtid buf n r. send_loop c oldgtid buf n = Some r \<Longrightarrow> \<exists>n1 ret g.
      retries c oldgtid buf n n1 \<and> Client_SendBinLog c oldgtid buf n1 = Some (ret, g, snd r) \<and> fst r = (if ret = EVENT_EXIST then 0 else ret) \<and> 0 \<le> fst r"
    and step: "(case Client_SendBinLog c oldgtid buf n of None \<Rightarrow> None
      | Some (ret, _, n) \<Rightarrow> let ret = if ret = 3000 then 0 else ret
          in if 0 \<le> ret then Some (ret, n) else send_loop c oldgtid buf n) = Some r"
  from step obtain ret g n' where x: "Client_SendBinLog c oldgtid buf n = Some (ret, g, n')" by (auto split: option.splits)
  show ?P
  proof (cases "0 \<le> ret")
    case True
    then have "r = (if ret = EVENT_EXIST then 0 else ret, n')" using step x by (simp add: Let_def split: if_splits)
    with True x show ?thesis using retries.enough by fastforce
  next
    case False
    then have "send_loop c oldgtid buf n' = Some r" using step x by (simp add: Let_def split: if_splits)
    from IH [OF this] show ?thesis using retries.again [OF x] False by (meson not_le)
  qed
qed

lemma SendBinLog_delivered:
  assumes "delivers (cl_api c) v view" "codec_ok (rk_binlog (cl_codecs c))" "cl_codecs (sr_client v) = cl_codecs c"
    and "Client_SendBinLog c oldgtid buf n = Some (ret, g, n')" "ret = 0 \<or> ret = EVENT_EXIST"
  shows "DataManager_SendEvent (mv_env (sr_mon v)) (mv_px (sr_mon v)) oldgtid g buf (mt_w (view n)) = (ret, mt_w (view n'))"
proof -
  let ?m = "\<lparr>bb_oldgtid = oldgtid, bb_newgtid = g, bb_eventbuffer = buf\<rparr>"
  have s: "Client_SendBinLog_gtid c oldgtid g buf n = (ret, n')"
    using assms(4,5) by (auto simp: Client_SendBinLog_def split: bind_splits prod.splits if_splits)
  then obtain b where b: "enc (rk_binlog (cl_codecs c)) ?m = Some b" "RpcCallWithIP (cl_api c) SendBinLog (cl_ip c) (cl_port c) b n = (ret, snd (RpcCall c SendBinLog b n))"
      "snd (snd (RpcCall c SendBinLog b n)) = n'"
    using assms(5) by (auto simp: Client_SendBinLog_gtid_def send_request_def EncodeBinLogBuffer_def RpcCall_def split: option.splits prod.splits)
  then obtain resp where "rp_call (cl_api c) (cl_ip c) (cl_port c) SendBinLog b n = (Some (ret, resp), n')"
    using assms(5) by (auto simp: RpcCallWithIP_def RpcCall_def split: option.splits prod.splits)
  then have "Svr_SendBinLog v b (view n) = (ret, view n')" using assms(1,5) unfolding delivers_def by fastforce
  moreover have "dec (rk_binlog (cl_codecs (sr_client v))) b = Some ?m" using codec_okD [OF assms(2) b(1)] assms(3) by simp
  ultimately have "case DataManager_SendEvent (mv_env (sr_mon v)) (mv_px (sr_mon v)) oldgtid g buf (mt_w (view n)) of
      (ret', w) \<Rightarrow> ret' = ret \<and> (view n)\<lparr>mt_w := w\<rparr> = view n'"
    using assms(5) by (auto simp: Svr_SendBinLog_def split: if_splits prod.splits)
  then show ?thesis by (metis (mono_tags, lifting) case_prodE monitor.select_convs(1) monitor.surjective monitor.update_convs(1))
qed

text \<open>
  Data that was stored under a GTID between two states of a binlog server: the server was the master, and the
  data became the newest event of its storage, unless the storage had the GTID as its newest one already.
\<close>

definition stored_as :: "('w, 'q, 'd, 'm) svrenv \<Rightarrow> string \<Rightarrow> bytes \<Rightarrow> ('w, 'q) monitor \<Rightarrow> ('w, 'q) monitor \<Rightarrow> bool" where
  "stored_as v g data m m' \<longleftrightarrow>
     IsMaster (nd_now (mt_node (sr_mon v) m)) (ne_svrid (mv_env (sr_mon v))) (nd_mm (mt_node (sr_mon v) m)) \<and>
     stores (mv_env (sr_mon v)) (mt_node (sr_mon v) m) g data (mt_node (sr_mon v) m')"

lemma hook_stored:
  assumes "delivers (cl_api c) v view" "codec_ok (rk_binlog (cl_codecs c))" "cl_codecs (sr_client v) = cl_codecs c"
    and "paxos_ok (mv_env (sr_mon v)) (mv_px (sr_mon v))" "codec_ok (ne_paxos (mv_env (sr_mon v)))"
    and "repl_phx_report_binlog_to_binlogsvr c server_uuid False dir_path prev_file prev_pos file pos st n = Some (Returned 0, st', n')"
  obtains buf evs gs n1 where "read_flushed dir_path prev_file prev_pos file pos st = Some (True, buf)"
    "ParseEventList buf False [] = Some (0, evs, bs_last_gtid st', gs)"
    "retries c (bs_last_gtid st) buf n n1" "stored_as v (bs_last_gtid st') buf (view n1) (view n')"
proof -
  obtain buf evs g gs where b: "read_flushed dir_path prev_file prev_pos file pos st = Some (True, buf)"
    "ParseEventList buf False [] = Some (0, evs, g, gs)" "send_loop c (bs_last_gtid st) buf n = Some (0, n')" "bs_last_gtid st' = g"
    using assms(6) by (auto simp: repl_phx_report_binlog_to_binlogsvr_def split: bind_splits prod.splits if_splits)
  from send_loop_answer [OF b(3)] obtain n1 ret g' where n1: "retries c (bs_last_gtid st) buf n n1" and
    r: "Client_SendBinLog c (bs_last_gtid st) buf n1 = Some (ret, g', n')" "ret = 0 \<or> ret = EVENT_EXIST" by (auto split: if_splits)
  have "g' = g" using r(1) b(2) by (auto simp: Client_SendBinLog_def split: prod.splits)
  note SendBinLog_delivered [OF assms(1-3) r, unfolded this]
  from SendEvent_stored [OF assms(4,5) this r(2)] show thesis
    using b n1 by (intro that [of buf evs gs n1]) (simp_all add: stored_as_def)
qed

text \<open>
  C3: a transaction is stored before it is committed. When the hook lets a writable MySQL go on with a
  commit, then after some attempts that failed the binlog server it asked was the master, and until its answer
  the bytes that were flushed to the binlog became the newest event of the server's storage, under the last
  GTID of these bytes, or the server had this GTID as its newest one already.
\<close>

theorem stored_before_commit:
  assumes "delivers (cl_api c) v view" "codec_ok (rk_binlog (cl_codecs c))" "cl_codecs (sr_client v) = cl_codecs c"
    and "paxos_ok (mv_env (sr_mon v)) (mv_px (sr_mon v))" "codec_ok (ne_paxos (mv_env (sr_mon v)))"
    and "repl_phx_report_binlog_to_binlogsvr c server_uuid False dir_path prev_file prev_pos file pos st n = Some (Returned 0, st', n')"
  shows "\<exists>buf evs gs n1. read_flushed dir_path prev_file prev_pos file pos st = Some (True, buf) \<and>
    ParseEventList buf False [] = Some (0, evs, bs_last_gtid st', gs) \<and> retries c (bs_last_gtid st) buf n n1 \<and>
    stored_as v (bs_last_gtid st') buf (view n1) (view n')"
  by (rule hook_stored [OF assms]) (intro exI conjI)

subsection \<open>An example\<close>

text \<open>A transaction, its GTID, and a master that stores it at once.\<close>

definition hook_event :: bytes where
  "hook_event = percona_event 1 2 (replicate 6 0) 0 (replicate 16 3) 4 []"

definition hook_gtid :: string where
  "hook_gtid = GenUUID (replicate 16 3) @ CHR '':'' # show_nat 4"

lemma hook_facts: "length hook_event = 44" "hook_event \<noteq> []" "hook_gtid \<noteq> []"
  by (auto simp: hook_event_def percona_event_def hook_gtid_def)

lemma hook_parse: "ParseEventList hook_event False [] = Some (0, [hook_event], hook_gtid, [hook_gtid])"
proof -
  let ?i = "EventInfo_init\<lparr>ei_time_stamp := 1, ei_event_size := 44, ei_event_type := EVENT_PERCONA_GTID, ei_server_id := 2,
     ei_seq_no := 4, ei_gtid := hook_gtid\<rparr>"
  have "ParseEvent ([] @ hook_event @ []) (length ([] :: bytes)) 44 EventInfo_init = Some (0, ?i)"
    unfolding hook_event_def by (subst ParseEvent_percona) (simp_all add: hook_gtid_def EventInfo_init_def)
  then have "event_ok hook_event ?i" by (simp add: event_ok_def hook_facts)
  from ParseEventList_loop_complete [of "[hook_event]" "[?i]" "[]" "[0]" False "[]" "[]" "[]"] this hook_facts show ?thesis
    by (simp add: ParseEventList_def charset_prefix_def)
qed

definition hook_ed :: EventData where
  "hook_ed = \<lparr>ed_gtid = hook_gtid, ed_data = hook_event, ed_checksum = GetCheckSum 0 hook_event, ed_instance_id = 4,
     ed_master_data = [], ed_event_data_file = []\<rparr>"

definition hook_pe :: PaxosEventData where
  "hook_pe = \<lparr>pe_svrid = 5, pe_current_gtid = [], pe_event_gtid = hook_gtid, pe_buffer = hook_event,
     pe_checksum = GetCheckSum 0 hook_event\<rparr>"

definition hook_nenv :: "(string \<times> bytes option) list nenv" where
  "hook_nenv = (sample_nenv 5)\<lparr>ne_sv := sample_env\<lparr>sv_event := unit_codec hook_ed,
     sv_info := unit_codec (CopyDataToDataInfo hook_ed (EventDataInfo_init\<lparr>di_file_name := event_file_name 0\<rparr>))\<rparr>, ne_paxos := unit_codec hook_pe\<rparr>"

lemma hook_AddEvent: "\<exists>es' s'. AddEvent (ne_sv hook_nenv) mi hook_gtid hook_ed True sample_es sample_esfs = Some (OK, es', s')"
  by (simp add: AddEvent_def hook_nenv_def hook_ed_def sample_env_def sample_es_def sample_esfs_def UUID_GetLastInstanceID_def
      UUIDHandler_init_def EventDataInfo_init_def RealCheckGTID_def CheckPointDone_def EFM_WriteData_def
      SFM_WriteData_def GetWriteFileInfo_def Storage_WriteData_def unit_codec_def fs_write_def io_limit_def
      SetGTIDIndex_def mem_ldb_def CopyDataToDataInfo_def CheckAndSwitchFile_def GetFileInfo_def GetFileName_def
      GetOffSet_def Let_def)

lemma hook_SendEvent:
  "\<exists>nd'. DataManager_SendEvent hook_nenv (direct_px hook_nenv) [] hook_gtid hook_event sample_node = (OK, nd')"
proof -
  obtain es' s' where a: "AddEvent (ne_sv hook_nenv) (MasterInfo_init\<lparr>mi_svr_id := 5\<rparr>) hook_gtid hook_ed True sample_es sample_esfs =
      Some (OK, es', s')"
    using hook_AddEvent by blast
  have n: "uh_newest_info (es_uuid sample_es) = EventDataInfo_init" by (simp add: sample_es_def UUIDHandler_init_def)
  have "SMExecute hook_nenv 0 EVENT_PAXOS_SMID 4 [1] sample_node = Some (OK, sample_node\<lparr>nd_es := es', nd_fs := s'\<rparr>)"
    using a hook_facts by (simp add: SMExecute_def EventExecuter_SMExecute_def hook_nenv_def unit_codec_def hook_pe_def sample_node_def
        CheckMasterBySvrID_def GetNewestGTID_def GetLastestUpdateGTID_def n EventDataInfo_init_def
        GetNowCheckSum_def GetNewestGTIDInfo_def GetLastestUpdateGTIDInfo_def SaveEvents_def GetMaster_def
        hook_ed_def Let_def)
  then have x: "ExecuterBase_Execute hook_nenv 0 EVENT_PAXOS_SMID 4 [1] 0 sample_node = Some (True, OK, sample_node\<lparr>nd_es := es', nd_fs := s'\<rparr>)"
    by (simp add: ExecuterBase_Execute_True)
  have c: "IsMaster (uint (fs_now (nd_fs sample_node))) 5 (nd_mm sample_node)" "GetNowCheckSum sample_node = (0, 0)"
    by (simp_all add: sample_node_def IsMaster_def CheckMasterBySvrID_def IsTimeOut_def MasterStorage_init_def MasterInfo_init_def
        GetNowCheckSum_def GetNewestGTIDInfo_def GetLastestUpdateGTIDInfo_def sample_es_def UUIDHandler_init_def EventDataInfo_init_def sample_esfs_def)
  have e: "enc (ne_paxos hook_nenv) hook_pe = Some [1]" "ne_svrid hook_nenv = 5" by (simp_all add: hook_nenv_def unit_codec_def sample_nenv_def)
  have "px_propose (direct_px hook_nenv) EVENT_PAXOS_SMID [1] sample_node = (0, OK, sample_node\<lparr>nd_es := es', nd_fs := s'\<rparr>)"
    "px_node (direct_px hook_nenv) sample_node = sample_node" using x sample_newest by (simp_all add: direct_px_def)
  then show ?thesis using hook_facts c e by (simp add: DataManager_SendEvent_def EventAgent_SendValue_def PaxosAgent_Send_def hook_pe_def)
qed

text \<open>The server as the network, and a binlog with the transaction.\<close>

definition hook_svr :: "((string \<times> bytes option) list node, string \<times> string list, (string \<times> bytes option) list, unit) svrenv" where
  "hook_svr = \<lparr>sr_mon = \<lparr>mv_env = hook_nenv, mv_my = mv_my quiet_env, mv_px = direct_px hook_nenv, mv_period = 1\<rparr>,
     sr_client = wire_client\<lparr>cl_codecs := wire_codecs\<lparr>rk_binlog :=
       unit_codec \<lparr>bb_oldgtid = [], bb_newgtid = hook_gtid, bb_eventbuffer = hook_event\<rparr>\<rparr>\<rparr>,
     sr_paxos_port = 17001, sr_follow_ip = []\<rparr>"

type_synonym hook_net = "((string \<times> bytes option) list node, string \<times> string list) monitor"

definition hook_client :: "hook_net client" where
  "hook_client = \<lparr>cl_api = \<lparr>rp_call = (\<lambda>ip port func req st. case Svr_SendBinLog hook_svr req st of (ret, st) \<Rightarrow> (Some (ret, []), st)),
       rp_order = (\<lambda>n st. [0..<n])\<rparr>,
     cl_codecs = cl_codecs (sr_client hook_svr), cl_ip = GetIP 5, cl_port = 17000\<rparr>"

definition hook_monitor :: hook_net where
  "hook_monitor = \<lparr>mt_w = sample_node, mt_q = ([], []), mt_init = False, mt_last_check = 0,
     mt_external = \<lparr>em_flag = 1, em_last_update_time = 100\<rparr>, mt_connecting = False, mt_hold = 0\<rparr>"

definition hook_files :: binlog_state where
  "hook_files = \<lparr>bs_files = [''/b/l.1'' \<mapsto> BINLOG_MAGIC @ hook_event], bs_last_gtid = []\<rparr>"

lemma hook_read: "read_flushed ''/b'' ''l.1'' 4 ''l.1'' 48 hook_files = Some (True, hook_event)"
  by (simp add: read_flushed_def repl_phx_read_binlog_buffer_def open_binlog_file_def hook_files_def BINLOG_MAGIC_def rd_def hook_facts)

lemma hook_attempt: "\<exists>st. Client_SendBinLog hook_client [] hook_event hook_monitor = Some (0, hook_gtid, st)"
proof -
  obtain nd' where d: "DataManager_SendEvent hook_nenv (direct_px hook_nenv) [] hook_gtid hook_event sample_node = (OK, nd')"
    using hook_SendEvent by blast
  then have "Svr_SendBinLog hook_svr [1] hook_monitor = (0, hook_monitor\<lparr>mt_w := nd'\<rparr>)"
    by (simp add: Svr_SendBinLog_def hook_svr_def unit_codec_def hook_monitor_def)
  then have c: "rp_call (cl_api hook_client) ip port func [1] hook_monitor = (Some (0, []), hook_monitor\<lparr>mt_w := nd'\<rparr>)" for ip port func
    by (simp add: hook_client_def)
  have "enc (rk_binlog (cl_codecs hook_client)) \<lparr>bb_oldgtid = [], bb_newgtid = hook_gtid, bb_eventbuffer = hook_event\<rparr> = Some [1]"
    by (simp add: hook_client_def hook_svr_def unit_codec_def)
  then show ?thesis
    by (simp add: Client_SendBinLog_def hook_parse Client_SendBinLog_gtid_def send_request_def EncodeBinLogBuffer_def RpcCall_def
        RpcCallWithIP_def c)
qed

lemma hook_report:
  "\<exists>n'. repl_phx_report_binlog_to_binlogsvr hook_client ''u'' False ''/b'' ''l.1'' 4 ''l.1'' 48 hook_files hook_monitor =
     Some (Returned 0, hook_files\<lparr>bs_last_gtid := hook_gtid\<rparr>, n')"
proof -
  obtain n' where a: "Client_SendBinLog hook_client [] hook_event hook_monitor = Some (0, hook_gtid, n')" using hook_attempt by blast
  have "send_loop hook_client [] hook_event hook_monitor = Some (0, n')" by (subst send_loop.simps) (simp add: a)
  then show ?thesis
    using hook_facts by (intro exI [of _ n']) (simp add: repl_phx_report_binlog_to_binlogsvr_def hook_read hook_parse Suc_le_eq, simp add: hook_files_def)
qed

lemma hook_world:
  "delivers (cl_api hook_client) hook_svr id" "codec_ok (rk_binlog (cl_codecs hook_client))" "cl_codecs (sr_client hook_svr) = cl_codecs hook_client"
  "paxos_ok (mv_env (sr_mon hook_svr)) (mv_px (sr_mon hook_svr))" "codec_ok (ne_paxos (mv_env (sr_mon hook_svr)))"
proof -
  have p: "mv_env (sr_mon hook_svr) = hook_nenv" "mv_px (sr_mon hook_svr) = direct_px hook_nenv" by (simp_all add: hook_svr_def)
  show "delivers (cl_api hook_client) hook_svr id" by (simp add: delivers_def hook_client_def split: prod.splits)
  show "codec_ok (rk_binlog (cl_codecs hook_client))" by (simp add: hook_client_def hook_svr_def codec_ok_unit)
  show "cl_codecs (sr_client hook_svr) = cl_codecs hook_client" by (simp add: hook_client_def)
  show "paxos_ok (mv_env (sr_mon hook_svr)) (mv_px (sr_mon hook_svr))" unfolding p by (rule direct_px_ok)
  show "codec_ok (ne_paxos (mv_env (sr_mon hook_svr)))" unfolding p by (simp add: hook_nenv_def codec_ok_unit)
qed

theorem stored_before_commit_witness:
  "\<exists>st' n' (n1 :: hook_net). repl_phx_report_binlog_to_binlogsvr hook_client ''u'' False ''/b'' ''l.1'' 4 ''l.1'' 48 hook_files hook_monitor = Some (Returned 0, st', n') \<and>
     retries hook_client [] hook_event hook_monitor n1 \<and> stored_as hook_svr hook_gtid hook_event n1 n'"
proof -
  obtain n' where r: "repl_phx_report_binlog_to_binlogsvr hook_client ''u'' False ''/b'' ''l.1'' 4 ''l.1'' 48 hook_files hook_monitor =
      Some (Returned 0, hook_files\<lparr>bs_last_gtid := hook_gtid\<rparr>, n')" using hook_report by blast
  have "bs_last_gtid hook_files = []" by (simp add: hook_files_def)
  with stored_before_commit [OF hook_world r] r show ?thesis by (auto simp: hook_read)
qed

section \<open>The hook returns\<close>












end
