(* ===== verification/Group_Commit.thy ===== *)
theory Group_Commit
  imports Phxsync
begin

text \<open>
  The commit of MySQL around the plugin (\<^verbatim>\<open>phx_percona/percona/sql/binlog.cc\<close>, \<^verbatim>\<open>rpl_handler.cc\<close>): threads that commit
  queue up, leaders write the events of a queue to the binlog, run the hooks, sync the binlog and have the
  engines commit. The storage engines and the cache layer of MySQL only appear through what their calls return.
  Every queue has at most one leader, and a leader carries its own transaction on.
\<close>

section \<open>Observers\<close>

text \<open>
  A callback gets the directory, the old and the new file and position of the binlog. \<open>'h\<close> is what the callbacks read and
  change: the files, and the binlog server they talk to. An observer has a callback or none; its plugin can be
  locked or not. The list of observers is initialised and there is memory for it.
\<close>

type_synonym 'h after_flush = "string \<Rightarrow> string \<Rightarrow> nat \<Rightarrow> string \<Rightarrow> nat \<Rightarrow> 'h \<Rightarrow> (hook_end \<times> 'h) option"

record 'h observer_info =
  ob_observer :: nat
  ob_plugin :: bool
  ob_after_flush :: "'h after_flush option"

definition add_observer :: "'h observer_info \<Rightarrow> 'h observer_info list \<Rightarrow> bool \<times> 'h observer_info list" where
  "add_observer info infos =
     (if list_ex (\<lambda>i. ob_observer i = ob_observer info) infos then (True, infos) else (False, infos @ [info]))"

definition remove_observer :: "nat \<Rightarrow> 'h observer_info list \<Rightarrow> bool \<times> 'h observer_info list" where
  "remove_observer observer infos =
     (case dropWhile (\<lambda>i. ob_observer i \<noteq> observer) infos of
        [] \<Rightarrow> (True, infos)
      | _ # rest \<Rightarrow> (False, takeWhile (\<lambda>i. ob_observer i \<noteq> observer) infos @ rest))"

text \<open>A plugin that cannot be locked ends the loop without an error.\<close>

fun FOREACH_OBSERVER :: "('h after_flush \<Rightarrow> 'h \<Rightarrow> (hook_end \<times> 'h) option) \<Rightarrow> 'h observer_info list \<Rightarrow> 'h \<Rightarrow> (hook_end \<times> 'h) option" where
  "FOREACH_OBSERVER args [] h = Some (Returned 0, h)"
| "FOREACH_OBSERVER args (info # infos) h =
     (if \<not> ob_plugin info then Some (Returned 0, h)
      else case ob_after_flush info of
        None \<Rightarrow> FOREACH_OBSERVER args infos h
      | Some f \<Rightarrow> do {
          (e, h) \<leftarrow> args f h;
          case e of
            Exited \<Rightarrow> Some (Exited, h)
          | Returned r \<Rightarrow> if r \<noteq> 0 then Some (Returned 1, h) else FOREACH_OBSERVER args infos h
        })"

definition run_after_flush :: "'h observer_info list \<Rightarrow> 'h after_flush" where
  "run_after_flush infos dir_path prev_log_file prev_log_pos log_file log_pos h =
     (if infos = [] then Some (Returned 0, h)
      else FOREACH_OBSERVER (\<lambda>f. f dir_path prev_log_file prev_log_pos log_file log_pos) infos h)"

section \<open>Threads and queues\<close>

text \<open>A transaction that commits, in its thread.\<close>

type_synonym txn = nat

datatype commit_error = CE_NONE | CE_FLUSH_ERROR | CE_SYNC_ERROR | CE_COMMIT_ERROR

record thd =
  td_pending :: bool
  td_commit_low :: bool
  td_commit_error :: commit_error

datatype mutex = LOCK_log | LOCK_sync | LOCK_commit

text \<open>
  Where a thread is in \<^verbatim>\<open>ordered_commit\<close>, with its local variables: as the leader of the flush stage the old
  position, the error, the number of bytes, the queue it has taken and whether there is more; later the queue
  it carries on, whether syncing failed, and the mutex it holds.
\<close>

datatype pc =
    Outside
  | Follower
  | Flush_leader
  | Flushing nat int nat "txn list" bool
  | Sync_leader int nat
  | At_commit "txn list" bool mutex
  | Commit_leader bool
  | Signalling "txn list" bool
  | Finishing
  | Finished

text \<open>
  \<open>gc_file\<close> is the current binlog with what is still in its cache; the history variables \<open>gc_acked\<close> and
  \<open>gc_engine\<close> are the bytes of the successful calls of the hooks and the transactions the engines have committed.
  \<open>gc_up\<close> is false when the process has ended.
\<close>

record 'h group_commit =
  gc_flush_queue :: "txn list"
  gc_sync_queue :: "txn list"
  gc_commit_queue :: "txn list"
  gc_lock :: "mutex \<Rightarrow> txn option"
  gc_thd :: "txn \<Rightarrow> thd"
  gc_pc :: "txn \<Rightarrow> pc"
  gc_open :: bool
  gc_name :: string
  gc_file :: bytes
  gc_hook :: 'h
  gc_acked :: "bytes list"
  gc_engine :: "txn list"
  gc_up :: bool

text \<open>
  \<open>ge_cache\<close> are the events of a transaction; \<open>ge_show\<close> makes the files of the server what the callbacks
  see. The binlog may be in a directory \<open>ge_dir\<close>.
\<close>

record 'h commit_env =
  ge_cache :: "txn \<Rightarrow> bytes"
  ge_observers :: "'h observer_info list"
  ge_dir :: string
  ge_show :: "string \<Rightarrow> bytes \<Rightarrow> 'h \<Rightarrow> 'h"
  ge_order_commits :: bool
  ge_abort_server :: bool
  ge_sync_period :: nat

definition append_queue :: "txn list \<Rightarrow> txn list \<Rightarrow> bool \<times> txn list" where
  "append_queue first queue = (queue = [], queue @ first)"

definition pop_front :: "txn list \<Rightarrow> (bool \<times> txn option) \<times> txn list" where
  "pop_front queue = (case queue of [] \<Rightarrow> ((False, None), []) | t # ts \<Rightarrow> ((ts \<noteq> [], Some t), ts))"

definition fetch_and_empty :: "txn list \<Rightarrow> txn list \<times> txn list" where
  "fetch_and_empty queue = (queue, [])"

definition set_pc :: "txn \<Rightarrow> pc \<Rightarrow> 'h group_commit \<Rightarrow> 'h group_commit" where
  "set_pc t p s = s\<lparr>gc_pc := (gc_pc s)(t := p)\<rparr>"

definition set_error :: "txn \<Rightarrow> commit_error \<Rightarrow> 'h group_commit \<Rightarrow> 'h group_commit" where
  "set_error t e s = s\<lparr>gc_thd := (gc_thd s)(t := (gc_thd s t)\<lparr>td_commit_error := e\<rparr>)\<rparr>"

definition set_lock :: "mutex \<Rightarrow> txn option \<Rightarrow> 'h group_commit \<Rightarrow> 'h group_commit" where
  "set_lock m t s = s\<lparr>gc_lock := (gc_lock s)(m := t)\<rparr>"

text \<open>
  Entering a stage: the queue is appended, the mutex of the last stage is released, and the thread waits for the
  mutex of the new stage, as its leader, or until its transaction is done.
\<close>

definition enter_flush :: "txn \<Rightarrow> 'h group_commit \<Rightarrow> 'h group_commit" where
  "enter_flush t s =
     (case append_queue [t] (gc_flush_queue s) of (leader, q) \<Rightarrow> set_pc t (if leader then Flush_leader else Follower) (s\<lparr>gc_flush_queue := q\<rparr>))"

definition enter_sync :: "'h commit_env \<Rightarrow> txn \<Rightarrow> txn list \<Rightarrow> int \<Rightarrow> nat \<Rightarrow> 'h group_commit \<Rightarrow> 'h group_commit" where
  "enter_sync env t wait_queue flush_error total_bytes s =
     (case append_queue wait_queue (gc_sync_queue s) of
        (leader, q) \<Rightarrow>
          let s = (if ge_sync_period env = 1 then s else set_lock LOCK_log None s)
          in set_pc t (if leader then Sync_leader flush_error total_bytes else Follower) (s\<lparr>gc_sync_queue := q\<rparr>))"

definition enter_commit :: "txn \<Rightarrow> txn list \<Rightarrow> bool \<Rightarrow> mutex \<Rightarrow> 'h group_commit \<Rightarrow> 'h group_commit" where
  "enter_commit t final_queue sync_error leave s =
     (case append_queue final_queue (gc_commit_queue s) of
        (leader, q) \<Rightarrow> set_pc t (if leader then Commit_leader sync_error else Follower) (set_lock leave None (s\<lparr>gc_commit_queue := q\<rparr>)))"

section \<open>The stages\<close>

text \<open>
  \<open>fails\<close> is \<open>None\<close>, or the error, which is not 0, and the number of bytes that were written before writing a cache
  failed.
\<close>

definition flush_thread_caches :: "'h commit_env \<Rightarrow> (int \<times> nat) option \<Rightarrow> txn \<Rightarrow> 'h group_commit \<Rightarrow> (int \<times> nat) \<times> 'h group_commit" where
  "flush_thread_caches env fails t s =
     (case fails of
        None \<Rightarrow> ((0, length (ge_cache env t)), s\<lparr>gc_file := gc_file s @ ge_cache env t\<rparr>)
      | Some (error, k) \<Rightarrow> ((error, 0), set_error t CE_FLUSH_ERROR (s\<lparr>gc_file := gc_file s @ take k (ge_cache env t)\<rparr>)))"

definition flush_result :: "int \<Rightarrow> nat \<Rightarrow> int \<times> nat \<Rightarrow> int \<times> nat" where
  "flush_result flush_error total_bytes result = (if flush_error = 1 then fst result else flush_error, total_bytes + snd result)"

fun flush_queue :: "'h commit_env \<Rightarrow> (txn \<Rightarrow> (int \<times> nat) option) \<Rightarrow> txn list \<Rightarrow> int \<times> nat \<Rightarrow> 'h group_commit \<Rightarrow> (int \<times> nat) \<times> 'h group_commit" where
  "flush_queue env fails [] et s = (et, s)"
| "flush_queue env fails (t # ts) (e, tot) s =
     (case flush_thread_caches env (fails t) t s of (r, s) \<Rightarrow> flush_queue env fails ts (flush_result e tot r) s)"

text \<open>
  The loop of \<^verbatim>\<open>process_flush_stage_queue\<close>: one turn takes the first of the queue, while there is time; then the rest of
  the queue is taken at once.
\<close>

definition flush_one :: "'h commit_env \<Rightarrow> (int \<times> nat) option \<Rightarrow> txn \<Rightarrow> nat \<Rightarrow> int \<Rightarrow> nat \<Rightarrow> txn list \<Rightarrow> 'h group_commit \<Rightarrow> 'h group_commit option" where
  "flush_one env fails t prev_log_pos flush_error total_bytes batch s =
     (case pop_front (gc_flush_queue s) of
        ((has_more, Some current), q) \<Rightarrow>
          (case flush_thread_caches env fails current (s\<lparr>gc_flush_queue := q\<rparr>) of
             (r, s) \<Rightarrow>
               (case flush_result flush_error total_bytes r of
                  (flush_error, total_bytes) \<Rightarrow> Some (set_pc t (Flushing prev_log_pos flush_error total_bytes (batch @ [current]) has_more) s)))
      | _ \<Rightarrow> None)"

definition flush_rest :: "'h commit_env \<Rightarrow> (txn \<Rightarrow> (int \<times> nat) option) \<Rightarrow> txn \<Rightarrow> nat \<Rightarrow> int \<Rightarrow> nat \<Rightarrow> txn list \<Rightarrow> 'h group_commit \<Rightarrow> 'h group_commit" where
  "flush_rest env fails t prev_log_pos flush_error total_bytes batch s =
     (case fetch_and_empty (gc_flush_queue s) of
        (queue, q) \<Rightarrow>
          (case flush_queue env fails queue (flush_error, total_bytes) (s\<lparr>gc_flush_queue := q\<rparr>) of
             ((flush_error, total_bytes), s) \<Rightarrow> set_pc t (Flushing prev_log_pos flush_error total_bytes (batch @ queue) False) s))"

definition ER_ERROR_ON_WRITE :: int where "ER_ERROR_ON_WRITE = 1026"

text \<open>\<open>io_ok\<close>: whether the cache of the file could be written. The position is only set when it was.\<close>

definition flush_cache_to_file :: "bool \<Rightarrow> txn \<Rightarrow> 'h group_commit \<Rightarrow> (int \<times> nat) \<times> 'h group_commit" where
  "flush_cache_to_file io_ok t s =
     (if io_ok then ((0, length (gc_file s)), s) else ((ER_ERROR_ON_WRITE, 0), set_error t CE_FLUSH_ERROR s))"

text \<open>An error ends the server, or the binlog is closed and the commit goes on.\<close>

definition handle_binlog_flush_or_sync_error :: "'h commit_env \<Rightarrow> 'h group_commit \<Rightarrow> 'h group_commit" where
  "handle_binlog_flush_or_sync_error env s = (if ge_abort_server env then s\<lparr>gc_up := False\<rparr> else s\<lparr>gc_open := False\<rparr>)"

definition call_hooks :: "'h commit_env \<Rightarrow> nat \<Rightarrow> nat \<Rightarrow> 'h group_commit \<Rightarrow> (int \<times> 'h group_commit) option" where
  "call_hooks env prev_log_pos flush_end_pos s = do {
     (e, h) \<leftarrow> run_after_flush (ge_observers env) (ge_dir env) (gc_name s) prev_log_pos (gc_name s) flush_end_pos
       (ge_show env (gc_name s) (gc_file s) (gc_hook s));
     let s = s\<lparr>gc_hook := h\<rparr>;
     Some (case e of
         Exited \<Rightarrow> (0, s\<lparr>gc_up := False\<rparr>)
       | Returned r \<Rightarrow>
           if r \<noteq> 0 then (ER_ERROR_ON_WRITE, s)
           else (0, s\<lparr>gc_acked := take (flush_end_pos - prev_log_pos) (drop prev_log_pos (gc_file s)) # gc_acked s\<rparr>))
   }"

text \<open>The rest of the flush stage, from the end of the loop to the next stage.\<close>

definition end_flush ::
  "'h commit_env \<Rightarrow> bool \<Rightarrow> txn \<Rightarrow> nat \<Rightarrow> int \<Rightarrow> nat \<Rightarrow> txn list \<Rightarrow> 'h group_commit \<Rightarrow> 'h group_commit option" where
  "end_flush env io_ok t prev_log_pos flush_error total_bytes wait_queue s =
     (case (if flush_error = 0 \<and> total_bytes > 0 then flush_cache_to_file io_ok t s else ((flush_error, 0), s)) of
        ((flush_error, flush_end_pos), s) \<Rightarrow> do {
          (flush_error, s) \<leftarrow> (if flush_error = 0 then call_hooks env prev_log_pos flush_end_pos s else Some (flush_error, s));
          Some (if \<not> gc_up s then s
            else
              let s = (if flush_error \<noteq> 0 then handle_binlog_flush_or_sync_error env s else s)
              in if \<not> gc_up s then s else enter_sync env t wait_queue flush_error total_bytes s)
        })"

text \<open>The sync stage, with \<open>sync_ok\<close> the result of \<^verbatim>\<open>fsync\<close> when it is called.\<close>

definition sync_stage :: "'h commit_env \<Rightarrow> bool \<Rightarrow> txn \<Rightarrow> int \<Rightarrow> nat \<Rightarrow> 'h group_commit \<Rightarrow> 'h group_commit" where
  "sync_stage env sync_ok t flush_error total_bytes s =
     (case fetch_and_empty (gc_sync_queue s) of
        (final_queue, q) \<Rightarrow>
          let s = set_lock LOCK_sync (Some t) (s\<lparr>gc_sync_queue := q\<rparr>);
              sync_error = (flush_error = 0 \<and> total_bytes > 0 \<and> \<not> sync_ok);
              s = (if sync_error then set_error t CE_SYNC_ERROR s else s);
              s = (if ge_sync_period env = 1 then set_lock LOCK_log None s else s)
          in set_pc t (At_commit final_queue sync_error LOCK_sync) s)"

text \<open>
  A commit of the engines clears the flag that asks for it. \<open>ok\<close> is what the engines return.
\<close>

definition ha_commit_low :: "bool \<Rightarrow> txn \<Rightarrow> 'h group_commit \<Rightarrow> 'h group_commit" where
  "ha_commit_low ok t s =
     (let s = s\<lparr>gc_thd := (gc_thd s)(t := (gc_thd s t)\<lparr>td_commit_low := False\<rparr>)\<rparr>
      in if ok then s\<lparr>gc_engine := gc_engine s @ [t]\<rparr> else set_error t CE_COMMIT_ERROR s)"

fun process_commit_stage_queue :: "(txn \<Rightarrow> bool) \<Rightarrow> txn list \<Rightarrow> 'h group_commit \<Rightarrow> 'h group_commit" where
  "process_commit_stage_queue oks [] s = s"
| "process_commit_stage_queue oks (t # ts) s =
     process_commit_stage_queue oks ts (if td_commit_low (gc_thd s t) then ha_commit_low (oks t) t s else s)"

definition commit_stage :: "'h commit_env \<Rightarrow> txn \<Rightarrow> txn list \<Rightarrow> bool \<Rightarrow> mutex \<Rightarrow> 'h group_commit \<Rightarrow> 'h group_commit" where
  "commit_stage env t final_queue sync_error leave s =
     (if ge_order_commits env \<and> (\<not> sync_error \<or> \<not> ge_abort_server env) then enter_commit t final_queue sync_error leave s
      else set_pc t (Signalling final_queue sync_error) (set_lock leave None s))"

definition commit_leader :: "(txn \<Rightarrow> bool) \<Rightarrow> txn \<Rightarrow> bool \<Rightarrow> 'h group_commit \<Rightarrow> 'h group_commit" where
  "commit_leader oks t sync_error s =
     (case fetch_and_empty (gc_commit_queue s) of
        (commit_queue, q) \<Rightarrow> set_pc t (Signalling commit_queue sync_error) (process_commit_stage_queue oks commit_queue (s\<lparr>gc_commit_queue := q\<rparr>)))"

definition signal_done :: "txn list \<Rightarrow> 'h group_commit \<Rightarrow> 'h group_commit" where
  "signal_done queue s = s\<lparr>gc_thd := (\<lambda>t. if t \<in> set queue then (gc_thd s t)\<lparr>td_pending := False\<rparr> else gc_thd s t)\<rparr>"

definition end_commit :: "'h commit_env \<Rightarrow> txn \<Rightarrow> txn list \<Rightarrow> bool \<Rightarrow> 'h group_commit \<Rightarrow> 'h group_commit" where
  "end_commit env t final_queue sync_error s =
     (let s = (if sync_error then handle_binlog_flush_or_sync_error env s else s)
      in if \<not> gc_up s then s else set_pc t Finishing (signal_done final_queue s))"

definition finish_commit :: "bool \<Rightarrow> txn \<Rightarrow> 'h group_commit \<Rightarrow> 'h group_commit" where
  "finish_commit ok t s =
     set_pc t Finished (if td_commit_low (gc_thd s t) \<and> td_commit_error (gc_thd s t) = CE_NONE then ha_commit_low ok t s else s)"

text \<open>The begin of \<^verbatim>\<open>ordered_commit\<close>, and the leader of the flush stage once it has the mutex.\<close>

definition start_commit :: "bool \<Rightarrow> txn \<Rightarrow> 'h group_commit \<Rightarrow> 'h group_commit" where
  "start_commit skip_commit t s =
     enter_flush t (s\<lparr>gc_thd := (gc_thd s)(t := \<lparr>td_pending = True, td_commit_low = \<not> skip_commit, td_commit_error = CE_NONE\<rparr>)\<rparr>)"

definition flush_leader :: "txn \<Rightarrow> 'h group_commit \<Rightarrow> 'h group_commit" where
  "flush_leader t s =
     (let s = set_lock LOCK_log (Some t) s
      in if gc_open s then set_pc t (Flushing (length (gc_file s)) 1 0 [] True) s
         else case fetch_and_empty (gc_flush_queue s) of (queue, q) \<Rightarrow> set_pc t (At_commit queue False LOCK_log) (s\<lparr>gc_flush_queue := q\<rparr>))"

section \<open>Steps\<close>

inductive commit_step :: "'h commit_env \<Rightarrow> 'h group_commit \<Rightarrow> 'h group_commit \<Rightarrow> bool" for env where
  start: "\<lbrakk>gc_up s; gc_pc s t = Outside\<rbrakk> \<Longrightarrow> commit_step env s (start_commit skip_commit t s)"
| flush_lock: "\<lbrakk>gc_up s; gc_pc s t = Flush_leader; gc_lock s LOCK_log = None\<rbrakk> \<Longrightarrow> commit_step env s (flush_leader t s)"
| flush: "\<lbrakk>gc_up s; gc_pc s t = Flushing p e tot batch True; flush_one env fails t p e tot batch s = Some s'\<rbrakk> \<Longrightarrow> commit_step env s s'"
| time_out: "\<lbrakk>gc_up s; gc_pc s t = Flushing p e tot batch True\<rbrakk> \<Longrightarrow> commit_step env s (flush_rest env fails' t p e tot batch s)"
| flushed: "\<lbrakk>gc_up s; gc_pc s t = Flushing p e tot batch False; end_flush env io_ok t p e tot batch s = Some s'\<rbrakk> \<Longrightarrow> commit_step env s s'"
| sync: "\<lbrakk>gc_up s; gc_pc s t = Sync_leader e tot; gc_lock s LOCK_sync = None\<rbrakk> \<Longrightarrow> commit_step env s (sync_stage env sync_ok t e tot s)"
| commit: "\<lbrakk>gc_up s; gc_pc s t = At_commit queue sync_error m\<rbrakk> \<Longrightarrow> commit_step env s (commit_stage env t queue sync_error m s)"
| commit_lock: "\<lbrakk>gc_up s; gc_pc s t = Commit_leader sync_error; gc_lock s LOCK_commit = None\<rbrakk> \<Longrightarrow> commit_step env s (commit_leader oks t sync_error s)"
| signal: "\<lbrakk>gc_up s; gc_pc s t = Signalling queue sync_error; sync_error \<longrightarrow> gc_lock s LOCK_log = None\<rbrakk>
    \<Longrightarrow> commit_step env s (end_commit env t queue sync_error s)"
| finish: "\<lbrakk>gc_up s; gc_pc s t = Finishing \<or> gc_pc s t = Follower \<and> \<not> td_pending (gc_thd s t)\<rbrakk> \<Longrightarrow> commit_step env s (finish_commit ok t s)"
| rotate: "\<lbrakk>gc_up s; gc_lock s LOCK_log = None\<rbrakk> \<Longrightarrow> commit_step env s (s\<lparr>gc_name := name, gc_file := header\<rparr>)"

text \<open>A server that has just opened its binlog.\<close>

definition commit_init :: "string \<Rightarrow> bytes \<Rightarrow> 'h \<Rightarrow> 'h group_commit" where
  "commit_init name file h =
     \<lparr>gc_flush_queue = [], gc_sync_queue = [], gc_commit_queue = [], gc_lock = (\<lambda>_. None),
      gc_thd = (\<lambda>_. \<lparr>td_pending = False, td_commit_low = False, td_commit_error = CE_NONE\<rparr>), gc_pc = (\<lambda>_. Outside),
      gc_open = True, gc_name = name, gc_file = file, gc_hook = h, gc_acked = [], gc_engine = [], gc_up = True\<rparr>"

inductive commit_reach :: "'h commit_env \<Rightarrow> 'h \<Rightarrow> 'h group_commit \<Rightarrow> bool" for env h where
  init: "commit_reach env h (commit_init name file h)"
| step: "commit_reach env h s \<Longrightarrow> commit_step env s s' \<Longrightarrow> commit_reach env h s'"

section \<open>One leader for every queue\<close>

fun leads_flush :: "pc \<Rightarrow> bool" where
  "leads_flush Flush_leader = True"
| "leads_flush (Flushing _ _ _ _ more_left) = more_left"
| "leads_flush _ = False"

fun leads_sync :: "pc \<Rightarrow> bool" where
  "leads_sync (Sync_leader _ _) = True"
| "leads_sync _ = False"

fun leads_commit :: "pc \<Rightarrow> bool" where
  "leads_commit (Commit_leader _) = True"
| "leads_commit _ = False"

fun taken :: "pc \<Rightarrow> txn set" where
  "taken (Flushing _ _ _ batch _) = set batch"
| "taken _ = {}"

fun carried :: "pc \<Rightarrow> txn set" where
  "carried (At_commit q _ _) = set q"
| "carried (Signalling q _) = set q"
| "carried _ = {}"

text \<open>A queue with a leader is not empty, it or the batch of the leader has the leader, and there is one leader.\<close>

definition leader_ok :: "(pc \<Rightarrow> bool) \<Rightarrow> txn list \<Rightarrow> (txn \<Rightarrow> pc) \<Rightarrow> bool" where
  "leader_ok lead queue pcs \<longleftrightarrow>
     (\<forall>a. lead (pcs a) \<longrightarrow> queue \<noteq> [] \<and> a \<in> set queue \<union> taken (pcs a)) \<and> (\<forall>a b. lead (pcs a) \<longrightarrow> lead (pcs b) \<longrightarrow> a = b)"

fun has_own :: "txn \<Rightarrow> pc \<Rightarrow> bool" where
  "has_own t (Flushing _ _ _ batch False) = (t \<in> set batch)"
| "has_own t (At_commit q _ _) = (t \<in> set q)"
| "has_own t (Signalling q _) = (t \<in> set q)"
| "has_own t _ = True"

definition threads_ok :: "'h commit_env \<Rightarrow> 'h group_commit \<Rightarrow> bool" where
  "threads_ok env s \<longleftrightarrow>
     leader_ok leads_flush (gc_flush_queue s) (gc_pc s) \<and> leader_ok leads_sync (gc_sync_queue s) (gc_pc s) \<and>
     leader_ok leads_commit (gc_commit_queue s) (gc_pc s) \<and>
     (\<forall>t. has_own t (gc_pc s t) \<and> (gc_pc s t = Finishing \<longrightarrow> \<not> td_pending (gc_thd s t)) \<and>
        (leads_commit (gc_pc s t) \<longrightarrow> ge_order_commits env))"

lemmas commit_defs = set_pc_def set_lock_def set_error_def append_queue_def fetch_and_empty_def Let_def

lemma leader_ok_other:
  "leader_ok lead queue pcs \<Longrightarrow> \<not> lead p \<Longrightarrow> leader_ok lead queue (pcs(t := p))"
  by (auto simp: leader_ok_def)

lemma leader_ok_append:
  "leader_ok lead queue pcs \<Longrightarrow> t \<in> set q \<Longrightarrow> (lead p \<Longrightarrow> queue = []) \<Longrightarrow> leader_ok lead (queue @ q) (pcs(t := p))"
  by (auto simp: leader_ok_def)

lemma leader_ok_end:
  "leader_ok lead queue pcs \<Longrightarrow> lead (pcs t) \<Longrightarrow> \<not> lead p \<Longrightarrow> leader_ok lead queue' (pcs(t := p))"
  by (auto simp: leader_ok_def)

lemma leader_ok_move:
  "leader_ok lead queue pcs \<Longrightarrow> lead (pcs t) \<Longrightarrow> queue' \<noteq> [] \<Longrightarrow> t \<in> set queue' \<union> taken p \<Longrightarrow> leader_ok lead queue' (pcs(t := p))"
  by (auto simp: leader_ok_def)

lemma leader_okD: "leader_ok lead queue pcs \<Longrightarrow> lead (pcs t) \<Longrightarrow> queue \<noteq> [] \<and> t \<in> set queue \<union> taken (pcs t)"
  by (auto simp: leader_ok_def)

lemma threads_ok_step:
  assumes "threads_ok env s" "gc_pc s' = (gc_pc s)(t := p)"
    and "leader_ok leads_flush (gc_flush_queue s') (gc_pc s')" "leader_ok leads_sync (gc_sync_queue s') (gc_pc s')"
    and "leader_ok leads_commit (gc_commit_queue s') (gc_pc s')"
    and "has_own t p" "p = Finishing \<Longrightarrow> \<not> td_pending (gc_thd s' t)" "leads_commit p \<Longrightarrow> ge_order_commits env"
    and "\<And>a. a \<noteq> t \<Longrightarrow> td_pending (gc_thd s' a) \<Longrightarrow> td_pending (gc_thd s a)"
  shows "threads_ok env s'"
  using assms unfolding threads_ok_def by auto

lemma threads_okD:
  assumes "threads_ok env s"
  shows "leader_ok leads_flush (gc_flush_queue s) (gc_pc s)" "leader_ok leads_sync (gc_sync_queue s) (gc_pc s)"
    "leader_ok leads_commit (gc_commit_queue s) (gc_pc s)" "has_own t (gc_pc s t)"
    "gc_pc s t = Finishing \<Longrightarrow> \<not> td_pending (gc_thd s t)" "gc_pc s t = Commit_leader b \<Longrightarrow> ge_order_commits env"
  using assms unfolding threads_ok_def by (auto dest: spec [of _ t])

text \<open>What the calls leave alone.\<close>

lemma flush_thread_caches_frame:
  assumes "flush_thread_caches env fails c s = (r, s')"
  shows "gc_pc s' = gc_pc s" "gc_flush_queue s' = gc_flush_queue s" "gc_sync_queue s' = gc_sync_queue s"
    "gc_commit_queue s' = gc_commit_queue s" "gc_lock s' = gc_lock s" "gc_open s' = gc_open s" "gc_acked s' = gc_acked s"
    "gc_engine s' = gc_engine s" "gc_up s' = gc_up s" "td_pending (gc_thd s' a) = td_pending (gc_thd s a)"
    "td_commit_error (gc_thd s' a) = CE_NONE \<Longrightarrow> td_commit_error (gc_thd s a) = CE_NONE"
  using assms by (auto simp: flush_thread_caches_def set_error_def split: option.splits if_splits)

lemma flush_queue_frame:
  assumes "flush_queue env fails q et s = (et', s')"
  shows "gc_pc s' = gc_pc s" "gc_flush_queue s' = gc_flush_queue s" "gc_sync_queue s' = gc_sync_queue s"
    "gc_commit_queue s' = gc_commit_queue s" "gc_lock s' = gc_lock s" "gc_open s' = gc_open s" "gc_acked s' = gc_acked s"
    "gc_engine s' = gc_engine s" "gc_up s' = gc_up s" "td_pending (gc_thd s' a) = td_pending (gc_thd s a)"
    "td_commit_error (gc_thd s' a) = CE_NONE \<Longrightarrow> td_commit_error (gc_thd s a) = CE_NONE"
  using assms
  by (induction env fails q et s rule: flush_queue.induct) (auto split: prod.splits simp: flush_thread_caches_frame dest: flush_thread_caches_frame(11))

lemma process_commit_stage_queue_frame:
  "gc_pc (process_commit_stage_queue oks q s) = gc_pc s" "gc_flush_queue (process_commit_stage_queue oks q s) = gc_flush_queue s"
  "gc_sync_queue (process_commit_stage_queue oks q s) = gc_sync_queue s" "gc_commit_queue (process_commit_stage_queue oks q s) = gc_commit_queue s"
  "gc_lock (process_commit_stage_queue oks q s) = gc_lock s" "gc_open (process_commit_stage_queue oks q s) = gc_open s"
  "gc_file (process_commit_stage_queue oks q s) = gc_file s" "gc_acked (process_commit_stage_queue oks q s) = gc_acked s"
  "gc_hook (process_commit_stage_queue oks q s) = gc_hook s" "gc_up (process_commit_stage_queue oks q s) = gc_up s" "td_pending (gc_thd (process_commit_stage_queue oks q s) a) = td_pending (gc_thd s a)"
  by (induction oks q s rule: process_commit_stage_queue.induct) (auto simp: ha_commit_low_def set_error_def Let_def)

lemma process_commit_stage_queue_engine:
  "set (gc_engine (process_commit_stage_queue oks q s)) \<subseteq> set (gc_engine s) \<union> set q"
  "td_commit_error (gc_thd (process_commit_stage_queue oks q s) a) = CE_NONE \<Longrightarrow> td_commit_error (gc_thd s a) = CE_NONE"
  by (induction oks q s rule: process_commit_stage_queue.induct) (auto simp: ha_commit_low_def set_error_def Let_def split: if_splits)

lemma start_threads:
  assumes "threads_ok env s" "gc_pc s t = Outside"
  shows "threads_ok env (start_commit skip_commit t s)"
  by (rule threads_ok_step [OF assms(1), where t = t and p = "if gc_flush_queue s = [] then Flush_leader else Follower"])
    (use threads_okD [OF assms(1)] in \<open>auto simp: start_commit_def enter_flush_def commit_defs
      intro!: leader_ok_append [of leads_flush, where q = "[t]", simplified] leader_ok_append [of leads_flush "[]" _ _ "[t]", simplified]
        leader_ok_other [of leads_sync] leader_ok_other [of leads_commit] split: if_splits\<close>)

lemma flush_leader_threads:
  assumes "threads_ok env s" "gc_pc s t = Flush_leader"
  shows "threads_ok env (flush_leader t s)"
proof -
  have q: "gc_flush_queue s \<noteq> []" "t \<in> set (gc_flush_queue s)" using leader_okD [OF threads_okD(1) [OF assms(1)], of t] assms(2) by auto
  show ?thesis
    by (rule threads_ok_step [OF assms(1), where t = t and p = "if gc_open s then Flushing (length (gc_file s)) 1 0 [] True else At_commit (gc_flush_queue s) False LOCK_log"];
      use assms(2) q threads_okD [OF assms(1)] in \<open>cases "gc_open s"; auto simp: flush_leader_def commit_defs
        intro: leader_ok_other [of leads_sync] leader_ok_other [of leads_commit] leader_ok_end [of leads_flush] leader_ok_move [of leads_flush]\<close>)
qed

lemma flush_one_threads:
  assumes "threads_ok env s" "gc_pc s t = Flushing p e tot batch True" "flush_one env fails t p e tot batch s = Some s'"
  shows "threads_ok env s'"
proof -
  have q: "gc_flush_queue s \<noteq> []" "t \<in> set (gc_flush_queue s) \<union> set batch" using leader_okD [OF threads_okD(1) [OF assms(1)], of t] assms(2) by auto
  from q(1) obtain c cs where qc: "gc_flush_queue s = c # cs" by (cases "gc_flush_queue s") auto
  obtain r s1 where r: "flush_thread_caches env fails c (s\<lparr>gc_flush_queue := cs\<rparr>) = (r, s1)" by fastforce
  obtain e' tot' where et: "flush_result e tot r = (e', tot')" by fastforce
  have s': "s' = set_pc t (Flushing p e' tot' (batch @ [c]) (cs \<noteq> [])) s1"
    using assms(3) by (simp add: flush_one_def pop_front_def qc r et)
  note ok = threads_okD [OF assms(1)] and fr = flush_thread_caches_frame [OF r]
  have "leader_ok leads_flush cs ((gc_pc s)(t := Flushing p e' tot' (batch @ [c]) (cs \<noteq> [])))"
    by (cases "cs = []") (use assms(2) q qc in \<open>auto intro: leader_ok_end [OF ok(1)] leader_ok_move [OF ok(1)]\<close>)
  moreover have "has_own t (Flushing p e' tot' (batch @ [c]) (cs \<noteq> []))" using q qc by (cases "cs = []") auto
  ultimately show ?thesis
    by (intro threads_ok_step [OF assms(1), where t = t and p = "Flushing p e' tot' (batch @ [c]) (cs \<noteq> [])"])
      (simp_all add: s' set_pc_def fr leader_ok_other [OF ok(2)] leader_ok_other [OF ok(3)])
qed

lemma flush_rest_threads:
  assumes "threads_ok env s" "gc_pc s t = Flushing p e tot batch True"
  shows "threads_ok env (flush_rest env fails t p e tot batch s)"
proof -
  have q: "t \<in> set (gc_flush_queue s) \<union> set batch" using leader_okD [OF threads_okD(1) [OF assms(1)], of t] assms(2) by auto
  obtain e' tot' s1 where r: "flush_queue env fails (gc_flush_queue s) (e, tot) (s\<lparr>gc_flush_queue := []\<rparr>) = ((e', tot'), s1)" by (metis surj_pair)
  have s': "flush_rest env fails t p e tot batch s = set_pc t (Flushing p e' tot' (batch @ gc_flush_queue s) False) s1"
    by (simp add: flush_rest_def fetch_and_empty_def r)
  show ?thesis
    by (rule threads_ok_step [OF assms(1), where t = t and p = "Flushing p e' tot' (batch @ gc_flush_queue s) False"])
      (use assms(2) q flush_queue_frame [OF r] threads_okD [OF assms(1)] in
        \<open>auto simp: s' set_pc_def intro: leader_ok_other [of leads_sync] leader_ok_other [of leads_commit] leader_ok_end [of leads_flush]\<close>)
qed

lemma sync_threads:
  assumes "threads_ok env s" "gc_pc s t = Sync_leader e tot"
  shows "threads_ok env (sync_stage env sync_ok t e tot s)"
proof -
  have q: "t \<in> set (gc_sync_queue s)" using leader_okD [OF threads_okD(2) [OF assms(1)], of t] assms(2) by auto
  show ?thesis
    by (rule threads_ok_step [OF assms(1), where t = t and p = "At_commit (gc_sync_queue s) (e = 0 \<and> tot > 0 \<and> \<not> sync_ok) LOCK_sync"])
      (use assms(2) q threads_okD [OF assms(1)] in
        \<open>auto simp: sync_stage_def commit_defs intro: leader_ok_other [of leads_flush] leader_ok_other [of leads_commit] leader_ok_end [of leads_sync] split: if_splits\<close>)
qed

lemma commit_stage_threads:
  assumes "threads_ok env s" "gc_pc s t = At_commit q b m"
  shows "threads_ok env (commit_stage env t q b m s)"
proof (cases "ge_order_commits env \<and> (\<not> b \<or> \<not> ge_abort_server env)")
  case True
  have "t \<in> set q" using threads_okD(4) [OF assms(1), of t] assms(2) by simp
  with True show ?thesis
    by (intro threads_ok_step [OF assms(1), where t = t and p = "if gc_commit_queue s = [] then Commit_leader b else Follower"])
      (use assms(2) threads_okD [OF assms(1)] in
        \<open>auto simp: commit_stage_def enter_commit_def commit_defs
          intro: leader_ok_other [of leads_flush] leader_ok_other [of leads_sync] leader_ok_append [of leads_commit] leader_ok_append [of leads_commit "[]", simplified] split: if_splits\<close>)
next
  case False
  have "t \<in> set q" using threads_okD(4) [OF assms(1), of t] assms(2) by simp
  with False show ?thesis
    by (intro threads_ok_step [OF assms(1), where t = t and p = "Signalling q b"])
      (use assms(2) threads_okD [OF assms(1)] in \<open>auto simp: commit_stage_def commit_defs intro!: leader_ok_other\<close>)
qed

lemma commit_leader_threads:
  assumes "threads_ok env s" "gc_pc s t = Commit_leader b"
  shows "threads_ok env (commit_leader oks t b s)"
proof -
  have q: "t \<in> set (gc_commit_queue s)" using leader_okD [OF threads_okD(3) [OF assms(1)], of t] assms(2) by auto
  show ?thesis
    by (rule threads_ok_step [OF assms(1), where t = t and p = "Signalling (gc_commit_queue s) b"])
      (use assms(2) q threads_okD [OF assms(1)] in
        \<open>auto simp: commit_leader_def commit_defs process_commit_stage_queue_frame intro: leader_ok_other [of leads_flush] leader_ok_other [of leads_sync] leader_ok_end [of leads_commit]\<close>)
qed

lemma end_commit_threads:
  assumes "threads_ok env s" "gc_pc s t = Signalling q b"
  shows "threads_ok env (end_commit env t q b s)"
proof (cases "gc_up (end_commit env t q b s)")
  case True
  have "t \<in> set q" using threads_okD(4) [OF assms(1), of t] assms(2) by simp
  with True show ?thesis
    by (intro threads_ok_step [OF assms(1), where t = t and p = Finishing])
      (use assms(2) threads_okD [OF assms(1)] in
        \<open>auto simp: end_commit_def handle_binlog_flush_or_sync_error_def signal_done_def commit_defs intro!: leader_ok_other split: if_splits\<close>)
next
  case False
  with assms(1) show ?thesis
    by (auto simp: end_commit_def handle_binlog_flush_or_sync_error_def commit_defs threads_ok_def signal_done_def split: if_splits)
qed

lemma finish_threads:
  assumes "threads_ok env s"
  shows "threads_ok env (finish_commit ok t s)"
  by (rule threads_ok_step [OF assms(1), where t = t and p = Finished])
    (use threads_okD [OF assms(1)] in \<open>auto simp: finish_commit_def ha_commit_low_def commit_defs intro!: leader_ok_other split: if_splits\<close>)

text \<open>The end of the flush stage either ends the process, or goes on to the sync stage.\<close>

definition flush_frame :: "'h group_commit \<Rightarrow> 'h group_commit \<Rightarrow> bool" where
  "flush_frame s s' \<longleftrightarrow> gc_flush_queue s' = gc_flush_queue s \<and> gc_sync_queue s' = gc_sync_queue s \<and> gc_commit_queue s' = gc_commit_queue s \<and>
     gc_lock s' = gc_lock s \<and> gc_pc s' = gc_pc s \<and> gc_file s' = gc_file s \<and> gc_engine s' = gc_engine s \<and>
     set (gc_acked s) \<subseteq> set (gc_acked s') \<and>
     (\<forall>a. td_pending (gc_thd s' a) = td_pending (gc_thd s a) \<and> (td_commit_error (gc_thd s' a) = CE_NONE \<longrightarrow> td_commit_error (gc_thd s a) = CE_NONE))"

lemma flush_frame_refl: "flush_frame s s"
  by (simp add: flush_frame_def)

lemma flush_frame_trans: "flush_frame s s1 \<Longrightarrow> flush_frame s1 s2 \<Longrightarrow> flush_frame s s2"
  by (auto simp: flush_frame_def)

lemma flush_cache_to_file_frame: "flush_cache_to_file io_ok t s = (r, s') \<Longrightarrow> flush_frame s s'"
  by (auto simp: flush_cache_to_file_def set_error_def flush_frame_def split: if_splits)

lemma handle_error_frame: "flush_frame s (handle_binlog_flush_or_sync_error env s)"
  by (auto simp: handle_binlog_flush_or_sync_error_def flush_frame_def)

lemma call_hooks_frame:
  assumes "call_hooks env p pos s = Some (e, s')"
  shows "flush_frame s s'" "gc_open s' = gc_open s" "e = 0 \<Longrightarrow> gc_up s' \<Longrightarrow> take (pos - p) (drop p (gc_file s)) \<in> set (gc_acked s')"
  using assms by (auto simp: call_hooks_def flush_frame_def ER_ERROR_ON_WRITE_def Let_def split: hook_end.splits bind_splits if_splits)

lemma end_flush_cases:
  assumes "end_flush env io_ok t p e tot q s = Some s'"
  obtains "flush_frame s s'" "\<not> gc_up s'"
  | s2 e2 where "flush_frame s s2" "gc_up s2" "s' = enter_sync env t q e2 tot s2"
    "ge_abort_server env \<Longrightarrow> gc_open s2 = gc_open s \<and> e = 0 \<and> (0 < tot \<longrightarrow> drop p (gc_file s) \<in> set (gc_acked s2))"
proof -
  obtain e1 pos s1 where 1: "(if e = 0 \<and> tot > 0 then flush_cache_to_file io_ok t s else ((e, 0), s)) = ((e1, pos), s1)" by (metis surj_pair)
  have f1: "flush_frame s s1"
    using 1 flush_cache_to_file_frame by (auto simp: flush_frame_refl split: if_splits)
  have e1: "e1 = 0 \<Longrightarrow> e = 0 \<and> (0 < tot \<longrightarrow> pos = length (gc_file s)) \<and> s1 = s"
    using 1 by (auto simp: flush_cache_to_file_def ER_ERROR_ON_WRITE_def split: if_splits)
  from assms obtain e2 s2 where 2: "(if e1 = 0 then call_hooks env p pos s1 else Some (e1, s1)) = Some (e2, s2)"
    and 3: "s' = (if \<not> gc_up s2 then s2 else let s = (if e2 \<noteq> 0 then handle_binlog_flush_or_sync_error env s2 else s2)
              in if \<not> gc_up s then s else enter_sync env t q e2 tot s)"
    unfolding end_flush_def 1 by (auto split: bind_splits)
  have f2: "flush_frame s s2"
    using 2 flush_frame_trans [OF f1 call_hooks_frame(1), of env p pos e2] f1 by (auto split: if_splits)
  define s3 where "s3 = (if e2 \<noteq> 0 then handle_binlog_flush_or_sync_error env s2 else s2)"
  have f3: "flush_frame s s3" using flush_frame_trans [OF f2 handle_error_frame] f2 by (simp add: s3_def)
  have a: "gc_open s3 = gc_open s \<and> e = 0 \<and> (0 < tot \<longrightarrow> drop p (gc_file s) \<in> set (gc_acked s3))" if "ge_abort_server env" "gc_up s3" "gc_up s2"
  proof -
    from that have "e2 = 0" by (simp add: s3_def handle_binlog_flush_or_sync_error_def split: if_splits)
    with 2 have e10: "e1 = 0" and h: "call_hooks env p pos s1 = Some (0, s2)" by (auto split: if_splits)
    with e1 call_hooks_frame(2,3) [OF h] \<open>e2 = 0\<close> \<open>gc_up s2\<close> show ?thesis by (auto simp: s3_def)
  qed
  show thesis
    using 3 that f2 f3 a unfolding s3_def [symmetric] Let_def by (cases "gc_up s2"; cases "gc_up s3") auto
qed

lemma enter_sync_pc:
  "gc_pc (enter_sync env t q e tot s) = (gc_pc s)(t := if gc_sync_queue s = [] then Sync_leader e tot else Follower)"
  "gc_sync_queue (enter_sync env t q e tot s) = gc_sync_queue s @ q"
  "gc_lock (enter_sync env t q e tot s) = (if ge_sync_period env = 1 then gc_lock s else (gc_lock s)(LOCK_log := None))"
  "gc_flush_queue (enter_sync env t q e tot s) = gc_flush_queue s" "gc_commit_queue (enter_sync env t q e tot s) = gc_commit_queue s"
  "gc_thd (enter_sync env t q e tot s) = gc_thd s" "gc_open (enter_sync env t q e tot s) = gc_open s"
  "gc_file (enter_sync env t q e tot s) = gc_file s" "gc_acked (enter_sync env t q e tot s) = gc_acked s"
  "gc_engine (enter_sync env t q e tot s) = gc_engine s" "gc_up (enter_sync env t q e tot s) = gc_up s"
  by (simp_all add: enter_sync_def commit_defs)

lemma end_flush_threads:
  assumes "threads_ok env s" "gc_pc s t = Flushing p e tot q False" "end_flush env io_ok t p e tot q s = Some s'"
  shows "threads_ok env s'"
  using assms(3)
proof (cases rule: end_flush_cases)
  case 1
  then show ?thesis using assms(1) by (simp add: threads_ok_def flush_frame_def)
next
  case (2 s2 e2)
  note ok = threads_okD [OF assms(1)] and fr = 2(1) [unfolded flush_frame_def]
  have "t \<in> set q" using ok(4) [of t] assms(2) by simp
  then have "leader_ok leads_sync (gc_sync_queue s') (gc_pc s')"
    using fr leader_ok_append [OF ok(2), of t q "if gc_sync_queue s = [] then Sync_leader e2 tot else Follower"]
    by (cases "gc_sync_queue s = []") (simp_all add: 2(3) enter_sync_pc)
  then show ?thesis
    using fr by (intro threads_ok_step [OF assms(1), where t = t and p = "if gc_sync_queue s = [] then Sync_leader e2 tot else Follower"])
      (simp_all add: 2(3) enter_sync_pc leader_ok_other [OF ok(1)] leader_ok_other [OF ok(3)] split: if_splits)
qed

lemma one_leader_step:
  assumes "commit_step env s s'" "threads_ok env s"
  shows "threads_ok env s'"
  using assms
proof cases
  case (rotate name header)
  then show ?thesis using assms(2) by (simp add: threads_ok_def)
qed (use assms(2) in \<open>auto intro: start_threads flush_leader_threads flush_one_threads flush_rest_threads end_flush_threads
  sync_threads commit_stage_threads commit_leader_threads end_commit_threads finish_threads\<close>)

end
