(* ===== verification/Committed.thy ===== *)
theory Committed
  imports Group_Commit
begin

text \<open>
  What the commit of MySQL guarantees together with the plugin: for every interleaving of the threads, a
  transaction is committed by the engines only after a binlog server has stored its events, as long as errors of
  the binlog end the server. The observer of the plugin (\<^verbatim>\<open>phxsync_master_phxrpc_plugin.cc\<close>) is modelled here.
\<close>

section \<open>Committed transactions were sent\<close>

definition part_of :: "bytes \<Rightarrow> bytes \<Rightarrow> bool" where
  "part_of xs ys \<longleftrightarrow> (\<exists>pre post. ys = pre @ xs @ post)"

definition acked :: "'h commit_env \<Rightarrow> 'h group_commit \<Rightarrow> txn \<Rightarrow> bool" where
  "acked env s t \<longleftrightarrow> (\<exists>data\<in>set (gc_acked s). part_of (ge_cache env t) data)"

definition error_free :: "'h group_commit \<Rightarrow> txn \<Rightarrow> bool" where
  "error_free s t \<longleftrightarrow> td_commit_error (gc_thd s t) = CE_NONE"

text \<open>Which threads hold the mutex of the binlog.\<close>

fun holds_log :: "'h commit_env \<Rightarrow> pc \<Rightarrow> bool" where
  "holds_log env (Flushing _ _ _ _ _) = True"
| "holds_log env (Sync_leader _ _) = (ge_sync_period env = 1)"
| "holds_log env (At_commit _ _ m) = (m = LOCK_log)"
| "holds_log env _ = False"

definition log_lock_ok :: "'h commit_env \<Rightarrow> 'h group_commit \<Rightarrow> bool" where
  "log_lock_ok env s \<longleftrightarrow> (\<forall>l. holds_log env (gc_pc s l) \<longrightarrow> gc_lock s LOCK_log = Some l)"

definition all_carried :: "'h group_commit \<Rightarrow> txn set" where
  "all_carried s = (\<Union>l. carried (gc_pc s l))"

definition all_taken :: "'h group_commit \<Rightarrow> txn set" where
  "all_taken s = (\<Union>l. taken (gc_pc s l))"

text \<open>A transaction that has passed the flush stage.\<close>

definition past :: "'h group_commit \<Rightarrow> txn \<Rightarrow> bool" where
  "past s t \<longleftrightarrow> t \<in> set (gc_sync_queue s) \<or> t \<in> set (gc_commit_queue s) \<or> t \<in> all_carried s \<or>
     gc_pc s t \<noteq> Outside \<and> \<not> td_pending (gc_thd s t)"

definition batch_ok :: "'h commit_env \<Rightarrow> nat \<Rightarrow> nat \<Rightarrow> txn list \<Rightarrow> 'h group_commit \<Rightarrow> bool" where
  "batch_ok env p tot batch s \<longleftrightarrow> p \<le> length (gc_file s) \<and>
     (\<forall>t\<in>set batch. error_free s t \<longrightarrow> 0 < tot \<and> part_of (ge_cache env t) (drop p (gc_file s)))"

definition flushing_ok :: "'h commit_env \<Rightarrow> 'h group_commit \<Rightarrow> bool" where
  "flushing_ok env s \<longleftrightarrow> (\<forall>l p e tot batch m. gc_pc s l = Flushing p e tot batch m \<longrightarrow> batch_ok env p tot batch s)"

definition started_ok :: "'h group_commit \<Rightarrow> bool" where
  "started_ok s \<longleftrightarrow> (\<forall>t. gc_pc s t = Outside \<longrightarrow>
     t \<notin> set (gc_flush_queue s) \<and> t \<notin> set (gc_engine s) \<and> \<not> past s t \<and> t \<notin> all_taken s)"

definition engine_ok :: "'h commit_env \<Rightarrow> 'h group_commit \<Rightarrow> bool" where
  "engine_ok env s \<longleftrightarrow> (\<forall>t\<in>set (gc_engine s). acked env s t \<or> ge_order_commits env \<and> \<not> error_free s t)"

definition commit_ok :: "'h commit_env \<Rightarrow> 'h group_commit \<Rightarrow> bool" where
  "commit_ok env s \<longleftrightarrow> gc_open s \<and> log_lock_ok env s \<and> flushing_ok env s \<and> started_ok s \<and>
     (\<forall>t. past s t \<longrightarrow> error_free s t \<longrightarrow> acked env s t) \<and> engine_ok env s"

lemma commit_okD:
  assumes "commit_ok env s"
  shows "gc_open s" "flushing_ok env s" "started_ok s"
    "past s t \<Longrightarrow> error_free s t \<Longrightarrow> acked env s t"
    "t \<in> set (gc_engine s) \<Longrightarrow> acked env s t \<or> ge_order_commits env \<and> \<not> error_free s t"
    "log_lock_ok env s"
  using assms by (auto simp: commit_ok_def engine_ok_def)

lemma acked_mono: "acked env s t \<Longrightarrow> set (gc_acked s) \<subseteq> set (gc_acked s') \<Longrightarrow> acked env s' t"
  by (auto simp: acked_def)

text \<open>What a step has to show: which transactions are new in each place.\<close>

lemma commit_ok_step:
  assumes "commit_ok env s" "gc_open s'" "set (gc_acked s) \<subseteq> set (gc_acked s')" "flushing_ok env s'" "log_lock_ok env s'"
    and past: "\<And>t. past s' t \<Longrightarrow> error_free s' t \<Longrightarrow> past s t \<and> error_free s t \<or> acked env s' t"
    and engine: "\<And>t. t \<in> set (gc_engine s') \<Longrightarrow> t \<in> set (gc_engine s) \<and> (error_free s' t \<longrightarrow> error_free s t) \<or>
      past s t \<and> (error_free s t \<or> ge_order_commits env \<and> \<not> error_free s' t)"
    and started: "\<And>t. gc_pc s' t = Outside \<Longrightarrow> gc_pc s t = Outside \<and>
      (t \<in> set (gc_flush_queue s') \<or> t \<in> set (gc_engine s') \<or> past s' t \<or> t \<in> all_taken s' \<longrightarrow>
       t \<in> set (gc_flush_queue s) \<or> t \<in> set (gc_engine s) \<or> past s t \<or> t \<in> all_taken s)"
  shows "commit_ok env s'"
proof -
  note ok = commit_okD [OF assms(1)]
  have "started_ok s'" using ok(3) started unfolding started_ok_def by blast
  moreover have "past s' t \<Longrightarrow> error_free s' t \<Longrightarrow> acked env s' t" for t
    using past [of t] ok(4) [of t] acked_mono [OF _ assms(3)] by blast
  moreover have "t \<in> set (gc_engine s') \<Longrightarrow> acked env s' t \<or> ge_order_commits env \<and> \<not> error_free s' t" for t
    using engine [of t] ok(4,5) [of t] acked_mono [OF _ assms(3)] by blast
  ultimately show ?thesis using assms(2,4,5) by (simp add: commit_ok_def engine_ok_def)
qed

lemma all_takenI: "gc_pc s l = Flushing q e tot batch m \<Longrightarrow> t \<in> set batch \<Longrightarrow> t \<in> all_taken s"
  unfolding all_taken_def by (rule UN_I [of l]) simp_all

lemma flushing_ok_same:
  assumes "flushing_ok env s" "gc_file s' = gc_file s"
    and "\<And>l q e tot batch m. gc_pc s' l = Flushing q e tot batch m \<Longrightarrow> gc_pc s l = Flushing q e tot batch m"
    and "\<And>t. t \<in> all_taken s \<Longrightarrow> error_free s' t \<Longrightarrow> error_free s t"
  shows "flushing_ok env s'"
  unfolding flushing_ok_def
proof (intro allI impI)
  fix l q e tot batch m assume "gc_pc s' l = Flushing q e tot batch m"
  then have f: "gc_pc s l = Flushing q e tot batch m" by (rule assms(3))
  then have "error_free s t" if "t \<in> set batch" "error_free s' t" for t using that assms(4) [of t] all_takenI by blast
  with assms(1) f show "batch_ok env q tot batch s'" unfolding flushing_ok_def batch_ok_def assms(2) by blast
qed

lemma log_lock_ok_update:
  assumes "log_lock_ok env s" "gc_pc s' = (gc_pc s)(t := p)" "holds_log env p \<Longrightarrow> gc_lock s' LOCK_log = Some t"
    and "gc_lock s' LOCK_log = gc_lock s LOCK_log \<or> gc_lock s LOCK_log \<in> {None, Some t}"
  shows "log_lock_ok env s'"
  unfolding log_lock_ok_def
proof (intro allI impI)
  fix l assume h: "holds_log env (gc_pc s' l)"
  show "gc_lock s' LOCK_log = Some l"
  proof (cases "l = t")
    case False
    with h assms(2) have "holds_log env (gc_pc s l)" by simp
    with assms(1) have "gc_lock s LOCK_log = Some l" by (simp add: log_lock_ok_def)
    with assms(4) False show ?thesis by auto
  qed (use h assms(2,3) in simp)
qed

lemma pc_update:
  assumes "gc_pc s' = (gc_pc s)(k := p)"
  shows "all_carried s' \<subseteq> all_carried s \<union> carried p" "all_taken s' \<subseteq> all_taken s \<union> taken p"
  using assms by (auto simp: all_carried_def all_taken_def split: if_splits)

lemma start_ok:
  assumes "commit_ok env s" "gc_pc s t = Outside"
  shows "commit_ok env (start_commit skip_commit t s)"
proof -
  let ?s = "start_commit skip_commit t s"
  define p where "p = (if gc_flush_queue s = [] then Flush_leader else Follower)"
  have f: "gc_pc ?s = (gc_pc s)(t := p)" "gc_flush_queue ?s = gc_flush_queue s @ [t]" "gc_sync_queue ?s = gc_sync_queue s" "gc_commit_queue ?s = gc_commit_queue s"
    "gc_thd ?s = (gc_thd s)(t := \<lparr>td_pending = True, td_commit_low = \<not> skip_commit, td_commit_error = CE_NONE\<rparr>)" "gc_open ?s = gc_open s"
    "gc_file ?s = gc_file s" "gc_lock ?s = gc_lock s" "gc_acked ?s = gc_acked s" "gc_engine ?s = gc_engine s"
    by (simp_all add: start_commit_def enter_flush_def commit_defs p_def)
  have n: "\<not> past s t" "t \<notin> all_taken s" "t \<notin> set (gc_engine s)" using assms by (auto simp: commit_ok_def started_ok_def)
  have p: "carried p = {}" "taken p = {}" "p \<noteq> Outside" by (auto simp: p_def)
  have car: "all_carried ?s \<subseteq> all_carried s" "all_taken ?s \<subseteq> all_taken s" using pc_update [OF f(1)] p by auto
  have past: "past ?s t' \<Longrightarrow> past s t' \<and> t' \<noteq> t" for t'
    using n(1) car by (cases "t' = t") (auto simp: past_def f)
  have free: "error_free ?s t' \<longleftrightarrow> error_free s t'" if "t' \<noteq> t" for t' using that by (simp add: error_free_def f)
  have "t' \<in> all_taken s \<Longrightarrow> error_free ?s t' \<Longrightarrow> error_free s t'" for t' using n(2) free by (cases "t' = t") auto
  then have "flushing_ok env ?s"
    by (intro flushing_ok_same [OF commit_okD(2) [OF assms(1)]]) (auto simp: f p_def split: if_splits)
  moreover have "t' \<in> set (gc_engine s) \<Longrightarrow> error_free ?s t' \<Longrightarrow> error_free s t'" for t' using n(3) free by (cases "t' = t") auto
  moreover have "log_lock_ok env ?s"
    by (rule log_lock_ok_update [OF commit_okD(6) [OF assms(1)] f(1)]) (auto simp: f p_def split: if_splits)
  ultimately show ?thesis
    using commit_okD(1) [OF assms(1)] past free p car by (intro commit_ok_step [OF assms(1)]) (auto simp: f split: if_splits)
qed

text \<open>Steps that change none of the transactions in the flush stage.\<close>

lemma quiet_ok:
  assumes "commit_ok env s" "gc_pc s' = (gc_pc s)(t := p)" "p \<noteq> Outside" "\<not> holds_log env p"
    and "gc_open s'" "gc_file s' = gc_file s" "gc_flush_queue s' = gc_flush_queue s" "gc_acked s' = gc_acked s"
    and lock: "gc_lock s' LOCK_log = gc_lock s LOCK_log \<or> gc_lock s LOCK_log = Some t"
    and err: "\<And>t. error_free s' t \<Longrightarrow> error_free s t"
    and past: "\<And>t. past s' t \<Longrightarrow> past s t"
    and engine: "\<And>t. t \<in> set (gc_engine s') \<Longrightarrow> t \<in> set (gc_engine s) \<or> past s t \<and> (error_free s t \<or> ge_order_commits env \<and> \<not> error_free s' t)"
  shows "commit_ok env s'"
proof -
  have fl: "flushing_ok env s'"
    using assms(2,4) err by (intro flushing_ok_same [OF commit_okD(2) [OF assms(1)] assms(6)]) (auto split: if_splits)
  have ll: "log_lock_ok env s'" using log_lock_ok_update [OF commit_okD(6) [OF assms(1)] assms(2)] assms(4) lock by blast
  have "taken p = {}" using assms(4) by (cases p) auto
  then have tk: "all_taken s' \<subseteq> all_taken s" using pc_update(2) [OF assms(2)] by simp
  have out: "gc_pc s' t' = Outside \<Longrightarrow> gc_pc s t' = Outside" for t' using assms(2,3) by (auto split: if_splits)
  show ?thesis
  proof (rule commit_ok_step [OF assms(1,5) _ fl ll])
    show "set (gc_acked s) \<subseteq> set (gc_acked s')" by (simp add: assms(8))
    show "past s t \<and> error_free s t \<or> acked env s' t" if "past s' t" "error_free s' t" for t
      using past [OF that(1)] err [OF that(2)] by blast
    show "t \<in> set (gc_engine s) \<and> (error_free s' t \<longrightarrow> error_free s t) \<or>
        past s t \<and> (error_free s t \<or> ge_order_commits env \<and> \<not> error_free s' t)" if "t \<in> set (gc_engine s')" for t
      using engine [OF that] err [of t] by blast
    show "gc_pc s t = Outside \<and> (t \<in> set (gc_flush_queue s') \<or> t \<in> set (gc_engine s') \<or> past s' t \<or> t \<in> all_taken s' \<longrightarrow>
       t \<in> set (gc_flush_queue s) \<or> t \<in> set (gc_engine s) \<or> past s t \<or> t \<in> all_taken s)" if "gc_pc s' t = Outside" for t
      using out [OF that] past [of t] engine [of t] tk unfolding assms(7) by blast
  qed
qed

lemma past_step:
  assumes "gc_pc s' = (gc_pc s)(t := p)" "gc_pc s t \<noteq> Outside"
    and "\<And>a. a \<in> set (gc_sync_queue s') \<union> set (gc_commit_queue s') \<union> carried p \<Longrightarrow> past s a"
    and "\<And>a. td_pending (gc_thd s a) \<Longrightarrow> \<not> td_pending (gc_thd s' a) \<Longrightarrow> past s a"
    and "past s' a"
  shows "past s a"
proof -
  have "gc_pc s' a \<noteq> Outside \<Longrightarrow> gc_pc s a \<noteq> Outside" using assms(1,2) by (auto split: if_splits)
  moreover have "all_carried s' \<subseteq> all_carried s \<union> carried p" by (rule pc_update(1) [OF assms(1)])
  ultimately show ?thesis using assms(3,4,5) unfolding past_def by blast
qed

lemma pastI:
  "a \<in> set (gc_sync_queue s) \<Longrightarrow> past s a" "a \<in> set (gc_commit_queue s) \<Longrightarrow> past s a"
  "gc_pc s t = p \<Longrightarrow> a \<in> carried p \<Longrightarrow> past s a"
  "gc_pc s a \<noteq> Outside \<Longrightarrow> \<not> td_pending (gc_thd s a) \<Longrightarrow> past s a"
  by (auto simp: past_def all_carried_def)

lemma log_lock_okD: "commit_ok env s \<Longrightarrow> gc_pc s t = p \<Longrightarrow> holds_log env p \<Longrightarrow> gc_lock s LOCK_log = Some t"
  using commit_okD(6) [of env s] by (auto simp: log_lock_ok_def)

lemma sync_stage_ok:
  assumes "commit_ok env s" "gc_pc s t = Sync_leader e tot"
  shows "commit_ok env (sync_stage env sync_ok t e tot s)"
proof -
  let ?s = "sync_stage env sync_ok t e tot s" and ?p = "At_commit (gc_sync_queue s) (e = 0 \<and> tot > 0 \<and> \<not> sync_ok) LOCK_sync"
  have pc: "gc_pc ?s = (gc_pc s)(t := ?p)" by (simp add: sync_stage_def commit_defs)
  have "past ?s a \<Longrightarrow> past s a" for a
    by (rule past_step [OF pc]) (use assms(2) in \<open>auto simp: sync_stage_def commit_defs intro: pastI split: if_splits\<close>)
  then show ?thesis
    using commit_okD(1) [OF assms(1)] log_lock_okD [OF assms]
    by (intro quiet_ok [OF assms(1) pc]) (auto simp: sync_stage_def commit_defs error_free_def split: if_splits)
qed

lemma commit_stage_ok:
  assumes "commit_ok env s" "gc_pc s t = At_commit q b m"
  shows "commit_ok env (commit_stage env t q b m s)"
proof -
  let ?s = "commit_stage env t q b m s"
  define p where "p = (if ge_order_commits env \<and> (\<not> b \<or> \<not> ge_abort_server env)
    then if gc_commit_queue s = [] then Commit_leader b else Follower else Signalling q b)"
  have pc: "gc_pc ?s = (gc_pc s)(t := p)" by (auto simp: commit_stage_def enter_commit_def p_def commit_defs)
  have "past ?s a \<Longrightarrow> past s a" for a
    by (rule past_step [OF pc])
      (use assms(2) in \<open>auto simp: commit_stage_def enter_commit_def commit_defs p_def intro: pastI(1,2,4) pastI(3) [OF assms(2)] split: if_splits\<close>)
  then show ?thesis
    using commit_okD(1) [OF assms(1)] log_lock_okD [OF assms]
    by (intro quiet_ok [OF assms(1) pc]) (auto simp: p_def commit_stage_def enter_commit_def commit_defs error_free_def split: if_splits)
qed

lemma commit_leader_ok:
  assumes "commit_ok env s" "threads_ok env s" "gc_pc s t = Commit_leader b"
  shows "commit_ok env (commit_leader oks t b s)"
proof -
  let ?s = "commit_leader oks t b s" and ?r = "process_commit_stage_queue oks (gc_commit_queue s) (s\<lparr>gc_commit_queue := []\<rparr>)"
  have s: "?s = set_pc t (Signalling (gc_commit_queue s) b) ?r" by (simp add: commit_leader_def fetch_and_empty_def)
  have pc: "gc_pc ?s = (gc_pc s)(t := Signalling (gc_commit_queue s) b)" by (simp add: s set_pc_def process_commit_stage_queue_frame)
  have err: "error_free ?s a \<Longrightarrow> error_free s a" for a
    using process_commit_stage_queue_engine(2) [of oks "gc_commit_queue s" "s\<lparr>gc_commit_queue := []\<rparr>" a] by (simp add: s set_pc_def error_free_def)
  have eng: "set (gc_engine ?s) \<subseteq> set (gc_engine s) \<union> set (gc_commit_queue s)"
    using process_commit_stage_queue_engine(1) [of oks "gc_commit_queue s" "s\<lparr>gc_commit_queue := []\<rparr>"] by (simp add: s set_pc_def)
  have "past ?s a \<Longrightarrow> past s a" for a
    by (rule past_step [OF pc]) (use assms(3) in \<open>auto simp: s set_pc_def process_commit_stage_queue_frame intro: pastI\<close>)
  moreover have "a \<in> set (gc_engine s) \<or> past s a \<and> (error_free s a \<or> ge_order_commits env \<and> \<not> error_free ?s a)" if "a \<in> set (gc_engine ?s)" for a
    using that eng err [of a] threads_okD(6) [OF assms(2,3)] pastI(2) [of a s] by blast
  ultimately show ?thesis
    using commit_okD(1) [OF assms(1)] err by (intro quiet_ok [OF assms(1) pc]) (auto simp: s set_pc_def process_commit_stage_queue_frame)
qed

lemma end_commit_ok:
  assumes "commit_ok env s" "gc_pc s t = Signalling q b" "ge_abort_server env" "gc_up (end_commit env t q b s)"
  shows "commit_ok env (end_commit env t q b s)"
proof -
  have s: "end_commit env t q b s = set_pc t Finishing (signal_done q s)"
    using assms(3,4) by (auto simp: end_commit_def handle_binlog_flush_or_sync_error_def Let_def split: if_splits)
  let ?s = "set_pc t Finishing (signal_done q s)"
  have pc: "gc_pc ?s = (gc_pc s)(t := Finishing)" by (simp add: set_pc_def signal_done_def)
  have "past ?s a \<Longrightarrow> past s a" for a
    by (rule past_step [OF pc]) (use assms(2) in \<open>auto simp: set_pc_def signal_done_def intro: pastI(1,2,4) pastI(3) [OF assms(2)] split: if_splits\<close>)
  then show ?thesis
    unfolding s using commit_okD(1) [OF assms(1)]
    by (intro quiet_ok [OF assms(1) pc]) (auto simp: set_pc_def signal_done_def error_free_def split: if_splits)
qed

lemma finish_commit_ok:
  assumes "commit_ok env s" "gc_pc s t \<noteq> Outside" "\<not> td_pending (gc_thd s t)"
  shows "commit_ok env (finish_commit ok t s)"
proof -
  let ?s = "finish_commit ok t s"
  have pc: "gc_pc ?s = (gc_pc s)(t := Finished)" by (simp add: finish_commit_def ha_commit_low_def commit_defs)
  have past: "past s t" using assms(2,3) by (rule pastI(4))
  have "past ?s a \<Longrightarrow> past s a" for a
    by (rule past_step [OF pc assms(2)]) (auto simp: finish_commit_def ha_commit_low_def commit_defs intro: pastI split: if_splits)
  then show ?thesis
    using commit_okD(1) [OF assms(1)] past
    by (intro quiet_ok [OF assms(1) pc]) (auto simp: finish_commit_def ha_commit_low_def commit_defs error_free_def split: if_splits)
qed

lemma rotate_ok:
  assumes "commit_ok env s" "gc_lock s LOCK_log = None"
  shows "commit_ok env (s\<lparr>gc_name := name, gc_file := header\<rparr>)"
proof -
  have "gc_pc s l \<noteq> Flushing p e tot batch m" for l p e tot batch m
    using log_lock_okD [OF assms(1), of l "Flushing p e tot batch m"] assms(2) by auto
  then show ?thesis
    using assms(1)
    by (simp add: commit_ok_def flushing_ok_def log_lock_ok_def started_ok_def engine_ok_def past_def error_free_def acked_def all_carried_def all_taken_def)
qed

text \<open>Steps of the leader of the flush stage.\<close>

lemma flush_stage_ok:
  assumes "commit_ok env s" "gc_pc s t \<noteq> Outside" "gc_lock s LOCK_log \<in> {None, Some t}" "gc_lock s' LOCK_log = Some t"
    and pc: "gc_pc s' = (gc_pc s)(t := Flushing p e tot batch m)" and batch: "batch_ok env p tot batch s'"
    and same: "gc_open s' = gc_open s" "gc_sync_queue s' = gc_sync_queue s" "gc_commit_queue s' = gc_commit_queue s" "gc_acked s' = gc_acked s"
      "gc_engine s' = gc_engine s" "\<And>a. td_pending (gc_thd s' a) = td_pending (gc_thd s a)"
    and err: "\<And>a. error_free s' a \<Longrightarrow> error_free s a"
    and queue: "set (gc_flush_queue s') \<union> set batch \<subseteq> set (gc_flush_queue s) \<union> all_taken s"
  shows "commit_ok env s'"
proof -
  have "gc_pc s' l = Flushing p' e' tot' batch' m' \<Longrightarrow> l = t" for l p' e' tot' batch' m'
    using log_lock_okD [OF assms(1), of l "Flushing p' e' tot' batch' m'"] pc assms(3) by (auto split: if_splits)
  then have fl: "flushing_ok env s'" using batch pc unfolding flushing_ok_def by (metis fun_upd_same pc.inject(1))
  have ll: "log_lock_ok env s'" using log_lock_ok_update [OF commit_okD(6) [OF assms(1)] pc] assms(3,4) by simp
  have past: "past s' a \<Longrightarrow> past s a" for a
    by (rule past_step [OF pc assms(2)]) (auto simp: same intro: pastI)
  have tk: "all_taken s' \<subseteq> all_taken s \<union> set batch" using pc_update(2) [OF pc] by simp
  have out: "gc_pc s' a = Outside \<Longrightarrow> gc_pc s a = Outside" for a using pc by (auto split: if_splits)
  show ?thesis
  proof (rule commit_ok_step [OF assms(1) _ _ fl ll])
    show "gc_open s'" "set (gc_acked s) \<subseteq> set (gc_acked s')" using commit_okD(1) [OF assms(1)] by (simp_all add: same)
    show "past s a \<and> error_free s a \<or> acked env s' a" if "past s' a" "error_free s' a" for a using past err that by blast
    show "a \<in> set (gc_engine s) \<and> (error_free s' a \<longrightarrow> error_free s a) \<or>
        past s a \<and> (error_free s a \<or> ge_order_commits env \<and> \<not> error_free s' a)" if "a \<in> set (gc_engine s')" for a
      using that err by (simp add: same)
    show "gc_pc s a = Outside \<and> (a \<in> set (gc_flush_queue s') \<or> a \<in> set (gc_engine s') \<or> past s' a \<or> a \<in> all_taken s' \<longrightarrow>
       a \<in> set (gc_flush_queue s) \<or> a \<in> set (gc_engine s) \<or> past s a \<or> a \<in> all_taken s)" if "gc_pc s' a = Outside" for a
      using out [OF that] past [of a] tk queue unfolding same by blast
  qed
qed

lemma part_of_append: "part_of xs ys \<Longrightarrow> part_of xs (ys @ zs)"
  unfolding part_of_def by (metis append.assoc)

lemma part_of_suffix: "part_of xs (ys @ xs)"
  unfolding part_of_def by (metis append_Nil2)

lemma batch_ok_queue [simp]: "batch_ok env p tot batch (s\<lparr>gc_flush_queue := q\<rparr>) = batch_ok env p tot batch s"
  by (simp add: batch_ok_def error_free_def)

lemma flushing_okD: "commit_ok env s \<Longrightarrow> gc_pc s t = Flushing p e tot batch m \<Longrightarrow> batch_ok env p tot batch s"
  using commit_okD(2) unfolding flushing_ok_def by blast

lemma batch_ok_grows:
  assumes "batch_ok env p tot batch s" "gc_file s' = gc_file s @ xs" "\<And>a. error_free s' a \<Longrightarrow> error_free s a"
    and "tot \<le> tot'"
  shows "batch_ok env p tot' batch s'"
  using assms part_of_append unfolding batch_ok_def by fastforce

lemma flush_thread_caches_batch:
  assumes "batch_ok env p tot batch s" "flush_thread_caches env fails c s = (r, s')" "flush_result e tot r = (e', tot')" "ge_cache env c \<noteq> []"
  shows "batch_ok env p tot' (batch @ [c]) s'"
proof (cases fails)
  case None
  have s': "s' = s\<lparr>gc_file := gc_file s @ ge_cache env c\<rparr>" "tot' = tot + length (ge_cache env c)"
    using assms(2,3) None by (auto simp: flush_thread_caches_def flush_result_def)
  then have "batch_ok env p tot' batch s'"
    by (intro batch_ok_grows [OF assms(1)]) (auto simp: error_free_def)
  moreover have "part_of (ge_cache env c) (drop p (gc_file s'))"
    using assms(1) by (simp add: s' batch_ok_def part_of_suffix)
  ultimately show ?thesis using s' assms(4) by (auto simp: batch_ok_def)
next
  case (Some f)
  obtain err k where f: "f = (err, k)" by fastforce
  have s': "s' = set_error c CE_FLUSH_ERROR (s\<lparr>gc_file := gc_file s @ take k (ge_cache env c)\<rparr>)" "tot' = tot"
    using assms(2,3) Some f by (auto simp: flush_thread_caches_def flush_result_def)
  then have "batch_ok env p tot' batch s'"
    by (intro batch_ok_grows [OF assms(1)]) (auto simp: error_free_def set_error_def split: if_splits)
  moreover have "\<not> error_free s' c" by (simp add: s' set_error_def error_free_def)
  ultimately show ?thesis by (auto simp: batch_ok_def)
qed

lemma flush_queue_batch:
  assumes "batch_ok env p tot batch s" "flush_queue env fails q (e, tot) s = ((e', tot'), s')" "\<forall>c. ge_cache env c \<noteq> []"
  shows "batch_ok env p tot' (batch @ q) s'"
  using assms(1,2)
proof (induction q arbitrary: e tot batch s)
  case (Cons c q)
  obtain r s1 where r: "flush_thread_caches env (fails c) c s = (r, s1)" by fastforce
  obtain e1 tot1 where et: "flush_result e tot r = (e1, tot1)" by fastforce
  have "batch_ok env p tot1 (batch @ [c]) s1"
    using flush_thread_caches_batch [OF Cons.prems(1) r et] assms(3) by blast
  from Cons.IH [OF this] Cons.prems(2) show ?case by (simp add: r et)
qed simp

lemma flush_leader_ok:
  assumes "commit_ok env s" "gc_pc s t = Flush_leader" "gc_lock s LOCK_log = None"
  shows "commit_ok env (flush_leader t s)"
  by (rule flush_stage_ok [OF assms(1), where t = t and p = "length (gc_file s)" and e = 1 and tot = 0 and batch = "[]" and m = True])
    (use assms commit_okD(1) [OF assms(1)] in \<open>auto simp: flush_leader_def commit_defs batch_ok_def error_free_def\<close>)

lemma flush_one_ok:
  assumes "commit_ok env s" "gc_pc s t = Flushing p e tot batch True" "flush_one env fails t p e tot batch s = Some s'" "\<forall>c. ge_cache env c \<noteq> []"
  shows "commit_ok env s'"
proof -
  obtain c cs where qc: "gc_flush_queue s = c # cs"
    using assms(3) by (cases "gc_flush_queue s") (auto simp: flush_one_def pop_front_def)
  obtain r s1 where r: "flush_thread_caches env fails c (s\<lparr>gc_flush_queue := cs\<rparr>) = (r, s1)" by fastforce
  obtain e' tot' where et: "flush_result e tot r = (e', tot')" by fastforce
  have s': "s' = set_pc t (Flushing p e' tot' (batch @ [c]) (cs \<noteq> [])) s1"
    using assms(3) by (simp add: flush_one_def pop_front_def qc r et)
  have "batch_ok env p tot batch (s\<lparr>gc_flush_queue := cs\<rparr>)"
    using flushing_okD [OF assms(1,2)] by simp
  from flush_thread_caches_batch [OF this r et] assms(4) have b: "batch_ok env p tot' (batch @ [c]) s'"
    by (simp add: s' batch_ok_def set_pc_def error_free_def)
  show ?thesis
    by (rule flush_stage_ok [OF assms(1) _ _ _ _ b, where t = t and m = "cs \<noteq> []"])
      (use assms(2) log_lock_okD [OF assms(1,2)] flush_thread_caches_frame [OF r] qc all_takenI [OF assms(2)] in \<open>auto simp: s' set_pc_def error_free_def\<close>)
qed

lemma flush_rest_ok:
  assumes "commit_ok env s" "gc_pc s t = Flushing p e tot batch True" "\<forall>c. ge_cache env c \<noteq> []"
  shows "commit_ok env (flush_rest env fails t p e tot batch s)"
proof -
  obtain e' tot' s1 where r: "flush_queue env fails (gc_flush_queue s) (e, tot) (s\<lparr>gc_flush_queue := []\<rparr>) = ((e', tot'), s1)" by (metis surj_pair)
  have s': "flush_rest env fails t p e tot batch s = set_pc t (Flushing p e' tot' (batch @ gc_flush_queue s) False) s1" (is "?s = _")
    by (simp add: flush_rest_def fetch_and_empty_def r)
  have "batch_ok env p tot batch (s\<lparr>gc_flush_queue := []\<rparr>)"
    using flushing_okD [OF assms(1,2)] by simp
  from flush_queue_batch [OF this r assms(3)] have b: "batch_ok env p tot' (batch @ gc_flush_queue s) ?s"
    by (simp add: s' batch_ok_def set_pc_def error_free_def)
  show ?thesis
    by (rule flush_stage_ok [OF assms(1) _ _ _ _ b, where t = t and m = False])
      (use assms(2) log_lock_okD [OF assms(1,2)] flush_queue_frame [OF r] all_takenI [OF assms(2)] in \<open>auto simp: s' set_pc_def error_free_def\<close>)
qed

lemma end_flush_ok:
  assumes "commit_ok env s" "gc_pc s t = Flushing p e tot q False" "end_flush env io_ok t p e tot q s = Some s'"
    and "ge_abort_server env" "gc_up s'"
  shows "commit_ok env s'"
  using assms(3)
proof (cases rule: end_flush_cases)
  case (2 s2 e2)
  let ?p = "if gc_sync_queue s = [] then Sync_leader e2 tot else Follower"
  note fr = 2(1) [unfolded flush_frame_def] and ack = 2(4) [OF assms(4)]
  have pc: "gc_pc s' = (gc_pc s)(t := ?p)" using fr by (simp add: 2(3) enter_sync_pc)
  have err: "error_free s' a \<Longrightarrow> error_free s a" for a using fr by (simp add: 2(3) enter_sync_pc error_free_def)
  have lock: "gc_lock s LOCK_log = Some t" using log_lock_okD [OF assms(1,2)] by simp
  have fl: "flushing_ok env s'"
    using err fr by (intro flushing_ok_same [OF commit_okD(2) [OF assms(1)]]) (auto simp: 2(3) enter_sync_pc(1,8) split: if_splits)
  have ll: "log_lock_ok env s'"
    using lock fr by (intro log_lock_ok_update [OF commit_okD(6) [OF assms(1)] pc]) (auto simp: 2(3) enter_sync_pc(3) split: if_splits)
  have tk: "all_taken s' \<subseteq> all_taken s" using pc_update(2) [OF pc] by (auto split: if_splits)
  have car: "all_carried s' \<subseteq> all_carried s" using pc_update(1) [OF pc] by (auto split: if_splits)
  have out: "gc_pc s' a = Outside \<longleftrightarrow> gc_pc s a = Outside" for a using pc assms(2) by (auto split: if_splits)
  have past: "past s' a \<Longrightarrow> past s a \<or> a \<in> set q" for a
    using fr car out by (auto simp: past_def 2(3) enter_sync_pc)
  have q: "acked env s' a" if "a \<in> set q" "error_free s a" for a
    using flushing_okD [OF assms(1,2)] that ack by (auto simp: batch_ok_def acked_def 2(3) enter_sync_pc)
  show ?thesis
  proof (rule commit_ok_step [OF assms(1) _ _ fl ll])
    show "gc_open s'" "set (gc_acked s) \<subseteq> set (gc_acked s')" using commit_okD(1) [OF assms(1)] ack fr by (simp_all add: 2(3) enter_sync_pc)
    show "past s a \<and> error_free s a \<or> acked env s' a" if "past s' a" "error_free s' a" for a
      using past [OF that(1)] err [OF that(2)] q [of a] by blast
    show "a \<in> set (gc_engine s) \<and> (error_free s' a \<longrightarrow> error_free s a) \<or>
        past s a \<and> (error_free s a \<or> ge_order_commits env \<and> \<not> error_free s' a)" if "a \<in> set (gc_engine s')" for a
      using that err fr by (simp add: 2(3) enter_sync_pc)
    show "gc_pc s a = Outside \<and> (a \<in> set (gc_flush_queue s') \<or> a \<in> set (gc_engine s') \<or> past s' a \<or> a \<in> all_taken s' \<longrightarrow>
       a \<in> set (gc_flush_queue s) \<or> a \<in> set (gc_engine s) \<or> past s a \<or> a \<in> all_taken s)" if "gc_pc s' a = Outside" for a
      using that out past [of a] tk fr all_takenI [OF assms(2)] by (auto simp: 2(3) enter_sync_pc)
  qed
qed (use assms(5) in simp)

text \<open>The invariant, also for a process that has ended.\<close>

definition server_ok :: "'h commit_env \<Rightarrow> 'h group_commit \<Rightarrow> bool" where
  "server_ok env s \<longleftrightarrow> threads_ok env s \<and> engine_ok env s \<and> (gc_up s \<longrightarrow> commit_ok env s)"

lemma commit_ok_engine: "commit_ok env s \<Longrightarrow> engine_ok env s"
  by (simp add: commit_ok_def)

lemma flush_frame_engine: "flush_frame s s' \<Longrightarrow> engine_ok env s \<Longrightarrow> engine_ok env s'"
  unfolding flush_frame_def engine_ok_def error_free_def using acked_mono [of env s _ s'] by auto

lemma commit_step_up: "commit_step env s s' \<Longrightarrow> gc_up s"
  by (cases rule: commit_step.cases) auto

lemma commit_step_ok:
  assumes "commit_step env s s'" "threads_ok env s" "commit_ok env s" "ge_abort_server env" "\<forall>t. ge_cache env t \<noteq> []"
  shows "engine_ok env s' \<and> (gc_up s' \<longrightarrow> commit_ok env s')"
  using assms(1)
proof cases
  case (flushed t p e tot batch io_ok)
  show ?thesis
  proof (cases "gc_up s'")
    case True
    then show ?thesis using end_flush_ok [OF assms(3) flushed(2,3) assms(4)] commit_ok_engine by blast
  next
    case False
    from flushed(3) have "flush_frame s s'" by (cases rule: end_flush_cases) (use False in \<open>auto simp: enter_sync_pc\<close>)
    with False show ?thesis using flush_frame_engine commit_ok_engine [OF assms(3)] by blast
  qed
next
  case (signal t queue sync_error)
  show ?thesis
  proof (cases "gc_up s'")
    case True
    then show ?thesis using end_commit_ok [OF assms(3) signal(3) assms(4)] commit_ok_engine signal(1) by blast
  next
    case False
    then have "s' = s\<lparr>gc_up := False\<rparr>"
      using signal(1,2) by (auto simp: end_commit_def handle_binlog_flush_or_sync_error_def signal_done_def set_pc_def Let_def split: if_splits)
    then show ?thesis using commit_ok_engine [OF assms(3)] by (simp add: engine_ok_def acked_def error_free_def)
  qed
next
  case (finish t ok)
  then have "gc_pc s t \<noteq> Outside" "\<not> td_pending (gc_thd s t)" using threads_okD(5) [OF assms(2), of t] by auto
  then show ?thesis using finish_commit_ok [OF assms(3)] commit_ok_engine finish(1) by blast
qed (use assms(2-) in \<open>blast intro: commit_ok_engine start_ok flush_leader_ok flush_one_ok flush_rest_ok
  sync_stage_ok commit_stage_ok commit_leader_ok rotate_ok\<close>)+

lemma commit_reach_ok:
  assumes "commit_reach env h s" "ge_abort_server env" "\<forall>t. ge_cache env t \<noteq> []"
  shows "server_ok env s"
  using assms(1)
proof induction
  case init
  show ?case
    by (simp add: server_ok_def commit_init_def threads_ok_def leader_ok_def engine_ok_def commit_ok_def log_lock_ok_def flushing_ok_def
        started_ok_def past_def all_carried_def all_taken_def)
next
  case (step s s')
  then show ?case
    using one_leader_step [OF step(2)] commit_step_ok [OF step(2) _ _ assms(2,3)] commit_step_up [OF step(2)] by (simp add: server_ok_def)
qed

text \<open>Where the successful calls of the hooks come from.\<close>

lemma call_hooks_acked:
  assumes "call_hooks env p pos s = Some (e, s')" "data \<in> set (gc_acked s')"
  shows "data \<in> set (gc_acked s) \<or>
    run_after_flush (ge_observers env) (ge_dir env) (gc_name s) p (gc_name s) pos (ge_show env (gc_name s) (gc_file s) (gc_hook s)) =
       Some (Returned 0, gc_hook s') \<and> data = take (pos - p) (drop p (gc_file s))"
  using assms by (auto simp: call_hooks_def Let_def split: hook_end.splits bind_splits if_splits)

lemma end_flush_acked:
  assumes "end_flush env io_ok t p e tot q s = Some s'" "data \<in> set (gc_acked s')"
  shows "data \<in> set (gc_acked s) \<or>
    (\<exists>pos. run_after_flush (ge_observers env) (ge_dir env) (gc_name s) p (gc_name s) pos (ge_show env (gc_name s) (gc_file s) (gc_hook s)) =
       Some (Returned 0, gc_hook s') \<and> data = take (pos - p) (drop p (gc_file s)))"
proof -
  obtain e1 pos s1 where 1: "(if e = 0 \<and> tot > 0 then flush_cache_to_file io_ok t s else ((e, 0), s)) = ((e1, pos), s1)" by (metis surj_pair)
  then have s1: "gc_acked s1 = gc_acked s \<and> gc_name s1 = gc_name s \<and> gc_file s1 = gc_file s \<and> gc_hook s1 = gc_hook s"
    by (auto simp: flush_cache_to_file_def set_error_def split: if_splits)
  from assms(1) obtain e2 s2 where 2: "(if e1 = 0 then call_hooks env p pos s1 else Some (e1, s1)) = Some (e2, s2)"
    and 3: "s' = (if \<not> gc_up s2 then s2 else let s = (if e2 \<noteq> 0 then handle_binlog_flush_or_sync_error env s2 else s2)
              in if \<not> gc_up s then s else enter_sync env t q e2 tot s)"
    unfolding end_flush_def 1 by (auto split: bind_splits)
  have "gc_acked s' = gc_acked s2" "gc_hook s' = gc_hook s2" using 3 by (simp_all add: enter_sync_pc enter_sync_def commit_defs handle_binlog_flush_or_sync_error_def Let_def split: if_splits)
  with assms(2) 2 s1 call_hooks_acked [of env p pos s1 e2 s2 data] show ?thesis by (cases "e1 = 0") auto
qed

lemma commit_step_acked:
  assumes "commit_step env s s'" "data \<in> set (gc_acked s')"
  shows "data \<in> set (gc_acked s) \<or>
    (\<exists>p pos. run_after_flush (ge_observers env) (ge_dir env) (gc_name s) p (gc_name s) pos (ge_show env (gc_name s) (gc_file s) (gc_hook s)) =
       Some (Returned 0, gc_hook s') \<and> data = take (pos - p) (drop p (gc_file s)))"
  using assms(1)
proof cases
  case (flush t p e tot batch fails)
  then have "gc_acked s' = gc_acked s"
    by (auto simp: flush_one_def pop_front_def set_pc_def flush_thread_caches_frame split: list.splits prod.splits)
  with assms(2) show ?thesis by simp
next
  case (time_out t p e tot batch fails')
  obtain e' tot' s1 where r: "flush_queue env fails' (gc_flush_queue s) (e, tot) (s\<lparr>gc_flush_queue := []\<rparr>) = ((e', tot'), s1)" by (metis surj_pair)
  with time_out have "gc_acked s' = gc_acked s" by (simp add: flush_rest_def fetch_and_empty_def set_pc_def flush_queue_frame [OF r])
  with assms(2) show ?thesis by simp
next
  case (flushed t p e tot batch io_ok)
  from end_flush_acked [OF flushed(3) assms(2)] show ?thesis by blast
qed (use assms(2) in \<open>auto simp: start_commit_def enter_flush_def flush_leader_def sync_stage_def commit_stage_def enter_commit_def commit_leader_def
  process_commit_stage_queue_frame end_commit_def signal_done_def handle_binlog_flush_or_sync_error_def finish_commit_def ha_commit_low_def
  commit_defs split: if_splits\<close>)

lemma reach_acked:
  assumes "commit_reach env h s" "data \<in> set (gc_acked s)"
  shows "\<exists>s1 s2 p pos. commit_reach env h s1 \<and> commit_step env s1 s2 \<and> (commit_step env)\<^sup>*\<^sup>* s2 s \<and>
    run_after_flush (ge_observers env) (ge_dir env) (gc_name s1) p (gc_name s1) pos (ge_show env (gc_name s1) (gc_file s1) (gc_hook s1)) =
      Some (Returned 0, gc_hook s2) \<and> data = take (pos - p) (drop p (gc_file s1))"
  using assms
proof (induction rule: commit_reach.induct)
  case (step s s')
  from commit_step_acked [OF step(2,4)] show ?case
  proof
    assume "data \<in> set (gc_acked s)"
    from step(3) [OF this] step(2) show ?thesis by (metis rtranclp.rtrancl_into_rtrancl)
  next
    assume "\<exists>p pos. run_after_flush (ge_observers env) (ge_dir env) (gc_name s) p (gc_name s) pos (ge_show env (gc_name s) (gc_file s) (gc_hook s)) =
       Some (Returned 0, gc_hook s') \<and> data = take (pos - p) (drop p (gc_file s))"
    with step(1,2) show ?thesis by blast
  qed
qed (simp add: commit_init_def)

section \<open>With the plugin\<close>

definition repl_phx_report_binlog_after_flush :: "'n client \<Rightarrow> string \<Rightarrow> bool \<Rightarrow> (binlog_state \<times> 'n) after_flush" where
  "repl_phx_report_binlog_after_flush c server_uuid super_read_only dir_path prev_log_file_name prev_log_pos log_file_name log_pos h =
     (case h of (st, n) \<Rightarrow>
        repl_phx_report_binlog_to_binlogsvr c server_uuid super_read_only dir_path prev_log_file_name prev_log_pos log_file_name log_pos st n)"

definition storage_observer2 :: "'n client \<Rightarrow> string \<Rightarrow> bool \<Rightarrow> (binlog_state \<times> 'n) observer_info" where
  "storage_observer2 c server_uuid super_read_only =
     \<lparr>ob_observer = 2, ob_plugin = True, ob_after_flush = Some (repl_phx_report_binlog_after_flush c server_uuid super_read_only)\<rparr>"

definition phx_sync_master_plugin_init ::
  "'n client \<Rightarrow> string \<Rightarrow> bool \<Rightarrow> (binlog_state \<times> 'n) observer_info list \<Rightarrow> int \<times> (binlog_state \<times> 'n) observer_info list" where
  "phx_sync_master_plugin_init c server_uuid super_read_only infos =
     (case add_observer (storage_observer2 c server_uuid super_read_only) infos of (e, infos) \<Rightarrow> (if e then 1 else 0, infos))"

definition phx_sync_master_plugin_deinit :: "(binlog_state \<times> 'n) observer_info list \<Rightarrow> int \<times> (binlog_state \<times> 'n) observer_info list" where
  "phx_sync_master_plugin_deinit infos = (case remove_observer 2 infos of (e, infos) \<Rightarrow> (if e then 1 else 0, infos))"

lemma plugin_init_deinit:
  assumes "\<forall>i\<in>set infos. ob_observer i \<noteq> 2"
  shows "phx_sync_master_plugin_init c u ro infos = (0, infos @ [storage_observer2 c u ro])"
    and "phx_sync_master_plugin_deinit (infos @ [storage_observer2 c u ro]) = (0, infos)"
proof -
  have "dropWhile (\<lambda>i. ob_observer i \<noteq> 2) (infos @ [storage_observer2 c u ro]) = [storage_observer2 c u ro]"
    "takeWhile (\<lambda>i. ob_observer i \<noteq> 2) (infos @ [storage_observer2 c u ro]) = infos"
    using assms by (auto simp: dropWhile_append2 takeWhile_append2 storage_observer2_def)
  then show "phx_sync_master_plugin_deinit (infos @ [storage_observer2 c u ro]) = (0, infos)"
    by (simp add: phx_sync_master_plugin_deinit_def remove_observer_def)
  show "phx_sync_master_plugin_init c u ro infos = (0, infos @ [storage_observer2 c u ro])"
    using assms by (auto simp: phx_sync_master_plugin_init_def add_observer_def storage_observer2_def list_ex_iff)
qed

text \<open>
  A writable MySQL with the plugin. \<open>abort_server\<close> says whether \<^verbatim>\<open>binlog_error_action\<close> is \<^verbatim>\<open>ABORT_SERVER\<close>, and
  \<open>order_commits\<close> is \<^verbatim>\<open>binlog_order_commits\<close>.
\<close>

definition phx_commit_env ::
  "'n client \<Rightarrow> string \<Rightarrow> string \<Rightarrow> bool \<Rightarrow> bool \<Rightarrow> nat \<Rightarrow> (txn \<Rightarrow> bytes) \<Rightarrow> (binlog_state \<times> 'n) commit_env" where
  "phx_commit_env c server_uuid dir_path abort_server order_commits sync_period cache =
     \<lparr>ge_cache = cache, ge_observers = snd (phx_sync_master_plugin_init c server_uuid False []), ge_dir = dir_path,
      ge_show = (\<lambda>name file (st, n). (st\<lparr>bs_files := (bs_files st)(dir_path @ ''/'' @ name \<mapsto> file)\<rparr>, n)),
      ge_order_commits = order_commits, ge_abort_server = abort_server, ge_sync_period = sync_period\<rparr>"

text \<open>
  A step of MySQL that had data stored: from the state of the plugin and the network before the step, some
  attempts failed, and in the one that follows the binlog server, as the master, stored the data under the newest
  GTID in it, which is the newest GTID the plugin has sent after the step.
\<close>

definition stored_step ::
  "'n client \<Rightarrow> ('w, 'q, 'd, 'm) svrenv \<Rightarrow> ('n \<Rightarrow> ('w, 'q) monitor) \<Rightarrow> binlog_state \<times> 'n \<Rightarrow> binlog_state \<times> 'n \<Rightarrow> bytes \<Rightarrow> bool" where
  "stored_step c v view h h' data \<longleftrightarrow>
     (\<exists>evs gs n1. ParseEventList data False [] = Some (0, evs, bs_last_gtid (fst h'), gs) \<and>
        retries c (bs_last_gtid (fst h)) data (snd h) n1 \<and>
        stored_as v (bs_last_gtid (fst h')) data (view n1) (view (snd h')))"

lemma read_flushed_data:
  assumes "read_flushed dir name p name pos (st\<lparr>bs_files := (bs_files st)(dir @ ''/'' @ name \<mapsto> file)\<rparr>) = Some (True, buf)"
  shows "buf = take (pos - p) (drop p file)"
  using assms by (auto simp: read_flushed_def repl_phx_read_binlog_buffer_def open_binlog_file_def rd_def Let_def split: bind_splits if_splits)

lemma phx_hook_stored:
  assumes "delivers (cl_api c) v view" "codec_ok (rk_binlog (cl_codecs c))" "cl_codecs (sr_client v) = cl_codecs c"
    and "paxos_ok (mv_env (sr_mon v)) (mv_px (sr_mon v))" "codec_ok (ne_paxos (mv_env (sr_mon v)))"
    and "env = phx_commit_env c u dir abort order period cache"
    and "run_after_flush (ge_observers env) (ge_dir env) name p name pos (ge_show env name file h) = Some (Returned 0, h')"
  shows "stored_step c v view h h' (take (pos - p) (drop p file))"
proof -
  obtain st n st' n' where h: "h = (st, n)" "h' = (st', n')" by fastforce
  have "repl_phx_report_binlog_to_binlogsvr c u False dir name p name pos (st\<lparr>bs_files := (bs_files st)(dir @ ''/'' @ name \<mapsto> file)\<rparr>) n =
      Some (Returned 0, st', n')"
    using assms(7) by (auto simp: assms(6) h phx_commit_env_def plugin_init_deinit(1) run_after_flush_def storage_observer2_def
        repl_phx_report_binlog_after_flush_def split: bind_splits hook_end.splits if_splits)
  from assms(1-5) this show ?thesis
    by (rule hook_stored) (use read_flushed_data in \<open>fastforce simp: stored_step_def h\<close>)
qed

lemma part_of_take_drop: "part_of (take k (drop p xs)) xs"
  unfolding part_of_def by (metis append_take_drop_id)

section \<open>Runs\<close>

text \<open>The flush stage of a single transaction, up to the call of the hooks.\<close>

definition written :: "'h commit_env \<Rightarrow> string \<Rightarrow> bytes \<Rightarrow> 'h \<Rightarrow> 'h group_commit" where
  "written env name file h = (commit_init name (file @ ge_cache env 0) h)
     \<lparr>gc_lock := (\<lambda>_. None)(LOCK_log := Some 0),
      gc_thd := (gc_thd (commit_init name file h))(0 := \<lparr>td_pending = True, td_commit_low = True, td_commit_error = CE_NONE\<rparr>),
      gc_pc := (\<lambda>_. Outside)(0 := Flushing (length file) 0 (length (ge_cache env 0)) [0] False)\<rparr>"

lemma reach_written: "commit_reach env h (written env name file h)"
proof -
  let ?s0 = "commit_init name file h"
  let ?s1 = "start_commit False 0 ?s0"
  let ?s2 = "flush_leader 0 ?s1"
  have "commit_reach env h ?s1" by (rule commit_reach.step [OF commit_reach.init commit_step.start]) (simp_all add: commit_init_def)
  then have "commit_reach env h ?s2"
    by (rule commit_reach.step [OF _ commit_step.flush_lock]) (simp_all add: commit_init_def start_commit_def enter_flush_def commit_defs)
  then show ?thesis
    by (rule commit_reach.step [OF _ commit_step.flush [where t = 0 and fails = None and p = "length file" and e = 1 and tot = 0 and batch = "[]"]])
      (simp_all add: written_def commit_init_def start_commit_def enter_flush_def flush_leader_def flush_one_def pop_front_def
        flush_thread_caches_def flush_result_def commit_defs)
qed

text \<open>A transaction that the hooks accept is committed.\<close>

lemma commit_alone:
  assumes "run_after_flush (ge_observers env) (ge_dir env) name (length file) name (length (file @ ge_cache env 0))
      (ge_show env name (file @ ge_cache env 0) h) = Some (Returned 0, h')"
    and "ge_cache env 0 \<noteq> []" "\<not> ge_order_commits env"
  shows "\<exists>s. commit_reach env h s \<and> gc_engine s = [0]"
proof -
  define s4 where "s4 = enter_sync env 0 [0] 0 (length (ge_cache env 0)) ((written env name file h)\<lparr>gc_hook := h', gc_acked := [ge_cache env 0]\<rparr>)"
  define s5 where "s5 = sync_stage env True 0 0 (length (ge_cache env 0)) s4"
  define s6 where "s6 = commit_stage env 0 [0] False LOCK_sync s5"
  define s7 where "s7 = end_commit env 0 [0] False s6"
  note defs = s4_def written_def commit_init_def enter_sync_def commit_defs
  have "end_flush env True 0 (length file) 0 (length (ge_cache env 0)) [0] (written env name file h) = Some s4"
    using assms(1,2) by (simp add: end_flush_def flush_cache_to_file_def call_hooks_def s4_def written_def commit_init_def Let_def)
  then have "commit_reach env h s4"
    by (rule commit_reach.step [OF reach_written commit_step.flushed, rotated 2]) (simp_all add: written_def commit_init_def)
  then have "commit_reach env h s5"
    unfolding s5_def by (rule commit_reach.step [OF _ commit_step.sync]) (simp_all add: defs)
  then have "commit_reach env h s6"
    unfolding s6_def by (rule commit_reach.step [OF _ commit_step.commit]) (simp_all add: s5_def sync_stage_def defs)
  then have "commit_reach env h s7"
    unfolding s7_def by (rule commit_reach.step [OF _ commit_step.signal])
      (use assms(3) in \<open>simp_all add: s6_def commit_stage_def s5_def sync_stage_def defs\<close>)
  then have "commit_reach env h (finish_commit True 0 s7)"
    by (rule commit_reach.step [OF _ commit_step.finish])
      (use assms(3) in \<open>simp_all add: s7_def end_commit_def signal_done_def s6_def commit_stage_def s5_def sync_stage_def defs\<close>)
  moreover have "gc_engine (finish_commit True 0 s7) = [0]"
    using assms(3) by (simp add: finish_commit_def ha_commit_low_def s7_def end_commit_def signal_done_def s6_def commit_stage_def s5_def sync_stage_def defs)
  ultimately show ?thesis by blast
qed

text \<open>
  C4: no transaction is committed before a binlog server has it. However the threads of a MySQL with the plugin
  interleave, when the engines have committed a transaction, then an earlier step of this run called the plugin
  with a piece of the binlog that contains the transaction, and the server the plugin talked to was the master
  and stored that piece, or had its newest GTID already. This needs \<^verbatim>\<open>binlog_error_action=ABORT_SERVER\<close>; with ordered
  commits it holds for the transactions whose commit had no error. No transaction is empty.
\<close>

theorem committed_transactions_stored:
  assumes "delivers (cl_api c) v view" "codec_ok (rk_binlog (cl_codecs c))" "cl_codecs (sr_client v) = cl_codecs c"
    and "paxos_ok (mv_env (sr_mon v)) (mv_px (sr_mon v))" "codec_ok (ne_paxos (mv_env (sr_mon v)))"
    and "abort_server" "\<forall>t. cache t \<noteq> []"
    and "commit_reach (phx_commit_env c server_uuid dir_path abort_server order_commits sync_period cache) h s"
    and "t \<in> set (gc_engine s)" "order_commits \<Longrightarrow> error_free s t"
  shows "\<exists>s1 s2 data. commit_reach (phx_commit_env c server_uuid dir_path abort_server order_commits sync_period cache) h s1 \<and>
    commit_step (phx_commit_env c server_uuid dir_path abort_server order_commits sync_period cache) s1 s2 \<and>
    (commit_step (phx_commit_env c server_uuid dir_path abort_server order_commits sync_period cache))\<^sup>*\<^sup>* s2 s \<and>
    part_of (cache t) data \<and> part_of data (gc_file s1) \<and> stored_step c v view (gc_hook s1) (gc_hook s2) data"
proof -
  let ?env = "phx_commit_env c server_uuid dir_path abort_server order_commits sync_period cache"
  have e: "ge_cache ?env = cache" "ge_abort_server ?env" "ge_order_commits ?env = order_commits" using assms(6) by (simp_all add: phx_commit_env_def)
  have "server_ok ?env s" using commit_reach_ok [OF assms(8)] assms(7) e by simp
  then obtain data where d: "data \<in> set (gc_acked s)" "part_of (cache t) data"
    using assms(9,10) e by (auto simp: server_ok_def engine_ok_def acked_def)
  from reach_acked [OF assms(8) d(1)] obtain s1 s2 p pos where r: "commit_reach ?env h s1" "commit_step ?env s1 s2" "(commit_step ?env)\<^sup>*\<^sup>* s2 s"
    "run_after_flush (ge_observers ?env) (ge_dir ?env) (gc_name s1) p (gc_name s1) pos (ge_show ?env (gc_name s1) (gc_file s1) (gc_hook s1)) =
      Some (Returned 0, gc_hook s2)" "data = take (pos - p) (drop p (gc_file s1))" by blast
  have "stored_step c v view (gc_hook s1) (gc_hook s2) data" unfolding r(5) by (rule phx_hook_stored [OF assms(1-5) refl r(4)])
  moreover have "part_of data (gc_file s1)" unfolding r(5) by (rule part_of_take_drop)
  ultimately show ?thesis using r(1-3) d(2) by blast
qed

theorem committed_transactions_stored_witness:
  "\<exists>s s1 s2 data. commit_reach (phx_commit_env hook_client ''u'' ''/b'' True False 1 (\<lambda>_. hook_event)) (hook_files, hook_monitor) s \<and> 0 \<in> set (gc_engine s) \<and>
     commit_step (phx_commit_env hook_client ''u'' ''/b'' True False 1 (\<lambda>_. hook_event)) s1 s2 \<and>
     (commit_step (phx_commit_env hook_client ''u'' ''/b'' True False 1 (\<lambda>_. hook_event)))\<^sup>*\<^sup>* s2 s \<and>
     part_of hook_event data \<and> stored_step hook_client hook_svr id (gc_hook s1) (gc_hook s2) data"
proof -
  let ?env = "phx_commit_env hook_client ''u'' ''/b'' True False 1 (\<lambda>_. hook_event)"
  obtain n' where r: "repl_phx_report_binlog_to_binlogsvr hook_client ''u'' False ''/b'' ''l.1'' 4 ''l.1'' 48 hook_files hook_monitor =
      Some (Returned 0, hook_files\<lparr>bs_last_gtid := hook_gtid\<rparr>, n')" using hook_report by blast
  have f: "hook_files\<lparr>bs_files := (bs_files hook_files)(''/b/l.1'' \<mapsto> BINLOG_MAGIC @ hook_event)\<rparr> = hook_files"
    by (simp add: hook_files_def)
  have "length BINLOG_MAGIC = 4" by (simp add: BINLOG_MAGIC_def)
  then have "run_after_flush (ge_observers ?env) (ge_dir ?env) ''l.1'' (length BINLOG_MAGIC) ''l.1'' (length (BINLOG_MAGIC @ ge_cache ?env 0))
      (ge_show ?env ''l.1'' (BINLOG_MAGIC @ ge_cache ?env 0) (hook_files, hook_monitor)) = Some (Returned 0, hook_files\<lparr>bs_last_gtid := hook_gtid\<rparr>, n')"
    using r f by (simp add: phx_commit_env_def plugin_init_deinit(1) run_after_flush_def storage_observer2_def
        repl_phx_report_binlog_after_flush_def hook_facts)
  then obtain s where s: "commit_reach ?env (hook_files, hook_monitor) s" "gc_engine s = [0]"
    using commit_alone hook_facts(2) by (fastforce simp: phx_commit_env_def)
  from committed_transactions_stored [OF hook_world TrueI _ s(1), of 0] s(2)
  have "\<exists>s1 s2 data. commit_reach ?env (hook_files, hook_monitor) s1 \<and> commit_step ?env s1 s2 \<and> (commit_step ?env)\<^sup>*\<^sup>* s2 s \<and>
      part_of hook_event data \<and> part_of data (gc_file s1) \<and> stored_step hook_client hook_svr id (gc_hook s1) (gc_hook s2) data"
    by (simp add: hook_facts)
  then obtain s1 s2 data where x: "commit_step ?env s1 s2" "(commit_step ?env)\<^sup>*\<^sup>* s2 s" "part_of hook_event data"
    "stored_step hook_client hook_svr id (gc_hook s1) (gc_hook s2) data" by blast
  show ?thesis by (rule exI [of _ s], rule exI [of _ s1], rule exI [of _ s2], rule exI [of _ data]) (intro conjI s(1) x, simp add: s(2))
qed

section \<open>After an error that is ignored\<close>

text \<open>A closed binlog stays closed, and the hooks are not called any more.\<close>

definition closed :: "'h group_commit \<Rightarrow> bool" where
  "closed s \<longleftrightarrow> \<not> gc_open s \<and> (\<forall>l p e tot batch m. gc_pc s l \<noteq> Flushing p e tot batch m)"

lemma closed_step:
  assumes "commit_step env s s'" "closed s"
  shows "closed s' \<and> gc_hook s' = gc_hook s \<and> gc_acked s' = gc_acked s"
  using assms(1)
  by cases (use assms(2) in \<open>auto simp: closed_def start_commit_def enter_flush_def flush_leader_def sync_stage_def commit_stage_def enter_commit_def
    commit_leader_def process_commit_stage_queue_frame end_commit_def signal_done_def handle_binlog_flush_or_sync_error_def finish_commit_def
    ha_commit_low_def commit_defs split: if_splits\<close>)

lemma closed_steps: "(commit_step env)\<^sup>*\<^sup>* s s' \<Longrightarrow> closed s \<Longrightarrow> closed s' \<and> gc_hook s' = gc_hook s \<and> gc_acked s' = gc_acked s"
  by (induction rule: rtranclp_induct) (auto dest: closed_step)

text \<open>
  C36: with \<^verbatim>\<open>IGNORE_ERROR\<close>, the value \<^verbatim>\<open>mysqld.cc\<close> starts with, MySQL commits transactions that were never sent. After the
  binlog could not be written once it is closed; from then on, whatever steps follow, it stays closed and the
  hooks are not called, and a transaction that starts only now is committed by the engines.
\<close>

theorem ignored_error_commits_unsent:
  fixes env :: "'h commit_env"
  assumes "env' = env\<lparr>ge_abort_server := False, ge_order_commits := False, ge_sync_period := 0, ge_cache := \<lambda>_. [1]\<rparr>"
  shows "\<exists>s1 s. commit_reach env' h s1 \<and> td_commit_error (gc_thd s1 0) = CE_FLUSH_ERROR \<and> \<not> gc_open s1 \<and> gc_acked s1 = [] \<and>
     gc_pc s1 1 = Outside \<and>
     (\<forall>s'. (commit_step env')\<^sup>*\<^sup>* s1 s' \<longrightarrow> \<not> gc_open s' \<and> gc_hook s' = h \<and> gc_acked s' = []) \<and>
     (commit_step env')\<^sup>*\<^sup>* s1 s \<and> gc_engine s = [1]"
proof -
  let ?s3 = "written env' [] [] h"
  define s4 where "s4 = enter_sync env' 0 [0] ER_ERROR_ON_WRITE 1 ((set_error 0 CE_FLUSH_ERROR ?s3)\<lparr>gc_open := False\<rparr>)"
  define s5 where "s5 = start_commit False 1 s4"
  define s6 where "s6 = flush_leader 1 s5"
  define s7 where "s7 = commit_stage env' 1 [1] False LOCK_log s6"
  define s8 where "s8 = end_commit env' 1 [1] False s7"
  define s9 where "s9 = finish_commit True 1 s8"
  have env: "ge_cache env' = (\<lambda>_. [1])" "\<not> ge_abort_server env'" "\<not> ge_order_commits env'" "ge_sync_period env' = 0" by (simp_all add: assms)
  note defs = s4_def written_def commit_init_def enter_sync_def commit_defs env
  have "end_flush env' False 0 0 0 1 [0] ?s3 = Some s4"
    by (simp add: end_flush_def flush_cache_to_file_def handle_binlog_flush_or_sync_error_def ER_ERROR_ON_WRITE_def defs)
  then have 4: "commit_reach env' h s4"
    by (rule commit_reach.step [OF reach_written commit_step.flushed, rotated 2]) (simp_all add: written_def commit_init_def env)
  have 5: "commit_step env' s4 s5" unfolding s5_def by (rule commit_step.start) (simp_all add: defs)
  have 6: "commit_step env' s5 s6" unfolding s6_def by (rule commit_step.flush_lock) (simp_all add: s5_def start_commit_def enter_flush_def defs)
  have 7: "commit_step env' s6 s7"
    unfolding s7_def by (rule commit_step.commit) (simp_all add: s6_def flush_leader_def s5_def start_commit_def enter_flush_def defs)
  note later = s7_def commit_stage_def s6_def flush_leader_def s5_def start_commit_def enter_flush_def defs
  have 8: "commit_step env' s7 s8" unfolding s8_def by (rule commit_step.signal) (simp_all add: later)
  have 9: "commit_step env' s8 s9" unfolding s9_def by (rule commit_step.finish) (simp_all add: s8_def end_commit_def signal_done_def later)
  have run: "(commit_step env')\<^sup>*\<^sup>* s4 s9" using 5 6 7 8 9 by (meson converse_rtranclp_into_rtranclp r_into_rtranclp)
  have "gc_engine s9 = [1]" by (simp add: s9_def finish_commit_def ha_commit_low_def s8_def end_commit_def signal_done_def later)
  moreover have s4: "closed s4" "gc_hook s4 = h" "gc_acked s4 = []" "td_commit_error (gc_thd s4 0) = CE_FLUSH_ERROR" "gc_pc s4 1 = Outside"
    by (simp_all add: closed_def defs)
  moreover have "\<not> gc_open s' \<and> gc_hook s' = h \<and> gc_acked s' = []" if "(commit_step env')\<^sup>*\<^sup>* s4 s'" for s'
    using closed_steps [OF that s4(1)] s4(2,3) by (simp add: closed_def)
  ultimately show ?thesis using 4 run by (intro exI [of _ s4] exI [of _ s9]) (simp add: closed_def)
qed

theorem ignored_error_commits_unsent_witness:
  "\<exists>s1 s. commit_reach (phx_commit_env hook_client ''u'' ''/b'' False False 0 (\<lambda>_. [1])) (hook_files, hook_monitor) s1 \<and>
     \<not> gc_open s1 \<and> (commit_step (phx_commit_env hook_client ''u'' ''/b'' False False 0 (\<lambda>_. [1])))\<^sup>*\<^sup>* s1 s \<and>
     gc_engine s = [1] \<and> gc_hook s = (hook_files, hook_monitor)"
proof -
  let ?env = "phx_commit_env hook_client ''u'' ''/b'' False False 0 (\<lambda>_. [1])"
  have "?env = ?env\<lparr>ge_abort_server := False, ge_order_commits := False, ge_sync_period := 0, ge_cache := \<lambda>_. [1]\<rparr>"
    by (simp add: phx_commit_env_def)
  from ignored_error_commits_unsent [OF this, of "(hook_files, hook_monitor)"] show ?thesis by blast
qed

end
