(* ===== verification/Tool.thy ===== *)
theory Tool
  imports Rpc
begin

text \<open>
  The command line tool (\<^verbatim>\<open>phxbinlogsvr/framework/phxrpc/tools/phxbinlog_tool_impl.cpp\<close>), which starts a group of
  binlog servers and changes its members and users through the client of the service. The options come from
  the library of remote calls and are a parameter. Messages are left out; what a command prints of an answer
  is part of its result.
\<close>

section \<open>Commands\<close>

text \<open>
  The text and the number of an option, \<open>None\<close> when it was not given. Using a text that was not given is not
  defined, nor is a port that was never set.
\<close>

record opt_map =
  op_get :: "char \<Rightarrow> string option"
  op_int :: "char \<Rightarrow> u32 option"

record 'n tool =
  tl_api :: "'n rpc_api"
  tl_codecs :: rpc_codecs
  tl_now :: int

definition CreateClient :: "'n tool \<Rightarrow> string \<Rightarrow> u32 \<Rightarrow> 'n client" where
  "CreateClient t ip port = \<lparr>cl_api = tl_api t, cl_codecs = tl_codecs t, cl_ip = ip, cl_port = port\<rparr>"

definition GetMasterIP :: "'n tool \<Rightarrow> string \<Rightarrow> u32 \<Rightarrow> string \<Rightarrow> 'n \<Rightarrow> int \<times> string \<times> 'n" where
  "GetMasterIP t connect_ip connect_port master_ip n =
     (case Client_GetMaster (CreateClient t connect_ip connect_port) (tl_now t) GetMasterInfoFromGlobal (master_ip, 0, 0) n of
        (ret, (master_ip, _), n) \<Rightarrow> (ret, master_ip, n))"

definition Tool_GetMasterInfoFromGlobal :: "'n tool \<Rightarrow> opt_map \<Rightarrow> 'n \<Rightarrow> (int \<times> (string \<times> u32) option \<times> 'n) option" where
  "Tool_GetMasterInfoFromGlobal t opts n = do {
     port \<leftarrow> op_int opts CHR ''p'';
     ip \<leftarrow> op_get opts CHR ''h'';
     Some (case Client_GetMaster (CreateClient t ip port) (tl_now t) GetMasterInfoFromGlobal ([], 0, 0) n of
         (ret, (master_ip, expire_time, _), n) \<Rightarrow> (ret, if ret = 0 then Some (master_ip, expire_time) else None, n))
   }"

text \<open>The other commands first ask for the master and then call it.\<close>

definition on_master :: "'n tool \<Rightarrow> opt_map \<Rightarrow> ('n client \<Rightarrow> 'n \<Rightarrow> (int \<times> 'a \<times> 'n) option) \<Rightarrow> 'a \<Rightarrow> 'n \<Rightarrow> (int \<times> 'a \<times> 'n) option" where
  "on_master t opts f a n = do {
     port \<leftarrow> op_int opts CHR ''p'';
     ip \<leftarrow> op_get opts CHR ''h'';
     (case GetMasterIP t ip port [] n of
        (ret, master_ip, n) \<Rightarrow> if ret \<noteq> 0 then Some (ret, a, n) else f (CreateClient t master_ip port) n)
   }"

definition Tool_GetLastSendGtidFromGlobal :: "'n tool \<Rightarrow> opt_map \<Rightarrow> 'n \<Rightarrow> (int \<times> string \<times> 'n) option" where
  "Tool_GetLastSendGtidFromGlobal t opts n =
     on_master t opts (\<lambda>c n. do {
       uuid \<leftarrow> op_get opts CHR ''u'';
       Some (Client_GetLastSendGtid c GetLastSendGtidFromGlobal uuid [] n)
     }) [] n"

definition Tool_AddMember :: "'n tool \<Rightarrow> opt_map \<Rightarrow> 'n \<Rightarrow> (int \<times> unit \<times> 'n) option" where
  "Tool_AddMember t opts n =
     on_master t opts (\<lambda>c n. do {
       member_ip \<leftarrow> op_get opts CHR ''m'';
       (case Client_AddMember c member_ip n of (ret, n) \<Rightarrow> Some (ret, (), n))
     }) () n"

definition Tool_RemoveMember :: "'n tool \<Rightarrow> opt_map \<Rightarrow> 'n \<Rightarrow> (int \<times> unit \<times> 'n) option" where
  "Tool_RemoveMember t opts n =
     on_master t opts (\<lambda>c n. do {
       member_ip \<leftarrow> op_get opts CHR ''m'';
       (case Client_RemoveMember c member_ip n of (ret, n) \<Rightarrow> Some (ret, (), n))
     }) () n"

definition Tool_SetMySqlAdminInfo :: "'n tool \<Rightarrow> opt_map \<Rightarrow> 'n \<Rightarrow> (int \<times> unit \<times> 'n) option" where
  "Tool_SetMySqlAdminInfo t opts n =
     on_master t opts (\<lambda>c n. do {
       admin_username \<leftarrow> op_get opts CHR ''u'';
       admin_pwd \<leftarrow> op_get opts CHR ''d'';
       new_admin_username \<leftarrow> op_get opts CHR ''U'';
       new_admin_pwd \<leftarrow> op_get opts CHR ''D'';
       (case Client_SetMySqlAdminInfo c admin_username admin_pwd new_admin_username new_admin_pwd n of (ret, n) \<Rightarrow> Some (ret, (), n))
     }) () n"

definition Tool_SetMySqlReplicaInfo :: "'n tool \<Rightarrow> opt_map \<Rightarrow> 'n \<Rightarrow> (int \<times> unit \<times> 'n) option" where
  "Tool_SetMySqlReplicaInfo t opts n =
     on_master t opts (\<lambda>c n. do {
       admin_username \<leftarrow> op_get opts CHR ''u'';
       admin_pwd \<leftarrow> op_get opts CHR ''d'';
       new_username \<leftarrow> op_get opts CHR ''U'';
       new_pwd \<leftarrow> op_get opts CHR ''D'';
       (case Client_SetMySqlReplicaInfo c admin_username admin_pwd new_username new_pwd n of (ret, n) \<Rightarrow> Some (ret, (), n))
     }) () n"

definition Tool_GetMemberList :: "'n tool \<Rightarrow> opt_map \<Rightarrow> 'n \<Rightarrow> (int \<times> (string \<times> u32) list \<times> 'n) option" where
  "Tool_GetMemberList t opts n =
     on_master t opts (\<lambda>c n.
       case Client_GetMemberList c [] 0 n of
         (ret, ip_list, member_port, n) \<Rightarrow> Some (ret, if ret = 0 then map (\<lambda>it. (it, member_port)) ip_list else [], n)) [] n"

section \<open>Starting a group\<close>

fun Tool_GetIPList :: "string \<Rightarrow> string \<Rightarrow> string list" where
  "Tool_GetIPList [] ip = (if ip \<noteq> [] then [ip] else [])"
| "Tool_GetIPList (x # xs) ip = (if x = CHR '','' then ip # Tool_GetIPList xs [] else Tool_GetIPList xs (ip @ [x]))"

text \<open>
  Whether none of the servers has a master. When a server does not answer, the error is returned as a truth
  value, and every error is true.
\<close>

fun CheckIPList_loop :: "'n tool \<Rightarrow> string list \<Rightarrow> u32 \<Rightarrow> 'n \<Rightarrow> bool \<times> 'n" where
  "CheckIPList_loop t [] port n = (True, n)"
| "CheckIPList_loop t (ip # ip_list) port n =
     (case GetMasterIP t ip port [] n of
        (ret, master_ip, n) \<Rightarrow>
          if ret \<noteq> 0 then (ret \<noteq> 0, n)
          else if master_ip \<noteq> [] then (False, n)
          else CheckIPList_loop t ip_list port n)"

definition CheckIPList :: "'n tool \<Rightarrow> string list \<Rightarrow> u32 \<Rightarrow> 'n \<Rightarrow> bool \<times> 'n" where
  "CheckIPList t ip_list port n = (if ip_list = [] then (False, n) else CheckIPList_loop t ip_list port n)"

text \<open>Waiting until the first server is the master.\<close>

partial_function (option) wait_master :: "'n tool \<Rightarrow> string \<Rightarrow> u32 \<Rightarrow> 'n \<Rightarrow> (bool \<times> 'n) option" where
  "wait_master t ip port n =
     (case GetMasterIP t ip port [] n of
        (ret, master_ip, n) \<Rightarrow>
          if ret = -1 then Some (False, n)
          else if master_ip = [] then wait_master t ip port n
          else Some (True, n))"

fun add_members :: "'n client \<Rightarrow> string list \<Rightarrow> 'n \<Rightarrow> int \<times> 'n" where
  "add_members c [] n = (0, n)"
| "add_members c (ip # ip_list) n = (case Client_AddMember c ip n of (ret, n) \<Rightarrow> if ret \<noteq> 0 then (-1, n) else add_members c ip_list n)"

definition Tool_InitBinlogSvrMaster :: "'n tool \<Rightarrow> opt_map \<Rightarrow> 'n \<Rightarrow> (int \<times> 'n) option" where
  "Tool_InitBinlogSvrMaster t opts n = do {
     ip_list_str \<leftarrow> op_get opts CHR ''h'';
     port \<leftarrow> op_int opts CHR ''p'';
     let ip_list = Tool_GetIPList ip_list_str [];
     (case CheckIPList t ip_list port n of
        (False, n) \<Rightarrow> Some (-1, n)
      | (True, n) \<Rightarrow>
          let c = CreateClient t (hd ip_list) port
          in (case Client_InitBinlogSvrMaster c n of
                (ret, n) \<Rightarrow>
                  if ret \<noteq> 0 then Some (-1, n)
                  else do {
                    (started, n) \<leftarrow> wait_master t (hd ip_list) port n;
                    if \<not> started then Some (-1, n) else Some (add_members c ((tl ip_list)) n)
                  }))
   }"

section \<open>What the commands do\<close>

text \<open>A list of addresses as it is given on the command line.\<close>

fun comma_join :: "string list \<Rightarrow> string" where
  "comma_join [] = []"
| "comma_join [ip] = ip"
| "comma_join (ip # ips) = ip @ CHR '','' # comma_join ips"

lemma GetIPList_prefix: "CHR '','' \<notin> set xs \<Longrightarrow> Tool_GetIPList (xs @ ys) ip = Tool_GetIPList ys (ip @ xs)"
  by (induction xs arbitrary: ip) auto

lemma GetIPList_join: "\<forall>ip\<in>set ips. ip \<noteq> [] \<and> CHR '','' \<notin> set ip \<Longrightarrow> Tool_GetIPList (comma_join ips) [] = ips"
  by (induction ips rule: comma_join.induct) (auto simp: GetIPList_prefix GetIPList_prefix [where ys = "[]", simplified])

text \<open>Every change of the members and the users goes to the server that was named as the master, or is not made.\<close>

lemma on_master_calls_master:
  assumes "on_master t opts f a n = Some (0, b, n')"
  obtains ip port m n1 where "op_get opts CHR ''h'' = Some ip" "op_int opts CHR ''p'' = Some port"
    "GetMasterIP t ip port [] n = (0, m, n1)" "f (CreateClient t m port) n1 = Some (0, b, n')"
  using assms by (auto simp: on_master_def split: bind_splits prod.splits if_splits)

text \<open>Servers that all answer that they have no master, asked one after the other.\<close>

fun without_master :: "'n tool \<Rightarrow> string list \<Rightarrow> u32 \<Rightarrow> 'n \<Rightarrow> 'n option" where
  "without_master t [] port n = Some n"
| "without_master t (ip # ips) port n =
     (case GetMasterIP t ip port [] n of (ret, m, n) \<Rightarrow> if ret = 0 \<and> m = [] then without_master t ips port n else None)"

lemma CheckIPList_error:
  assumes "without_master t ips port n = Some n1" "GetMasterIP t ip port [] n1 = (ret, m, n2)" "ret \<noteq> 0"
  shows "CheckIPList_loop t (ips @ ip # rest) port n = (True, n2)"
  using assms by (induction ips arbitrary: n) (auto split: prod.splits if_splits)

lemma CheckIPList_passes:
  assumes "without_master t ips port n = Some n1"
  shows "CheckIPList_loop t ips port n = (True, n1)"
  using assms by (induction ips arbitrary: n) (auto split: prod.splits if_splits)

lemma CheckIPList_refuses:
  assumes "\<not> fst (CheckIPList t ips port n)" "ips \<noteq> []"
  shows "\<exists>ip\<in>set ips. \<exists>m n1 n2. GetMasterIP t ip port [] n1 = (0, m, n2) \<and> m \<noteq> []"
proof -
  have "\<not> fst (CheckIPList_loop t ips port n) \<Longrightarrow> ?thesis"
  proof (induction ips arbitrary: n)
    case (Cons ip ips)
    obtain ret m n1 where g: "GetMasterIP t ip port [] n = (ret, m, n1)" by (metis surj_pair)
    with Cons show ?case by (cases "ret = 0"; cases "m = []") auto
  qed simp
  with assms show ?thesis by (simp add: CheckIPList_def)
qed

lemma unreachable_GetMasterIP:
  "rp_call (tl_api t) ip port GetMasterInfoFromGlobal [] n = (None, n') \<Longrightarrow> GetMasterIP t ip port m n = (-1, m, n')"
  by (simp add: GetMasterIP_def Client_GetMaster_def RpcCall_def RpcCallWithIP_def CreateClient_def)

lemma add_members_all:
  "add_members c ips n = (0, n') \<Longrightarrow> ip \<in> set ips \<Longrightarrow> \<exists>n1 n2. Client_AddMember c ip n1 = (0, n2)"
  by (induction ips arbitrary: n) (auto split: prod.splits if_splits)

text \<open>The wait for the master only ends on the error -1: any other error that lasts keeps it waiting.\<close>

lemma wait_master_stuck:
  assumes "GetMasterIP t ip port [] n = (ret, [], n)" "ret \<noteq> -1"
  shows "wait_master t ip port n = None"
proof (cases "wait_master t ip port n")
  case (Some r)
  have "GetMasterIP t ip port [] n = (ret, [], n) \<longrightarrow> False"
    by (rule wait_master.raw_induct [where P = "\<lambda>t ip port n r. GetMasterIP t ip port [] n = (ret, [], n) \<longrightarrow> False", OF _ Some])
      (use assms(2) in auto)
  with assms(1) show ?thesis by simp
qed

text \<open>
  C38: a server that cannot be reached lets the test of a new group pass. The tool asks every server whether it
  already has a master before it starts a group. When the first servers have none and the next one cannot be
  reached, the test succeeds at once: the last call is the one that failed, and the servers behind it are never asked.
\<close>

theorem unreachable_check_passes:
  assumes "without_master t ips port n = Some n1" "rp_call (tl_api t) ip port GetMasterInfoFromGlobal [] n1 = (None, n2)"
  shows "CheckIPList t (ips @ ip # rest) port n = (True, n2)"
  using CheckIPList_error [OF assms(1) unreachable_GetMasterIP [OF assms(2)]] by (simp add: CheckIPList_def)

text \<open>A group of three: a server without a master, one that is down, and one that has a master. The network keeps the servers that were asked.\<close>

definition group_info :: "string \<Rightarrow> RpcMasterInfo" where
  "group_info ip = \<lparr>rm_ip = ip, rm_expire_time = 120, rm_version = 7, rm_update_time = Some 100, rm_current_time = Some 110\<rparr>"

definition group_tool :: "string list tool" where
  "group_tool = \<lparr>tl_api = \<lparr>rp_call = (\<lambda>ip port func req n. (if ip = ''b'' then None else Some (0, if ip = ''c'' then [1] else [0]), n @ [ip])),
       rp_order = (\<lambda>len n. [0..<len])\<rparr>,
     tl_codecs = wire_codecs\<lparr>rk_master := \<lparr>enc = (\<lambda>_. None), dec = (\<lambda>b. Some (group_info (if b = [1] then ''c'' else [])))\<rparr>\<rparr>,
     tl_now = 115\<rparr>"

theorem unreachable_check_passes_witness:
  "CheckIPList group_tool [''a'', ''b'', ''c''] 17000 [] = (True, [''a'', ''b'']) \<and> fst (snd (GetMasterIP group_tool ''c'' 17000 [] [])) = ''c''"
proof -
  have a: "without_master group_tool [''a''] 17000 [] = Some [''a'']" by code_simp
  have b: "rp_call (tl_api group_tool) ''b'' 17000 GetMasterInfoFromGlobal [] [''a''] = (None, [''a'', ''b''])" by (simp add: group_tool_def)
  have "fst (snd (GetMasterIP group_tool ''c'' 17000 [] [])) = ''c''" by code_simp
  with unreachable_check_passes [OF a b, of "[''c'']"] show ?thesis by simp
qed

text \<open>
  When the tool reports that a group was started, the first server accepted the start, and it has accepted every other server
  of the list as a member.
\<close>

lemma InitBinlogSvrMaster_done:
  assumes "Tool_InitBinlogSvrMaster t opts n = Some (0, n')"
  obtains ip ips port where "op_int opts CHR ''p'' = Some port" "map_option (\<lambda>h. Tool_GetIPList h []) (op_get opts CHR ''h'') = Some (ip # ips)"
    "\<exists>n1 n2. Client_InitBinlogSvrMaster (CreateClient t ip port) n1 = (0, n2)"
    "\<And>m. m \<in> set ips \<Longrightarrow> \<exists>n1 n2. Client_AddMember (CreateClient t ip port) m n1 = (0, n2)"
proof -
  from assms obtain h port n1 n2 n3 where o: "op_get opts CHR ''h'' = Some h" "op_int opts CHR ''p'' = Some port"
    and c: "CheckIPList t (Tool_GetIPList h []) port n = (True, n1)"
    and i: "Client_InitBinlogSvrMaster (CreateClient t (hd (Tool_GetIPList h [])) port) n1 = (0, n2)"
    and a: "add_members (CreateClient t (hd (Tool_GetIPList h [])) port) (tl (Tool_GetIPList h [])) n3 = (0, n')"
    by (auto simp: Tool_InitBinlogSvrMaster_def Let_def split: bind_splits prod.splits if_splits bool.splits)
  from c obtain ip ips where "Tool_GetIPList h [] = ip # ips" by (cases "Tool_GetIPList h []") (auto simp: CheckIPList_def)
  with o i a add_members_all [OF a] show thesis by (intro that [of port ip ips]) auto
qed

end
