(* ===== verification/Sql_Client.thy ===== *)
theory Sql_Client
  imports Token_Bucket
begin

text \<open>
  The client library (\<^verbatim>\<open>phxsqlclient\<close>): the choice of a MySQL server, at random or with leaky buckets that
  count its failures (\<^verbatim>\<open>utils/random.cpp\<close>, \<^verbatim>\<open>utils/leakybucket.cpp\<close>, \<^verbatim>\<open>phxsqlclient_leakybucket.cpp\<close>), and the
  connection to it (\<^verbatim>\<open>phxsqlclientbase.cpp\<close>). The MySQL client library is a parameter; file locks order the
  accesses to a bucket, which here are single steps.
\<close>

section \<open>Random numbers\<close>

text \<open>\<open>r\<close> is the next number of the generator.\<close>

definition RandomPicker :: "u32 \<Rightarrow> u32 \<Rightarrow> u32 \<Rightarrow> u32" where
  "RandomPicker r minVal maxVal =
     (if maxVal = minVal then maxVal
      else if maxVal < minVal then r mod (minVal - maxVal) + maxVal
      else r mod (maxVal - minVal) + minVal)"

definition CheckByRatio :: "u32 \<Rightarrow> u32 \<Rightarrow> u32 \<Rightarrow> bool" where
  "CheckByRatio r base ratio \<longleftrightarrow> base \<noteq> 0 \<and> ratio \<noteq> 0 \<and> (ratio \<ge> base \<or> r mod base < ratio)"

section \<open>Leaky buckets\<close>

record bucket_config =
  bc_bucket_size :: int
  bc_refill_period :: u32

record bucket =
  bk_token_count :: int
  bk_latest_refill_time :: u32

text \<open>
  The file of a bucket, which all clients map: it may be missing, hold a bucket, or be one that cannot be
  opened, created or mapped, or has another size.
\<close>

datatype bucket_file = Missing | Mapped bucket | Unusable

type_synonym bucket_store = "string \<Rightarrow> bucket_file"

text \<open>A client's handle of a bucket; \<open>lb_path\<close> is \<open>None\<close> when the file could not be mapped.\<close>

record leaky =
  lb_config :: bucket_config
  lb_path :: "string option"

definition getMmapPtr :: "string \<Rightarrow> bucket_store \<Rightarrow> bool \<times> bucket_store" where
  "getMmapPtr filePath s =
     (case s filePath of
        Missing \<Rightarrow> (True, s(filePath := Mapped \<lparr>bk_token_count = 0, bk_latest_refill_time = 0\<rparr>))
      | Mapped b \<Rightarrow> (True, s)
      | Unusable \<Rightarrow> (False, s))"

text \<open>
  After the file is mapped it is opened once more for its lock; \<open>lock_opens\<close> says whether this works. When it does
  not, only the result is an error: the bucket is mapped and has a lock object, whose results are never read.
\<close>

definition Bucket_Init :: "bool \<Rightarrow> bucket_config \<Rightarrow> string \<Rightarrow> bucket_store \<Rightarrow> int \<times> leaky \<times> bucket_store" where
  "Bucket_Init lock_opens cfg sPath s =
     (case getMmapPtr sPath s of
        (ok, s) \<Rightarrow> (if ok \<and> lock_opens then 0 else -1, \<lparr>lb_config = cfg, lb_path = if ok then Some sPath else None\<rparr>, s))"

lemma Bucket_Init_lock: "snd (Bucket_Init b cfg sPath s) = snd (Bucket_Init True cfg sPath s)"
  by (simp add: Bucket_Init_def split: prod.splits)

definition bucket_at :: "leaky \<Rightarrow> bucket_store \<Rightarrow> bucket option" where
  "bucket_at lb s = (case lb_path lb of None \<Rightarrow> None | Some p \<Rightarrow> (case s p of Mapped b \<Rightarrow> Some b | _ \<Rightarrow> None))"

definition refilled :: "bucket_config \<Rightarrow> u32 \<Rightarrow> bucket \<Rightarrow> bucket option" where
  "refilled cfg now b =
     map_option (\<lambda>t. if bk_latest_refill_time b \<noteq> t then \<lparr>bk_token_count = bc_bucket_size cfg, bk_latest_refill_time = t\<rparr> else b)
       (period_start (bc_refill_period cfg) now)"

definition Bucket_Refill :: "u32 \<Rightarrow> int \<Rightarrow> leaky \<Rightarrow> bucket_store \<Rightarrow> int \<times> leaky \<times> bucket_store" where
  "Bucket_Refill now iBucketSize lb s =
     (case lb_path lb of
        None \<Rightarrow> (-1, lb, s)
      | Some p \<Rightarrow> (0, lb\<lparr>lb_config := (lb_config lb)\<lparr>bc_bucket_size := iBucketSize\<rparr>\<rparr>,
          s(p := Mapped \<lparr>bk_token_count = iBucketSize, bk_latest_refill_time = now\<rparr>)))"

definition Bucket_SetConfig :: "bucket_config \<Rightarrow> leaky \<Rightarrow> leaky" where
  "Bucket_SetConfig cfg lb = (if lb_path lb = None then lb else lb\<lparr>lb_config := cfg\<rparr>)"

text \<open>Without a bucket, the error code -1 is returned as a truth value: there is a token.\<close>

definition HasToken :: "u32 \<Rightarrow> leaky \<Rightarrow> bucket_store \<Rightarrow> (bool \<times> bucket_store) option" where
  "HasToken now lb s =
     (case lb_path lb of
        None \<Rightarrow> Some (True, s)
      | Some p \<Rightarrow>
          (case s p of
             Mapped b \<Rightarrow> map_option (\<lambda>b. (bk_token_count b > 0, s(p := Mapped b))) (refilled (lb_config lb) now b)
           | _ \<Rightarrow> None))"

definition Bucket_Apply :: "u32 \<Rightarrow> int \<Rightarrow> leaky \<Rightarrow> bucket_store \<Rightarrow> (int \<times> bucket_store) option" where
  "Bucket_Apply now iCount lb s =
     (case lb_path lb of
        None \<Rightarrow> Some (-1, s)
      | Some p \<Rightarrow>
          (case s p of
             Mapped b \<Rightarrow>
               map_option (\<lambda>b. if bk_token_count b \<ge> iCount then (0, s(p := Mapped (b\<lparr>bk_token_count := bk_token_count b - iCount\<rparr>)))
                 else (-1, s(p := Mapped b))) (refilled (lb_config lb) now b)
           | _ \<Rightarrow> None))"

section \<open>Endpoints\<close>

record MySQLEndPoint =
  ep_MySQLIP :: string
  ep_Port :: int

definition EndPoint_ToString :: "MySQLEndPoint \<Rightarrow> string" where
  "EndPoint_ToString ep = take 63 (c_str (ep_MySQLIP ep) @ '':'' @ show_nat (unat (of_int (ep_Port ep) :: u32)))"

definition same_endpoint :: "MySQLEndPoint \<Rightarrow> MySQLEndPoint \<Rightarrow> bool" where
  "same_endpoint a b \<longleftrightarrow> ep_MySQLIP a = ep_MySQLIP b \<and> ep_Port a = ep_Port b"

text \<open>The results of this library: success is 1.\<close>

abbreviation (input) CLIENT_OK :: int where "CLIENT_OK \<equiv> 1"
abbreviation (input) GET_END_POINT_FAIL :: int where "GET_END_POINT_FAIL \<equiv> -10"
abbreviation (input) CLIENT_MYSQL_FAIL :: int where "CLIENT_MYSQL_FAIL \<equiv> -30"
abbreviation (input) MYSQL_NOT_CONNECTED :: int where "MYSQL_NOT_CONNECTED \<equiv> -40"

subsection \<open>The random strategy\<close>

definition Random_ReportEndPoint :: "MySQLEndPoint \<Rightarrow> int \<Rightarrow> u32 \<Rightarrow> unit \<Rightarrow> (int \<times> unit) option" where
  "Random_ReportEndPoint ep iRet now s = Some (CLIENT_OK, s)"

definition Random_GetEndPoint ::
  "MySQLEndPoint list \<Rightarrow> MySQLEndPoint \<Rightarrow> u32 \<Rightarrow> u32 \<Rightarrow> unit \<Rightarrow> (int \<times> MySQLEndPoint \<times> unit) option" where
  "Random_GetEndPoint eps prev r now s =
     (let i = unat (RandomPicker r 0 (of_nat (length eps)))
      in if i < length eps then Some (CLIENT_OK, eps ! i, s) else None)"

subsection \<open>The strategy with leaky buckets\<close>

record leaky_strategy =
  ls_BucketSize :: int
  ls_FillPeriod :: int
  ls_mapBucket :: "string \<Rightarrow> leaky option"
  ls_store :: bucket_store

definition PHXSQL_LEAKEYBUCKET_DIR :: string where
  "PHXSQL_LEAKEYBUCKET_DIR = ''/tmp/phxsql_leakybucket/''"

text \<open>The constructor insists that making the directory fails: \<open>mkdir_ret\<close> is what \<^verbatim>\<open>mkdir\<close> returned.\<close>

definition LeakyBucket_init :: "int \<Rightarrow> int \<Rightarrow> int \<Rightarrow> bucket_store \<Rightarrow> leaky_strategy option" where
  "LeakyBucket_init mkdir_ret iBucketSize iFillPeriod s =
     (if mkdir_ret = -1
      then Some \<lparr>ls_BucketSize = iBucketSize, ls_FillPeriod = iFillPeriod, ls_mapBucket = (\<lambda>_. None), ls_store = s\<rparr>
      else None)"

definition strategy_config :: "leaky_strategy \<Rightarrow> bucket_config" where
  "strategy_config st = \<lparr>bc_bucket_size = ls_BucketSize st, bc_refill_period = of_int (ls_FillPeriod st)\<rparr>"

text \<open>The result of \<^verbatim>\<open>Init\<close> is ignored, so it does not matter whether the lock was opened.\<close>

definition find_bucket :: "MySQLEndPoint \<Rightarrow> leaky_strategy \<Rightarrow> leaky \<times> leaky_strategy" where
  "find_bucket ep st =
     (let sKey = EndPoint_ToString ep
      in case ls_mapBucket st sKey of
        Some lb \<Rightarrow> (lb, st)
      | None \<Rightarrow>
          (case Bucket_Init True (strategy_config st) (PHXSQL_LEAKEYBUCKET_DIR @ ''/'' @ sKey) (ls_store st) of
             (_, lb, s) \<Rightarrow> (lb, st\<lparr>ls_mapBucket := (ls_mapBucket st)(sKey \<mapsto> lb), ls_store := s\<rparr>)))"

definition endpoint_has_token :: "u32 \<Rightarrow> MySQLEndPoint \<Rightarrow> leaky_strategy \<Rightarrow> (bool \<times> leaky_strategy) option" where
  "endpoint_has_token now ep st =
     (case find_bucket ep st of
        (lb, st) \<Rightarrow> map_option (\<lambda>(ok, s). (ok, st\<lparr>ls_store := s\<rparr>)) (HasToken now lb (ls_store st)))"

text \<open>The walk from the random start over all other endpoints, at one time: the clock does not move while it looks at the buckets.\<close>

function GetEndPoint_loop ::
  "u32 \<Rightarrow> MySQLEndPoint list \<Rightarrow> MySQLEndPoint \<Rightarrow> nat \<Rightarrow> nat \<Rightarrow> leaky_strategy \<Rightarrow> (MySQLEndPoint option \<times> leaky_strategy) option" where
  "GetEndPoint_loop now eps prev iBegIdx iCurrPos st =
     (if iCurrPos = iBegIdx then Some (None, st)
      else if \<not> (iCurrPos < length eps \<and> iBegIdx < length eps) then None
      else if same_endpoint (eps ! iCurrPos) prev
      then GetEndPoint_loop now eps prev iBegIdx ((iCurrPos + 1) mod length eps) st
      else case endpoint_has_token now (eps ! iCurrPos) st of
        None \<Rightarrow> None
      | Some (True, st) \<Rightarrow> Some (Some (eps ! iCurrPos), st)
      | Some (False, st) \<Rightarrow> GetEndPoint_loop now eps prev iBegIdx ((iCurrPos + 1) mod length eps) st)"
  by pat_completeness auto

lemma walk_closer:
  assumes "p < n" "b < n" "p \<noteq> b"
  shows "(b + n - (p + 1) mod n) mod n < (b + n - p) mod (n :: nat)"
proof -
  have d: "(b + n - q) mod n = (if q \<le> b then b - q else b + n - q)" if "q < n" for q
    using that assms(2) by (auto simp: mod_if)
  show ?thesis
  proof (cases "p + 1 = n")
    case True
    then show ?thesis using assms d [of 0] d [of p] by auto
  next
    case False
    then show ?thesis using assms d [of "p + 1"] d [of p] by auto
  qed
qed

termination GetEndPoint_loop
  by (relation "measure (\<lambda>(now, eps, prev, b, p, st). (b + length eps - p) mod length eps)") (auto intro: walk_closer [simplified])

declare GetEndPoint_loop.simps [simp del]

definition Leaky_GetEndPoint ::
  "MySQLEndPoint list \<Rightarrow> MySQLEndPoint \<Rightarrow> u32 \<Rightarrow> u32 \<Rightarrow> leaky_strategy \<Rightarrow> (int \<times> MySQLEndPoint \<times> leaky_strategy) option" where
  "Leaky_GetEndPoint eps prev r now st =
     (if eps = [] then None
      else
        let iBegIdx = unat (RandomPicker r 0 (of_nat (length eps)))
        in case GetEndPoint_loop now eps prev iBegIdx ((iBegIdx + 1) mod length eps) st of
          None \<Rightarrow> None
        | Some (Some ep, st) \<Rightarrow> Some (CLIENT_OK, ep, st)
        | Some (None, st) \<Rightarrow> Some (CLIENT_OK, eps ! iBegIdx, st))"

definition Leaky_ReportEndPoint :: "MySQLEndPoint \<Rightarrow> int \<Rightarrow> u32 \<Rightarrow> leaky_strategy \<Rightarrow> (int \<times> leaky_strategy) option" where
  "Leaky_ReportEndPoint ep iRet now st =
     (if iRet = 0 then Some (CLIENT_OK, st)
      else case find_bucket ep st of
        (lb, st) \<Rightarrow> map_option (\<lambda>(_, s). (0, st\<lparr>ls_store := s\<rparr>)) (Bucket_Apply now 1 lb (ls_store st)))"

section \<open>The connection\<close>

text \<open>
  A strategy as the client calls it, and the library: \<open>sq_connect\<close>, \<open>sq_ping\<close> and \<open>sq_query\<close> say whether
  they succeeded. \<open>sq_rand\<close> and \<open>sq_now\<close> are the random number and the clock of a call.
\<close>

record 's strategy =
  sg_get :: "MySQLEndPoint list \<Rightarrow> MySQLEndPoint \<Rightarrow> u32 \<Rightarrow> u32 \<Rightarrow> 's \<Rightarrow> (int \<times> MySQLEndPoint \<times> 's) option"
  sg_report :: "MySQLEndPoint \<Rightarrow> int \<Rightarrow> u32 \<Rightarrow> 's \<Rightarrow> (int \<times> 's) option"

record 'q sql_api =
  sq_connect :: "MySQLEndPoint \<Rightarrow> 'q \<Rightarrow> bool \<times> 'q"
  sq_ping :: "'q \<Rightarrow> bool \<times> 'q"
  sq_query :: "string \<Rightarrow> 'q \<Rightarrow> bool \<times> 'q"
  sq_errno :: "'q \<Rightarrow> int"
  sq_close :: "'q \<Rightarrow> 'q"
  sq_rand :: "'q \<Rightarrow> u32"
  sq_now :: "'q \<Rightarrow> u32"

record ('s, 'q) sql_client =
  sc_endpoints :: "MySQLEndPoint list"
  sc_endpoint :: MySQLEndPoint
  sc_connected :: bool
  sc_strategy :: 's
  sc_q :: 'q

definition no_endpoint :: MySQLEndPoint where
  "no_endpoint = \<lparr>ep_MySQLIP = [], ep_Port = 0\<rparr>"

definition CloseConnection :: "'q sql_api \<Rightarrow> ('s, 'q) sql_client \<Rightarrow> ('s, 'q) sql_client" where
  "CloseConnection api c =
     (if sc_connected c then c\<lparr>sc_connected := False, sc_endpoint := no_endpoint, sc_q := sq_close api (sc_q c)\<rparr> else c)"

text \<open>At most \<open>n\<close> attempts.\<close>

fun connect_attempts :: "'s strategy \<Rightarrow> 'q sql_api \<Rightarrow> nat \<Rightarrow> MySQLEndPoint \<Rightarrow> ('s, 'q) sql_client \<Rightarrow> (int \<times> ('s, 'q) sql_client) option" where
  "connect_attempts sg api 0 prev c = Some (CLIENT_OK, c)"
| "connect_attempts sg api (Suc n) prev c =
     (case sg_get sg (sc_endpoints c) prev (sq_rand api (sc_q c)) (sq_now api (sc_q c)) (sc_strategy c) of
        None \<Rightarrow> None
      | Some (ret, ep, s) \<Rightarrow>
          let c = c\<lparr>sc_strategy := s\<rparr>
          in if ret \<noteq> CLIENT_OK \<or> ep_MySQLIP ep = [] \<or> ep_Port ep = 0 then Some (GET_END_POINT_FAIL, c)
             else case sq_connect api ep (sc_q c) of
               (True, q) \<Rightarrow> Some (CLIENT_OK, c\<lparr>sc_q := q, sc_endpoint := ep, sc_connected := True\<rparr>)
             | (False, q) \<Rightarrow>
                 (case sg_report sg ep (-1) (sq_now api q) s of
                    None \<Rightarrow> None
                  | Some (_, s) \<Rightarrow> connect_attempts sg api n ep (c\<lparr>sc_q := q, sc_strategy := s\<rparr>)))"

definition Client_Connect :: "'s strategy \<Rightarrow> 'q sql_api \<Rightarrow> ('s, 'q) sql_client \<Rightarrow> (int \<times> ('s, 'q) sql_client) option" where
  "Client_Connect sg api c = (if sc_connected c then Some (CLIENT_OK, c) else connect_attempts sg api 3 no_endpoint c)"

definition Ping :: "'q sql_api \<Rightarrow> ('s, 'q) sql_client \<Rightarrow> int \<times> ('s, 'q) sql_client" where
  "Ping api c =
     (if \<not> sc_connected c then (CLIENT_MYSQL_FAIL, c)
      else case sq_ping api (sc_q c) of
        (True, q) \<Rightarrow> (CLIENT_OK, c\<lparr>sc_q := q\<rparr>)
      | (False, q) \<Rightarrow> (CLIENT_MYSQL_FAIL, CloseConnection api (c\<lparr>sc_q := q\<rparr>)))"

definition CR_SERVER_GONE_ERROR :: int where [simp]: "CR_SERVER_GONE_ERROR = 2006"
definition CR_SERVER_LOST :: int where [simp]: "CR_SERVER_LOST = 2013"

definition real_query :: "'s strategy \<Rightarrow> 'q sql_api \<Rightarrow> string \<Rightarrow> ('s, 'q) sql_client \<Rightarrow> (int \<times> ('s, 'q) sql_client) option" where
  "real_query sg api sql c =
     (if \<not> sc_connected c then Some (MYSQL_NOT_CONNECTED, c)
      else case sq_query api sql (sc_q c) of
        (True, q) \<Rightarrow>
          map_option (\<lambda>(_, s). (CLIENT_OK, c\<lparr>sc_q := q, sc_strategy := s\<rparr>)) (sg_report sg (sc_endpoint c) 0 (sq_now api q) (sc_strategy c))
      | (False, q) \<Rightarrow>
          if sq_errno api q = CR_SERVER_LOST \<or> sq_errno api q = CR_SERVER_GONE_ERROR
          then map_option (\<lambda>(_, s). (CLIENT_MYSQL_FAIL, c\<lparr>sc_q := q, sc_strategy := s\<rparr>))
            (sg_report sg (sc_endpoint c) (-1) (sq_now api q) (sc_strategy c))
          else Some (CLIENT_MYSQL_FAIL, c\<lparr>sc_q := q\<rparr>))"

definition Query :: "'s strategy \<Rightarrow> 'q sql_api \<Rightarrow> string \<Rightarrow> bool \<Rightarrow> ('s, 'q) sql_client \<Rightarrow> (int \<times> ('s, 'q) sql_client) option" where
  "Query sg api sql bPingFirst c =
     (let c = (if sc_connected c \<and> \<not> list_ex (\<lambda>ep. same_endpoint ep (sc_endpoint c)) (sc_endpoints c) then CloseConnection api c else c)
      in if bPingFirst
         then case Ping api c of
             (ret, c) \<Rightarrow>
               if ret = CLIENT_OK then real_query sg api sql c
               else case Client_Connect sg api c of
                 None \<Rightarrow> None | Some (ret, c) \<Rightarrow> if ret \<noteq> CLIENT_OK then Some (ret, c) else real_query sg api sql c
         else real_query sg api sql c)"

definition SetMySQLEndPoints :: "MySQLEndPoint list \<Rightarrow> ('s, 'q) sql_client \<Rightarrow> ('s, 'q) sql_client" where
  "SetMySQLEndPoints eps c = c\<lparr>sc_endpoints := eps\<rparr>"

section \<open>Queries only go to configured servers\<close>

text \<open>What a client expects of a strategy: it chooses one of the endpoints, and both operations return.\<close>

locale endpoint_strategy =
  fixes sg :: "'s strategy" and ok :: "'s \<Rightarrow> bool"
  assumes get_member: "ok s \<Longrightarrow> sg_get sg eps prev r now s = Some (ret, ep, s') \<Longrightarrow> ep \<in> set eps \<and> ret = CLIENT_OK \<and> ok s'"
    and get_total: "ok s \<Longrightarrow> eps \<noteq> [] \<Longrightarrow> sg_get sg eps prev r now s \<noteq> None"
    and report_keeps: "ok s \<Longrightarrow> sg_report sg ep iRet now s = Some (ret, s') \<Longrightarrow> ok s'"
    and report_total: "ok s \<Longrightarrow> sg_report sg ep iRet now s \<noteq> None"
begin

lemma connect_attempts_configured:
  assumes "connect_attempts sg api n prev c = Some (ret, c')" "ok (sc_strategy c)"
  shows "sc_endpoints c' = sc_endpoints c \<and> ok (sc_strategy c') \<and> (sc_connected c' \<longrightarrow> \<not> sc_connected c \<longrightarrow> sc_endpoint c' \<in> set (sc_endpoints c'))"
  using assms
proof (induction n arbitrary: prev c)
  case (Suc n)
  obtain r0 ep s where g: "sg_get sg (sc_endpoints c) prev (sq_rand api (sc_q c)) (sq_now api (sc_q c)) (sc_strategy c) = Some (r0, ep, s)"
    using Suc.prems(1) by (auto split: option.splits)
  note m = get_member [OF Suc.prems(2) g]
  obtain up q where q: "sq_connect api ep (sc_q c) = (up, q)" by (cases "sq_connect api ep (sc_q c)")
  show ?case
  proof (cases "ep_MySQLIP ep = [] \<or> ep_Port ep = 0 \<or> up")
    case True
    then show ?thesis using Suc.prems(1) m by (auto simp: g q Let_def split: if_splits bool.splits)
  next
    case False
    with Suc.prems(1) m obtain r1 s1 where
      r: "sg_report sg ep (-1) (sq_now api q) s = Some (r1, s1)"
        "connect_attempts sg api n ep (c\<lparr>sc_q := q, sc_strategy := s1\<rparr>) = Some (ret, c')"
      by (auto simp: g q Let_def split: if_splits option.splits)
    from Suc.IH [OF r(2)] report_keeps [OF _ r(1)] m show ?thesis by auto
  qed
qed simp

lemma Query_configured:
  assumes "Query sg api sql bPingFirst c = Some (CLIENT_OK, c')" "ok (sc_strategy c)"
  shows "sc_connected c' \<and> list_ex (\<lambda>ep. same_endpoint ep (sc_endpoint c')) (sc_endpoints c) \<and> sc_endpoints c' = sc_endpoints c"
proof -
  have rq: "sc_connected x \<and> sc_connected y \<and> sc_endpoint y = sc_endpoint x \<and> sc_endpoints y = sc_endpoints x"
    if "real_query sg api sql x = Some (CLIENT_OK, y)" for x y
    using that by (auto simp: real_query_def split: if_splits prod.splits bool.splits option.splits)
  let ?c = "if sc_connected c \<and> \<not> list_ex (\<lambda>ep. same_endpoint ep (sc_endpoint c)) (sc_endpoints c) then CloseConnection api c else c"
  have c: "sc_endpoints ?c = sc_endpoints c" "ok (sc_strategy ?c)"
    "sc_connected ?c \<Longrightarrow> list_ex (\<lambda>ep. same_endpoint ep (sc_endpoint ?c)) (sc_endpoints c)"
    using assms(2) by (auto simp: CloseConnection_def)
  define d where "d = ?c"
  obtain pret p where p: "Ping api d = (pret, p)" by (cases "Ping api d")
  have pp: "sc_endpoints p = sc_endpoints d" "ok (sc_strategy p)" "pret \<noteq> CLIENT_OK \<Longrightarrow> \<not> sc_connected p" "pret = CLIENT_OK \<Longrightarrow> sc_endpoint p = sc_endpoint d \<and> sc_connected d"
    using p c(2) by (auto simp: Ping_def CloseConnection_def d_def [symmetric] split: if_splits prod.splits bool.splits)
  consider "real_query sg api sql d = Some (CLIENT_OK, c')" | "pret = CLIENT_OK" "real_query sg api sql p = Some (CLIENT_OK, c')"
    | e where "pret \<noteq> CLIENT_OK" "Client_Connect sg api p = Some (CLIENT_OK, e)" "real_query sg api sql e = Some (CLIENT_OK, c')"
    using assms(1) unfolding Query_def Let_def d_def [symmetric] by (auto simp: p split: if_splits option.splits)
  then show ?thesis
  proof cases
    case 1
    with rq [OF 1] c(1,3) show ?thesis by (simp add: d_def)
  next
    case 2
    with rq [OF 2(2)] pp c(1,3) show ?thesis by (simp add: d_def)
  next
    case 3
    have "connect_attempts sg api 3 no_endpoint p = Some (CLIENT_OK, e)" using 3(1,2) pp(3) by (simp add: Client_Connect_def)
    note a = connect_attempts_configured [OF this pp(2)]
    have "sc_endpoint e \<in> set (sc_endpoints e)" using a rq [OF 3(3)] pp(3) [OF 3(1)] by auto
    then have "list_ex (\<lambda>ep. same_endpoint ep (sc_endpoint e)) (sc_endpoints e)" by (auto simp: list_ex_iff same_endpoint_def)
    with rq [OF 3(3)] a pp(1) c(1) show ?thesis by (simp add: d_def)
  qed
qed

end

definition random_strategy :: "unit strategy" where
  "random_strategy = \<lparr>sg_get = Random_GetEndPoint, sg_report = Random_ReportEndPoint\<rparr>"

definition leaky_bucket_strategy :: "leaky_strategy strategy" where
  "leaky_bucket_strategy = \<lparr>sg_get = Leaky_GetEndPoint, sg_report = Leaky_ReportEndPoint\<rparr>"

text \<open>Every handle is that of the strategy's file of its endpoint.\<close>

definition strategy_ok :: "leaky_strategy \<Rightarrow> bool" where
  "strategy_ok st \<longleftrightarrow> bc_refill_period (strategy_config st) \<noteq> 0 \<and>
     (\<forall>key lb. ls_mapBucket st key = Some lb \<longrightarrow> lb_config lb = strategy_config st \<and>
        (\<forall>p. lb_path lb = Some p \<longrightarrow> p = PHXSQL_LEAKEYBUCKET_DIR @ ''/'' @ key \<and> (\<exists>b. ls_store st p = Mapped b)))"

lemma RandomPicker_less:
  assumes "n \<noteq> 0"
  shows "unat (RandomPicker r 0 (of_nat n)) < n"
proof (cases "(of_nat n :: u32) = 0")
  case False
  then have "unat (r mod of_nat n) < unat (of_nat n :: u32)" by (simp add: unat_mod unat_gt_0)
  also have "\<dots> \<le> n" by (simp add: unat_of_nat)
  finally show ?thesis using False by (simp add: RandomPicker_def)
qed (use assms in \<open>simp add: RandomPicker_def\<close>)

interpretation random: endpoint_strategy random_strategy "\<lambda>_. True"
proof
  fix eps :: "MySQLEndPoint list" and prev r now s
  assume "eps \<noteq> []"
  then show "sg_get random_strategy eps prev r now s \<noteq> None"
    using RandomPicker_less [of "length eps" r] by (simp add: random_strategy_def Random_GetEndPoint_def)
qed (auto simp: random_strategy_def Random_GetEndPoint_def Random_ReportEndPoint_def Let_def split: if_splits)

lemma find_bucket_ok:
  assumes "strategy_ok st" "find_bucket ep st = (lb, st')"
  shows "strategy_ok st' \<and> strategy_config st' = strategy_config st \<and> ls_mapBucket st' (EndPoint_ToString ep) = Some lb"
  using assms
  by (auto simp: find_bucket_def strategy_ok_def strategy_config_def Bucket_Init_def getMmapPtr_def Let_def
      split: option.splits prod.splits bucket_file.splits if_splits)

lemma refilled_returns: "bc_refill_period cfg \<noteq> 0 \<Longrightarrow> \<exists>b'. refilled cfg now b = Some b'"
  by (simp add: refilled_def period_start_def)

lemma strategy_ok_store:
  assumes "strategy_ok st" "\<And>p. (\<exists>b. s' p = Mapped b) \<longleftrightarrow> (\<exists>b. ls_store st p = Mapped b)"
  shows "strategy_ok (st\<lparr>ls_store := s'\<rparr>)"
  using assms by (auto simp: strategy_ok_def strategy_config_def)

lemma HasToken_ok:
  assumes "strategy_ok st" "ls_mapBucket st key = Some lb"
  shows "\<exists>t s. HasToken now lb (ls_store st) = Some (t, s) \<and> strategy_ok (st\<lparr>ls_store := s\<rparr>)"
proof (cases "lb_path lb")
  case (Some p)
  then obtain b where b: "ls_store st p = Mapped b" "lb_config lb = strategy_config st" "bc_refill_period (strategy_config st) \<noteq> 0"
    using assms unfolding strategy_ok_def by blast
  obtain b' where "refilled (strategy_config st) now b = Some b'" using refilled_returns [OF b(3)] by blast
  then show ?thesis using Some b(1,2) by (auto simp: HasToken_def intro!: strategy_ok_store [OF assms(1)] split: if_splits)
qed (use assms in \<open>intro exI [of _ True] exI [of _ "ls_store st"]; simp add: HasToken_def\<close>)

lemma Bucket_Apply_ok:
  assumes "strategy_ok st" "ls_mapBucket st key = Some lb"
  shows "\<exists>t s. Bucket_Apply now n lb (ls_store st) = Some (t, s) \<and> strategy_ok (st\<lparr>ls_store := s\<rparr>)"
proof (cases "lb_path lb")
  case (Some p)
  then obtain b where b: "ls_store st p = Mapped b" "lb_config lb = strategy_config st" "bc_refill_period (strategy_config st) \<noteq> 0"
    using assms unfolding strategy_ok_def by blast
  obtain b' where "refilled (strategy_config st) now b = Some b'" using refilled_returns [OF b(3)] by blast
  then show ?thesis using Some b(1,2) by (auto simp: Bucket_Apply_def intro!: strategy_ok_store [OF assms(1)] split: if_splits)
qed (use assms in \<open>simp add: Bucket_Apply_def\<close>)

lemma endpoint_has_token_ok:
  assumes "strategy_ok st"
  shows "\<exists>t st'. endpoint_has_token now ep st = Some (t, st') \<and> strategy_ok st' \<and> strategy_config st' = strategy_config st"
proof -
  obtain lb st1 where f: "find_bucket ep st = (lb, st1)" by (cases "find_bucket ep st")
  note k = find_bucket_ok [OF assms f]
  from HasToken_ok [of st1 _ lb now] k obtain t s where "HasToken now lb (ls_store st1) = Some (t, s)" "strategy_ok (st1\<lparr>ls_store := s\<rparr>)" by blast
  with k show ?thesis by (simp add: endpoint_has_token_def f strategy_config_def)
qed

lemma GetEndPoint_loop_ok:
  assumes "strategy_ok st" "b < length eps" "p < length eps"
  shows "\<exists>x st'. GetEndPoint_loop now eps prev b p st = Some (x, st') \<and> strategy_ok st' \<and> (\<forall>ep. x = Some ep \<longrightarrow> ep \<in> set eps)"
  using assms
proof (induction now eps prev b p st rule: GetEndPoint_loop.induct)
  case (1 now eps prev b p st)
  have q: "(p + 1) mod length eps < length eps" using 1(5) by (intro mod_less_divisor) auto
  obtain t st1 where h: "endpoint_has_token now (eps ! p) st = Some (t, st1)" "strategy_ok st1"
    using endpoint_has_token_ok [OF 1(3)] by blast
  show ?case
  proof (cases "p = b")
    case False
    show ?thesis
    proof (cases "same_endpoint (eps ! p) prev")
      case True
      from 1(1) [OF False _ True 1(3,4) q] 1(4,5) show ?thesis by (subst GetEndPoint_loop.simps) (simp add: False True)
    next
      case other: False
      show ?thesis
      proof (cases t)
        case True
        then show ?thesis using 1(4,5) by (subst GetEndPoint_loop.simps) (simp add: False other h)
      next
        case no: False
        from 1(2) [OF False _ other, of "(t, st1)" t st1] h no 1(4,5) q show ?thesis
          by (subst GetEndPoint_loop.simps) (simp add: False other h)
      qed
    qed
  qed (use 1(3) in \<open>subst GetEndPoint_loop.simps; simp\<close>)
qed

interpretation leaky: endpoint_strategy leaky_bucket_strategy strategy_ok
proof
  fix s eps prev r now ret ep s'
  assume s: "strategy_ok s" "sg_get leaky_bucket_strategy eps prev r now s = Some (ret, ep, s')"
  let ?b = "unat (RandomPicker r 0 (of_nat (length eps)))"
  have e: "eps \<noteq> []" using s(2) by (auto simp: leaky_bucket_strategy_def Leaky_GetEndPoint_def)
  have b: "?b < length eps" using RandomPicker_less [of "length eps" r] e by simp
  from GetEndPoint_loop_ok [OF s(1) b, of "(?b + 1) mod length eps" now prev] e obtain x st' where
    "GetEndPoint_loop now eps prev ?b ((?b + 1) mod length eps) s = Some (x, st')" "strategy_ok st'" "\<forall>ep. x = Some ep \<longrightarrow> ep \<in> set eps" by auto
  then show "ep \<in> set eps \<and> ret = CLIENT_OK \<and> strategy_ok s'"
    using s(2) e b by (cases x) (auto simp: leaky_bucket_strategy_def Leaky_GetEndPoint_def Let_def)
next
  fix s and eps :: "MySQLEndPoint list" and prev r now
  assume s: "strategy_ok s" "eps \<noteq> []"
  let ?b = "unat (RandomPicker r 0 (of_nat (length eps)))"
  have "?b < length eps" using RandomPicker_less [of "length eps" r] s(2) by simp
  with GetEndPoint_loop_ok [OF s(1), of ?b eps "(?b + 1) mod length eps" now prev] s(2)
  show "sg_get leaky_bucket_strategy eps prev r now s \<noteq> None"
    by (auto simp: leaky_bucket_strategy_def Leaky_GetEndPoint_def Let_def split: option.splits)
next
  fix s ep iRet now ret s'
  assume s: "strategy_ok s" "sg_report leaky_bucket_strategy ep iRet now s = Some (ret, s')"
  obtain lb st1 where f: "find_bucket ep s = (lb, st1)" by (cases "find_bucket ep s")
  from Bucket_Apply_ok [of st1 "EndPoint_ToString ep" lb now 1] find_bucket_ok [OF s(1) f] s show "strategy_ok s'"
    by (auto simp: leaky_bucket_strategy_def Leaky_ReportEndPoint_def f split: if_splits)
next
  fix s ep iRet now
  assume s: "strategy_ok s"
  obtain lb st1 where f: "find_bucket ep s = (lb, st1)" by (cases "find_bucket ep s")
  from Bucket_Apply_ok [of st1 "EndPoint_ToString ep" lb now 1] find_bucket_ok [OF s f] show "sg_report leaky_bucket_strategy ep iRet now s \<noteq> None"
    by (auto simp: leaky_bucket_strategy_def Leaky_ReportEndPoint_def f)
qed

text \<open>Three servers, a client library that reaches every server, and a fresh client.\<close>

definition three_endpoints :: "MySQLEndPoint list" where
  "three_endpoints = [\<lparr>ep_MySQLIP = ''10.0.0.1'', ep_Port = 6\<rparr>, \<lparr>ep_MySQLIP = ''10.0.0.2'', ep_Port = 6\<rparr>,
     \<lparr>ep_MySQLIP = ''10.0.0.3'', ep_Port = 6\<rparr>]"

definition up_api :: "nat sql_api" where
  "up_api = \<lparr>sq_connect = (\<lambda>_ q. (True, Suc q)), sq_ping = (\<lambda>q. (True, Suc q)), sq_query = (\<lambda>_ q. (True, Suc q)),
     sq_errno = (\<lambda>_. 0), sq_close = Suc, sq_rand = (\<lambda>q. of_nat q), sq_now = (\<lambda>q. of_nat q)\<rparr>"

definition fresh_strategy :: leaky_strategy where
  "fresh_strategy = \<lparr>ls_BucketSize = 2, ls_FillPeriod = 60, ls_mapBucket = (\<lambda>_. None), ls_store = (\<lambda>_. Missing)\<rparr>"

definition fresh_client :: "'s \<Rightarrow> ('s, nat) sql_client" where
  "fresh_client st = \<lparr>sc_endpoints = three_endpoints, sc_endpoint = no_endpoint, sc_connected = False, sc_strategy = st, sc_q = 61\<rparr>"

lemma fresh_strategy_ok: "strategy_ok fresh_strategy"
  by (simp add: strategy_ok_def strategy_config_def fresh_strategy_def)

text \<open>The calls of the strategy, and their run: \<open>None\<close> when one of them traps or reads outside the list.\<close>

datatype strategy_call =
    Get "MySQLEndPoint list" MySQLEndPoint u32 u32
  | Report MySQLEndPoint int u32

fun run_calls :: "strategy_call list \<Rightarrow> leaky_strategy \<Rightarrow> leaky_strategy option" where
  "run_calls [] st = Some st"
| "run_calls (Get eps prev r now # cs) st =
     (case Leaky_GetEndPoint eps prev r now st of None \<Rightarrow> None | Some (_, _, st) \<Rightarrow> run_calls cs st)"
| "run_calls (Report ep iRet now # cs) st =
     (case Leaky_ReportEndPoint ep iRet now st of None \<Rightarrow> None | Some (_, st) \<Rightarrow> run_calls cs st)"

fun call_ok :: "strategy_call \<Rightarrow> bool" where
  "call_ok (Get eps prev r now) = (eps \<noteq> [])"
| "call_ok (Report ep iRet now) = True"

lemma run_calls_ok: "strategy_ok st \<Longrightarrow> list_all call_ok cs \<Longrightarrow> \<exists>st'. run_calls cs st = Some st' \<and> strategy_ok st'"
proof (induction cs st rule: run_calls.induct)
  case (2 eps prev r now cs st)
  then obtain ret ep st' where g: "Leaky_GetEndPoint eps prev r now st = Some (ret, ep, st')"
    using leaky.get_total [of st eps prev r now] by (auto simp: leaky_bucket_strategy_def)
  then have "strategy_ok st'" using leaky.get_member [of st eps prev r now ret ep st'] 2(2) by (simp add: leaky_bucket_strategy_def)
  with 2 g show ?case by simp
next
  case (3 ep iRet now cs st)
  then obtain ret st' where g: "Leaky_ReportEndPoint ep iRet now st = Some (ret, st')"
    using leaky.report_total [of st ep iRet now] by (auto simp: leaky_bucket_strategy_def)
  then have "strategy_ok st'" using leaky.report_keeps [of st ep iRet now ret st'] 3(2) by (simp add: leaky_bucket_strategy_def)
  with 3 g show ?case by simp
qed simp

text \<open>
  C31: calls of the strategy do not go wrong. From a new strategy with a period that is not 0, any sequence of
  choices from lists that are not empty and of reports returns, and keeps every handle that of the file of
  its endpoint.
\<close>

theorem strategy_sound:
  assumes "LeakyBucket_init mkdir_ret iBucketSize iFillPeriod s = Some st" "(of_int iFillPeriod :: u32) \<noteq> 0" "list_all call_ok cs"
  shows "\<exists>st'. run_calls cs st = Some st' \<and> strategy_ok st'"
proof -
  have "strategy_ok st" using assms(1,2) by (auto simp: LeakyBucket_init_def strategy_ok_def strategy_config_def split: if_splits)
  then show ?thesis using run_calls_ok assms(3) by blast
qed

theorem strategy_sound_witness:
  "\<exists>st'. run_calls [Report (hd three_endpoints) (-1) 61, Get three_endpoints no_endpoint 2 62] fresh_strategy = Some st' \<and> strategy_ok st'"
  by (rule strategy_sound [of "-1" 2 60 "\<lambda>_. Missing"]) (simp_all add: LeakyBucket_init_def fresh_strategy_def three_endpoints_def)

text \<open>
  Queries only go to configured servers. A query that succeeds was sent to a server that is in the list
  of endpoints when the query is made, whatever the list was when the connection was opened.
\<close>

theorem Query_only_configured:
  assumes "Query leaky_bucket_strategy api sql bPingFirst c = Some (CLIENT_OK, c')" "strategy_ok (sc_strategy c)"
  shows "sc_connected c' \<and> list_ex (\<lambda>ep. same_endpoint ep (sc_endpoint c')) (sc_endpoints c)"
  using leaky.Query_configured [OF assms] by simp

lemma fresh_query:
  "map_option fst (Query leaky_bucket_strategy up_api ''SELECT 1'' True (fresh_client fresh_strategy)) = Some CLIENT_OK"
  by code_simp

theorem Query_only_configured_witness:
  "\<exists>c'. Query leaky_bucket_strategy up_api ''SELECT 1'' True (fresh_client fresh_strategy) = Some (CLIENT_OK, c') \<and>
     sc_connected c' \<and> list_ex (\<lambda>ep. same_endpoint ep (sc_endpoint c')) three_endpoints"
proof -
  obtain c' where c': "Query leaky_bucket_strategy up_api ''SELECT 1'' True (fresh_client fresh_strategy) = Some (CLIENT_OK, c')"
    using fresh_query by auto
  from Query_only_configured [OF c'] fresh_strategy_ok c' show ?thesis by (auto simp: fresh_client_def)
qed

section \<open>The choice of an endpoint\<close>

text \<open>
  The reference: of the endpoints after the random one, in a circle, the first that is not the previous one
  and has a token left; without one, the random one.
\<close>

definition token_left :: "u32 \<Rightarrow> leaky_strategy \<Rightarrow> MySQLEndPoint \<Rightarrow> bool" where
  "token_left now st ep =
     (case find_bucket ep st of
        (lb, st') \<Rightarrow>
          (case bucket_at lb (ls_store st') of
             None \<Rightarrow> True
           | Some b \<Rightarrow> (case refilled (strategy_config st) now b of None \<Rightarrow> False | Some b \<Rightarrow> bk_token_count b > 0)))"

definition choose_endpoint :: "u32 \<Rightarrow> MySQLEndPoint list \<Rightarrow> MySQLEndPoint \<Rightarrow> nat \<Rightarrow> leaky_strategy \<Rightarrow> MySQLEndPoint" where
  "choose_endpoint now eps prev i st =
     (case find (\<lambda>ep. \<not> same_endpoint ep prev \<and> token_left now st ep) (drop (i + 1) eps @ take i eps) of
        None \<Rightarrow> eps ! i | Some ep \<Rightarrow> ep)"

lemma token_left_has:
  assumes "strategy_ok st" "endpoint_has_token now ep st = Some (t, st')"
  shows "t = token_left now st ep"
proof -
  obtain lb st1 where f: "find_bucket ep st = (lb, st1)" by (cases "find_bucket ep st")
  note k = find_bucket_ok [OF assms(1) f]
  then have "lb_config lb = strategy_config st" "\<And>p. lb_path lb = Some p \<Longrightarrow> \<exists>b. ls_store st1 p = Mapped b"
    unfolding strategy_ok_def by metis+
  then show ?thesis using assms(2)
    by (fastforce simp: endpoint_has_token_def token_left_def f HasToken_def bucket_at_def split: option.splits bucket_file.splits)
qed

lemma refilled_twice: "refilled cfg now b = Some b' \<Longrightarrow> refilled cfg now b' = Some b'"
proof -
  assume r: "refilled cfg now b = Some b'"
  then obtain t where t: "period_start (bc_refill_period cfg) now = Some t" by (auto simp: refilled_def)
  with r have "bk_latest_refill_time b' = t" by (cases "bk_latest_refill_time b = t") (simp_all add: refilled_def, auto)
  with t show "refilled cfg now b' = Some b'" by (simp add: refilled_def)
qed

text \<open>The bucket that is used for a key, whether it is open already or not.\<close>

definition bucket_path :: "string \<Rightarrow> string" where
  "bucket_path key = PHXSQL_LEAKEYBUCKET_DIR @ ''/'' @ key"

definition bucket_view :: "leaky_strategy \<Rightarrow> string \<Rightarrow> bucket option" where
  "bucket_view st key =
     (case ls_mapBucket st key of
        Some lb \<Rightarrow> bucket_at lb (ls_store st)
      | None \<Rightarrow> (case ls_store st (bucket_path key) of
          Missing \<Rightarrow> Some \<lparr>bk_token_count = 0, bk_latest_refill_time = 0\<rparr> | Mapped b \<Rightarrow> Some b | Unusable \<Rightarrow> None))"

lemma find_bucket_view:
  assumes "strategy_ok st" "find_bucket ep st = (lb, st')"
  shows "bucket_view st' = bucket_view st" "bucket_at lb (ls_store st') = bucket_view st (EndPoint_ToString ep)"
proof -
  let ?k = "EndPoint_ToString ep"
  have "bucket_view st' key = bucket_view st key" for key
  proof (cases "ls_mapBucket st ?k")
    case (Some lb')
    then show ?thesis using assms(2) by (simp add: find_bucket_def)
  next
    case None
    have paths: "p \<noteq> bucket_path ?k" if "ls_mapBucket st key' = Some lb'" "lb_path lb' = Some p" for key' lb' p
      using assms(1) that None unfolding strategy_ok_def bucket_path_def by fastforce
    from None assms(2) have "st' = st\<lparr>ls_mapBucket := (ls_mapBucket st)(?k \<mapsto> lb), ls_store := snd (getMmapPtr (bucket_path ?k) (ls_store st))\<rparr>"
      "lb_path lb = (if fst (getMmapPtr (bucket_path ?k) (ls_store st)) then Some (bucket_path ?k) else None)"
      by (auto simp: find_bucket_def Bucket_Init_def bucket_path_def Let_def split: prod.splits)
    then show ?thesis using paths [of key] None
      by (cases "key = ?k"; cases "ls_store st (bucket_path ?k)"; cases "ls_mapBucket st key")
        (auto simp: bucket_view_def getMmapPtr_def bucket_at_def bucket_path_def split: option.splits)
  qed
  then show "bucket_view st' = bucket_view st" by blast
  then show "bucket_at lb (ls_store st') = bucket_view st (EndPoint_ToString ep)"
    using find_bucket_ok [OF assms] by (metis bucket_view_def option.simps(5))
qed

lemma token_left_view:
  "strategy_ok st \<Longrightarrow> token_left now st ep =
     (case bucket_view st (EndPoint_ToString ep) of
        None \<Rightarrow> True | Some b \<Rightarrow> (case refilled (strategy_config st) now b of None \<Rightarrow> False | Some b \<Rightarrow> bk_token_count b > 0))"
  by (cases "find_bucket ep st") (simp add: token_left_def find_bucket_view(2))

lemma bucket_view_store:
  assumes "strategy_ok st" "ls_mapBucket st k = Some lb" "lb_path lb = Some p"
  shows "bucket_view (st\<lparr>ls_store := (ls_store st)(p := Mapped b)\<rparr>) key = (if key = k then Some b else bucket_view st key)"
proof -
  have p: "p = bucket_path k" using assms unfolding strategy_ok_def bucket_path_def by blast
  have other: "p' \<noteq> p" if "key \<noteq> k" "ls_mapBucket st key = Some lb'" "lb_path lb' = Some p'" for lb' p'
    using assms(1) that unfolding p strategy_ok_def bucket_path_def by fastforce
  show ?thesis
  proof (cases "ls_mapBucket st key")
    case None
    then have "key \<noteq> k" using assms(2) by auto
    then show ?thesis using None by (simp add: bucket_view_def p bucket_path_def)
  next
    case (Some lb')
    then show ?thesis using assms(2,3) other [of lb'] by (cases "key = k") (auto simp: bucket_view_def bucket_at_def split: option.splits)
  qed
qed

lemma has_token_view:
  assumes "strategy_ok st" "endpoint_has_token now ep st = Some (t, st')"
  shows "bucket_view st' key = (if key = EndPoint_ToString ep then Option.bind (bucket_view st key) (refilled (strategy_config st) now) else bucket_view st key)"
    "strategy_config st' = strategy_config st" "strategy_ok st'"
proof -
  obtain lb st1 where f: "find_bucket ep st = (lb, st1)" by (cases "find_bucket ep st")
  note k = find_bucket_ok [OF assms(1) f] and v = find_bucket_view [OF assms(1) f]
  from k have cfg: "lb_config lb = strategy_config st" unfolding strategy_ok_def by metis
  obtain s where s: "HasToken now lb (ls_store st1) = Some (t, s)" "st' = st1\<lparr>ls_store := s\<rparr>"
    using assms(2) by (auto simp: endpoint_has_token_def f)
  show "strategy_config st' = strategy_config st" "strategy_ok st'" using endpoint_has_token_ok [OF assms(1), of now ep] assms(2) by auto
  show "bucket_view st' key = (if key = EndPoint_ToString ep then Option.bind (bucket_view st key) (refilled (strategy_config st) now) else bucket_view st key)"
  proof (cases "lb_path lb")
    case None
    then have "st' = st1" using s by (simp add: HasToken_def)
    then show ?thesis using None v by (simp add: bucket_at_def)
  next
    case (Some p)
    then obtain b b' where b: "ls_store st1 p = Mapped b" "refilled (strategy_config st) now b = Some b'" "s = (ls_store st1)(p := Mapped b')"
      using s(1) cfg by (auto simp: HasToken_def split: bucket_file.splits)
    have "bucket_view st (EndPoint_ToString ep) = Some b" using v(2) Some b(1) by (simp add: bucket_at_def)
    then show ?thesis using bucket_view_store [of st1 "EndPoint_ToString ep" lb p b' key] k Some v(1) b(2,3) s(2) by simp
  qed
qed

lemma token_left_stable:
  assumes "strategy_ok st" "endpoint_has_token now ep st = Some (t, st')"
  shows "token_left now st' ep' = token_left now st ep'"
proof -
  note v = has_token_view [OF assms]
  have p: "bc_refill_period (strategy_config st) \<noteq> 0" using assms(1) by (simp add: strategy_ok_def)
  show ?thesis
  proof (cases "bucket_view st (EndPoint_ToString ep')")
    case (Some b)
    obtain b' where "refilled (strategy_config st) now b = Some b'" using refilled_returns [OF p] by blast
    then show ?thesis using Some v refilled_twice [of "strategy_config st" now b b']
      by (cases "EndPoint_ToString ep' = EndPoint_ToString ep") (simp_all add: token_left_view assms(1))
  qed (cases "EndPoint_ToString ep' = EndPoint_ToString ep"; simp add: token_left_view assms(1) v)
qed

text \<open>The rest of the walk.\<close>

definition walk :: "'a list \<Rightarrow> nat \<Rightarrow> nat \<Rightarrow> 'a list" where
  "walk eps b p = (if p \<le> b then drop p (take b eps) else drop p eps @ take b eps)"

lemma walk_step:
  assumes "p < length eps" "b < length eps" "p \<noteq> b"
  shows "walk eps b p = eps ! p # walk eps b ((p + 1) mod length eps)"
proof (cases "p + 1 = length eps")
  case True
  then show ?thesis using assms by (auto simp: walk_def Cons_nth_drop_Suc [symmetric])
next
  case False
  then have m: "(p + 1) mod length eps = p + 1" using assms(1) by simp
  show ?thesis
  proof (cases "p < b")
    case True
    then have "drop p (take b eps) = eps ! p # drop (Suc p) (take b eps)" using assms by (subst Cons_nth_drop_Suc [symmetric]) auto
    then show ?thesis using True m by (simp add: walk_def)
  next
    case False
    then show ?thesis using assms m by (simp add: walk_def Cons_nth_drop_Suc [symmetric])
  qed
qed

lemma GetEndPoint_loop_find:
  assumes "strategy_ok st" "b < length eps" "p < length eps"
  shows "\<exists>st'. GetEndPoint_loop now eps prev b p st =
    Some (find (\<lambda>ep. \<not> same_endpoint ep prev \<and> token_left now st ep) (walk eps b p), st')"
  using assms
proof (induction now eps prev b p st rule: GetEndPoint_loop.induct)
  case (1 now eps prev b p st)
  have q: "(p + 1) mod length eps < length eps" using 1(5) by (intro mod_less_divisor) auto
  obtain t st1 where h: "endpoint_has_token now (eps ! p) st = Some (t, st1)" "strategy_ok st1"
    using endpoint_has_token_ok [OF 1(3)] by blast
  note tl = token_left_has [OF 1(3) h(1)] token_left_stable [OF 1(3) h(1)]
  show ?case
  proof (cases "p = b")
    case False
    note w = walk_step [OF 1(5,4) False]
    show ?thesis
    proof (cases "same_endpoint (eps ! p) prev")
      case True
      from 1(1) [OF False _ True 1(3,4) q] 1(4,5) show ?thesis unfolding w by (subst GetEndPoint_loop.simps) (simp add: False True)
    next
      case other: False
      show ?thesis
      proof (cases t)
        case True
        then show ?thesis using 1(4,5) tl(1) unfolding w by (subst GetEndPoint_loop.simps) (simp add: False other h)
      next
        case no: False
        from 1(2) [OF False _ other, of "(t, st1)" t st1] h no 1(4,5) q tl show ?thesis unfolding w
          by (subst GetEndPoint_loop.simps) (simp add: False other)
      qed
    qed
  qed (simp add: GetEndPoint_loop.simps walk_def)
qed

lemma GetEndPoint_chooses:
  assumes "strategy_ok st" "eps \<noteq> []"
  shows "\<exists>st'. Leaky_GetEndPoint eps prev r now st =
    Some (CLIENT_OK, choose_endpoint now eps prev (unat (RandomPicker r 0 (of_nat (length eps)))) st, st')"
proof -
  let ?b = "unat (RandomPicker r 0 (of_nat (length eps)))"
  have b: "?b < length eps" using RandomPicker_less [of "length eps" r] assms(2) by simp
  have "walk eps ?b ((?b + 1) mod length eps) = drop (?b + 1) eps @ take ?b eps"
  proof (cases "?b + 1 = length eps")
    case False
    then have "(?b + 1) mod length eps = ?b + 1" using b by simp
    then show ?thesis by (simp add: walk_def)
  qed (simp add: walk_def)
  moreover have "(?b + 1) mod length eps < length eps" using assms(2) by simp
  ultimately obtain st' where "GetEndPoint_loop now eps prev ?b ((?b + 1) mod length eps) st =
      Some (find (\<lambda>ep. \<not> same_endpoint ep prev \<and> token_left now st ep) (drop (?b + 1) eps @ take ?b eps), st')"
    using GetEndPoint_loop_find [OF assms(1) b, of "(?b + 1) mod length eps" now prev] by auto
  then show ?thesis using assms(2) by (auto simp: Leaky_GetEndPoint_def choose_endpoint_def Let_def split: option.splits)
qed

text \<open>
  C29: the choice of an endpoint. The walk over the endpoints, with the buckets it opens and fills on its way,
  ends, and chooses the endpoint of the reference. The clock does not move during the walk.
\<close>

theorem GetEndPoint_reference:
  assumes "strategy_ok st" "eps \<noteq> []"
  shows "\<exists>st'. Leaky_GetEndPoint eps prev r now st =
    Some (CLIENT_OK, choose_endpoint now eps prev (unat (RandomPicker r 0 (of_nat (length eps)))) st, st')"
  by (rule GetEndPoint_chooses [OF assms])

theorem GetEndPoint_reference_witness:
  "strategy_ok fresh_strategy \<and> (\<exists>st'. Leaky_GetEndPoint three_endpoints no_endpoint 7 61 fresh_strategy =
     Some (CLIENT_OK, choose_endpoint 61 three_endpoints no_endpoint (unat (RandomPicker 7 0 (of_nat (length three_endpoints)))) fresh_strategy, st'))"
  using GetEndPoint_reference [of fresh_strategy three_endpoints no_endpoint 7 61] fresh_strategy_ok by (simp add: three_endpoints_def)

section \<open>Servers that fail are avoided\<close>

fun report_failures :: "MySQLEndPoint \<Rightarrow> u32 list \<Rightarrow> leaky_strategy \<Rightarrow> leaky_strategy option" where
  "report_failures ep [] st = Some st"
| "report_failures ep (now # ts) st =
     (case Leaky_ReportEndPoint ep (-1) now st of None \<Rightarrow> None | Some (_, st) \<Rightarrow> report_failures ep ts st)"

lemma report_view:
  assumes "strategy_ok st" "Leaky_ReportEndPoint ep (-1) now st = Some (ret, st')" "bucket_view st (EndPoint_ToString ep) = Some b"
  shows "strategy_ok st'" "strategy_config st' = strategy_config st"
    "\<exists>b'. refilled (strategy_config st) now b = Some b' \<and> bucket_view st' (EndPoint_ToString ep) =
       Some (if 1 \<le> bk_token_count b' then b'\<lparr>bk_token_count := bk_token_count b' - 1\<rparr> else b')"
proof -
  obtain lb st1 where f: "find_bucket ep st = (lb, st1)" by (cases "find_bucket ep st")
  note k = find_bucket_ok [OF assms(1) f] and v = find_bucket_view [OF assms(1) f]
  from k have cfg: "lb_config lb = strategy_config st" unfolding strategy_ok_def by metis
  obtain code s where a: "Bucket_Apply now 1 lb (ls_store st1) = Some (code, s)" "st' = st1\<lparr>ls_store := s\<rparr>"
    using assms(2) by (auto simp: Leaky_ReportEndPoint_def f)
  show "strategy_ok st'" using leaky.report_keeps [OF assms(1)] assms(2) by (simp add: leaky_bucket_strategy_def)
  show "strategy_config st' = strategy_config st" using k a(2) by (simp add: strategy_config_def)
  obtain p where p: "lb_path lb = Some p" "ls_store st1 p = Mapped b"
    using v(2) assms(3) by (auto simp: bucket_at_def split: option.splits bucket_file.splits)
  obtain b' where b': "refilled (strategy_config st) now b = Some b'"
    "s = (ls_store st1)(p := Mapped (if 1 \<le> bk_token_count b' then b'\<lparr>bk_token_count := bk_token_count b' - 1\<rparr> else b'))"
    using a(1) p cfg by (auto simp: Bucket_Apply_def split: if_splits)
  then show "\<exists>b'. refilled (strategy_config st) now b = Some b' \<and> bucket_view st' (EndPoint_ToString ep) =
       Some (if 1 \<le> bk_token_count b' then b'\<lparr>bk_token_count := bk_token_count b' - 1\<rparr> else b')"
    using bucket_view_store [of st1 "EndPoint_ToString ep" lb p _ "EndPoint_ToString ep"] k p(1) a(2) by simp
qed

lemma failures_exhaust:
  assumes "strategy_ok st" "report_failures ep ts st = Some st'" "bucket_view st (EndPoint_ToString ep) = Some b"
    and "\<forall>now\<in>set ts. period_start (bc_refill_period (strategy_config st)) now = Some t"
    and "(if bk_latest_refill_time b = t then bk_token_count b else bc_bucket_size (strategy_config st)) \<le> m"
  shows "strategy_ok st' \<and> strategy_config st' = strategy_config st \<and>
    (\<exists>b'. bucket_view st' (EndPoint_ToString ep) = Some b' \<and>
      (ts \<noteq> [] \<longrightarrow> bk_latest_refill_time b' = t \<and> bk_token_count b' \<le> max 0 (m - int (length ts))))"
  using assms
proof (induction ts arbitrary: st b m)
  case (Cons now ts)
  obtain ret st1 where r: "Leaky_ReportEndPoint ep (-1) now st = Some (ret, st1)" "report_failures ep ts st1 = Some st'"
    using Cons.prems(2) by (auto split: option.splits)
  note v = report_view [OF Cons.prems(1) r(1) Cons.prems(3)]
  then obtain b' where b': "refilled (strategy_config st) now b = Some b'"
    "bucket_view st1 (EndPoint_ToString ep) = Some (if 1 \<le> bk_token_count b' then b'\<lparr>bk_token_count := bk_token_count b' - 1\<rparr> else b')"
    (is "_ = Some ?b1") by blast
  have b1: "bk_latest_refill_time b' = t" "bk_token_count b' \<le> m"
    using b'(1) Cons.prems(4,5) by (auto simp: refilled_def split: if_splits)
  then have n: "(if bk_latest_refill_time ?b1 = t then bk_token_count ?b1 else bc_bucket_size (strategy_config st1)) \<le> max 0 (m - 1)" by (auto simp: max_def)
  show ?case
  proof (cases ts)
    case Nil
    then show ?thesis using r(2) v(1,2) b'(2) b1 by (auto simp: max_def)
  next
    case (Cons a ts')
    from Cons.IH [OF v(1) r(2) b'(2) _ n] Cons.prems(4) v(2) local.Cons show ?thesis by (auto simp: max_def split: if_splits)
  qed
qed simp

text \<open>
  C30: a server that fails is avoided. After as many failures in one period as a bucket has tokens, the
  strategy does not choose this server until the period is over, except as the random one when no other
  server has a token left. The failures are reported one after the other, and the file of the bucket is mapped.
\<close>

theorem failed_endpoint_avoided:
  assumes "strategy_ok st" "report_failures ep ts st = Some st'" "bucket_view st (EndPoint_ToString ep) = Some b"
    and "\<forall>now\<in>set ts. period_start (bc_refill_period (strategy_config st)) now = Some t"
    and "period_start (bc_refill_period (strategy_config st)) now' = Some t"
    and "ls_BucketSize st \<le> int (length ts)" "bk_token_count b \<le> ls_BucketSize st" "ts \<noteq> []"
    and "Leaky_GetEndPoint eps prev r now' st' = Some (ret, ep', st'')"
    and "ep' \<noteq> eps ! unat (RandomPicker r 0 (of_nat (length eps)))"
  shows "EndPoint_ToString ep' \<noteq> EndPoint_ToString ep"
proof
  assume key: "EndPoint_ToString ep' = EndPoint_ToString ep"
  let ?i = "unat (RandomPicker r 0 (of_nat (length eps)))"
  have "(if bk_latest_refill_time b = t then bk_token_count b else bc_bucket_size (strategy_config st)) \<le> ls_BucketSize st"
    using assms(7) by (simp add: strategy_config_def)
  from failures_exhaust [OF assms(1-4) this] assms(6,8) obtain b' where
    b': "strategy_ok st'" "strategy_config st' = strategy_config st" "bucket_view st' (EndPoint_ToString ep) = Some b'"
      "bk_latest_refill_time b' = t" "bk_token_count b' \<le> 0" by auto
  have "\<not> token_left now' st' ep'"
    using b' assms(5) by (simp add: token_left_view key refilled_def)
  moreover have "eps \<noteq> []" using assms(9) by (auto simp: Leaky_GetEndPoint_def)
  then obtain s where "Leaky_GetEndPoint eps prev r now' st' = Some (CLIENT_OK, choose_endpoint now' eps prev ?i st', s)"
    using GetEndPoint_chooses [OF b'(1)] by blast
  then have "ep' = choose_endpoint now' eps prev ?i st'" using assms(9) by simp
  ultimately show False using assms(10) by (auto simp: choose_endpoint_def find_Some_iff split: option.splits)
qed

lemma fresh_avoided:
  "map_option (\<lambda>st'. map_option (\<lambda>(ret, ep', _). ep') (Leaky_GetEndPoint three_endpoints no_endpoint 2 63 st'))
     (report_failures (hd three_endpoints) [61, 62] fresh_strategy) = Some (Some (three_endpoints ! 1))"
  by code_simp

lemma fresh_period:
  "period_start (bc_refill_period (strategy_config fresh_strategy)) 61 = Some 60"
  "period_start (bc_refill_period (strategy_config fresh_strategy)) 62 = Some 60"
  "period_start (bc_refill_period (strategy_config fresh_strategy)) 63 = Some 60"
  by code_simp+

theorem failed_endpoint_avoided_witness:
  "\<exists>st' ret ep' st''. report_failures (hd three_endpoints) [61, 62] fresh_strategy = Some st' \<and>
     Leaky_GetEndPoint three_endpoints no_endpoint 2 63 st' = Some (ret, ep', st'') \<and>
     EndPoint_ToString ep' \<noteq> EndPoint_ToString (hd three_endpoints)"
proof -
  obtain st' ret st'' where s: "report_failures (hd three_endpoints) [61, 62] fresh_strategy = Some st'"
    "Leaky_GetEndPoint three_endpoints no_endpoint 2 63 st' = Some (ret, three_endpoints ! 1, st'')"
    using fresh_avoided by auto
  have view: "bucket_view fresh_strategy (EndPoint_ToString (hd three_endpoints)) = Some \<lparr>bk_token_count = 0, bk_latest_refill_time = 0\<rparr>"
    by (simp add: bucket_view_def fresh_strategy_def)
  have other: "three_endpoints ! 1 \<noteq> three_endpoints ! unat (RandomPicker 2 0 (of_nat (length three_endpoints)))" by code_simp
  have "EndPoint_ToString (three_endpoints ! 1) \<noteq> EndPoint_ToString (hd three_endpoints)"
    by (rule failed_endpoint_avoided [OF fresh_strategy_ok s(1) view _ fresh_period(3) _ _ _ s(2) other])
      (use fresh_period in \<open>simp_all add: fresh_strategy_def\<close>)
  with s show ?thesis by blast
qed

section \<open>A connection that is not one\<close>

text \<open>
  C40: a failed connection is reported as success. When every attempt to connect fails, \<^verbatim>\<open>Connect\<close> of a client with
  the random strategy returns OK and the client is not connected.
\<close>

theorem Connect_reports_OK:
  assumes "\<not> sc_connected c" "sc_endpoints c \<noteq> []" "\<And>ep. ep \<in> set (sc_endpoints c) \<Longrightarrow> ep_MySQLIP ep \<noteq> [] \<and> ep_Port ep \<noteq> 0"
    and "\<And>ep q. \<not> fst (sq_connect api ep q)"
  shows "\<exists>c'. Client_Connect random_strategy api c = Some (CLIENT_OK, c') \<and> \<not> sc_connected c'"
proof -
  have "\<exists>c'. connect_attempts random_strategy api n prev c = Some (CLIENT_OK, c') \<and> \<not> sc_connected c'" for n prev
    using assms(1-3)
  proof (induction n arbitrary: prev c)
    case (Suc n)
    let ?i = "unat (RandomPicker (sq_rand api (sc_q c)) 0 (of_nat (length (sc_endpoints c))))"
    have i: "?i < length (sc_endpoints c)" using RandomPicker_less Suc.prems(2) by simp
    obtain q where q: "sq_connect api (sc_endpoints c ! ?i) (sc_q c) = (False, q)"
      using assms(4) [of "sc_endpoints c ! ?i" "sc_q c"] by (cases "sq_connect api (sc_endpoints c ! ?i) (sc_q c)") auto
    have "ep_MySQLIP (sc_endpoints c ! ?i) \<noteq> [] \<and> ep_Port (sc_endpoints c ! ?i) \<noteq> 0" using Suc.prems(3) i by simp
    then show ?case using Suc.IH [of "c\<lparr>sc_q := q, sc_strategy := ()\<rparr>" "sc_endpoints c ! ?i"] Suc.prems i
      by (simp add: random_strategy_def Random_GetEndPoint_def Random_ReportEndPoint_def Let_def q)
  qed simp
  then show ?thesis using assms(1) by (simp add: Client_Connect_def)
qed

text \<open>A client library that reaches no server.\<close>

definition down_api :: "nat sql_api" where
  "down_api = up_api\<lparr>sq_connect := \<lambda>_ q. (False, Suc q)\<rparr>"

theorem Connect_reports_OK_witness:
  "\<exists>c'. Client_Connect random_strategy down_api (fresh_client ()) = Some (CLIENT_OK, c') \<and> \<not> sc_connected c'"
  by (rule Connect_reports_OK) (auto simp: fresh_client_def three_endpoints_def down_api_def)

end
