(* ===== verification/Ini.thy ===== *)
theory Ini
  imports Phx_Prelude
begin

text \<open>
  The reader of configuration files: the parser of \<^verbatim>\<open>phxcomm/configparser/inih-master/ini.cpp\<close> with the
  options that \<^verbatim>\<open>ini.h\<close> sets, and the table of values of \<^verbatim>\<open>cpp/INIReader.cpp\<close>. Files that are printed line by
  line are read back.
\<close>

section \<open>The parser\<close>

abbreviation (input) INI_MAX_LINE :: nat where "INI_MAX_LINE \<equiv> 200"
abbreviation (input) MAX_SECTION :: nat where "MAX_SECTION \<equiv> 50"
abbreviation (input) MAX_NAME :: nat where "MAX_NAME \<equiv> 50"

abbreviation (input) newline :: char where
  "newline \<equiv> CHR 0x0A"

text \<open>\<^verbatim>\<open>fgets\<close> with room for \<open>n\<close> characters: up to and with the end of the line.\<close>

fun fgets :: "nat \<Rightarrow> string \<Rightarrow> string \<times> string" where
  "fgets 0 s = ([], s)"
| "fgets (Suc n) [] = ([], [])"
| "fgets (Suc n) (c # s) = (if c = newline then ([c], s) else case fgets n s of (l, rest) \<Rightarrow> (c # l, rest))"

lemma fgets_shorter: "length (snd (fgets n s)) \<le> length s"
  by (induction n s rule: fgets.induct) (auto split: prod.splits)

function ini_lines :: "string \<Rightarrow> string list" where
  "ini_lines s = (if s = [] then [] else case fgets (INI_MAX_LINE - 1) s of (l, rest) \<Rightarrow> l # ini_lines rest)"
  by pat_completeness auto

lemma fgets_reads: "s \<noteq> [] \<Longrightarrow> n \<noteq> 0 \<Longrightarrow> length (snd (fgets n s)) < length s"
proof (cases n; cases s)
  fix m c t
  assume "n = Suc m" "s = c # t"
  then show ?thesis using fgets_shorter [of m t] by (auto split: prod.splits)
qed auto

termination ini_lines
proof (relation "measure length")
  show "(rest, s) \<in> measure length" if "s \<noteq> []" "(l, rest) = fgets (INI_MAX_LINE - 1) s" for s l rest
    using fgets_reads [OF that(1), of "INI_MAX_LINE - 1"] that(2) [symmetric] by simp
qed simp

declare ini_lines.simps [simp del]

definition rstrip :: "string \<Rightarrow> string" where
  "rstrip s = rev (dropWhile is_space (rev s))"

definition lskip :: "string \<Rightarrow> string" where
  "lskip s = dropWhile is_space s"

text \<open>
  What is in front of the first of \<open>chars\<close> or of a comment, and the rest from there; \<open>was_space\<close> says whether
  the character before was white space.
\<close>

fun find_chars_or_comment :: "string \<Rightarrow> bool \<Rightarrow> string \<Rightarrow> string \<times> string" where
  "find_chars_or_comment chars was_space [] = ([], [])"
| "find_chars_or_comment chars was_space (c # s) =
     (if c \<in> set chars \<or> was_space \<and> c = CHR '';'' then ([], c # s)
      else case find_chars_or_comment chars (is_space c) s of (front, rest) \<Rightarrow> (c # front, rest))"

definition strncpy0 :: "nat \<Rightarrow> string \<Rightarrow> string" where
  "strncpy0 n s = take (n - 1) s"

text \<open>\<open>ip_error\<close> is the number of the first line with an error, 0 when there is none.\<close>

record 'u ini_state =
  ip_section :: string
  ip_prev_name :: string
  ip_lineno :: nat
  ip_error :: nat
  ip_user :: 'u

type_synonym 'u ini_handler = "string \<Rightarrow> string \<Rightarrow> string \<Rightarrow> 'u \<Rightarrow> bool \<times> 'u"

definition ini_failed :: "'u ini_state \<Rightarrow> 'u ini_state" where
  "ini_failed st = (if ip_error st = 0 then st\<lparr>ip_error := ip_lineno st\<rparr> else st)"

definition call_handler :: "'u ini_handler \<Rightarrow> string \<Rightarrow> string \<Rightarrow> 'u ini_state \<Rightarrow> 'u ini_state" where
  "call_handler handler name val st =
     (case handler (ip_section st) name val (ip_user st) of
        (ok, u) \<Rightarrow> let st = st\<lparr>ip_user := u\<rparr> in if ok then st else ini_failed st)"

text \<open>A pair of a name and a value; a line without a separator is passed over.\<close>

definition ini_pair :: "'u ini_handler \<Rightarrow> string \<Rightarrow> 'u ini_state \<Rightarrow> 'u ini_state" where
  "ini_pair handler start st =
     (case find_chars_or_comment ''=:'' False start of
        (front, e # rest) \<Rightarrow>
          if e = CHR ''='' \<or> e = CHR '':''
          then let name = rstrip front; val = rstrip (fst (find_chars_or_comment [] False (lskip rest)))
            in call_handler handler name val (st\<lparr>ip_prev_name := strncpy0 MAX_NAME name\<rparr>)
          else st
      | (_, []) \<Rightarrow> st)"

definition ini_section :: "string \<Rightarrow> 'u ini_state \<Rightarrow> 'u ini_state" where
  "ini_section rest st =
     (case find_chars_or_comment '']'' False rest of
        (front, e # _) \<Rightarrow>
          if e = CHR '']'' then st\<lparr>ip_section := strncpy0 MAX_SECTION front, ip_prev_name := []\<rparr> else ini_failed st
      | (_, []) \<Rightarrow> ini_failed st)"

text \<open>
  One line. A line that is indented continues the value of the name before it; that can only be so when
  there is one, and then the line is not the first, which may begin with a byte order mark.
\<close>

definition ini_line :: "'u ini_handler \<Rightarrow> string \<Rightarrow> 'u ini_state \<Rightarrow> 'u ini_state" where
  "ini_line handler line st =
     (let st = st\<lparr>ip_lineno := ip_lineno st + 1\<rparr>; line = c_str line;
          line = (if ip_lineno st = 1 \<and> take 3 line = [CHR 0xEF, CHR 0xBB, CHR 0xBF] then drop 3 line else line);
          stripped = rstrip line; start = lskip stripped
      in case start of
           [] \<Rightarrow> st
         | c # rest \<Rightarrow>
             if c = CHR '';'' \<or> c = CHR ''#'' then st
             else if ip_prev_name st \<noteq> [] \<and> start \<noteq> stripped then call_handler handler (ip_prev_name st) start st
             else if c = CHR ''['' then ini_section rest st
             else ini_pair handler start st)"

definition ini_parse_stream :: "'u ini_handler \<Rightarrow> string \<Rightarrow> 'u \<Rightarrow> int \<times> 'u" where
  "ini_parse_stream handler text u =
     (let st = fold (ini_line handler) (ini_lines text)
        \<lparr>ip_section = [], ip_prev_name = [], ip_lineno = 0, ip_error = 0, ip_user = u\<rparr>
      in (int (ip_error st), ip_user st))"

text \<open>The contents of the file, when it can be opened.\<close>

definition ini_parse :: "'u ini_handler \<Rightarrow> string option \<Rightarrow> 'u \<Rightarrow> int \<times> 'u" where
  "ini_parse handler file u = (case file of None \<Rightarrow> (-1, u) | Some text \<Rightarrow> ini_parse_stream handler text u)"

section \<open>The table of values\<close>

type_synonym ini = "string \<Rightarrow> (string \<Rightarrow> string option) option"

definition ValueHandler :: "ini ini_handler" where
  "ValueHandler section name val v =
     (True, v(section \<mapsto> (case v section of None \<Rightarrow> Map.empty | Some m \<Rightarrow> m)(name \<mapsto> val)))"

text \<open>Values that were read before stay.\<close>

definition INIReader_ReadFile :: "string option \<Rightarrow> ini \<Rightarrow> int \<times> ini" where
  "INIReader_ReadFile file v = ini_parse ValueHandler file v"

definition INIReader_Get :: "ini \<Rightarrow> string \<Rightarrow> string \<Rightarrow> string \<Rightarrow> string" where
  "INIReader_Get v section name default_value =
     (case v section of
        None \<Rightarrow> default_value
      | Some m \<Rightarrow> (case m name of None \<Rightarrow> default_value | Some x \<Rightarrow> x))"

text \<open>\<^verbatim>\<open>strtol\<close> with base 0: hexadecimal behind 0x, octal behind 0; \<open>None\<close> when there is no number.\<close>

definition xdigit_val :: "char \<Rightarrow> nat" where
  "xdigit_val c =
     (let n = of_char c
      in if 48 \<le> n \<and> n \<le> 57 then n - 48 else if 97 \<le> n \<and> n \<le> 102 then n - 87 else if 65 \<le> n \<and> n \<le> 70 then n - 55 else 16)"

definition strtol :: "string \<Rightarrow> int option" where
  "strtol s =
     (let t = dropWhile is_space s;
          neg = (t \<noteq> [] \<and> hd t = CHR ''-'');
          u = (if t \<noteq> [] \<and> (hd t = CHR ''-'' \<or> hd t = CHR ''+'') then tl t else t);
          hex = (take 2 u \<in> {''0x'', ''0X''} \<and> drop 2 u \<noteq> [] \<and> xdigit_val (u ! 2) < 16);
          base = (if hex then 16 else if u \<noteq> [] \<and> hd u = CHR ''0'' then 8 else 10);
          ds = takeWhile (\<lambda>c. xdigit_val c < base) (if hex then drop 2 u else u);
          n = int (foldl (\<lambda>a c. base * a + xdigit_val c) 0 ds)
      in if ds = [] then None else Some (if neg then max (- (2 ^ 63)) (- n) else min (2 ^ 63 - 1) n))"

definition INIReader_GetInteger :: "ini \<Rightarrow> string \<Rightarrow> string \<Rightarrow> int \<Rightarrow> int" where
  "INIReader_GetInteger v section name default_value =
     (case strtol (INIReader_Get v section name []) of None \<Rightarrow> default_value | Some n \<Rightarrow> n)"

section \<open>Files that are printed are read back\<close>

type_synonym ini_file = "(string \<times> (string \<times> string) list) list"

definition pair_line :: "string \<times> string \<Rightarrow> string" where
  "pair_line e = fst e @ ''='' @ snd e @ [newline]"

definition section_line :: "string \<Rightarrow> string" where
  "section_line s = ''['' @ s @ '']'' @ [newline]"

definition section_lines :: "string \<times> (string \<times> string) list \<Rightarrow> string list" where
  "section_lines s = section_line (fst s) # map pair_line (snd s)"

definition print_ini :: "ini_file \<Rightarrow> string" where
  "print_ini f = concat (concat (map section_lines f))"

text \<open>Texts without the characters that end a name, a value or a line, and without white space at their ends.\<close>

definition plain :: "string \<Rightarrow> string \<Rightarrow> bool" where
  "plain special s \<longleftrightarrow> set s \<inter> set ([CHR 0x00, newline, CHR '';''] @ special) = {} \<and> (s \<noteq> [] \<longrightarrow> \<not> is_space (hd s) \<and> \<not> is_space (last s))"

definition pair_ok :: "string \<times> string \<Rightarrow> bool" where
  "pair_ok e \<longleftrightarrow> plain ''=:'' (fst e) \<and> fst e \<noteq> [] \<and> hd (fst e) \<noteq> CHR ''['' \<and> hd (fst e) \<noteq> CHR ''#'' \<and> plain [] (snd e) \<and>
     length (fst e) + length (snd e) < 198"

definition ini_file_ok :: "ini_file \<Rightarrow> bool" where
  "ini_file_ok f \<longleftrightarrow> list_all (\<lambda>s. plain '']'' (fst s) \<and> length (fst s) < 50 \<and> list_all pair_ok (snd s)) f"

definition ini_entries :: "ini_file \<Rightarrow> ((string \<times> string) \<times> string) list" where
  "ini_entries f = concat (map (\<lambda>s. map (\<lambda>e. ((fst s, fst e), snd e)) (snd s)) f)"

lemma fgets_line: "newline \<notin> set l \<Longrightarrow> length l < n \<Longrightarrow> fgets n (l @ newline # rest) = (l @ [newline], rest)"
proof (induction l arbitrary: n)
  case Nil
  then show ?case by (cases n) auto
next
  case (Cons c l)
  then show ?case by (cases n) auto
qed

lemma ini_lines_concat:
  assumes "\<And>l. l \<in> set ls \<Longrightarrow> \<exists>l'. l = l' @ [newline] \<and> newline \<notin> set l' \<and> length l' < 199"
  shows "ini_lines (concat ls) = ls"
  using assms
proof (induction ls)
  case (Cons l ls)
  from Cons.prems [of l] obtain l' where l: "l = l' @ [newline]" "newline \<notin> set l'" "length l' < 199" by auto
  have ls: "ini_lines (concat ls) = ls" using Cons by simp
  from l have "fgets (INI_MAX_LINE - 1) (concat (l # ls)) = (l, concat ls)"
    using fgets_line [of l' 199 "concat ls"] by simp
  moreover have "concat (l # ls) \<noteq> []" by (simp add: l(1))
  ultimately show ?case by (subst ini_lines.simps) (simp only: ls if_False prod.case)
qed (simp add: ini_lines.simps)

lemma rstrip_ends: "(s \<noteq> [] \<longrightarrow> \<not> is_space (last s)) \<Longrightarrow> \<forall>c\<in>set t. is_space c \<Longrightarrow> rstrip (s @ t) = s"
  by (cases s rule: rev_cases) (auto simp: rstrip_def dropWhile_append)

lemma rstrip_id [simp]: "(s \<noteq> [] \<longrightarrow> \<not> is_space (last s)) \<Longrightarrow> rstrip s = s"
  using rstrip_ends [of s "[]"] by simp

lemma lskip_id: "(s \<noteq> [] \<longrightarrow> \<not> is_space (hd s)) \<Longrightarrow> lskip s = s"
  by (cases s) (auto simp: lskip_def)

lemma find_chars_front:
  "\<forall>c\<in>set a. c \<notin> set chars \<and> c \<noteq> CHR '';'' \<Longrightarrow> e \<in> set chars \<Longrightarrow> find_chars_or_comment chars w (a @ e # b) = (a, e # b)"
  by (induction a arbitrary: w) auto

lemma find_chars_none:
  "\<forall>c\<in>set a. c \<notin> set chars \<and> c \<noteq> CHR '';'' \<Longrightarrow> find_chars_or_comment chars w a = (a, [])"
  by (induction a arbitrary: w) auto

lemma space_chars: "is_space newline" "\<not> is_space CHR ''=''" "\<not> is_space CHR '']''" "\<not> is_space CHR ''[''"
  by (simp_all add: is_space_def)

lemma ini_line_section:
  assumes "plain '']'' s" "length s < 50"
  shows "ini_line h (section_line s) st = st\<lparr>ip_section := s, ip_prev_name := [], ip_lineno := ip_lineno st + 1\<rparr>"
proof -
  have c: "c_str (section_line s) = section_line s" using assms(1) by (intro c_str_id) (auto simp: section_line_def plain_def)
  have r: "rstrip (section_line s) = ''['' @ s @ '']''"
    using rstrip_ends [of "''['' @ s @ '']''" "[newline]"] space_chars by (simp add: section_line_def)
  have f: "find_chars_or_comment '']'' False (s @ '']'') = (s, '']'')"
    using find_chars_front [of s "'']''" "CHR '']''"] assms(1) by (auto simp: plain_def)
  have "take 3 (section_line s) \<noteq> [CHR 0xEF, CHR 0xBB, CHR 0xBF]" by (simp add: section_line_def)
  then show ?thesis using assms(2) space_chars
    by (simp add: ini_line_def Let_def c r lskip_id ini_section_def f strncpy0_def)
qed

lemma ini_line_pair:
  assumes "pair_ok e" "ip_lineno st \<noteq> 0"
  shows "ini_line h (pair_line e) st =
    call_handler h (fst e) (snd e) (st\<lparr>ip_lineno := ip_lineno st + 1, ip_prev_name := strncpy0 MAX_NAME (fst e)\<rparr>)"
proof -
  have "fst e \<noteq> []" using assms(1) by (simp add: pair_ok_def)
  then obtain c n v where e: "e = (c # n, v)" by (cases e; cases "fst e") auto
  let ?s = "c # n @ CHR ''='' # v"
  note ok = assms(1) [unfolded e pair_ok_def plain_def, simplified]
  have cs: "c_str (pair_line (c # n, v)) = pair_line (c # n, v)" using ok by (intro c_str_id) (auto simp: pair_line_def)
  have r: "rstrip (pair_line (c # n, v)) = ?s"
    using rstrip_ends [of ?s "[newline]"] space_chars ok by (auto simp: pair_line_def)
  have f: "find_chars_or_comment ''=:'' False ?s = (c # n, CHR ''='' # v)"
    using find_chars_front [of "c # n" "''=:''" "CHR ''=''" False v] ok by (simp add: ball_Un) auto
  have v: "find_chars_or_comment [] False v = (v, [])" using find_chars_none [of v "[]" False] ok by auto
  have start: "lskip ?s = ?s" "lskip v = v" using ok by (auto intro!: lskip_id)
  have "ini_pair h ?s st = call_handler h (c # n) v (st\<lparr>ip_prev_name := strncpy0 MAX_NAME (c # n)\<rparr>)" for st
    using ok unfolding ini_pair_def f by (simp add: start v Let_def)
  moreover have "c \<noteq> CHR '';''" using ok by auto
  ultimately show ?thesis using assms(2) ok by (simp add: e ini_line_def Let_def cs r start)
qed

lemma fold_pairs:
  assumes "list_all pair_ok es" "ip_lineno st \<noteq> 0"
  shows "\<exists>p k. fold (ini_line ValueHandler) (map pair_line es) st =
    st\<lparr>ip_prev_name := p, ip_lineno := k, ip_user := fold (\<lambda>e v. snd (ValueHandler (ip_section st) (fst e) (snd e) v)) es (ip_user st)\<rparr> \<and> k \<noteq> 0"
  using assms
proof (induction es arbitrary: st)
  case Nil
  then show ?case by (intro exI [of _ "ip_prev_name st"] exI [of _ "ip_lineno st"]) simp
next
  case (Cons e es)
  let ?st = "st\<lparr>ip_prev_name := strncpy0 MAX_NAME (fst e), ip_lineno := ip_lineno st + 1, ip_user := snd (ValueHandler (ip_section st) (fst e) (snd e) (ip_user st))\<rparr>"
  have "ini_line ValueHandler (pair_line e) st = ?st"
    using ini_line_pair [of e st ValueHandler] Cons.prems by (simp add: call_handler_def ValueHandler_def)
  with Cons.IH [of ?st] Cons.prems show ?case by auto
qed

lemma fold_sections:
  assumes "ini_file_ok f"
  shows "\<exists>sec p k. fold (ini_line ValueHandler) (concat (map section_lines f)) st =
    st\<lparr>ip_section := sec, ip_prev_name := p, ip_lineno := k, ip_user := fold (\<lambda>((s, n), x) v. snd (ValueHandler s n x v)) (ini_entries f) (ip_user st)\<rparr>"
  using assms
proof (induction f arbitrary: st)
  case Nil
  then show ?case by (intro exI [of _ "ip_section st"] exI [of _ "ip_prev_name st"] exI [of _ "ip_lineno st"]) (simp add: ini_entries_def)
next
  case (Cons x f)
  obtain s es where x [simp]: "x = (s, es)" by (cases x)
  let ?st = "st\<lparr>ip_section := s, ip_prev_name := [], ip_lineno := Suc (ip_lineno st)\<rparr>"
  have sec: "ini_line ValueHandler (section_line s) st = ?st"
    using Cons.prems ini_line_section [of s ValueHandler st] by (simp add: ini_file_ok_def)
  obtain p k where p: "fold (ini_line ValueHandler) (map pair_line es) ?st =
      ?st\<lparr>ip_prev_name := p, ip_lineno := k, ip_user := fold (\<lambda>e v. snd (ValueHandler s (fst e) (snd e) v)) es (ip_user st)\<rparr>"
    using fold_pairs [of es ?st] Cons.prems by (auto simp: ini_file_ok_def)
  have e: "fold (\<lambda>((s, n), x) v. snd (ValueHandler s n x v)) (map (\<lambda>e. ((s, fst e), snd e)) es) u =
      fold (\<lambda>e v. snd (ValueHandler s (fst e) (snd e) v)) es u" for u by (simp add: fold_map comp_def)
  from Cons.IH [of "?st\<lparr>ip_prev_name := p, ip_lineno := k, ip_user := fold (\<lambda>e v. snd (ValueHandler s (fst e) (snd e) v)) es (ip_user st)\<rparr>"]
  show ?case using Cons.prems by (simp add: section_lines_def sec p ini_entries_def e ini_file_ok_def)
qed

lemma Get_fold:
  "INIReader_Get (fold (\<lambda>((s, n), x) v. snd (ValueHandler s n x v)) es v) s n d =
     (case map_of (rev es) (s, n) of None \<Rightarrow> INIReader_Get v s n d | Some x \<Rightarrow> x)"
proof (induction es arbitrary: v)
  case (Cons e es)
  obtain s' n' x where e [simp]: "e = ((s', n'), x)" by (metis surj_pair)
  have "INIReader_Get (snd (ValueHandler s' n' x v)) s n d = (if (s, n) = (s', n') then x else INIReader_Get v s n d)"
    by (auto simp: ValueHandler_def INIReader_Get_def split: option.splits)
  then show ?case by (simp add: Cons.IH map_add_def split: option.splits)
qed simp

lemma print_ini_lines: "ini_file_ok f \<Longrightarrow> ini_lines (print_ini f) = concat (map section_lines f)"
  unfolding print_ini_def
proof (rule ini_lines_concat)
  fix l assume ok: "ini_file_ok f" and "l \<in> set (concat (map section_lines f))"
  then obtain s where s: "s \<in> set f" "l \<in> set (section_lines s)" by auto
  then consider "l = (''['' @ fst s @ '']'') @ [newline]" | e where "e \<in> set (snd s)" "l = (fst e @ ''='' @ snd e) @ [newline]"
    by (auto simp: section_lines_def section_line_def pair_line_def)
  then show "\<exists>l'. l = l' @ [newline] \<and> newline \<notin> set l' \<and> length l' < 199"
  proof cases
    case 1
    then show ?thesis using ok s(1) by (intro exI [of _ "''['' @ fst s @ '']''"]) (auto simp: ini_file_ok_def list_all_iff plain_def)
  next
    case 2
    then have "pair_ok e" using ok s(1) by (auto simp: ini_file_ok_def list_all_iff)
    then show ?thesis using 2 by (intro exI [of _ "fst e @ ''='' @ snd e"]) (auto simp: pair_ok_def plain_def)
  qed
qed

lemma read_printed:
  assumes "ini_file_ok f"
  shows "INIReader_ReadFile (Some (print_ini f)) v = (0, fold (\<lambda>((s, n), x) v. snd (ValueHandler s n x v)) (ini_entries f) v)"
proof -
  let ?st = "\<lparr>ip_section = [], ip_prev_name = [], ip_lineno = 0, ip_error = 0, ip_user = v\<rparr>"
  from fold_sections [OF assms, of ?st] show ?thesis
    by (auto simp: INIReader_ReadFile_def ini_parse_def ini_parse_stream_def print_ini_lines [OF assms])
qed

text \<open>
  C28: configuration files. A file of sections with names and values, of characters and line lengths that
  \<open>ini_file_ok\<close> allows, is read without an error, and every value
  is then the last one that the file has for its section and name, or the default when it has none.
\<close>

theorem ini_roundtrip:
  assumes "ini_file_ok f"
  shows "\<exists>v. INIReader_ReadFile (Some (print_ini f)) Map.empty = (0, v) \<and>
    (\<forall>s n d. INIReader_Get v s n d = (case map_of (rev (ini_entries f)) (s, n) of None \<Rightarrow> d | Some x \<Rightarrow> x))"
proof -
  have "INIReader_Get Map.empty s n d = d" for s n d by (simp add: INIReader_Get_def)
  then show ?thesis by (simp add: read_printed [OF assms] Get_fold split: option.split)
qed

definition sample_ini :: ini_file where
  "sample_ini = [(''Server'', [(''IP'', ''10.0.0.1''), (''Port'', ''54321'')]), (''AgentOption'', [(''MasterLease'', ''20'')])]"

lemma sample_ini_ok: "ini_file_ok sample_ini"
  by (simp add: ini_file_ok_def sample_ini_def pair_ok_def plain_def is_space_def)

theorem ini_roundtrip_witness:
  "\<exists>v. INIReader_ReadFile (Some (print_ini sample_ini)) Map.empty = (0, v) \<and> INIReader_Get v ''Server'' ''Port'' ''0'' = ''54321''"
proof -
  obtain v where v: "INIReader_ReadFile (Some (print_ini sample_ini)) Map.empty = (0, v)"
    "\<forall>s n d. INIReader_Get v s n d = (case map_of (rev (ini_entries sample_ini)) (s, n) of None \<Rightarrow> d | Some x \<Rightarrow> x)"
    using ini_roundtrip [OF sample_ini_ok] by blast
  then have "INIReader_Get v ''Server'' ''Port'' ''0'' = ''54321''" by (simp add: ini_entries_def sample_ini_def)
  with v(1) show ?thesis by blast
qed

section \<open>Numbers\<close>

lemma xdigit_val_digit: "is_digit c \<Longrightarrow> xdigit_val c = digit_val c \<and> xdigit_val c < 10"
  by (auto simp: is_digit_def xdigit_val_def digit_val_def Let_def)

lemma hd_show_nat_pos: "0 < n \<Longrightarrow> hd (show_nat n) \<noteq> CHR ''0''"
proof (induction n rule: show_nat.induct)
  case (1 n)
  show ?case
  proof (cases "n < 10")
    case True
    then have "of_char (digit_char n) \<noteq> (of_char CHR ''0'' :: nat)" using 1(2) by simp
    then have "digit_char n \<noteq> CHR ''0''" by metis
    then show ?thesis using True by (subst show_nat.simps) simp
  next
    case False
    then show ?thesis using 1(1) by (subst show_nat.simps) simp
  qed
qed

lemma strtol_show_nat: "n < 2 ^ 63 \<Longrightarrow> strtol (show_nat n) = Some (int n)"
proof -
  assume n: "n < 2 ^ 63"
  let ?s = "show_nat n"
  have d: "\<And>c. c \<in> set ?s \<Longrightarrow> is_digit c" using show_nat_digits by blast
  have val: "foldl (\<lambda>a c. 10 * a + xdigit_val c) 0 ?s = n"
    using digits_val_show_nat [of n] xdigit_val_digit d unfolding digits_val_def by (simp cong: foldl_cong)
  have hd: "is_digit (hd ?s)" using hd_show_nat_digit by blast
  have sp: "dropWhile is_space ?s = ?s" using hd digit_not_space by (intro dropWhile_hd_False) auto
  have sign: "hd ?s \<noteq> CHR ''-''" "hd ?s \<noteq> CHR ''+''" using hd digit_not_sign by auto
  show ?thesis
  proof (cases "n = 0")
    case True
    then show ?thesis by (simp add: show_nat.simps) code_simp
  next
    case False
    then have z: "hd ?s \<noteq> CHR ''0''" using hd_show_nat_pos by simp
    then have hex: "take 2 ?s \<notin> {''0x'', ''0X''}" by (cases ?s) auto
    have tw: "takeWhile (\<lambda>c. xdigit_val c < 10) ?s = ?s" using d xdigit_val_digit by (intro takeWhile_eq_all_conv [THEN iffD2]) blast
    show ?thesis using n z hex sign val by (simp add: strtol_def sp Let_def tw)
  qed
qed

end
