(* ===== verification/Config.thy ===== *)
theory Config
  imports Ini Proxy Phx_Utils
begin

text \<open>
  The configurations that are read from files (\<^verbatim>\<open>phxcomm/configparser/base_config.cpp\<close>): of the binlog
  server (\<^verbatim>\<open>phxbinlogsvr/config\<close>), of MySQL, of the proxy (\<^verbatim>\<open>phxsqlproxy/phxsqlproxyconfig.cpp\<close>), and of the
  limits on requests as they follow from a file.
\<close>

section \<open>Reading a configuration\<close>

text \<open>A \<^verbatim>\<open>long\<close> is returned as an \<^verbatim>\<open>int\<close>.\<close>

definition Base_GetInteger :: "ini \<Rightarrow> string \<Rightarrow> string \<Rightarrow> int \<Rightarrow> int" where
  "Base_GetInteger v section name default_value = sint (of_int (INIReader_GetInteger v section name default_value) :: u32)"

text \<open>\<open>read_config\<close> is the overridden \<^verbatim>\<open>ReadConfig\<close>; it is only called when the file has no errors.\<close>

definition RealReadFile :: "(ini \<Rightarrow> 'c \<Rightarrow> 'c option) \<Rightarrow> string option \<Rightarrow> ini \<times> 'c \<Rightarrow> (int \<times> ini \<times> 'c) option" where
  "RealReadFile read_config file vc =
     (case INIReader_ReadFile file (fst vc) of
        (ret, v) \<Rightarrow> if ret = 0 then map_option (\<lambda>c. (0, v, c)) (read_config v (snd vc)) else Some (1, v, snd vc))"

subsection \<open>The address of the host\<close>

definition inner_ranges :: "(u32 \<times> u32) list" where
  "inner_ranges = [(0x0A000000, 0x0AFFFFFF), (0xAC100000, 0xAC1FFFFF), (0xC0A80000, 0xC0A8FFFF), (0xA9FE0000, 0xA9FEFFFF)]"

definition is_inner :: "u32 \<Rightarrow> bool" where
  "is_inner a \<longleftrightarrow> list_ex (\<lambda>(lo, hi). lo \<le> a \<and> a \<le> hi) inner_ranges"

definition is_eth1 :: "string \<Rightarrow> bool" where
  "is_eth1 name \<longleftrightarrow> map to_lower (take 4 (c_str name)) = ''eth1''"

text \<open>
  The interfaces with their names and addresses, of which the system returns up to ten; the text of an
  address is the one that \<^verbatim>\<open>Utils::GetIP\<close> prints. \<open>tmp_addr\<close> is the address found so far.
\<close>

fun InitInnerIP_loop :: "(string \<times> u32) list \<Rightarrow> string \<Rightarrow> bool \<Rightarrow> string" where
  "InitInnerIP_loop [] tmp_addr is_get_innerip = tmp_addr"
| "InitInnerIP_loop ((name, a) # ifs) tmp_addr is_get_innerip =
     (if \<not> is_eth1 name \<and> is_get_innerip then InitInnerIP_loop ifs tmp_addr is_get_innerip
      else if is_inner a
      then if is_eth1 name then GetIP a else InitInnerIP_loop ifs (GetIP a) True
      else InitInnerIP_loop ifs tmp_addr is_get_innerip)"

definition InitInnerIP :: "(string \<times> u32) list option \<Rightarrow> string" where
  "InitInnerIP ifs = (case ifs of None \<Rightarrow> [] | Some ifs \<Rightarrow> InitInnerIP_loop (take 10 ifs) [] False)"

subsection \<open>The binlog server\<close>

record svr_config =
  cf_engine_ip :: string
  cf_specified_master_ip :: string
  cf_engine_port :: int
  cf_binlogsvr_port :: int
  cf_engine_svrid :: u32
  cf_event_data_base_path :: string
  cf_event_data_db_path :: string
  cf_event_data_backup_path :: string
  cf_event_max_file_size :: u32
  cf_max_event_push :: u32
  cf_rpc_timeout :: u32
  cf_rpc_utimeout :: u32
  cf_package_name :: string
  cf_mysql_checkstatus_timeperiod :: u32
  cf_master_lease_time :: u32
  cf_master_ext_lease_time :: u32
  cf_checkpoint_making_timeperiod :: u32
  cf_paxos_log_path :: string
  cf_paxos_port :: int
  cf_paxos_log_num :: u32
  cf_packet_mode :: u32
  cf_udp_max_size :: u32
  cf_log_level :: u32
  cf_log_maxsize :: u32
  cf_max_delete_checkpoint_file_num :: u32
  cf_force_makeing_checkpoint :: bool
  cf_log_path :: string
  cf_follow_ip :: string

definition ReadPaxosConfig :: "ini \<Rightarrow> svr_config \<Rightarrow> svr_config" where
  "ReadPaxosConfig v c =
     c\<lparr>cf_paxos_log_path := INIReader_Get v ''PaxosOption'' ''PaxosLogPath'' [],
       cf_paxos_port := Base_GetInteger v ''PaxosOption'' ''PaxosPort'' 0,
       cf_paxos_log_num := of_int (Base_GetInteger v ''PaxosOption'' ''LogNum'' 1000000),
       cf_packet_mode := of_int (Base_GetInteger v ''PaxosOption'' ''PacketMode'' 0),
       cf_udp_max_size := of_int (Base_GetInteger v ''PaxosOption'' ''UDPMaxSize'' 4096)\<rparr>"

definition check_period :: "u32 \<Rightarrow> u32" where
  "check_period lease =
     (let t = lease div 4; t = (if t < 1 then 1 else t) in if t > 5 then 5 else t)"

text \<open>\<open>inner_ip\<close> is the address of the host.\<close>

definition ReadAgentConfig :: "string \<Rightarrow> ini \<Rightarrow> svr_config \<Rightarrow> svr_config" where
  "ReadAgentConfig inner_ip v c =
     (let ip = INIReader_Get v ''Server'' ''IP'' [];
          ip = (if ip = [] \<or> hd ip = CHR 0x00 \<or> hd ip = CHR ''$'' then inner_ip else ip);
          base = INIReader_Get v ''AgentOption'' ''EventDataDir'' [];
          lease = of_int (Base_GetInteger v ''AgentOption'' ''MasterLease'' 20)
      in c\<lparr>cf_engine_ip := ip,
           cf_binlogsvr_port := Base_GetInteger v ''Server'' ''Port'' 17000,
           cf_specified_master_ip := INIReader_Get v ''Server'' ''SpecifiedMasterIP'' [],
           cf_log_level := of_int (Base_GetInteger v ''Server'' ''LogLevel'' 0),
           cf_log_path := INIReader_Get v ''Server'' ''LogFilePath'' [],
           cf_log_maxsize := of_int (Base_GetInteger v ''Server'' ''LogMaxSize'' 0),
           cf_package_name := INIReader_Get v ''Server'' ''PackageName'' ''phxbinlogsvr'',
           cf_engine_port := Base_GetInteger v ''AgentOption'' ''AgentPort'' 6000,
           cf_event_data_base_path := base,
           cf_event_data_db_path := base @ ''/event_lb/'',
           cf_event_data_backup_path := base @ ''/bakup/'',
           cf_event_max_file_size := max (of_int (Base_GetInteger v ''AgentOption'' ''MaxFileSize'' 10000)) 10000,
           cf_max_event_push := of_int (Base_GetInteger v ''AgentOption'' ''MaxItemPushCount'' 10),
           cf_master_lease_time := lease,
           cf_mysql_checkstatus_timeperiod := check_period lease,
           cf_checkpoint_making_timeperiod := of_int (Base_GetInteger v ''AgentOption'' ''CheckPointTime'' 5) * 60,
           cf_max_delete_checkpoint_file_num := of_int (Base_GetInteger v ''AgentOption'' ''MaxDeleteCheckPointFileNum'' 5),
           cf_force_makeing_checkpoint := Base_GetInteger v ''AgentOption'' ''ForceMakingCheckpoint'' 1 \<noteq> 0,
           cf_engine_svrid := GetSvrID ip,
           cf_rpc_timeout := of_int (Base_GetInteger v ''AgentOption'' ''Timeout'' 1),
           cf_rpc_utimeout := of_int (Base_GetInteger v ''AgentOption'' ''UTimeout'' 1),
           cf_follow_ip := INIReader_Get v ''AgentOption'' ''FollowIP'' []\<rparr>)"

definition SvrBaseConfig_ReadConfig :: "string \<Rightarrow> ini \<Rightarrow> svr_config \<Rightarrow> svr_config" where
  "SvrBaseConfig_ReadConfig inner_ip v c = ReadPaxosConfig v (ReadAgentConfig inner_ip v c)"

text \<open>Members that are not read are not initialised: \<open>garbage\<close> is what they hold.\<close>

definition PHXBinlogSvrBaseConfig_init :: "string \<Rightarrow> string option \<Rightarrow> svr_config \<Rightarrow> (int \<times> ini \<times> svr_config) option" where
  "PHXBinlogSvrBaseConfig_init inner_ip file garbage =
     RealReadFile (\<lambda>v c. Some (SvrBaseConfig_ReadConfig inner_ip v c)) file
       (Map.empty, garbage\<lparr>cf_rpc_timeout := 0, cf_rpc_utimeout := 0\<rparr>)"

definition GetTimeOut :: "svr_config \<Rightarrow> u32 \<times> u32" where
  "GetTimeOut c = (cf_rpc_timeout c, cf_rpc_utimeout c * 1000)"

definition GetTimeOutMS :: "svr_config \<Rightarrow> u32" where
  "GetTimeOutMS c = (case GetTimeOut c of (s, us) \<Rightarrow> s * 1000 + us div 1000 mod 1000)"

subsection \<open>MySQL and the proxy\<close>

record mysql_config =
  yc_mysql_port :: int
  yc_mysql_ip :: string
  yc_mysql_socket :: string

definition PhxMySqlConfig_ReadConfig :: "ini \<Rightarrow> mysql_config \<Rightarrow> mysql_config" where
  "PhxMySqlConfig_ReadConfig v c =
     c\<lparr>yc_mysql_port := Base_GetInteger v ''mysqld'' ''port'' 4306, yc_mysql_socket := INIReader_Get v ''mysqld'' ''socket'' []\<rparr>"

definition PhxMySqlConfig_init :: "string option \<Rightarrow> (int \<times> ini \<times> mysql_config) option" where
  "PhxMySqlConfig_init file =
     RealReadFile (\<lambda>v c. Some (PhxMySqlConfig_ReadConfig v c)) file
       (Map.empty, \<lparr>yc_mysql_port = 0, yc_mysql_ip = ''127.0.0.1'', yc_mysql_socket = []\<rparr>)"

record sqlproxy_config =
  px_config :: proxy_config
  px_svr_ip :: string
  px_svr_port :: int
  px_plugin_config :: string
  px_open_debug_mode :: int
  px_freqctrl_config :: string
  px_log_level :: int
  px_log_file_max_size :: int
  px_log_path :: string
  px_sleep :: int
  px_connect_timeout_ms :: u32
  px_write_timeout_ms :: u32
  px_proxy_protocol_timeout_ms :: u32
  px_master_worker_config :: WorkerConfig
  px_slave_worker_config :: WorkerConfig

definition PHXSqlProxyConfig_ReadConfig :: "string \<Rightarrow> ini \<Rightarrow> sqlproxy_config \<Rightarrow> sqlproxy_config" where
  "PHXSqlProxyConfig_ReadConfig inner_ip v c =
     (let get = Base_GetInteger v ''Server''; port = get ''Port'' 0; ip = INIReader_Get v ''Server'' ''IP'' [];
          ip = (if ip = ''$InnerIP'' then inner_ip else ip)
      in c\<lparr>px_svr_port := port, px_svr_ip := ip,
           px_plugin_config := INIReader_Get v ''Server'' ''PluginConfigFile'' [],
           px_open_debug_mode := get ''OpenDebugMode'' 0,
           px_config := (px_config c)\<lparr>pc_only_proxy := get ''OnlyProxy'' 0 \<noteq> 0,
             pc_master_enable_read_port := get ''MasterEnableReadPort'' 0 \<noteq> 0,
             pc_try_best := get ''TryBestIfBinlogsvrDead'' 0 \<noteq> 0, pc_proxy_protocol := get ''ProxyProtocol'' 0\<rparr>,
           px_freqctrl_config := INIReader_Get v ''Server'' ''FreqCtrlConfig'' [],
           px_log_level := get ''LogLevel'' 3, px_log_file_max_size := get ''LogFileMaxSize'' 1600,
           px_log_path := INIReader_Get v ''Server'' ''LogFilePath'' ''/tmp/'', px_sleep := get ''Sleep'' 0,
           px_connect_timeout_ms := of_int (get ''ConnectTimeoutMs'' 200),
           px_write_timeout_ms := of_int (get ''WriteTimeoutMs'' 1000),
           px_proxy_protocol_timeout_ms := of_int (get ''ProxyProtocolTimeoutMs'' 1000),
           px_master_worker_config := ReadMasterWorkerConfig get ip port,
           px_slave_worker_config := ReadSlaveWorkerConfig get ip port\<rparr>)"

text \<open>The constructor clears the configurations of the workers after it has read the file.\<close>

definition no_worker_config :: WorkerConfig where
  "no_worker_config = \<lparr>wc_listen_ip = [], wc_port = 0, wc_proxy_port = 0, wc_fork_proc_count = 0, wc_worker_thread_count = 0,
     wc_io_routine_count = 0, wc_is_master_port = False\<rparr>"

definition PHXSqlProxyConfig_init :: "string \<Rightarrow> string option \<Rightarrow> sqlproxy_config \<Rightarrow> (int \<times> ini \<times> sqlproxy_config) option" where
  "PHXSqlProxyConfig_init inner_ip file garbage =
     map_option (\<lambda>(ret, v, c). (ret, v, c\<lparr>px_master_worker_config := no_worker_config, px_slave_worker_config := no_worker_config\<rparr>))
       (RealReadFile (\<lambda>v c. Some (PHXSqlProxyConfig_ReadConfig inner_ip v c)) file (Map.empty, garbage))"

text \<open>The filter of requests reads its own file.\<close>

definition FreqFilter_SetConfig ::
  "u32 \<Rightarrow> string option \<Rightarrow> ini \<times> (string \<Rightarrow> FreqCtrlBucket option) \<Rightarrow> (int \<times> ini \<times> (string \<Rightarrow> FreqCtrlBucket option)) option" where
  "FreqFilter_SetConfig now file vm =
     RealReadFile (\<lambda>v _. FreqCtrlConfig_ReadConfig (INIReader_Get v) (Base_GetInteger v) now) file vm"

section \<open>The address of the host\<close>

text \<open>
  The address of the host is that of the first interface whose name begins with eth1 and whose address is
  an inner one; without one, that of the first interface with an inner address.
\<close>

theorem InitInnerIP_reference:
  "InitInnerIP (Some ifs) =
     (case find (\<lambda>(name, a). is_eth1 name \<and> is_inner a) (take 10 ifs) of
        Some (_, a) \<Rightarrow> GetIP a
      | None \<Rightarrow> (case find (\<lambda>(_, a). is_inner a) (take 10 ifs) of Some (_, a) \<Rightarrow> GetIP a | None \<Rightarrow> []))"
proof -
  have got: "InitInnerIP_loop xs tmp True = (case find (\<lambda>(name, a). is_eth1 name \<and> is_inner a) xs of Some (_, a) \<Rightarrow> GetIP a | None \<Rightarrow> tmp)"
    for xs tmp by (induction xs) (auto split: if_splits)
  have "InitInnerIP_loop xs [] False =
     (case find (\<lambda>(name, a). is_eth1 name \<and> is_inner a) xs of
        Some (_, a) \<Rightarrow> GetIP a
      | None \<Rightarrow> (case find (\<lambda>(_, a). is_inner a) xs of Some (_, a) \<Rightarrow> GetIP a | None \<Rightarrow> []))" for xs
    by (induction xs) (auto simp: got split: if_splits cong: option.case_cong)
  then show ?thesis by (simp add: InitInnerIP_def)
qed

section \<open>The configuration of the binlog server\<close>

lemma unat_check_period: "unat (check_period lease) = min 5 (max 1 (unat lease div 4))"
  by (simp add: check_period_def Let_def word_less_nat_alt unat_div min_def max_def)

lemma check_period_bounds:
  "1 \<le> check_period lease" "check_period lease \<le> 5" "4 \<le> lease \<Longrightarrow> 4 * unat (check_period lease) \<le> unat lease"
  by (auto simp: word_le_nat_alt unat_check_period min_def max_def)

text \<open>
  The configured times fit together. Whatever the file says, the status is checked every one to five
  seconds, at least four times in a lease of four seconds or more, and a file holds at least 10000 bytes.
\<close>

theorem server_config_bounds:
  "let c' = SvrBaseConfig_ReadConfig inner_ip v c
   in 1 \<le> cf_mysql_checkstatus_timeperiod c' \<and> cf_mysql_checkstatus_timeperiod c' \<le> 5 \<and>
      (4 \<le> cf_master_lease_time c' \<longrightarrow> 4 * unat (cf_mysql_checkstatus_timeperiod c') \<le> unat (cf_master_lease_time c')) \<and>
      10000 \<le> cf_event_max_file_size c'"
  using check_period_bounds by (simp add: SvrBaseConfig_ReadConfig_def ReadPaxosConfig_def ReadAgentConfig_def Let_def)

theorem server_config_bounds_witness:
  "\<forall>c. \<exists>c'. SvrBaseConfig_ReadConfig [] Map.empty c = c' \<and> unat (cf_mysql_checkstatus_timeperiod c') = 5 \<and>
     4 * unat (cf_mysql_checkstatus_timeperiod c') \<le> unat (cf_master_lease_time c')"
proof
  fix c
  let ?c = "SvrBaseConfig_ReadConfig [] Map.empty c"
  have d: "Base_GetInteger Map.empty s n d = sint (of_int d :: u32)" for s n d
    by (simp add: Base_GetInteger_def INIReader_GetInteger_def INIReader_Get_def strtol_def Let_def)
  have l: "cf_master_lease_time ?c = 20"
    by (simp add: SvrBaseConfig_ReadConfig_def ReadPaxosConfig_def ReadAgentConfig_def Let_def d)
  then have "unat (cf_mysql_checkstatus_timeperiod ?c) = 5"
    by (simp add: SvrBaseConfig_ReadConfig_def ReadPaxosConfig_def ReadAgentConfig_def Let_def unat_check_period)
  with server_config_bounds [of "[]" Map.empty c] l
  show "\<exists>c'. ?c = c' \<and> unat (cf_mysql_checkstatus_timeperiod c') = 5 \<and>
     4 * unat (cf_mysql_checkstatus_timeperiod c') \<le> unat (cf_master_lease_time c')" by (simp add: Let_def)
qed

lemma Base_GetInteger_printed:
  assumes "INIReader_Get v s n [] = show_nat k" "k < 2 ^ 31"
  shows "Base_GetInteger v s n d = int k"
proof -
  have "INIReader_GetInteger v s n d = int k"
    using assms strtol_show_nat [of k] by (simp add: INIReader_GetInteger_def)
  moreover have "sint (of_int (int k) :: u32) = int k" using assms(2) by (simp add: signed_of_nat signed_take_bit_int_eq_self)
  ultimately show ?thesis by (simp add: Base_GetInteger_def)
qed

text \<open>Values of a printed file, when all entries of a name agree.\<close>

lemma Get_printed:
  assumes "ini_file_ok f" "((s, n), x) \<in> set (ini_entries f)" "\<And>y. ((s, n), y) \<in> set (ini_entries f) \<Longrightarrow> y = x"
    and "INIReader_ReadFile (Some (print_ini f)) Map.empty = (ret, v)"
  shows "INIReader_Get v s n d = x"
proof -
  have "(s, n) \<in> fst ` set (rev (ini_entries f))" using assms(2) by force
  then have "map_of (rev (ini_entries f)) (s, n) \<noteq> None" by (simp only: map_of_eq_None_iff not_not)
  then obtain y where y: "map_of (rev (ini_entries f)) (s, n) = Some y" by blast
  then have "y = x" using assms(3) map_of_SomeD [OF y] by simp
  with y assms(4) show ?thesis by (auto simp: read_printed [OF assms(1)] Get_fold)
qed

text \<open>
  The id of a server. A server whose file names its address takes this address and the server id of it, so
  servers with different addresses have different ids.
\<close>

theorem configured_svrid:
  assumes "ini_file_ok f" "((''Server'', ''IP''), GetIP a) \<in> set (ini_entries f)"
    and "\<And>ip. ((''Server'', ''IP''), ip) \<in> set (ini_entries f) \<Longrightarrow> ip = GetIP a"
  shows "\<exists>v c. PHXBinlogSvrBaseConfig_init inner_ip (Some (print_ini f)) garbage = Some (0, v, c) \<and>
    cf_engine_ip c = GetIP a \<and> cf_engine_svrid c = a"
proof -
  obtain v where v: "INIReader_ReadFile (Some (print_ini f)) Map.empty = (0, v)" using read_printed [OF assms(1)] by blast
  have ip: "INIReader_Get v ''Server'' ''IP'' [] = GetIP a" by (rule Get_printed [OF assms v])
  have "is_digit (hd (GetIP a))" by (simp add: GetIP_def hd_show_nat_digit)
  then have "GetIP a \<noteq> []" "hd (GetIP a) \<noteq> CHR 0x00" "hd (GetIP a) \<noteq> CHR ''$''" by (auto simp: is_digit_def GetIP_def)
  then show ?thesis
    by (simp add: PHXBinlogSvrBaseConfig_init_def RealReadFile_def v SvrBaseConfig_ReadConfig_def ReadPaxosConfig_def
        ReadAgentConfig_def Let_def ip GetSvrID_GetIP_id)
qed

lemma GetIP_10_0_0_1: "GetIP 0x0A000001 = ''10.0.0.1''"
  by code_simp

theorem configured_svrid_witness:
  "\<forall>garbage. \<exists>v c. PHXBinlogSvrBaseConfig_init [] (Some (print_ini sample_ini)) garbage = Some (0, v, c) \<and> cf_engine_svrid c = 0x0A000001"
proof
  fix garbage
  have e: "((''Server'', ''IP''), ip) \<in> set (ini_entries sample_ini) \<longleftrightarrow> ip = GetIP 0x0A000001" for ip
    unfolding GetIP_10_0_0_1 by (auto simp: ini_entries_def sample_ini_def)
  from configured_svrid [OF sample_ini_ok e [THEN iffD2, OF refl] e [THEN iffD1], of "[]" garbage]
  show "\<exists>v c. PHXBinlogSvrBaseConfig_init [] (Some (print_ini sample_ini)) garbage = Some (0, v, c) \<and> cf_engine_svrid c = 0x0A000001" by blast
qed

section \<open>Limits from a file\<close>

text \<open>The file for databases with their names, tokens and periods.\<close>

type_synonym db_limit = "string \<times> nat \<times> nat \<times> nat"

fun db_section :: "nat \<Rightarrow> db_limit \<Rightarrow> string \<times> (string \<times> string) list" where
  "db_section i (db, rt, wt, p) =
     (''DB'' @ show_nat i, [(''DBName'', db), (''ReadToken'', show_nat rt), (''WriteToken'', show_nat wt), (''Period'', show_nat p)])"

definition freq_file :: "db_limit list \<Rightarrow> ini_file" where
  "freq_file dbs = (''General'', [(''DBCount'', show_nat (length dbs))]) # map (\<lambda>i. db_section i (dbs ! i)) [0..<length dbs]"

fun db_ok :: "db_limit \<Rightarrow> bool" where
  "db_ok (db, rt, wt, p) \<longleftrightarrow> db \<noteq> [] \<and> plain [] db \<and> length db < 100 \<and> rt < 2 ^ 31 \<and> wt < 2 ^ 31 \<and> 0 < p \<and> p < 2 ^ 31"

lemma plain_show_nat: "\<forall>c\<in>set special. \<not> is_digit c \<Longrightarrow> plain special (show_nat n)"
proof -
  assume special: "\<forall>c\<in>set special. \<not> is_digit c"
  have no: "c \<notin> set (show_nat n)" if "\<not> is_digit c" for c using that show_nat_digits by blast
  then have "CHR 0x00 \<notin> set (show_nat n)" "newline \<notin> set (show_nat n)" "CHR '';'' \<notin> set (show_nat n)" by (simp_all add: is_digit_def)
  moreover have "is_digit (hd (show_nat n))" "is_digit (last (show_nat n))"
    using show_nat_digits [of _ n] hd_in_set [of "show_nat n"] last_in_set [of "show_nat n"] by auto
  ultimately show ?thesis using no special digit_not_space by (auto simp: plain_def)
qed

lemma length_show_nat_int: "k < 2 ^ 31 \<Longrightarrow> length (show_nat k) \<le> 10"
  by (intro length_show_nat_le) auto

lemma db_name_plain: "plain '']'' (''DB'' @ show_nat i)"
proof -
  have "is_digit (last (show_nat i))" using show_nat_digits [of "last (show_nat i)" i] by simp
  then show ?thesis using plain_show_nat [of "'']''" i] digit_not_space
    by (auto simp: plain_def is_digit_def is_space_def)
qed

lemma freq_file_ok:
  assumes "list_all db_ok dbs" "length dbs < 2 ^ 31"
  shows "ini_file_ok (freq_file dbs)"
proof -
  have num: "plain [] (show_nat k)" for k by (rule plain_show_nat) simp
  have keys: "plain ''=:'' ''DBName''" "plain ''=:'' ''ReadToken''" "plain ''=:'' ''WriteToken''" "plain ''=:'' ''Period''" "plain ''=:'' ''DBCount''"
    "plain '']'' ''General''" by (simp_all add: plain_def is_space_def)
  let ?P = "\<lambda>s. plain '']'' (fst s) \<and> length (fst s) < 50 \<and> list_all pair_ok (snd s)"
  have sec: "?P (db_section i d)" if "db_ok d" "i < 2 ^ 31" for i d
  proof -
    obtain db rt wt p where d: "d = (db, rt, wt, p)" by (cases d)
    show ?thesis
      using that keys num length_show_nat_int [of i] length_show_nat_int [of rt] length_show_nat_int [of wt] length_show_nat_int [of p]
        db_name_plain [of i] by (simp add: d pair_ok_def)
  qed
  have gen: "?P (''General'', [(''DBCount'', show_nat (length dbs))])"
    using keys num length_show_nat_int [OF assms(2)] by (simp add: pair_ok_def)
  have "?P s" if "s \<in> set (freq_file dbs)" for s
  proof -
    from that consider "s = (''General'', [(''DBCount'', show_nat (length dbs))])" | i where "i < length dbs" "s = db_section i (dbs ! i)"
      by (auto simp: freq_file_def)
    then show ?thesis
    proof cases
      case 1
      then show ?thesis using gen by simp
    next
      case 2
      then show ?thesis using sec [of "dbs ! i" i] assms by (simp add: list_all_length)
    qed
  qed
  then show ?thesis by (simp add: ini_file_ok_def list_all_iff)
qed

lemma freq_file_entries:
  "set (ini_entries (freq_file dbs)) = insert ((''General'', ''DBCount''), show_nat (length dbs))
     (\<Union>i\<in>{0..<length dbs}. (\<lambda>e. ((''DB'' @ show_nat i, fst e), snd e)) ` set (snd (db_section i (dbs ! i))))"
proof -
  have "fst (db_section i d) = ''DB'' @ show_nat i" for i d by (cases d) simp
  then show ?thesis by (simp add: ini_entries_def freq_file_def)
qed

lemma read_freq_file:
  assumes "list_all db_ok dbs" "length dbs < 2 ^ 31" "INIReader_ReadFile (Some (print_ini (freq_file dbs))) Map.empty = (ret, v)"
  shows "Base_GetInteger v ''General'' ''DBCount'' 0 = int (length dbs)"
    and "i < length dbs \<Longrightarrow> dbs ! i = (db, rt, wt, p) \<Longrightarrow> INIReader_Get v (''DB'' @ show_nat i) ''DBName'' d = db \<and>
      Base_GetInteger v (''DB'' @ show_nat i) ''ReadToken'' k = int rt \<and> Base_GetInteger v (''DB'' @ show_nat i) ''WriteToken'' k = int wt \<and>
      Base_GetInteger v (''DB'' @ show_nat i) ''Period'' k' = int p"
proof -
  note get = Get_printed [OF freq_file_ok [OF assms(1,2)] _ _ assms(3)]
  have "INIReader_Get v ''General'' ''DBCount'' [] = show_nat (length dbs)" by (rule get) (auto simp: freq_file_entries)
  then show "Base_GetInteger v ''General'' ''DBCount'' 0 = int (length dbs)" using assms(2) by (rule Base_GetInteger_printed)
  show "INIReader_Get v (''DB'' @ show_nat i) ''DBName'' d = db \<and>
      Base_GetInteger v (''DB'' @ show_nat i) ''ReadToken'' k = int rt \<and> Base_GetInteger v (''DB'' @ show_nat i) ''WriteToken'' k = int wt \<and>
      Base_GetInteger v (''DB'' @ show_nat i) ''Period'' k' = int p" if i: "i < length dbs" "dbs ! i = (db, rt, wt, p)"
  proof -
    have ok: "db_ok (db, rt, wt, p)" using assms(1) i by (metis list_all_length)
    have g: "INIReader_Get v (''DB'' @ show_nat i) n d = x" if "(n, x) \<in> set (snd (db_section i (dbs ! i)))" for n x d
    proof (rule get)
      show "((''DB'' @ show_nat i, n), x) \<in> set (ini_entries (freq_file dbs))" using that i(1) by (force simp: freq_file_entries)
      show "y = x" if "((''DB'' @ show_nat i, n), y) \<in> set (ini_entries (freq_file dbs))" for y
        using that \<open>(n, x) \<in> _\<close> i(2) by (auto simp: freq_file_entries)
    qed
    have "INIReader_Get v (''DB'' @ show_nat i) ''DBName'' d = db" by (rule g) (simp add: i(2))
    moreover have "Base_GetInteger v (''DB'' @ show_nat i) ''ReadToken'' k = int rt" by (rule Base_GetInteger_printed [OF g]) (use ok i(2) in simp_all)
    moreover have "Base_GetInteger v (''DB'' @ show_nat i) ''WriteToken'' k = int wt" by (rule Base_GetInteger_printed [OF g]) (use ok i(2) in simp_all)
    moreover have "Base_GetInteger v (''DB'' @ show_nat i) ''Period'' k' = int p" by (rule Base_GetInteger_printed [OF g]) (use ok i(2) in simp_all)
    ultimately show ?thesis by blast
  qed
qed

text \<open>The buckets of a file.\<close>

definition bucket_of :: "u32 \<Rightarrow> db_limit \<Rightarrow> FreqCtrlBucket" where
  "bucket_of now d =
     (case d of (db, rt, wt, p) \<Rightarrow>
        \<lparr>fb_token = \<lparr>tk_read_token = int rt, tk_write_token = int wt, tk_period = int p\<rparr>, fb_read_bucket = int rt,
          fb_write_bucket = int wt, fb_last_refill_time = now - now mod of_nat p\<rparr>)"

lemma Sedb_token_bucket_of:
  assumes "db_ok (db, rt, wt, p)"
  shows "Sedb_token now \<lparr>tk_read_token = int rt, tk_write_token = int wt, tk_period = int p\<rparr> FreqCtrlBucket_init = Some (bucket_of now (db, rt, wt, p))"
proof -
  have "unat (of_nat p :: u32) = p" using assms by (simp add: unat_of_nat)
  then have "(of_nat p :: u32) \<noteq> 0" using assms by auto
  then show ?thesis by (simp add: Sedb_token_def Refill_def period_start_def fb_period_def fill_def FreqCtrlBucket_init_def bucket_of_def)
qed

lemma fold_update_other: "d \<notin> f ` set xs \<Longrightarrow> fold (\<lambda>i m. m(f i \<mapsto> g i)) xs m d = m d"
  by (induction xs arbitrary: m) auto

lemma fold_update: "inj_on f (set xs) \<Longrightarrow> i \<in> set xs \<Longrightarrow> fold (\<lambda>i m. m(f i \<mapsto> g i)) xs m (f i) = Some (g i)"
proof (induction xs arbitrary: m)
  case (Cons x xs)
  show ?case
  proof (cases "f i \<in> f ` set xs")
    case True
    with Cons.prems have "i \<in> set xs" by (auto simp: inj_on_def)
    with Cons show ?thesis by simp
  next
    case False
    then have "i = x" using Cons.prems by auto
    then show ?thesis using fold_update_other [of "f i" f xs g "m(f x \<mapsto> g x)"] False by (simp del: fun_upd_apply) simp
  qed
qed simp

lemma read_databases_buckets:
  assumes "\<And>i. i \<in> set is \<Longrightarrow> db_ok (dbs ! i)"
    and "\<And>i db rt wt p. i \<in> set is \<Longrightarrow> dbs ! i = (db, rt, wt, p) \<Longrightarrow> get (''DB'' @ show_nat i) ''DBName'' [] = db \<and>
      get_int (''DB'' @ show_nat i) ''ReadToken'' INT_MAX = int rt \<and> get_int (''DB'' @ show_nat i) ''WriteToken'' INT_MAX = int wt \<and>
      get_int (''DB'' @ show_nat i) ''Period'' 60 = int p"
  shows "read_databases get get_int now is m = Some (fold (\<lambda>i m. m(fst (dbs ! i) \<mapsto> bucket_of now (dbs ! i))) is m)"
  using assms
proof (induction "is" arbitrary: m)
  case (Cons i "is")
  obtain db rt wt p where d: "dbs ! i = (db, rt, wt, p)" by (cases "dbs ! i")
  have ok: "db_ok (db, rt, wt, p)" using Cons.prems(1) [of i] d by simp
  then have "db \<noteq> []" by simp
  with Cons.prems(2) [OF _ d] Sedb_token_bucket_of [OF ok] Cons.IH Cons.prems d show ?case by (simp del: fun_upd_apply)
qed simp

text \<open>
  C27: the limits of a file hold. A file that gives databases their tokens and periods is read, and then, whatever
  requests were served before, in one period of a database no more reads and writes of it are let through than
  the file says. The requests are served one after the other, by one process.
\<close>

theorem freq_file_limits:
  assumes "list_all db_ok dbs" "length dbs < 2 ^ 31" "distinct (map fst dbs)" "(db, rt, wt, p) \<in> set dbs"
  shows "\<exists>v m. FreqFilter_SetConfig now (Some (print_ini (freq_file dbs))) (Map.empty, m0) = Some (0, v, m) \<and>
    (\<forall>rs0 rs oks m' t. run_requests (rs0 @ rs) m = Some (oks, m') \<longrightarrow>
       (\<forall>(now, d, w)\<in>set rs. d = db \<longrightarrow> period_start (of_nat p) now = Some t) \<longrightarrow>
       granted db False rs (drop (length rs0) oks) \<le> int rt \<and> granted db True rs (drop (length rs0) oks) \<le> int wt)"
proof -
  obtain v where v: "INIReader_ReadFile (Some (print_ini (freq_file dbs))) Map.empty = (0, v)"
    using read_printed [OF freq_file_ok [OF assms(1,2)]] by blast
  note rd = read_freq_file [OF assms(1,2) v]
  let ?m = "fold (\<lambda>i m. m(fst (dbs ! i) \<mapsto> bucket_of now (dbs ! i))) [0..<length dbs] Map.empty"
  have "read_databases (INIReader_Get v) (Base_GetInteger v) now [0..<length dbs] Map.empty = Some ?m"
    using assms(1) rd(2) by (intro read_databases_buckets) (auto simp: list_all_length)
  then have m: "FreqFilter_SetConfig now (Some (print_ini (freq_file dbs))) (Map.empty, m0) = Some (0, v, ?m)"
    by (simp add: FreqFilter_SetConfig_def RealReadFile_def v FreqCtrlConfig_ReadConfig_def rd(1))
  obtain i where i: "i < length dbs" "dbs ! i = (db, rt, wt, p)" using assms(4) by (metis in_set_conv_nth)
  have "inj_on (\<lambda>i. fst (dbs ! i)) (set [0..<length dbs])" using assms(3) by (simp add: inj_on_def distinct_conv_nth) (metis atLeastLessThan_iff)
  from fold_update [OF this, of i "\<lambda>i. bucket_of now (dbs ! i)" Map.empty] i have b: "?m db = Some (bucket_of now (db, rt, wt, p))" by simp
  have "granted db False rs (drop (length rs0) oks) \<le> int rt \<and> granted db True rs (drop (length rs0) oks) \<le> int wt"
    if "run_requests (rs0 @ rs) ?m = Some (oks, m')" "\<forall>(now, d, w)\<in>set rs. d = db \<longrightarrow> period_start (of_nat p) now = Some t" for rs0 rs oks m' t
    using limits_hold_later [OF that(1) b, of t] that(2) by (simp add: bucket_of_def bucket_ok_def fb_period_def)
  with m show ?thesis by blast
qed

theorem freq_file_limits_witness:
  "\<exists>v m. FreqFilter_SetConfig 61 (Some (print_ini (freq_file [(''db'', 2, 1, 60)]))) (Map.empty, Map.empty) = Some (0, v, m) \<and>
     (\<nexists>oks m'. run_requests ([(59, ''db'', True)] @ [(61, ''db'', True), (62, ''db'', True)]) m = Some (oks, m') \<and> oks = [True, True, True])"
proof -
  have ok: "list_all db_ok [(''db'', 2, 1, 60)]" by (simp add: plain_def is_space_def)
  obtain v m where m: "FreqFilter_SetConfig 61 (Some (print_ini (freq_file [(''db'', 2, 1, 60)]))) (Map.empty, Map.empty) = Some (0, v, m)"
    "\<forall>rs0 rs oks m' t. run_requests (rs0 @ rs) m = Some (oks, m') \<longrightarrow>
       (\<forall>(now, d, w)\<in>set rs. d = ''db'' \<longrightarrow> period_start (of_nat 60) now = Some t) \<longrightarrow>
       granted ''db'' False rs (drop (length rs0) oks) \<le> int 2 \<and> granted ''db'' True rs (drop (length rs0) oks) \<le> int 1"
    using freq_file_limits [OF ok, of "''db''" 2 1 60 61 Map.empty] by auto
  have "False" if "run_requests ([(59, ''db'', True)] @ [(61, ''db'', True), (62, ''db'', True)]) m = Some ([True, True, True], m')" for m'
  proof -
    have "\<forall>(now, d, w)\<in>set [(61, ''db'', True), (62, ''db'', True)]. d = ''db'' \<longrightarrow> period_start (of_nat 60) now = Some 60"
      by (simp add: period_start_def)
    then have "granted ''db'' True [(61, ''db'', True), (62, ''db'', True)] (drop (length [(59 :: u32, ''db'', True)]) [True, True, True]) \<le> int 1"
      using m(2) that by blast
    then show False by simp
  qed
  with m(1) show ?thesis by blast
qed

end
