(* ===== verification/Routines.thy ===== *)
theory Routines
  imports Proxy_Header
begin

text \<open>
  The process behind one port of the proxy (\<^verbatim>\<open>phxsqlproxy\<close>): threads that accept connections
  (\<^verbatim>\<open>accept_thread.cpp\<close>), and workers, each with a dispatcher (\<^verbatim>\<open>connection_dispatcher.cpp\<close>) that hands
  connections to coroutines (\<^verbatim>\<open>io_routine.cpp\<close>), which wait through the calls of \<^verbatim>\<open>routineutil.cpp\<close>. What the
  system calls return is an argument of every operation. The theory shows who owns which descriptor, and
  that no accepted connection waits forever.
\<close>

section \<open>Waiting for a descriptor\<close>

text \<open>What \<^verbatim>\<open>co_poll\<close> returned and the flags it set.\<close>

record poll_result =
  pr_ret :: int
  pr_in :: bool
  pr_out :: bool
  pr_hup :: bool
  pr_err :: bool

text \<open>
  \<open>nb\<close> is whether the descriptor is non-blocking, which all of them assert. \<open>got\<close> is what \<^verbatim>\<open>read\<close> or \<^verbatim>\<open>recv\<close>
  returns when it is called; without input the number of descriptors is returned, whatever other flags are set.
\<close>

definition RoutineReadWithTimeout :: "bool \<Rightarrow> poll_result \<Rightarrow> int \<Rightarrow> int option" where
  "RoutineReadWithTimeout nb pf got = (if \<not> nb then None else Some (if pr_ret pf < 0 then pr_ret pf else if pr_in pf then got else pr_ret pf))"

definition RoutinePeekWithTimeout :: "bool \<Rightarrow> poll_result \<Rightarrow> int \<Rightarrow> int option" where
  "RoutinePeekWithTimeout nb pf got = (if \<not> nb then None else Some (if pr_ret pf < 0 then pr_ret pf else if pr_in pf then got else pr_ret pf))"

text \<open>The calls of one write: the first one, \<^verbatim>\<open>co_poll\<close>, and the second one, with \<^verbatim>\<open>errno\<close> one of \<^verbatim>\<open>EAGAIN\<close> and \<^verbatim>\<open>EINTR\<close> or not.\<close>

record write_calls =
  wr_first :: int
  wr_again1 :: bool
  wr_poll :: poll_result
  wr_second :: int
  wr_again2 :: bool

text \<open>The result, and the number of bytes that were written.\<close>

definition RoutineWriteWithTimeout :: "bool \<Rightarrow> write_calls \<Rightarrow> (int \<times> nat) option" where
  "RoutineWriteWithTimeout nb c =
     (if \<not> nb then None
      else Some
       (if wr_first c > 0 then (wr_first c, nat (wr_first c))
        else if \<not> wr_again1 c then (-100, 0)
        else if pr_ret (wr_poll c) < 0 then (pr_ret (wr_poll c), 0)
        else if pr_out (wr_poll c)
        then (if wr_second c > 0 then (wr_second c, nat (wr_second c)) else if wr_again2 c then (0, 0) else (wr_second c, 0))
        else if pr_hup (wr_poll c) \<or> pr_err (wr_poll c) then (pr_ret (wr_poll c), 0)
        else (0, 0)))"

text \<open>The polls of a connect: at most three, up to the first that returns 1.\<close>

record connect_calls =
  cn_ret :: int
  cn_polls :: "poll_result list"
  cn_so_error :: int

fun connect_poll :: "nat \<Rightarrow> poll_result list \<Rightarrow> poll_result \<Rightarrow> poll_result" where
  "connect_poll (Suc i) (pf # pfs) _ = (if pr_ret pf = 1 then pf else connect_poll i pfs pf)"
| "connect_poll _ _ pf = pf"

definition no_poll :: poll_result where
  "no_poll = \<lparr>pr_ret = 0, pr_in = False, pr_out = False, pr_hup = False, pr_err = False\<rparr>"

definition ETIMEDOUT :: int where "ETIMEDOUT = 110"

text \<open>The result and \<^verbatim>\<open>errno\<close>.\<close>

definition RoutineConnectWithTimeout :: "bool \<Rightarrow> connect_calls \<Rightarrow> (int \<times> int) option" where
  "RoutineConnectWithTimeout nb c =
     (if \<not> nb then None
      else Some
       (if pr_out (connect_poll 3 (cn_polls c) no_poll) then (0, 0)
        else (cn_ret c, if cn_so_error c \<noteq> 0 then cn_so_error c else ETIMEDOUT)))"

section \<open>Descriptors\<close>

text \<open>The open descriptors of the process and the non-blocking ones. A failed call has returned a negative one.\<close>

record fd_table =
  ft_open :: "int set"
  ft_nonblock :: "int set"

definition fd_open :: "int \<Rightarrow> fd_table \<Rightarrow> fd_table" where
  "fd_open fd t = (if fd < 0 then t else t\<lparr>ft_open := insert fd (ft_open t)\<rparr>)"

definition fd_close :: "int \<Rightarrow> fd_table \<Rightarrow> fd_table" where
  "fd_close fd t = \<lparr>ft_open = ft_open t - {fd}, ft_nonblock = ft_nonblock t - {fd}\<rparr>"

definition SetNonBlock :: "int \<Rightarrow> fd_table \<Rightarrow> fd_table" where
  "SetNonBlock fd t = (if fd \<in> ft_open t then t\<lparr>ft_nonblock := insert fd (ft_nonblock t)\<rparr> else t)"

text \<open>On a descriptor that is not open \<^verbatim>\<open>fcntl\<close> returns -1, which has the flag set.\<close>

definition IsNonBlock :: "int \<Rightarrow> fd_table \<Rightarrow> bool" where
  "IsNonBlock fd t \<longleftrightarrow> fd \<in> ft_nonblock t \<or> fd \<notin> ft_open t"

section \<open>Routines\<close>

text \<open>
  Where the coroutine of a routine stands: it has yielded, or it is about to read the proxy header, to connect,
  to send the proxy header, or to transfer.
\<close>

datatype phase = Ph_idle | Ph_header | Ph_connect | Ph_send | Ph_trans

record io_routine =
  rt_phase :: phase
  rt_req_uniq_id :: u64
  rt_client_fd :: int
  rt_sqlsvr_fd :: int
  rt_connect_dest :: string
  rt_src_addr :: sock_addr
  rt_dst_addr :: sock_addr

definition IORoutine_init :: io_routine where
  "IORoutine_init =
     \<lparr>rt_phase = Ph_idle, rt_req_uniq_id = 0, rt_client_fd = -1, rt_sqlsvr_fd = -1, rt_connect_dest = [],
      rt_src_addr = SA_None, rt_dst_addr = SA_None\<rparr>"

definition ReleaseFD :: "int \<Rightarrow> fd_table \<Rightarrow> int \<times> fd_table" where
  "ReleaseFD fd t = (if fd \<noteq> -1 then (-1, fd_close fd t) else (fd, t))"

definition ClearAll :: "io_routine \<Rightarrow> fd_table \<Rightarrow> io_routine \<times> fd_table" where
  "ClearAll rt t =
     (case ReleaseFD (rt_client_fd rt) t of
        (client_fd, t) \<Rightarrow>
          (case ReleaseFD (rt_sqlsvr_fd rt) t of
             (sqlsvr_fd, t) \<Rightarrow>
               (rt\<lparr>rt_client_fd := client_fd, rt_sqlsvr_fd := sqlsvr_fd, rt_connect_dest := [],
                   rt_src_addr := SA_None, rt_dst_addr := SA_None\<rparr>, t)))"

definition SetClientFD :: "int \<Rightarrow> u64 \<Rightarrow> io_routine \<Rightarrow> fd_table \<Rightarrow> io_routine \<times> fd_table" where
  "SetClientFD fd uniq_id rt t = (case ClearAll rt t of (rt, t) \<Rightarrow> (rt\<lparr>rt_client_fd := fd, rt_req_uniq_id := uniq_id\<rparr>, t))"

text \<open>The configuration of the process, its filter of requests, and the IPv6 texts of the system.\<close>

record 'f proxy_env =
  pe_cfg :: proxy_config
  pe_wc :: WorkerConfig
  pe_filter :: "'f request_filter"
  pe_ntop6 :: "bytes \<Rightarrow> string"
  pe_pton6 :: "string \<Rightarrow> bytes option"

abbreviation pe_master :: "('f, 'z) proxy_env_scheme \<Rightarrow> bool" where
  "pe_master env \<equiv> wc_is_master_port (pe_wc env)"

text \<open>
  The router with its descriptor: \<open>fd\<close> is the one \<^verbatim>\<open>socket\<close> returned. It stays open when the address cannot be
  parsed.
\<close>

definition GetDestEndpoint :: "'f proxy_env \<Rightarrow> int \<Rightarrow> group_status \<Rightarrow> int + string \<times> int" where
  "GetDestEndpoint env now gs =
     (if pe_master env then Master_GetDestEndpoint (pe_cfg env) (pe_wc env) now gs
      else Slave_GetDestEndpoint (pe_cfg env) (pe_wc env) now gs)"

definition usable_addr :: "string \<Rightarrow> bool" where
  "usable_addr ip \<longleftrightarrow> fst (SetAddr ip 0)"

definition Router_ConnectDest ::
  "'f proxy_env \<Rightarrow> int \<Rightarrow> group_status \<Rightarrow> int \<Rightarrow> connect_calls \<Rightarrow> fd_table \<Rightarrow> io_routine \<Rightarrow> (int \<times> fd_table \<times> io_routine) option" where
  "Router_ConnectDest env now gs fd c t rt =
     (case (if pc_only_proxy (pe_cfg env) then Inr (local_ip, pc_mysql_port (pe_cfg env)) else GetDestEndpoint env now gs) of
        Inl _ \<Rightarrow> Some (-63, t, rt)
      | Inr (dest_ip, _) \<Rightarrow>
          let t = fd_open fd t
          in if \<not> usable_addr dest_ip then Some (-76, t, rt)
             else do {
               let t = SetNonBlock fd t;
               (ret, _) \<leftarrow> RoutineConnectWithTimeout (IsNonBlock fd t) c;
               Some (if ret \<noteq> 0 then (-87, fd_close fd t, rt) else (fd, t, rt\<lparr>rt_connect_dest := dest_ip\<rparr>))
             })"

definition MarkFailure :: "'f proxy_env \<Rightarrow> io_routine \<Rightarrow> u64 \<Rightarrow> group_status \<Rightarrow> group_status" where
  "MarkFailure env rt now_ms gs = (if pe_master env then gs else Slave_MarkFailure (rt_connect_dest rt) now_ms gs)"

text \<open>
  What the calls of a phase return: for the header the addresses of the connection, the poll, the bytes that
  were received, and the result of taking the header off; for the connect the time, the new descriptor and its calls; the connection the header is sent
  on; for the transfer the addresses of the peers, the rounds and the connections.
\<close>

datatype turn_input =
    In_header "int + sock_addr \<times> sock_addr" poll_result "bytes option" int
  | In_connect int int connect_calls
  | In_send socket
  | In_trans "(string \<times> int) option" bool "poll_round list" socket socket

text \<open>The end of a connection. The routine then puts itself on the stack and yields.\<close>

definition IORoutine_end ::
  "'f proxy_env \<Rightarrow> u64 \<Rightarrow> int \<Rightarrow> group_status \<Rightarrow> fd_table \<Rightarrow> io_routine \<Rightarrow> io_routine \<times> fd_table \<times> group_status" where
  "IORoutine_end env now_ms byte_size_tot gs t rt =
     (let gs = (if byte_size_tot = 0 then MarkFailure env rt now_ms gs else gs)
      in case ClearAll rt t of (rt, t) \<Rightarrow> (rt\<lparr>rt_phase := Ph_idle\<rparr>, t, gs))"

definition read_header :: "'f proxy_env \<Rightarrow> int + sock_addr \<times> sock_addr \<Rightarrow> poll_result \<Rightarrow> bytes option \<Rightarrow> int \<Rightarrow> group_status \<Rightarrow> bool
    \<Rightarrow> (int \<times> sock_addr \<times> sock_addr) option" where
  "read_header env addrs pf received took gs nb =
     (case addrs of
        Inl ret \<Rightarrow> Some (ret, SA_None, SA_None)
      | Inr (src, dst) \<Rightarrow>
          if IsProxyHeaderNeed (pe_ntop6 env) (pe_wc env) gs src dst \<le> 0
          then ProcessProxyHeader (pe_ntop6 env) (pe_pton6 env) (pe_wc env) gs src dst None took
          else do {
            hdr_size \<leftarrow> RoutinePeekWithTimeout nb pf (case received of None \<Rightarrow> -1 | Some hdr \<Rightarrow> int (length hdr));
            ProcessProxyHeader (pe_ntop6 env) (pe_pton6 env) (pe_wc env) gs src dst
              (if hdr_size < 0 then None else if pr_in pf then received else Some []) took
          })"

definition transfer ::
  "'f proxy_env \<Rightarrow> (string \<times> int) option \<Rightarrow> bool \<Rightarrow> poll_round list \<Rightarrow> socket \<Rightarrow> socket \<Rightarrow> 'f \<Rightarrow> (bool \<times> int \<times> 'f) option" where
  "transfer env peer client_ok rounds client sqlsvr f =
     (case peer of
        None \<Rightarrow> Some (True, 0, f)
      | Some dest \<Rightarrow>
          if \<not> client_ok then Some (True, 0, f)
          else map_option (\<lambda>(ended, tot, f, _, _). (ended, tot, f))
            (TransMsg ((if pe_master env then Master_CanExecute else Slave_CanExecute) (pe_cfg env) (pe_wc env) (pe_filter env))
              rounds 0 \<lparr>ch_dest = dest, ch_authed = False, ch_db_name = []\<rparr> f client sqlsvr))"

text \<open>One turn of a routine: the phase it is in, up to the next one or the end of the connection.\<close>

definition IORoutine_turn ::
  "'f proxy_env \<Rightarrow> u64 \<Rightarrow> turn_input \<Rightarrow> group_status \<Rightarrow> 'f \<Rightarrow> fd_table \<Rightarrow> io_routine \<Rightarrow> (io_routine \<times> fd_table \<times> group_status \<times> 'f) option" where
  "IORoutine_turn env now_ms inp gs f t rt =
     (let stop = (\<lambda>tot t rt f. case IORoutine_end env now_ms tot gs t rt of (rt, t, gs) \<Rightarrow> Some (rt, t, gs, f))
      in case (rt_phase rt, inp) of
        (Ph_header, In_header addrs pf received took) \<Rightarrow> do {
          (read_proxy_hdr, src, dst) \<leftarrow> read_header env addrs pf received took gs (IsNonBlock (rt_client_fd rt) t);
          let rt = rt\<lparr>rt_src_addr := src, rt_dst_addr := dst\<rparr>;
          if read_proxy_hdr < 0 then stop 0 t rt f else Some (rt\<lparr>rt_phase := Ph_connect\<rparr>, t, gs, f)
        }
      | (Ph_connect, In_connect now fd c) \<Rightarrow> do {
          (fd, t, rt) \<leftarrow> Router_ConnectDest env now gs fd c t rt;
          if fd < 0 then stop 0 t rt f else Some (rt\<lparr>rt_sqlsvr_fd := fd, rt_phase := Ph_send\<rparr>, t, gs, f)
        }
      | (Ph_send, In_send sk) \<Rightarrow> do {
          (send_proxy_hdr, _) \<leftarrow> SendProxyHeader (pe_ntop6 env) (pc_proxy_protocol (pe_cfg env)) (rt_src_addr rt) (rt_dst_addr rt) sk;
          if send_proxy_hdr < 0 then stop 0 t rt f else Some (rt\<lparr>rt_phase := Ph_trans\<rparr>, t, gs, f)
        }
      | (Ph_trans, In_trans peer client_ok rounds client sqlsvr) \<Rightarrow> do {
          (ended, byte_size_tot, f) \<leftarrow> transfer env peer client_ok rounds client sqlsvr f;
          if ended then stop byte_size_tot t rt f else None
        }
      | _ \<Rightarrow> None)"

section \<open>Workers\<close>

text \<open>
  The routines of a worker, the stack of the free ones with its top first, the bytes in the socket pair of the
  dispatcher, and the descriptors it has read and not handed out yet.
\<close>

record worker =
  wk_routines :: "io_routine list"
  wk_stack :: "nat list"
  wk_pipe :: bytes
  wk_buf :: "int list"

definition AddIORoutine :: "nat \<Rightarrow> worker \<Rightarrow> worker" where
  "AddIORoutine r wk = wk\<lparr>wk_stack := r # wk_stack wk\<rparr>"

definition GetIORoutine :: "worker \<Rightarrow> int + nat \<times> worker" where
  "GetIORoutine wk = (case wk_stack wk of [] \<Rightarrow> Inl (-55) | r # rs \<Rightarrow> Inr (r, wk\<lparr>wk_stack := rs\<rparr>))"

definition IsAllIORoutineUsed :: "worker \<Rightarrow> bool" where
  "IsAllIORoutineUsed wk \<longleftrightarrow> wk_stack wk = []"

definition GetUsedIORoutine :: "u32 \<Rightarrow> worker \<Rightarrow> int" where
  "GetUsedIORoutine max_size wk = sint (ucast (ucast max_size - of_nat (length (wk_stack wk)) :: u64) :: u32)"

definition InitRoutines :: "int \<Rightarrow> worker" where
  "InitRoutines routine_count = \<lparr>wk_routines = replicate (nat routine_count) IORoutine_init, wk_stack = [], wk_pipe = [], wk_buf = []\<rparr>"

text \<open>Every routine that is started has no client, puts itself on the stack and yields.\<close>

definition WorkerThread_start :: "worker \<Rightarrow> worker" where
  "WorkerThread_start wk = fold AddIORoutine [0..<length (wk_routines wk)] wk"

definition int_bytes :: "int \<Rightarrow> bytes" where
  "int_bytes fd = le_bytes 4 (unat (of_int fd :: u32))"

definition bytes_int :: "bytes \<Rightarrow> int" where
  "bytes_int bs = sint (of_nat (le_val bs) :: u32)"

definition AssignFD :: "int \<Rightarrow> write_calls \<Rightarrow> worker \<Rightarrow> (int \<times> worker) option" where
  "AssignFD fd c wk = map_option (\<lambda>(ret, n). (ret, wk\<lparr>wk_pipe := wk_pipe wk @ take n (int_bytes fd)\<rparr>)) (RoutineWriteWithTimeout True c)"

text \<open>The buffer was zeroed, so a partial descriptor at its end is read as a small number.\<close>

function buffer_ints :: "bytes \<Rightarrow> int list" where
  "buffer_ints bs = (if bs = [] then [] else bytes_int (take 4 bs) # buffer_ints (drop 4 bs))"
  by auto
termination by (relation "measure length") auto

declare buffer_ints.simps [simp del]

definition Dispatcher_read :: "poll_result \<Rightarrow> worker \<Rightarrow> worker option" where
  "Dispatcher_read pf wk = do {
     n \<leftarrow> RoutineReadWithTimeout True pf (int (min 512 (length (wk_pipe wk))));
     Some (if n > 0
       then if pr_in pf then wk\<lparr>wk_pipe := drop (nat n) (wk_pipe wk), wk_buf := buffer_ints (take (nat n) (wk_pipe wk))\<rparr>
         else wk\<lparr>wk_buf := buffer_ints (replicate (nat n) 0)\<rparr>
       else wk)
   }"

text \<open>One descriptor: \<open>uniq_id\<close> is the random number of its connection. A routine that is resumed goes on with its first phase.\<close>

definition Dispatcher_dispatch :: "u64 \<Rightarrow> worker \<Rightarrow> fd_table \<Rightarrow> (worker \<times> fd_table) option" where
  "Dispatcher_dispatch uniq_id wk t =
     (case wk_buf wk of
        [] \<Rightarrow> None
      | fd # fds \<Rightarrow>
          let wk = wk\<lparr>wk_buf := fds\<rparr>
          in Some
            (if fd = 0 then (wk, t)
             else
               let t = SetNonBlock fd t
               in case GetIORoutine wk of
                 Inr (r, wk) \<Rightarrow>
                   (case SetClientFD fd uniq_id (wk_routines wk ! r) t of
                      (rt, t) \<Rightarrow> (wk\<lparr>wk_routines := (wk_routines wk)[r := rt\<lparr>rt_phase := Ph_header\<rparr>]\<rparr>, t))
               | Inl _ \<Rightarrow> (wk, fd_close fd t)))"

section \<open>The process\<close>

record 'f proxy_proc =
  pp_workers :: "worker list"
  pp_fds :: fd_table
  pp_gs :: group_status
  pp_filter :: 'f

text \<open>One turn of a thread that accepts: \<open>fd\<close> is what \<^verbatim>\<open>accept\<close> returned.\<close>

definition AcceptThread_turn :: "int \<Rightarrow> nat \<Rightarrow> write_calls \<Rightarrow> 'f proxy_proc \<Rightarrow> 'f proxy_proc option" where
  "AcceptThread_turn fd rand_idx c p =
     (if fd < 0 then Some p
      else do {
        let t = SetNonBlock fd (fd_open fd (pp_fds p));
        (ret, wk) \<leftarrow> AssignFD fd c (pp_workers p ! rand_idx);
        let p = p\<lparr>pp_workers := (pp_workers p)[rand_idx := wk]\<rparr>;
        Some (if ret > 0 then p\<lparr>pp_fds := t\<rparr> else p\<lparr>pp_fds := fd_close fd t\<rparr>)
      })"

definition StartWorker :: "'f proxy_env \<Rightarrow> int set \<Rightarrow> 'f \<Rightarrow> 'f proxy_proc" where
  "StartWorker env own f =
     \<lparr>pp_workers = replicate (nat (wc_worker_thread_count (pe_wc env))) (WorkerThread_start (InitRoutines (wc_io_routine_count (pe_wc env)))),
      pp_fds = \<lparr>ft_open = own, ft_nonblock = {}\<rparr>, pp_gs = GroupStatusCache_init, pp_filter = f\<rparr>"

section \<open>Steps\<close>

text \<open>
  A write of one descriptor into a socket pair is done completely or not at all, and the pair, both of whose ends
  the process keeps, does not hang up.
\<close>

definition pair_write :: "write_calls \<Rightarrow> bool" where
  "pair_write c \<longleftrightarrow> (wr_first c \<le> 0 \<or> wr_first c = 4) \<and> (wr_second c \<le> 0 \<or> wr_second c = 4) \<and>
     \<not> pr_hup (wr_poll c) \<and> \<not> pr_err (wr_poll c)"

text \<open>The system returns descriptors that are not open; a socket that could not be made cannot be connected.\<close>

definition new_fd :: "int \<Rightarrow> fd_table \<Rightarrow> bool" where
  "new_fd fd t \<longleftrightarrow> 0 \<le> fd \<and> fd < 2 ^ 31 \<and> fd \<notin> ft_open t"

fun input_ok :: "fd_table \<Rightarrow> turn_input \<Rightarrow> bool" where
  "input_ok t (In_header (Inl ret) pf received took) \<longleftrightarrow> ret < 0"
| "input_ok t (In_connect now fd c) \<longleftrightarrow> new_fd fd t \<or> fd = -1 \<and> cn_ret c \<noteq> 0 \<and> list_all (\<lambda>pf. \<not> pr_out pf) (cn_polls c)"
| "input_ok t _ \<longleftrightarrow> True"

datatype act = Accept nat | Read nat | Dispatch nat | Turn nat nat | Update

text \<open>
  The threads and coroutines take turns in any order. The thread of the group status may set any state with
  addresses the binlog servers report, \<open>A\<close>.
\<close>

inductive proxy_step :: "'f proxy_env \<Rightarrow> string set \<Rightarrow> 'f proxy_proc \<Rightarrow> act \<Rightarrow> 'f proxy_proc \<Rightarrow> bool" for env A where
  accept: "\<lbrakk>fd < 0 \<or> new_fd fd (pp_fds p); w < length (pp_workers p); pair_write c; AcceptThread_turn fd w c p = Some p'\<rbrakk>
    \<Longrightarrow> proxy_step env A p (Accept w) p'"
| read: "\<lbrakk>w < length (pp_workers p); wk_buf (pp_workers p ! w) = []; wk_pipe (pp_workers p ! w) \<noteq> []; pr_ret pf = 1; pr_in pf;
      Dispatcher_read pf (pp_workers p ! w) = Some wk\<rbrakk>
    \<Longrightarrow> proxy_step env A p (Read w) (p\<lparr>pp_workers := (pp_workers p)[w := wk]\<rparr>)"
| dispatch: "\<lbrakk>w < length (pp_workers p); Dispatcher_dispatch uniq_id (pp_workers p ! w) (pp_fds p) = Some (wk, t)\<rbrakk>
    \<Longrightarrow> proxy_step env A p (Dispatch w) (p\<lparr>pp_workers := (pp_workers p)[w := wk], pp_fds := t\<rparr>)"
| turn: "\<lbrakk>w < length (pp_workers p); wk = pp_workers p ! w; r < length (wk_routines wk); input_ok (pp_fds p) inp;
      IORoutine_turn env now_ms inp (pp_gs p) (pp_filter p) (pp_fds p) (wk_routines wk ! r) = Some (rt, t, gs, f);
      wk' = wk\<lparr>wk_routines := (wk_routines wk)[r := rt]\<rparr>\<rbrakk>
    \<Longrightarrow> proxy_step env A p (Turn w r)
      \<lparr>pp_workers = (pp_workers p)[w := if rt_phase rt = Ph_idle then AddIORoutine r wk' else wk'], pp_fds = t, pp_gs = gs, pp_filter = f\<rparr>"
| update: "insert (gs_master_ip gs) (set (gs_membership gs)) \<subseteq> A \<Longrightarrow> proxy_step env A p Update (p\<lparr>pp_gs := gs\<rparr>)"

text \<open>
  \<open>own\<close> are the descriptors the process has when it starts: the standard ones, sockets to listen on, and socket
  pairs. The short-lived sockets of the heartbeat and of the status calls are not part of the state.
\<close>

inductive proxy_reach :: "'f proxy_env \<Rightarrow> string set \<Rightarrow> int set \<Rightarrow> 'f proxy_proc \<Rightarrow> bool" for env A own where
  start: "proxy_reach env A own (StartWorker env own f)"
| step: "proxy_reach env A own p \<Longrightarrow> proxy_step env A p a p' \<Longrightarrow> proxy_reach env A own p'"

section \<open>Ownership of descriptors\<close>

definition routine_fds :: "io_routine \<Rightarrow> int list" where
  "routine_fds rt = filter (\<lambda>fd. fd \<noteq> -1) [rt_client_fd rt, rt_sqlsvr_fd rt]"

definition waiting_fds :: "worker \<Rightarrow> int list" where
  "waiting_fds wk = wk_buf wk @ buffer_ints (wk_pipe wk)"

definition worker_fds :: "worker \<Rightarrow> int list" where
  "worker_fds wk = waiting_fds wk @ concat (map routine_fds (wk_routines wk))"

definition owned_fds :: "'f proxy_proc \<Rightarrow> int list" where
  "owned_fds p = concat (map worker_fds (pp_workers p))"

definition routine_ok :: "io_routine \<Rightarrow> bool" where
  "routine_ok rt \<longleftrightarrow> (rt_client_fd rt = -1 \<longleftrightarrow> rt_phase rt = Ph_idle) \<and> (rt_sqlsvr_fd rt = -1 \<longleftrightarrow> rt_phase rt \<in> {Ph_idle, Ph_header, Ph_connect})"

definition worker_ok :: "worker \<Rightarrow> bool" where
  "worker_ok wk \<longleftrightarrow> 4 dvd length (wk_pipe wk) \<and> distinct (wk_stack wk) \<and> set (wk_stack wk) \<subseteq> {..<length (wk_routines wk)} \<and>
     (\<forall>r<length (wk_routines wk). routine_ok (wk_routines wk ! r) \<and> (r \<in> set (wk_stack wk) \<longleftrightarrow> rt_phase (wk_routines wk ! r) = Ph_idle))"

definition table_ok :: "int set \<Rightarrow> fd_table \<Rightarrow> int list \<Rightarrow> bool" where
  "table_ok own t fds \<longleftrightarrow> 0 \<in> own \<and> own \<subseteq> ft_open t \<and> -1 \<notin> ft_open t \<and> ft_open t - own \<subseteq> ft_nonblock t \<and>
     (\<forall>fd. count_list fds fd = of_bool (fd \<in> ft_open t - own))"

text \<open>
  An address that cannot be parsed costs a descriptor: it stays open and belongs to nobody. So \<open>own\<close> grows by the
  descriptors that were lost, and none is lost while all addresses can be parsed.
\<close>

definition addrs_usable :: "'f proxy_env \<Rightarrow> group_status \<Rightarrow> bool" where
  "addrs_usable env gs \<longleftrightarrow> usable_addr (pc_specified_master_ip (pe_cfg env)) \<and> usable_addr (gs_master_ip gs) \<and> list_all usable_addr (gs_membership gs)"

definition all_usable :: "'f proxy_env \<Rightarrow> string set \<Rightarrow> bool" where
  "all_usable env A \<longleftrightarrow> usable_addr (pc_specified_master_ip (pe_cfg env)) \<and> (\<forall>ip\<in>A. usable_addr ip)"

definition proc_ok :: "'f proxy_env \<Rightarrow> string set \<Rightarrow> int set \<Rightarrow> 'f proxy_proc \<Rightarrow> bool" where
  "proc_ok env A own p \<longleftrightarrow> list_all worker_ok (pp_workers p) \<and> table_ok own (pp_fds p) (owned_fds p) \<and>
     (all_usable env A \<longrightarrow> addrs_usable env (pp_gs p))"

subsection \<open>Counting\<close>

lemma count_concat_update:
  "i < length xs \<Longrightarrow> count_list (concat (map f (xs[i := x]))) y + count_list (f (xs ! i)) y = count_list (concat (map f xs)) y + count_list (f x) y"
  by (induction xs arbitrary: i) (auto split: nat.splits)

lemma count_concat_le: "i < length xs \<Longrightarrow> count_list (f (xs ! i)) y \<le> count_list (concat (map f xs)) y"
  by (induction xs arbitrary: i) (auto simp: nth_Cons split: nat.splits intro: trans_le_add2)

text \<open>A change of one part is balanced when it gives up exactly the descriptors that are closed and gets exactly those that are opened.\<close>

definition balanced :: "int list \<Rightarrow> fd_table \<Rightarrow> int list \<Rightarrow> fd_table \<Rightarrow> bool" where
  "balanced fds t fds' t' \<longleftrightarrow> (\<forall>fd. count_list fds' fd + of_bool (fd \<in> ft_open t) = count_list fds fd + of_bool (fd \<in> ft_open t')) \<and>
     -1 \<notin> ft_open t' \<and> ft_open t' - ft_open t \<subseteq> ft_nonblock t' \<and> ft_nonblock t \<inter> ft_open t' \<subseteq> ft_nonblock t'"

lemma table_ok_balanced:
  assumes "table_ok own t fds" "balanced part t part' t'" "\<And>fd. count_list fds' fd + count_list part fd = count_list fds fd + count_list part' fd"
  shows "table_ok own t' fds'"
proof -
  have c: "count_list fds' fd + of_bool (fd \<in> ft_open t) = of_bool (fd \<in> ft_open t - own) + of_bool (fd \<in> ft_open t')" for fd
  proof -
    have "count_list fds fd = of_bool (fd \<in> ft_open t - own)" using assms(1) by (simp add: table_ok_def)
    moreover have "count_list part' fd + of_bool (fd \<in> ft_open t) = count_list part fd + of_bool (fd \<in> ft_open t')"
      using assms(2) by (simp add: balanced_def)
    ultimately show ?thesis using assms(3) [of fd] by linarith
  qed
  have sub: "own \<subseteq> ft_open t'"
  proof
    fix fd assume "fd \<in> own"
    with c [of fd] assms(1) show "fd \<in> ft_open t'" by (cases "fd \<in> ft_open t'") (auto simp: table_ok_def)
  qed
  have "count_list fds' fd = of_bool (fd \<in> ft_open t' - own)" for fd
    using c [of fd] sub assms(1) by (cases "fd \<in> own"; cases "fd \<in> ft_open t"; cases "fd \<in> ft_open t'") (auto simp: table_ok_def)
  with sub assms(1,2) show ?thesis by (auto simp: table_ok_def balanced_def)
qed

text \<open>A table in which new descriptors are open.\<close>

definition with_lost :: "int set \<Rightarrow> fd_table \<Rightarrow> fd_table" where
  "with_lost L t = t\<lparr>ft_open := ft_open t \<union> L\<rparr>"

lemma with_lost_simps [simp]: "with_lost {} t = t" "ft_open (with_lost L t) = ft_open t \<union> L" "ft_nonblock (with_lost L t) = ft_nonblock t"
  by (simp_all add: with_lost_def)

lemma table_ok_lost: "table_ok own t fds \<Longrightarrow> L \<inter> ft_open t = {} \<Longrightarrow> -1 \<notin> L \<Longrightarrow> table_ok (own \<union> L) (with_lost L t) fds"
  by (auto simp: table_ok_def)

subsection \<open>The parts\<close>

lemma routine_fds_simps:
  "routine_fds rt = (if rt_client_fd rt = -1 then [] else [rt_client_fd rt]) @ (if rt_sqlsvr_fd rt = -1 then [] else [rt_sqlsvr_fd rt])"
  by (simp add: routine_fds_def)

lemma routine_fds_update [simp]:
  "routine_fds (rt\<lparr>rt_phase := ph\<rparr>) = routine_fds rt" "routine_fds (rt\<lparr>rt_connect_dest := d\<rparr>) = routine_fds rt"
  "routine_fds (rt\<lparr>rt_src_addr := a, rt_dst_addr := b\<rparr>) = routine_fds rt"
  by (simp_all add: routine_fds_def)

lemma ClearAll_balanced:
  assumes "distinct (routine_fds rt)" "set (routine_fds rt) \<subseteq> ft_open t" "-1 \<notin> ft_open t" "ClearAll rt t = (rt', t')"
  shows "balanced (routine_fds rt) t (routine_fds rt') t' \<and> rt_client_fd rt' = -1 \<and> rt_sqlsvr_fd rt' = -1"
  using assms by (auto simp: ClearAll_def ReleaseFD_def fd_close_def balanced_def routine_fds_simps split: if_splits)

lemma balanced_refl: "-1 \<notin> ft_open t \<Longrightarrow> balanced fds t fds t"
  by (simp add: balanced_def)

lemma balanced_trans:
  assumes "balanced fds t fds' t'" "balanced fds' t' fds'' t''"
  shows "balanced fds t fds'' t''"
proof -
  have "count_list fds'' fd + of_bool (fd \<in> ft_open t) = count_list fds fd + of_bool (fd \<in> ft_open t'')" for fd
  proof -
    have "count_list fds' fd + of_bool (fd \<in> ft_open t) = count_list fds fd + of_bool (fd \<in> ft_open t')"
      "count_list fds'' fd + of_bool (fd \<in> ft_open t') = count_list fds' fd + of_bool (fd \<in> ft_open t'')"
      using assms by (simp_all add: balanced_def)
    then show ?thesis by linarith
  qed
  with assms show ?thesis by (auto simp: balanced_def)
qed

lemma IORoutine_end_balanced:
  assumes "distinct (routine_fds rt)" "set (routine_fds rt) \<subseteq> ft_open t" "-1 \<notin> ft_open t" "IORoutine_end env now_ms tot gs t rt = (rt', t', gs')"
  shows "balanced (routine_fds rt) t (routine_fds rt') t' \<and> rt_phase rt' = Ph_idle \<and> rt_client_fd rt' = -1 \<and> rt_sqlsvr_fd rt' = -1"
proof -
  obtain rt1 t1 where c: "ClearAll rt t = (rt1, t1)" by (cases "ClearAll rt t")
  with assms(4) have "rt' = rt1\<lparr>rt_phase := Ph_idle\<rparr>" "t' = t1" by (simp_all add: IORoutine_end_def)
  with ClearAll_balanced [OF assms(1-3) c] show ?thesis by simp
qed

lemma IORoutine_end_addrs: "IORoutine_end env now_ms tot gs t rt = (rt', t', gs') \<Longrightarrow> addrs_usable env gs \<Longrightarrow> addrs_usable env gs'"
  by (auto simp: IORoutine_end_def MarkFailure_def Slave_MarkFailure_def Cache_MarkFailure_def addrs_usable_def split: prod.splits if_splits)

lemma pick_slave_in: "pick_slave lf m ips (s, u) \<in> insert s (set ips)"
  by (induction ips arbitrary: s u) (auto split: if_splits)

lemma usable_local: "usable_addr local_ip" "usable_addr []"
  by (code_simp, code_simp)

lemma GetDestEndpoint_usable:
  assumes "addrs_usable env gs" "GetDestEndpoint env now gs = Inr (ip, port)"
  shows "usable_addr ip"
proof -
  have "usable_addr (snd (GetSlave m gs))" for m
    using assms(1) pick_slave_in [of "gs_last_failure gs" m "gs_membership gs" "[]" 0] usable_local(2)
    by (auto simp: GetSlave_def Let_def addrs_usable_def list_all_iff)
  moreover have "usable_addr (snd (Cache_GetMaster (pe_cfg env) now gs))"
    using assms(1) usable_local(2) by (simp add: Cache_GetMaster_def addrs_usable_def)
  ultimately show ?thesis using assms(2) usable_local(1)
    by (auto simp: GetDestEndpoint_def Master_GetDestEndpoint_def Slave_GetDestEndpoint_def split: prod.splits if_splits) (metis snd_conv)+
qed

lemma connect_poll_out: "list_all (\<lambda>pf. \<not> pr_out pf) pfs \<Longrightarrow> \<not> pr_out pf \<Longrightarrow> \<not> pr_out (connect_poll n pfs pf)"
  by (induction n pfs pf rule: connect_poll.induct) auto

lemma Router_ConnectDest_balanced:
  assumes "Router_ConnectDest env now gs fd c t rt = Some (ret, t', rt')" "input_ok t (In_connect now fd c)" "-1 \<notin> ft_open t"
  shows "routine_fds rt' = routine_fds rt \<and> rt_phase rt' = rt_phase rt \<and> rt_client_fd rt' = rt_client_fd rt \<and> rt_sqlsvr_fd rt' = rt_sqlsvr_fd rt \<and>
    (if 0 \<le> ret then balanced fds t (fds @ [ret]) t'
     else \<exists>L. L \<inter> ft_open t = {} \<and> -1 \<notin> L \<and> (addrs_usable env gs \<longrightarrow> L = {}) \<and> balanced fds (with_lost L t) fds t')"
proof (cases "if pc_only_proxy (pe_cfg env) then Inr (local_ip, pc_mysql_port (pe_cfg env)) else GetDestEndpoint env now gs")
  case (Inl e)
  with assms show ?thesis by (intro conjI) (auto simp: Router_ConnectDest_def balanced_refl intro!: exI [of _ "{}"])
next
  case (Inr d)
  obtain ip port where d: "d = (ip, port)" by (cases d)
  show ?thesis
  proof (cases "usable_addr ip")
    case False
    have L: "{fd. 0 \<le> fd} \<inter> {fd} \<inter> ft_open t = {}" using assms(2) by (auto simp: new_fd_def)
    have "\<not> addrs_usable env gs" using Inr d False GetDestEndpoint_usable [of env gs now ip port] usable_local(1) by (auto split: if_splits)
    moreover from False assms(1) have "ret = -76" "t' = with_lost ({fd. 0 \<le> fd} \<inter> {fd}) t" "rt' = rt"
      by (auto simp: Router_ConnectDest_def Inr d fd_open_def with_lost_def)
    moreover from this(2) have "balanced fds (with_lost ({fd. 0 \<le> fd} \<inter> {fd}) t) fds t'" using assms(3) by (simp add: balanced_refl)
    ultimately show ?thesis using L by (auto intro!: exI [of _ "{fd. 0 \<le> fd} \<inter> {fd}"])
  next
    case u: True
    have "routine_fds rt' = routine_fds rt \<and> rt_phase rt' = rt_phase rt \<and> rt_client_fd rt' = rt_client_fd rt \<and> rt_sqlsvr_fd rt' = rt_sqlsvr_fd rt \<and>
      (if ret < 0 then balanced fds t fds t' else balanced fds t (fds @ [ret]) t')"
  proof (cases "fd = -1")
    case True
    with assms(2) have "\<not> pr_out (connect_poll 3 (cn_polls c) no_poll)" "cn_ret c \<noteq> 0"
      by (simp_all add: new_fd_def no_poll_def connect_poll_out)
    with True assms(1,3) u show ?thesis
      by (auto simp: Router_ConnectDest_def Inr d fd_open_def SetNonBlock_def IsNonBlock_def RoutineConnectWithTimeout_def fd_close_def balanced_def)
  next
    case False
    with assms(2) have n: "0 \<le> fd" "fd \<notin> ft_open t" by (simp_all add: new_fd_def)
    then have nb: "IsNonBlock fd (SetNonBlock fd (fd_open fd t))" by (simp add: IsNonBlock_def SetNonBlock_def fd_open_def)
    let ?t = "SetNonBlock fd (fd_open fd t)"
    from assms(1) have "ret = fd \<and> t' = ?t \<and> rt' = rt\<lparr>rt_connect_dest := ip\<rparr> \<or> ret = -87 \<and> t' = fd_close fd ?t \<and> rt' = rt"
      using u nb by (auto simp: Router_ConnectDest_def Inr d Let_def RoutineConnectWithTimeout_def split: if_splits)
    then show ?thesis
    proof
      assume "ret = fd \<and> t' = ?t \<and> rt' = rt\<lparr>rt_connect_dest := ip\<rparr>"
      then show ?thesis using n assms(3) by (auto simp: balanced_def SetNonBlock_def fd_open_def)
    next
      assume "ret = -87 \<and> t' = fd_close fd ?t \<and> rt' = rt"
      then show ?thesis using n assms(3) by (auto simp: balanced_def SetNonBlock_def fd_open_def fd_close_def)
    qed
  qed
    then show ?thesis by (auto simp: not_less intro!: exI [of _ "{}"])
  qed
qed

lemma IORoutine_end_ok:
  assumes "IORoutine_end env now_ms tot gs t1 rt1 = (rt', t', gs')" "routine_fds rt1 = routine_fds rt" "balanced (routine_fds rt) t (routine_fds rt) t1"
    and "distinct (routine_fds rt)" "set (routine_fds rt) \<subseteq> ft_open t"
  shows "balanced (routine_fds rt) t (routine_fds rt') t' \<and> (addrs_usable env gs \<longrightarrow> addrs_usable env gs') \<and> routine_ok rt'"
proof -
  have "set (routine_fds rt1) \<subseteq> ft_open t1"
  proof
    fix fd assume "fd \<in> set (routine_fds rt1)"
    then have "fd \<in> ft_open t" using assms(2,5) by auto
    moreover have "of_bool (fd \<in> ft_open t) = (of_bool (fd \<in> ft_open t1) :: nat)" using assms(3) by (simp add: balanced_def)
    ultimately show "fd \<in> ft_open t1" by (cases "fd \<in> ft_open t1") simp_all
  qed
  moreover have "-1 \<notin> ft_open t1" using assms(3) by (simp add: balanced_def)
  ultimately have "balanced (routine_fds rt) t1 (routine_fds rt') t' \<and> routine_ok rt'"
    using IORoutine_end_balanced [OF _ _ _ assms(1)] assms(2,4) by (auto simp: routine_ok_def)
  with assms(3) IORoutine_end_addrs [OF assms(1)] show ?thesis by (blast intro: balanced_trans)
qed

lemma IORoutine_turn_ok:
  assumes "IORoutine_turn env now_ms inp gs f t rt = Some (rt', t', gs', f')" "input_ok t inp" "-1 \<notin> ft_open t"
    "distinct (routine_fds rt)" "set (routine_fds rt) \<subseteq> ft_open t" "routine_ok rt"
  shows "(\<exists>L. L \<inter> ft_open t = {} \<and> -1 \<notin> L \<and> (addrs_usable env gs \<longrightarrow> L = {}) \<and> balanced (routine_fds rt) (with_lost L t) (routine_fds rt') t') \<and>
    (addrs_usable env gs \<longrightarrow> addrs_usable env gs') \<and> routine_ok rt' \<and> rt_phase rt \<noteq> Ph_idle"
proof -
  note stop = IORoutine_end_ok [OF _ _ _ assms(4,5)]
  note defs = IORoutine_turn_def Let_def bind_eq_Some_conv
  consider (quiet) "balanced (routine_fds rt) t (routine_fds rt') t' \<and> (addrs_usable env gs \<longrightarrow> addrs_usable env gs') \<and> routine_ok rt' \<and> rt_phase rt \<noteq> Ph_idle"
    | (connect) now fd c where "rt_phase rt = Ph_connect" "inp = In_connect now fd c"
  proof -
    consider (header) addrs pf received took where "rt_phase rt = Ph_header" "inp = In_header addrs pf received took"
      | (connect) now fd c where "rt_phase rt = Ph_connect" "inp = In_connect now fd c"
      | (send) sk where "rt_phase rt = Ph_send" "inp = In_send sk"
      | (trans) peer ok rounds client sqlsvr where "rt_phase rt = Ph_trans" "inp = In_trans peer ok rounds client sqlsvr"
      using assms(1) by (cases "rt_phase rt"; cases inp) (auto simp: IORoutine_turn_def)
    then show thesis
    proof cases
      case header
      with assms have "balanced (routine_fds rt) t (routine_fds rt') t' \<and> (addrs_usable env gs \<longrightarrow> addrs_usable env gs') \<and> routine_ok rt' \<and> rt_phase rt \<noteq> Ph_idle"
        by (auto simp: defs balanced_refl routine_ok_def split: if_splits prod.splits dest!: stop)
      then show thesis by (rule that(1))
    next
      case send
      with assms have "balanced (routine_fds rt) t (routine_fds rt') t' \<and> (addrs_usable env gs \<longrightarrow> addrs_usable env gs') \<and> routine_ok rt' \<and> rt_phase rt \<noteq> Ph_idle"
        by (auto simp: defs balanced_refl routine_ok_def split: if_splits prod.splits dest!: stop)
      then show thesis by (rule that(1))
    next
      case trans
      with assms have "balanced (routine_fds rt) t (routine_fds rt') t' \<and> (addrs_usable env gs \<longrightarrow> addrs_usable env gs') \<and> routine_ok rt' \<and> rt_phase rt \<noteq> Ph_idle"
        by (auto simp: defs balanced_refl routine_ok_def split: if_splits prod.splits dest!: stop)
      then show thesis by (rule that(1))
    qed (rule that(2))
  qed
  then show ?thesis
  proof cases
    case quiet
    then show ?thesis by (intro conjI exI [of _ "{}"]) simp_all
  next
    case connect
    then obtain ret t1 rt1 where c: "Router_ConnectDest env now gs fd c t rt = Some (ret, t1, rt1)"
      using assms(1) by (auto simp: defs)
    from Router_ConnectDest_balanced [OF c _ assms(3), of "routine_fds rt"] assms(2) connect
    have b: "routine_fds rt1 = routine_fds rt" "rt_client_fd rt1 = rt_client_fd rt" "rt_sqlsvr_fd rt1 = rt_sqlsvr_fd rt"
      "if 0 \<le> ret then balanced (routine_fds rt) t (routine_fds rt @ [ret]) t1
       else \<exists>L. L \<inter> ft_open t = {} \<and> -1 \<notin> L \<and> (addrs_usable env gs \<longrightarrow> L = {}) \<and> balanced (routine_fds rt) (with_lost L t) (routine_fds rt) t1" by auto
    show ?thesis
    proof (cases "0 \<le> ret")
      case False
      with b(4) obtain L where L: "L \<inter> ft_open t = {}" "-1 \<notin> L" "addrs_usable env gs \<longrightarrow> L = {}" "balanced (routine_fds rt) (with_lost L t) (routine_fds rt) t1"
        by auto
      from False c connect assms(1) have "IORoutine_end env now_ms 0 gs t1 rt1 = (rt', t', gs')" by (auto simp: defs split: prod.splits)
      from stop [OF this b(1)] IORoutine_end_ok [OF this b(1) L(4) assms(4)] assms(5) connect
      have "balanced (routine_fds rt) (with_lost L t) (routine_fds rt') t' \<and> (addrs_usable env gs \<longrightarrow> addrs_usable env gs') \<and> routine_ok rt'" by auto
      with L connect show ?thesis by auto
    next
      case True
      with c connect assms(1) have "rt' = rt1\<lparr>rt_sqlsvr_fd := ret, rt_phase := Ph_send\<rparr>" "t' = t1" "gs' = gs" by (auto simp: defs)
      moreover have "rt_sqlsvr_fd rt = -1" using assms(6) connect by (simp add: routine_ok_def)
      ultimately have "balanced (routine_fds rt) t (routine_fds rt') t' \<and> routine_ok rt' \<and> gs' = gs"
        using True b assms(6) connect by (auto simp: routine_fds_simps routine_ok_def)
      with connect show ?thesis by (intro conjI exI [of _ "{}"]) simp_all
    qed
  qed
qed

lemma buffer_ints_append: "4 dvd length bs \<Longrightarrow> buffer_ints (bs @ bs') = buffer_ints bs @ buffer_ints bs'"
proof (induction bs rule: buffer_ints.induct)
  case (1 bs)
  show ?case
  proof (cases "bs = []")
    case False
    with 1(2) have "4 \<le> length bs" by (simp add: dvd_imp_le)
    moreover from this 1(2) have "4 dvd length (drop 4 bs)" by (simp add: dvd_diff_nat)
    ultimately show ?thesis using 1(1) [OF False] False by (simp add: buffer_ints.simps [of "bs @ bs'"] buffer_ints.simps [of bs])
  qed (simp add: buffer_ints.simps [of "[]"])
qed

lemma length_int_bytes [simp]: "length (int_bytes fd) = 4"
  by (simp add: int_bytes_def)

lemma buffer_ints_fd: "0 \<le> fd \<Longrightarrow> fd < 2 ^ 31 \<Longrightarrow> buffer_ints (int_bytes fd) = [fd]"
proof -
  assume a: "0 \<le> fd" "fd < 2 ^ 31"
  then have u: "unat (of_int fd :: u32) = nat fd" by (simp add: unsigned_of_int take_bit_int_eq_self)
  have "bytes_int (int_bytes fd) = fd"
    using a by (simp add: bytes_int_def int_bytes_def u le_val_le_bytes sint_sbintrunc' signed_take_bit_int_eq_self)
  moreover have "int_bytes fd \<noteq> []" using length_int_bytes [of fd] by (metis list.size(3) zero_neq_numeral)
  ultimately show ?thesis by (simp add: buffer_ints.simps [of "int_bytes fd"] buffer_ints.simps [of "[]"])
qed

lemma AcceptThread_turn_balanced:
  assumes "AcceptThread_turn fd w c p = Some p'" "new_fd fd (pp_fds p)" "pair_write c" "w < length (pp_workers p)" "worker_ok (pp_workers p ! w)"
    "-1 \<notin> ft_open (pp_fds p)"
  shows "\<exists>wk. p' = p\<lparr>pp_workers := (pp_workers p)[w := wk], pp_fds := pp_fds p'\<rparr> \<and> worker_ok wk \<and>
    balanced (worker_fds (pp_workers p ! w)) (pp_fds p) (worker_fds wk) (pp_fds p') \<and>
    wk_buf wk = wk_buf (pp_workers p ! w) \<and> (\<exists>rest. buffer_ints (wk_pipe wk) = buffer_ints (wk_pipe (pp_workers p ! w)) @ rest)"
proof -
  let ?wk = "pp_workers p ! w" and ?t = "SetNonBlock fd (fd_open fd (pp_fds p))"
  have n: "0 \<le> fd" "fd < 2 ^ 31" "fd \<notin> ft_open (pp_fds p)" using assms(2) by (simp_all add: new_fd_def)
  obtain ret k where r: "RoutineWriteWithTimeout True c = Some (ret, k)" by (fastforce simp: RoutineWriteWithTimeout_def)
  then have k: "ret \<le> 0 \<and> k = 0 \<or> 0 < ret \<and> k = 4"
    using assms(3) by (auto simp: RoutineWriteWithTimeout_def pair_write_def split: if_splits)
  have al: "4 dvd length (wk_pipe ?wk)" using assms(5) by (simp add: worker_ok_def)
  have e: "take 4 (int_bytes fd) = int_bytes fd" by simp
  from k show ?thesis
  proof
    assume "ret \<le> 0 \<and> k = 0"
    with assms(1,4) n r have "p' = p\<lparr>pp_fds := fd_close fd ?t\<rparr>" by (simp add: AcceptThread_turn_def AssignFD_def Let_def)
    with n assms(5,6) show ?thesis
      by (intro exI [of _ ?wk]) (auto simp: balanced_def SetNonBlock_def fd_open_def fd_close_def)
  next
    assume "0 < ret \<and> k = 4"
    with assms(1) n r e have p': "p' = p\<lparr>pp_workers := (pp_workers p)[w := ?wk\<lparr>wk_pipe := wk_pipe ?wk @ int_bytes fd\<rparr>], pp_fds := ?t\<rparr>"
      by (simp add: AcceptThread_turn_def AssignFD_def Let_def)
    with p' al n assms(5,6) show ?thesis
      by (intro exI [of _ "?wk\<lparr>wk_pipe := wk_pipe ?wk @ int_bytes fd\<rparr>"])
        (auto simp: balanced_def SetNonBlock_def fd_open_def worker_ok_def worker_fds_def waiting_fds_def buffer_ints_append buffer_ints_fd)
  qed
qed

lemma Dispatcher_read_ok:
  assumes "Dispatcher_read pf wk = Some wk'" "pr_ret pf = 1" "pr_in pf" "wk_buf wk = []" "wk_pipe wk \<noteq> []" "worker_ok wk"
  shows "worker_ok wk' \<and> waiting_fds wk' = waiting_fds wk \<and> worker_fds wk' = worker_fds wk \<and> wk_buf wk' \<noteq> []"
proof -
  let ?n = "min 512 (length (wk_pipe wk))"
  have d: "wk' = wk\<lparr>wk_pipe := drop ?n (wk_pipe wk), wk_buf := buffer_ints (take ?n (wk_pipe wk))\<rparr>"
    using assms(1,2,3,5) by (auto simp: Dispatcher_read_def RoutineReadWithTimeout_def split: if_splits)
  have al: "4 dvd length (wk_pipe wk)" using assms(6) by (simp add: worker_ok_def)
  then have n: "4 dvd ?n" by (simp add: min_def)
  then have "buffer_ints (take ?n (wk_pipe wk)) @ buffer_ints (drop ?n (wk_pipe wk)) = buffer_ints (wk_pipe wk)"
    using buffer_ints_append [of "take ?n (wk_pipe wk)" "drop ?n (wk_pipe wk)"] by simp
  then have w: "waiting_fds wk' = waiting_fds wk" using assms(4) by (simp add: d waiting_fds_def)
  have "4 dvd length (drop ?n (wk_pipe wk))" using al n by (simp add: dvd_diff_nat)
  with assms(6) have "worker_ok wk'" by (simp add: d worker_ok_def)
  moreover have "wk_buf wk' \<noteq> []" using assms(5) by (simp add: d buffer_ints.simps [of "take ?n (wk_pipe wk)"])
  ultimately show ?thesis using w by (simp add: d worker_fds_def)
qed

lemma Dispatcher_dispatch_ok:
  assumes "Dispatcher_dispatch uniq_id wk t = Some (wk', t')" "worker_ok wk" "-1 \<notin> ft_open t" "0 \<notin> set (waiting_fds wk)" "set (waiting_fds wk) \<subseteq> ft_open t"
  shows "worker_ok wk' \<and> balanced (worker_fds wk) t (worker_fds wk') t' \<and>
    (\<exists>fd. waiting_fds wk = fd # waiting_fds wk' \<and> (fd \<notin> ft_open t' \<or> (\<exists>r<length (wk_routines wk'). rt_client_fd (wk_routines wk' ! r) = fd)))"
proof -
  obtain fd fds where b: "wk_buf wk = fd # fds" using assms(1) by (cases "wk_buf wk") (auto simp: Dispatcher_dispatch_def)
  have fd: "fd \<noteq> 0" "fd \<noteq> -1" "fd \<in> ft_open t" using assms(3,4,5) b by (auto simp: waiting_fds_def)
  let ?t = "SetNonBlock fd t" and ?wk = "wk\<lparr>wk_buf := fds\<rparr>"
  have o: "ft_open ?t = ft_open t" "ft_nonblock ?t = insert fd (ft_nonblock t)" using fd by (simp_all add: SetNonBlock_def)
  have w: "waiting_fds wk = fd # waiting_fds ?wk" by (simp add: waiting_fds_def b)
  show ?thesis
  proof (cases "wk_stack wk")
    case Nil
    with assms(1) b fd have "wk' = ?wk" "t' = fd_close fd ?t" by (auto simp: Dispatcher_dispatch_def GetIORoutine_def)
    with assms(2,3) o w fd show ?thesis
      by (auto simp: fd_close_def balanced_def worker_fds_def worker_ok_def)
  next
    case (Cons r rs)
    let ?rt = "wk_routines wk ! r"
    have r: "r < length (wk_routines wk)" "routine_ok ?rt" "rt_phase ?rt = Ph_idle" "r \<notin> set rs"
      using assms(2) Cons by (auto simp: worker_ok_def)
    then have c: "rt_client_fd ?rt = -1" "rt_sqlsvr_fd ?rt = -1" by (simp_all add: routine_ok_def)
    obtain rt t1 where s: "SetClientFD fd uniq_id ?rt ?t = (rt, t1)" by (cases "SetClientFD fd uniq_id ?rt ?t")
    with c have rt: "t1 = ?t" "rt_client_fd rt = fd" "rt_sqlsvr_fd rt = -1"
      by (auto simp: SetClientFD_def ClearAll_def ReleaseFD_def)
    let ?new = "rt\<lparr>rt_phase := Ph_header\<rparr>"
    have d: "wk' = ?wk\<lparr>wk_stack := rs, wk_routines := (wk_routines wk)[r := ?new]\<rparr>" "t' = ?t"
      using assms(1) b fd Cons s rt(1) by (auto simp: Dispatcher_dispatch_def GetIORoutine_def)
    have ok: "worker_ok wk'" using assms(2) Cons r rt fd by (auto simp: d worker_ok_def routine_ok_def nth_list_update)
    have "count_list (concat (map routine_fds ((wk_routines wk)[r := ?new]))) x + count_list (routine_fds ?rt) x
      = count_list (concat (map routine_fds (wk_routines wk))) x + count_list (routine_fds ?new) x" for x
      using count_concat_update [OF r(1)] .
    then have "count_list (worker_fds wk') x = count_list (worker_fds wk) x" for x
      using c rt fd by (simp add: d worker_fds_def w) (simp add: waiting_fds_def routine_fds_simps)
    then have "balanced (worker_fds wk) t (worker_fds wk') t'" using assms(3) o by (auto simp: balanced_def d)
    moreover have "waiting_fds wk = fd # waiting_fds wk'" by (simp add: b d waiting_fds_def)
    moreover have "rt_client_fd (wk_routines wk' ! r) = fd" "r < length (wk_routines wk')" using r rt by (simp_all add: d)
    ultimately show ?thesis using ok by blast
  qed
qed

subsection \<open>The invariant\<close>

lemma proc_ok_update:
  assumes "proc_ok env A own p" "w < length (pp_workers p)" "worker_ok wk" "balanced (worker_fds (pp_workers p ! w)) (pp_fds p) (worker_fds wk) (pp_fds p')"
    "all_usable env A \<Longrightarrow> addrs_usable env (pp_gs p')" "pp_workers p' = (pp_workers p)[w := wk]"
  shows "proc_ok env A own p'"
proof -
  have "table_ok own (pp_fds p) (owned_fds p)" using assms(1) by (simp add: proc_ok_def)
  then have "table_ok own (pp_fds p') (owned_fds p')"
    by (rule table_ok_balanced [OF _ assms(4)])
      (simp only: owned_fds_def assms(6) count_concat_update [OF assms(2)])
  moreover have "list_all worker_ok (pp_workers p')"
    using assms(1,2,3) by (auto simp: proc_ok_def assms(6) list_all_length nth_list_update)
  ultimately show ?thesis using assms(5) by (simp add: proc_ok_def)
qed

lemma distinct_if_count: "(\<And>x. count_list xs x \<le> Suc 0) \<Longrightarrow> distinct xs"
proof (induction xs)
  case (Cons a xs)
  have "count_list xs x \<le> Suc 0" for x using Cons.prems [of x] by (simp split: if_splits)
  moreover have "count_list xs a = 0" using Cons.prems [of a] by simp
  ultimately show ?case using Cons.IH by (simp add: count_list_0_iff)
qed simp

lemma proc_okD:
  assumes "proc_ok env A own p"
  shows "0 \<in> own" "own \<subseteq> ft_open (pp_fds p)" "-1 \<notin> ft_open (pp_fds p)" "ft_open (pp_fds p) - own \<subseteq> ft_nonblock (pp_fds p)" "all_usable env A \<Longrightarrow> addrs_usable env (pp_gs p)"
    "distinct (owned_fds p)" "set (owned_fds p) = ft_open (pp_fds p) - own"
proof -
  have c: "count_list (owned_fds p) fd = of_bool (fd \<in> ft_open (pp_fds p) - own)" for fd
    using assms by (simp add: proc_ok_def table_ok_def)
  show "distinct (owned_fds p)" by (rule distinct_if_count) (simp only: c of_bool_def, simp)
  have "fd \<in> set (owned_fds p) \<longleftrightarrow> fd \<in> ft_open (pp_fds p) - own" for fd
    using c [of fd] count_list_0_iff [of "owned_fds p" fd] by (cases "fd \<in> ft_open (pp_fds p) - own") simp_all
  then show "set (owned_fds p) = ft_open (pp_fds p) - own" by blast
qed (use assms in \<open>auto simp: proc_ok_def table_ok_def\<close>)

lemma proc_ok_worker:
  assumes "proc_ok env A own p" "w < length (pp_workers p)"
  shows "worker_ok (pp_workers p ! w)" "set (worker_fds (pp_workers p ! w)) \<subseteq> ft_open (pp_fds p) - own" "distinct (worker_fds (pp_workers p ! w))"
proof -
  have m: "pp_workers p ! w \<in> set (pp_workers p)" using assms(2) by simp
  with assms(1) show "worker_ok (pp_workers p ! w)" by (auto simp: proc_ok_def list_all_iff)
  have "set (worker_fds (pp_workers p ! w)) \<subseteq> set (owned_fds p)" using m by (auto simp: owned_fds_def)
  with proc_okD(7) [OF assms(1)] show "set (worker_fds (pp_workers p ! w)) \<subseteq> ft_open (pp_fds p) - own" by simp
  have "distinct (concat (map worker_fds (pp_workers p)))" using proc_okD(6) [OF assms(1)] by (simp add: owned_fds_def)
  with m show "distinct (worker_fds (pp_workers p ! w))" by (auto simp: distinct_concat_iff)
qed

lemma proc_ok_lost:
  "proc_ok env A own p \<Longrightarrow> L \<inter> ft_open (pp_fds p) = {} \<Longrightarrow> -1 \<notin> L \<Longrightarrow> proc_ok env A (own \<union> L) (p\<lparr>pp_fds := with_lost L (pp_fds p)\<rparr>)"
  using table_ok_lost by (auto simp: proc_ok_def owned_fds_def)

lemma routine_turn_ok:
  assumes "proc_ok env A own p" "w < length (pp_workers p)" "wk = pp_workers p ! w" "r < length (wk_routines wk)" "input_ok (pp_fds p) inp"
    and "IORoutine_turn env now_ms inp (pp_gs p) (pp_filter p) (pp_fds p) (wk_routines wk ! r) = Some (rt, t, gs, f)"
    and "wk' = wk\<lparr>wk_routines := (wk_routines wk)[r := rt]\<rparr>"
  shows "(\<exists>L. L \<inter> ft_open (pp_fds p) = {} \<and> -1 \<notin> L \<and> (all_usable env A \<longrightarrow> L = {}) \<and>
      balanced (worker_fds wk) (with_lost L (pp_fds p)) (worker_fds (if rt_phase rt = Ph_idle then AddIORoutine r wk' else wk')) t) \<and>
    worker_ok (if rt_phase rt = Ph_idle then AddIORoutine r wk' else wk') \<and> (all_usable env A \<longrightarrow> addrs_usable env gs)"
proof -
  note wf = proc_ok_worker [OF assms(1,2), folded assms(3)]
  let ?rt = "wk_routines wk ! r"
  have m: "?rt \<in> set (wk_routines wk)" using assms(4) by simp
  have ok: "routine_ok ?rt" "r \<in> set (wk_stack wk) \<longleftrightarrow> rt_phase ?rt = Ph_idle" using wf(1) assms(4) by (auto simp: worker_ok_def)
  have "distinct (routine_fds ?rt)" "set (routine_fds ?rt) \<subseteq> ft_open (pp_fds p)"
    using wf(2,3) m by (auto simp: worker_fds_def distinct_concat_iff)
  from IORoutine_turn_ok [OF assms(6,5) proc_okD(3) [OF assms(1)] this ok(1)] proc_okD(5) [OF assms(1)]
  obtain L where L: "L \<inter> ft_open (pp_fds p) = {}" "-1 \<notin> L" "all_usable env A \<longrightarrow> L = {}"
    and b: "balanced (routine_fds ?rt) (with_lost L (pp_fds p)) (routine_fds rt) t" "all_usable env A \<longrightarrow> addrs_usable env gs" "routine_ok rt"
      "rt_phase ?rt \<noteq> Ph_idle" by blast
  let ?wk = "if rt_phase rt = Ph_idle then AddIORoutine r wk' else wk'" and ?t = "with_lost L (pp_fds p)"
  have c: "count_list (worker_fds ?wk) x + count_list (routine_fds ?rt) x = count_list (worker_fds wk) x + count_list (routine_fds rt) x" for x
    using count_concat_update [OF assms(4), of routine_fds rt x] by (simp add: assms(7) AddIORoutine_def worker_fds_def waiting_fds_def)
  have "count_list (worker_fds ?wk) x + of_bool (x \<in> ft_open ?t) = count_list (worker_fds wk) x + of_bool (x \<in> ft_open t)" for x
  proof -
    have "count_list (routine_fds rt) x + of_bool (x \<in> ft_open ?t) = count_list (routine_fds ?rt) x + of_bool (x \<in> ft_open t)"
      using b(1) unfolding balanced_def by blast
    with c [of x] show ?thesis by linarith
  qed
  with b(1) have "balanced (worker_fds wk) ?t (worker_fds ?wk) t" by (simp add: balanced_def)
  moreover have "worker_ok ?wk" using wf(1) assms(4) b(3,4) ok(2) by (auto simp: assms(7) AddIORoutine_def worker_ok_def nth_list_update)
  ultimately show ?thesis using b(2) L by blast
qed

lemma proxy_step_ok:
  assumes "proxy_step env A p a p'" "proc_ok env A own p"
  shows "\<exists>L. proc_ok env A (own \<union> L) p' \<and> (all_usable env A \<longrightarrow> L = {})"
proof -
  have keep: "\<exists>L. proc_ok env A (own \<union> L) p' \<and> (all_usable env A \<longrightarrow> L = {})" if "proc_ok env A own p'"
    using that by (intro exI [of _ "{}"]) simp
  show ?thesis
    using assms(1)
  proof cases
    case (accept fd w c)
    show ?thesis
    proof (cases "fd < 0")
      case True
      with accept assms(2) show ?thesis by (intro keep) (simp add: AcceptThread_turn_def)
    next
      case False
      with accept have n: "new_fd fd (pp_fds p)" by simp
      from AcceptThread_turn_balanced [OF accept(5) n accept(4,3) proc_ok_worker(1) [OF assms(2) accept(3)] proc_okD(3) [OF assms(2)]]
      obtain wk where wk: "p' = p\<lparr>pp_workers := (pp_workers p)[w := wk], pp_fds := pp_fds p'\<rparr>" "worker_ok wk"
        "balanced (worker_fds (pp_workers p ! w)) (pp_fds p) (worker_fds wk) (pp_fds p')" by blast
      from wk(1) have "pp_workers p' = (pp_workers p)[w := wk]" "pp_gs p' = pp_gs p" by (metis proxy_proc.select_convs(1,3) proxy_proc.surjective proxy_proc.update_convs(1,2))+
      with proc_ok_update [OF assms(2) accept(3) wk(2,3)] proc_okD(5) [OF assms(2)] show ?thesis by (intro keep) simp
    qed
  next
    case (read w pf wk)
    note r = Dispatcher_read_ok [OF read(8,6,7,4,5) proc_ok_worker(1) [OF assms(2) read(3)]]
    show ?thesis using read r proc_okD(3,5) [OF assms(2)]
      by (intro keep proc_ok_update [OF assms(2) read(3)]) (auto simp: balanced_refl)
  next
    case (dispatch w uniq_id wk t)
    note wf = proc_ok_worker [OF assms(2) dispatch(3)]
    have "set (waiting_fds (pp_workers p ! w)) \<subseteq> ft_open (pp_fds p) - own" using wf(2) by (auto simp: worker_fds_def)
    with Dispatcher_dispatch_ok [OF dispatch(4) wf(1) proc_okD(3) [OF assms(2)]] proc_okD(1) [OF assms(2)]
    have "worker_ok wk \<and> balanced (worker_fds (pp_workers p ! w)) (pp_fds p) (worker_fds wk) t" by blast
    with dispatch proc_okD(5) [OF assms(2)] show ?thesis by (intro keep proc_ok_update [OF assms(2) dispatch(3)]) auto
  next
    case (turn w wk r inp now_ms rt t gs f wk')
    from routine_turn_ok [OF assms(2) turn(3,4,5,6,7,8)] obtain L where L: "L \<inter> ft_open (pp_fds p) = {}" "-1 \<notin> L" "all_usable env A \<longrightarrow> L = {}"
      "balanced (worker_fds wk) (with_lost L (pp_fds p)) (worker_fds (if rt_phase rt = Ph_idle then AddIORoutine r wk' else wk')) t"
      "worker_ok (if rt_phase rt = Ph_idle then AddIORoutine r wk' else wk')" "all_usable env A \<longrightarrow> addrs_usable env gs" by blast
    have "proc_ok env A (own \<union> L) p'"
      using turn(2,3,4) L(4-6) by (intro proc_ok_update [OF proc_ok_lost [OF assms(2) L(1,2)], of w]) auto
    with L(3) show ?thesis by blast
  next
    case (update gs)
    then have "all_usable env A \<longrightarrow> addrs_usable env gs" by (auto simp: all_usable_def addrs_usable_def list_all_iff)
    with update assms(2) show ?thesis by (intro keep) (simp add: proc_ok_def owned_fds_def)
  qed
qed

lemma WorkerThread_start_stack: "WorkerThread_start wk = wk\<lparr>wk_stack := rev [0..<length (wk_routines wk)] @ wk_stack wk\<rparr>"
proof -
  have "fold AddIORoutine rs wk = wk\<lparr>wk_stack := rev rs @ wk_stack wk\<rparr>" for rs and wk :: worker
    by (induction rs arbitrary: wk) (simp_all add: AddIORoutine_def)
  then show ?thesis by (simp add: WorkerThread_start_def)
qed

definition own_ok :: "int set \<Rightarrow> bool" where
  "own_ok own \<longleftrightarrow> 0 \<in> own \<and> -1 \<notin> own"

lemma StartWorker_ok:
  assumes "own_ok own"
  shows "proc_ok env A own (StartWorker env own f)"
proof -
  let ?wk = "WorkerThread_start (InitRoutines (wc_io_routine_count (pe_wc env)))"
  have "worker_ok ?wk"
    by (auto simp: WorkerThread_start_stack InitRoutines_def worker_ok_def routine_ok_def IORoutine_init_def)
  moreover have "routine_fds IORoutine_init = []" by (simp add: routine_fds_def IORoutine_init_def)
  then have "worker_fds ?wk = []"
    by (simp add: WorkerThread_start_stack InitRoutines_def worker_fds_def waiting_fds_def buffer_ints.simps)
  ultimately show ?thesis using assms usable_local(2)
    by (auto simp: StartWorker_def proc_ok_def owned_fds_def table_ok_def addrs_usable_def all_usable_def own_ok_def GroupStatusCache_init_def list_all_iff)
qed

lemma proxy_reach_ok:
  assumes "proxy_reach env A own p" "own_ok own"
  shows "\<exists>L. proc_ok env A (own \<union> L) p \<and> (all_usable env A \<longrightarrow> L = {})"
  using assms(1)
proof induction
  case (start f)
  from StartWorker_ok [OF assms(2)] show ?case by (intro exI [of _ "{}"]) simp
next
  case (step p a p')
  then obtain L where L: "proc_ok env A (own \<union> L) p" "all_usable env A \<longrightarrow> L = {}" by blast
  from proxy_step_ok [OF step(2) L(1)] obtain L' where "proc_ok env A (own \<union> (L \<union> L')) p'" "all_usable env A \<longrightarrow> L' = {}"
    by (auto simp: Un_assoc)
  with L(2) show ?case by blast
qed

text \<open>
  C15: descriptors. However the threads and coroutines of the process interleave and whatever their system calls
  return, the descriptors that belong to connections, those that wait in the queue of a worker and the clients
  and servers of routines, are open, non-blocking and distinct, and none of those the process started with:
  so none is closed while it is used, closed twice, or served by two routines. A routine is free exactly when it has no
  client. When all addresses the proxy is configured with or gets from the binlog servers can be parsed, every
  descriptor that was opened since the start and is still open belongs to a connection; without that the socket
  of an address that cannot be parsed is lost.
\<close>

theorem descriptors_owned:
  assumes "proxy_reach env A own p" "0 \<in> own" "-1 \<notin> own"
  shows "distinct (owned_fds p) \<and> set (owned_fds p) \<subseteq> ft_open (pp_fds p) - own \<and> own \<subseteq> ft_open (pp_fds p) \<and>
    set (owned_fds p) \<subseteq> ft_nonblock (pp_fds p) \<and>
    (\<forall>wk\<in>set (pp_workers p). distinct (wk_stack wk) \<and>
      (\<forall>r<length (wk_routines wk). r \<in> set (wk_stack wk) \<longleftrightarrow> rt_client_fd (wk_routines wk ! r) = -1)) \<and>
    (usable_addr (pc_specified_master_ip (pe_cfg env)) \<and> (\<forall>ip\<in>A. usable_addr ip) \<longrightarrow> set (owned_fds p) = ft_open (pp_fds p) - own)"
proof -
  have "own_ok own" using assms(2,3) by (simp add: own_ok_def)
  from proxy_reach_ok [OF assms(1) this] obtain L where ok: "proc_ok env A (own \<union> L) p" and L: "all_usable env A \<longrightarrow> L = {}" by blast
  then have "\<forall>wk\<in>set (pp_workers p). worker_ok wk" by (simp add: proc_ok_def list_all_iff)
  with proc_okD [OF ok] L show ?thesis by (auto simp: worker_ok_def routine_ok_def all_usable_def)
qed

section \<open>No connection waits forever\<close>

definition rank :: "int \<Rightarrow> worker \<Rightarrow> nat" where
  "rank fd wk = 2 * length (takeWhile (\<lambda>x. x \<noteq> fd) (waiting_fds wk)) + of_bool (wk_buf wk = [])"

lemma rank_append:
  "fd \<in> set (waiting_fds wk) \<Longrightarrow> waiting_fds wk' = waiting_fds wk @ rest \<Longrightarrow> wk_buf wk' = wk_buf wk \<Longrightarrow> fd \<in> set (waiting_fds wk') \<and> rank fd wk' = rank fd wk"
  by (simp add: rank_def)

definition served :: "int \<Rightarrow> nat \<Rightarrow> 'f proxy_proc \<Rightarrow> bool" where
  "served fd w p \<longleftrightarrow> fd \<notin> ft_open (pp_fds p) \<or> (\<exists>rt\<in>set (wk_routines (pp_workers p ! w)). rt_client_fd rt = fd)"

lemma step_waiting:
  assumes "proxy_step env A p a p'" "proc_ok env A own p" "w < length (pp_workers p)" "fd \<in> set (waiting_fds (pp_workers p ! w))"
  shows "w < length (pp_workers p') \<and>
    (a = Dispatch w \<and> fd \<notin> set (waiting_fds (pp_workers p' ! w)) \<and> served fd w p' \<or>
     fd \<in> set (waiting_fds (pp_workers p' ! w)) \<and>
     (if a = Dispatch w \<or> a = Read w then rank fd (pp_workers p' ! w) < rank fd (pp_workers p ! w)
      else rank fd (pp_workers p' ! w) = rank fd (pp_workers p ! w)))"
  using assms(1)
proof cases
  case (accept fd' v c)
  show ?thesis
  proof (cases "fd' < 0")
    case True
    with accept assms(3,4) show ?thesis by (simp add: AcceptThread_turn_def)
  next
    case False
    with accept have n: "new_fd fd' (pp_fds p)" by simp
    from AcceptThread_turn_balanced [OF accept(5) n accept(4,3) proc_ok_worker(1) [OF assms(2) accept(3)] proc_okD(3) [OF assms(2)]]
    obtain wk rest where wk: "p' = p\<lparr>pp_workers := (pp_workers p)[v := wk], pp_fds := pp_fds p'\<rparr>"
      "wk_buf wk = wk_buf (pp_workers p ! v)" "waiting_fds wk = waiting_fds (pp_workers p ! v) @ rest" by (auto simp: waiting_fds_def)
    from wk(1) have "pp_workers p' = (pp_workers p)[v := wk]" by (metis proxy_proc.select_convs(1) proxy_proc.surjective proxy_proc.update_convs(1,2))
    moreover have "fd \<in> set (waiting_fds wk) \<and> rank fd wk = rank fd (pp_workers p ! w)" if "v = w"
      using rank_append [OF assms(4)] wk(2,3) that by blast
    ultimately show ?thesis using assms(3,4) accept(1) by (cases "v = w") simp_all
  qed
next
  case (read v pf wk)
  note r = Dispatcher_read_ok [OF read(8,6,7,4,5) proc_ok_worker(1) [OF assms(2) read(3)]]
  show ?thesis using read r assms(3,4) by (auto simp: nth_list_update rank_def)
next
  case (dispatch v uniq_id wk t)
  show ?thesis
  proof (cases "v = w")
    case True
    note wf = proc_ok_worker [OF assms(2) dispatch(3)]
    have "set (waiting_fds (pp_workers p ! v)) \<subseteq> ft_open (pp_fds p) - own" using wf(2) by (auto simp: worker_fds_def)
    with Dispatcher_dispatch_ok [OF dispatch(4) wf(1) proc_okD(3) [OF assms(2)]] proc_okD(1) [OF assms(2)]
    obtain x where x: "waiting_fds (pp_workers p ! w) = x # waiting_fds wk"
      "x \<notin> ft_open t \<or> (\<exists>r<length (wk_routines wk). rt_client_fd (wk_routines wk ! r) = x)" using True by blast
    have "distinct (waiting_fds (pp_workers p ! w))" using wf(3) True by (simp add: worker_fds_def)
    with x assms(3,4) dispatch True show ?thesis by (cases "x = fd") (auto simp: served_def rank_def)
  next
    case False
    with dispatch assms(3,4) show ?thesis by simp
  qed
next
  case (turn v wk r inp now_ms rt t gs f wk')
  then show ?thesis using assms(3,4) by (auto simp: nth_list_update AddIORoutine_def waiting_fds_def rank_def)
next
  case update
  with assms(3,4) show ?thesis by simp
qed

text \<open>
  A run of the process. Weak fairness of a worker: unless its dispatcher has nothing to do at some later time it
  takes a step.
\<close>

definition proxy_run :: "'f proxy_env \<Rightarrow> string set \<Rightarrow> int set \<Rightarrow> (nat \<Rightarrow> 'f proxy_proc) \<Rightarrow> (nat \<Rightarrow> act) \<Rightarrow> bool" where
  "proxy_run env A own \<sigma> acts \<longleftrightarrow> (\<exists>f. \<sigma> 0 = StartWorker env own f) \<and> (\<forall>i. proxy_step env A (\<sigma> i) (acts i) (\<sigma> (Suc i)))"

definition dispatcher_fair :: "nat \<Rightarrow> (nat \<Rightarrow> 'f proxy_proc) \<Rightarrow> (nat \<Rightarrow> act) \<Rightarrow> bool" where
  "dispatcher_fair w \<sigma> acts \<longleftrightarrow>
     (\<forall>i. (\<forall>j\<ge>i. waiting_fds (pp_workers (\<sigma> j) ! w) \<noteq> []) \<longrightarrow> (\<exists>j\<ge>i. acts j \<in> {Read w, Dispatch w}))"

lemma proxy_run_reach: "proxy_run env A own \<sigma> acts \<Longrightarrow> proxy_reach env A own (\<sigma> i)"
  by (induction i) (auto simp: proxy_run_def intro: proxy_reach.intros)

lemma proxy_run_ok:
  assumes "proxy_run env A own \<sigma> acts" "own_ok own"
  obtains L where "proc_ok env A (own \<union> L) (\<sigma> i)"
  using proxy_reach_ok [OF proxy_run_reach [OF assms(1)] assms(2)] by blast

lemma waits_until:
  assumes "proxy_run env A own \<sigma> acts" "own_ok own" "w < length (pp_workers (\<sigma> i))" "fd \<in> set (waiting_fds (pp_workers (\<sigma> i) ! w))"
    "\<forall>k. i \<le> k \<longrightarrow> k < i + n \<longrightarrow> acts k \<notin> {Read w, Dispatch w}"
  shows "w < length (pp_workers (\<sigma> (i + n))) \<and> fd \<in> set (waiting_fds (pp_workers (\<sigma> (i + n)) ! w)) \<and>
    rank fd (pp_workers (\<sigma> (i + n)) ! w) = rank fd (pp_workers (\<sigma> i) ! w)"
  using assms(5)
proof (induction n)
  case (Suc n)
  then have ih: "w < length (pp_workers (\<sigma> (i + n)))" "fd \<in> set (waiting_fds (pp_workers (\<sigma> (i + n)) ! w))"
    "rank fd (pp_workers (\<sigma> (i + n)) ! w) = rank fd (pp_workers (\<sigma> i) ! w)" by simp_all
  have step: "proxy_step env A (\<sigma> (i + n)) (acts (i + n)) (\<sigma> (Suc (i + n)))" using assms(1) by (simp add: proxy_run_def)
  obtain L where "proc_ok env A (own \<union> L) (\<sigma> (i + n))" by (rule proxy_run_ok [OF assms(1,2)])
  from step_waiting [OF step this ih(1,2)] Suc.prems ih(3) show ?case by auto
qed (use assms(3,4) in simp)

text \<open>
  C16: no accepted connection waits forever. In a run in which the dispatcher of a worker is not suspended forever
  while connections wait for it, every connection in its queue is taken out of it, and at that moment it is
  given to a routine of the worker or it is closed.
\<close>

theorem waiting_client_served:
  assumes "proxy_run env A own \<sigma> acts" "own_ok own" "dispatcher_fair w \<sigma> acts"
    "w < length (pp_workers (\<sigma> i))" "fd \<in> set (waiting_fds (pp_workers (\<sigma> i) ! w))"
  shows "\<exists>j\<ge>i. acts j = Dispatch w \<and> fd \<notin> set (waiting_fds (pp_workers (\<sigma> (Suc j)) ! w)) \<and> served fd w (\<sigma> (Suc j))"
  using assms(4,5)
proof (induction "rank fd (pp_workers (\<sigma> i) ! w)" arbitrary: i rule: less_induct)
  case less
  have "\<exists>n. acts (i + n) \<in> {Read w, Dispatch w}"
  proof (rule ccontr)
    assume no: "\<nexists>n. acts (i + n) \<in> {Read w, Dispatch w}"
    then have "waiting_fds (pp_workers (\<sigma> (i + n)) ! w) \<noteq> []" for n
      using waits_until [OF assms(1,2) less.prems, of n] by (metis empty_iff list.set(1) le_Suc_ex)
    then have "\<forall>j\<ge>i. waiting_fds (pp_workers (\<sigma> j) ! w) \<noteq> []" by (metis le_Suc_ex)
    with assms(3) no show False unfolding dispatcher_fair_def by (metis le_Suc_ex)
  qed
  then obtain n where n: "acts (i + n) \<in> {Read w, Dispatch w}" "\<forall>k<n. acts (i + k) \<notin> {Read w, Dispatch w}"
    using exists_least_iff [of "\<lambda>n. acts (i + n) \<in> {Read w, Dispatch w}"] by blast
  have "\<forall>k. i \<le> k \<longrightarrow> k < i + n \<longrightarrow> acts k \<notin> {Read w, Dispatch w}" using n(2) by (metis add_less_cancel_left le_Suc_ex)
  note at = waits_until [OF assms(1,2) less.prems this]
  have step: "proxy_step env A (\<sigma> (i + n)) (acts (i + n)) (\<sigma> (Suc (i + n)))" using assms(1) by (simp add: proxy_run_def)
  obtain L where "proc_ok env A (own \<union> L) (\<sigma> (i + n))" by (rule proxy_run_ok [OF assms(1,2)])
  from step_waiting [OF step this, of w fd] at n(1)
  consider "acts (i + n) = Dispatch w" "fd \<notin> set (waiting_fds (pp_workers (\<sigma> (Suc (i + n))) ! w))" "served fd w (\<sigma> (Suc (i + n)))"
    | "w < length (pp_workers (\<sigma> (Suc (i + n))))" "fd \<in> set (waiting_fds (pp_workers (\<sigma> (Suc (i + n))) ! w))"
      "rank fd (pp_workers (\<sigma> (Suc (i + n))) ! w) < rank fd (pp_workers (\<sigma> i) ! w)" by auto
  then show ?case
  proof cases
    case 1
    then show ?thesis by (metis le_add1)
  next
    case 2
    from less.hyps [OF 2(3,1,2)] show ?thesis by (metis add_leD1 le_SucI Suc_leD)
  qed
qed

subsection \<open>A run\<close>

text \<open>One connection is accepted, read and given to the only routine.\<close>

definition run_env :: "unit proxy_env" where
  "run_env = \<lparr>pe_cfg = proxy_cfg, pe_wc = proxy_wc\<lparr>wc_worker_thread_count := 1, wc_io_routine_count := 1\<rparr>,
     pe_filter = RequestFilter_CanExecute, pe_ntop6 = (\<lambda>_. []), pe_pton6 = (\<lambda>_. None)\<rparr>"

definition run_proc :: "worker \<Rightarrow> int set \<Rightarrow> unit proxy_proc" where
  "run_proc wk fds = \<lparr>pp_workers = [wk], pp_fds = \<lparr>ft_open = insert 0 fds, ft_nonblock = fds\<rparr>, pp_gs = GroupStatusCache_init, pp_filter = ()\<rparr>"

definition run_worker :: "nat list \<Rightarrow> io_routine \<Rightarrow> worker" where
  "run_worker stack rt = \<lparr>wk_routines = [rt], wk_stack = stack, wk_pipe = [], wk_buf = []\<rparr>"

definition run_state :: "nat \<Rightarrow> unit proxy_proc" where
  "run_state i =
     (if i = 0 then run_proc (run_worker [0] IORoutine_init) {}
      else if i = 1 then run_proc ((run_worker [0] IORoutine_init)\<lparr>wk_pipe := int_bytes 3\<rparr>) {3}
      else if i = 2 then run_proc ((run_worker [0] IORoutine_init)\<lparr>wk_buf := [3]\<rparr>) {3}
      else run_proc (run_worker [] (IORoutine_init\<lparr>rt_phase := Ph_header, rt_client_fd := 3\<rparr>)) {3})"

definition run_acts :: "nat \<Rightarrow> act" where
  "run_acts i = (if i = 0 then Accept 0 else if i = 1 then Read 0 else if i = 2 then Dispatch 0 else Update)"

lemma buffer_ints_Nil [simp]: "buffer_ints [] = []"
  by (simp add: buffer_ints.simps)

lemma run_own: "own_ok {0}"
  by (simp add: own_ok_def)

lemma run_start: "run_state 0 = StartWorker run_env {0} ()"
  by (simp add: run_state_def run_proc_def run_worker_def StartWorker_def run_env_def WorkerThread_start_stack InitRoutines_def)

lemma run_accept: "proxy_step run_env {[]} (run_state 0) (Accept 0) (run_state 1)"
proof (rule proxy_step.accept)
  let ?c = "\<lparr>wr_first = 4, wr_again1 = False, wr_poll = no_poll, wr_second = 0, wr_again2 = False\<rparr>"
  show "pair_write ?c" by (simp add: pair_write_def no_poll_def)
  show "(3 :: int) < 0 \<or> new_fd 3 (pp_fds (run_state 0))" by (simp add: new_fd_def run_state_def run_proc_def)
  show "AcceptThread_turn 3 0 ?c (run_state 0) = Some (run_state 1)"
    by (simp add: AcceptThread_turn_def AssignFD_def RoutineWriteWithTimeout_def run_state_def run_proc_def run_worker_def SetNonBlock_def fd_open_def insert_commute)
qed (simp add: run_state_def run_proc_def)

lemma run_read: "proxy_step run_env {[]} (run_state 1) (Read 0) (run_state 2)"
proof -
  have "int_bytes 3 \<noteq> []" using length_int_bytes [of 3] by (metis list.size(3) zero_neq_numeral)
  then have "proxy_step run_env {[]} (run_state 1) (Read 0)
      ((run_state 1)\<lparr>pp_workers := (pp_workers (run_state 1))[0 := (run_worker [0] IORoutine_init)\<lparr>wk_buf := [3]\<rparr>]\<rparr>)"
    by (intro proxy_step.read [where pf = "no_poll\<lparr>pr_ret := 1, pr_in := True\<rparr>"])
      (simp_all add: run_state_def run_proc_def run_worker_def Dispatcher_read_def RoutineReadWithTimeout_def buffer_ints_fd no_poll_def)
  then show ?thesis by (simp add: run_state_def run_proc_def)
qed

lemma run_dispatch: "proxy_step run_env {[]} (run_state 2) (Dispatch 0) (run_state 3)"
proof -
  let ?wk = "run_worker [] (IORoutine_init\<lparr>rt_phase := Ph_header, rt_client_fd := 3\<rparr>)"
  have "proxy_step run_env {[]} (run_state 2) (Dispatch 0)
      ((run_state 2)\<lparr>pp_workers := (pp_workers (run_state 2))[0 := ?wk], pp_fds := pp_fds (run_state 2)\<rparr>)"
    by (intro proxy_step.dispatch [where uniq_id = 0])
      (simp_all add: run_state_def run_proc_def run_worker_def Dispatcher_dispatch_def GetIORoutine_def SetClientFD_def ClearAll_def ReleaseFD_def
        IORoutine_init_def SetNonBlock_def)
  then show ?thesis by (simp add: run_state_def run_proc_def)
qed

lemma run_update: "proxy_step run_env {[]} p Update (p\<lparr>pp_gs := GroupStatusCache_init\<rparr>)"
  by (rule proxy_step.update) (simp add: GroupStatusCache_init_def)

lemma run_idle: "3 \<le> i \<Longrightarrow> proxy_step run_env {[]} (run_state i) Update (run_state (Suc i))"
  using run_update [of "run_state i"] by (simp add: run_state_def run_proc_def)

lemma run_proxy: "proxy_run run_env {[]} {0} run_state run_acts"
proof -
  have "proxy_step run_env {[]} (run_state i) (run_acts i) (run_state (Suc i))" for i
  proof -
    consider "i = 0" | "i = 1" | "i = 2" | "3 \<le> i" by linarith
    then show ?thesis
      using run_accept run_read run_dispatch run_idle by cases (simp_all add: run_acts_def numeral_2_eq_2 numeral_3_eq_3)
  qed
  with run_start show ?thesis by (auto simp: proxy_run_def)
qed

lemma run_fair: "dispatcher_fair 0 run_state run_acts"
proof -
  have "waiting_fds (pp_workers (run_state (i + 3)) ! 0) = []" for i
    by (simp add: run_state_def run_proc_def run_worker_def waiting_fds_def)
  then have "\<exists>j\<ge>i. waiting_fds (pp_workers (run_state j) ! 0) = []" for i by (metis le_add1)
  then show ?thesis by (auto simp: dispatcher_fair_def)
qed

theorem waiting_client_served_witness:
  "waiting_fds (pp_workers (run_state 1) ! 0) = [3] \<and> (\<exists>j. run_acts j = Dispatch 0 \<and> served 3 0 (run_state (Suc j)))"
proof -
  have "waiting_fds (pp_workers (run_state 1) ! 0) = [3]" "0 < length (pp_workers (run_state 1))"
    by (simp_all add: run_state_def run_proc_def run_worker_def waiting_fds_def buffer_ints_fd)
  with waiting_client_served [OF run_proxy run_own run_fair, of 1 3] show ?thesis by auto
qed

theorem descriptors_owned_witness:
  "owned_fds (run_state 3) = [3] \<and> set (owned_fds (run_state 3)) = ft_open (pp_fds (run_state 3)) - {0}"
proof -
  have "proxy_reach run_env {[]} {0} (run_state 0)" unfolding run_start by (rule proxy_reach.start)
  then have "proxy_reach run_env {[]} {0} (run_state 3)"
    by (blast intro: proxy_reach.step [OF _ run_accept] proxy_reach.step [OF _ run_read] proxy_reach.step [OF _ run_dispatch])
  from descriptors_owned [OF this] usable_local(2) show ?thesis
    by (simp add: run_env_def proxy_cfg_def run_state_def run_proc_def run_worker_def owned_fds_def worker_fds_def waiting_fds_def routine_fds_def IORoutine_init_def)
qed

section \<open>Failed connections\<close>

text \<open>The result of connecting is the one of the router without descriptors.\<close>

lemma Router_ConnectDest_refines:
  assumes "Router_ConnectDest env now gs fd c t rt = Some (ret, t', rt')" "0 \<le> fd"
  shows "case ConnectDest (pe_cfg env) (GetDestEndpoint env now gs) usable_addr (\<lambda>_. fst (the (RoutineConnectWithTimeout True c)) = 0) of
      Inl e \<Rightarrow> ret = e
    | Inr dest \<Rightarrow> ret = fd \<and> rt_connect_dest rt' = fst dest"
proof -
  have "IsNonBlock fd (SetNonBlock fd (fd_open fd t))" using assms(2) by (simp add: IsNonBlock_def SetNonBlock_def fd_open_def)
  with assms show ?thesis
    by (auto simp: Router_ConnectDest_def ConnectDest_def Let_def RoutineConnectWithTimeout_def split: sum.splits if_splits)
qed

text \<open>With an address that cannot be parsed the new socket stays open and belongs to nobody.\<close>

lemma unusable_address_leaks:
  assumes "GetDestEndpoint env now gs = Inr (ip, port)" "\<not> usable_addr ip" "\<not> pc_only_proxy (pe_cfg env)" "new_fd fd t"
  shows "Router_ConnectDest env now gs fd c t rt = Some (-76, t\<lparr>ft_open := insert fd (ft_open t)\<rparr>, rt)"
  using assms by (simp add: Router_ConnectDest_def fd_open_def new_fd_def Let_def)

lemma Router_ConnectDest_fails:
  assumes "Router_ConnectDest env now gs fd c t rt = Some (ret, t', rt')" "ret < 0" "0 \<le> fd"
  shows "rt' = rt"
  using assms by (auto simp: Router_ConnectDest_def Let_def bind_eq_Some_conv split: sum.splits if_splits)

text \<open>
  C37: a server that cannot be reached is not noted. The router remembers the address of a connection only once it
  is established, so after a failed attempt the state of the group, which holds the times of the failures, is
  what it was, and at the same time the next connection is sent to the same server again, although another
  member may be up.
\<close>

theorem dead_slave_chosen_again:
  assumes "IORoutine_turn env now_ms (In_connect now fd c) gs f t rt = Some (rt', t', gs', f')" "rt_phase rt = Ph_connect" "rt_connect_dest rt = []"
    "0 \<le> fd" "RoutineConnectWithTimeout True c = Some (ret, err)" "ret \<noteq> 0" "GetDestEndpoint env now gs = Inr (ip, port)"
  shows "rt_phase rt' = Ph_idle \<and> rt_client_fd rt' = -1 \<and> gs' = gs \<and> GetDestEndpoint env now gs' = Inr (ip, port)"
proof -
  obtain r t1 rt1 where c: "Router_ConnectDest env now gs fd c t rt = Some (r, t1, rt1)"
    using assms(1,2) by (auto simp: IORoutine_turn_def Let_def bind_eq_Some_conv)
  from Router_ConnectDest_refines [OF c assms(4)] have "r < 0"
    using assms(5,6) by (auto simp: ConnectDest_def assms(7) split: if_splits)
  with Router_ConnectDest_fails [OF c _ assms(4)] have "rt1 = rt" by simp
  with c \<open>r < 0\<close> assms(1,2) have "IORoutine_end env now_ms 0 gs t1 rt = (rt', t', gs')"
    by (auto simp: IORoutine_turn_def Let_def split: prod.splits)
  then have "gs' = gs" "rt_phase rt' = Ph_idle" "rt_client_fd rt' = -1"
    using assms(3) by (auto simp: IORoutine_end_def MarkFailure_def Slave_MarkFailure_def ClearAll_def ReleaseFD_def split: if_splits prod.splits)
  with assms(7) show ?thesis by simp
qed

definition slave_env :: "unit proxy_env" where
  "slave_env = run_env\<lparr>pe_wc := ReadSlaveWorkerConfig (\<lambda>_ d. d) ''10.0.0.1'' 54321\<rparr>"

theorem dead_slave_chosen_again_witness:
  "\<exists>rt t gs. IORoutine_turn slave_env 9 (In_connect 100 4 \<lparr>cn_ret = -1, cn_polls = [], cn_so_error = 0\<rparr>) proxy_gs ()
       \<lparr>ft_open = {0, 3}, ft_nonblock = {3}\<rparr> (IORoutine_init\<lparr>rt_phase := Ph_connect, rt_client_fd := 3\<rparr>) = Some (rt, t, gs, ()) \<and>
     gs = proxy_gs \<and> GetDestEndpoint slave_env 100 gs = Inr (''10.0.0.3'', 54322)"
proof -
  let ?c = "\<lparr>cn_ret = -1, cn_polls = [], cn_so_error = 0\<rparr> :: connect_calls" and ?t = "\<lparr>ft_open = {0, 3}, ft_nonblock = {3}\<rparr> :: fd_table"
    and ?rt = "IORoutine_init\<lparr>rt_phase := Ph_connect, rt_client_fd := 3\<rparr>"
  have d: "GetDestEndpoint slave_env 100 proxy_gs = Inr (''10.0.0.3'', 54322)"
    by (simp add: GetDestEndpoint_def slave_env_def run_env_def Slave_GetDestEndpoint_def ReadSlaveWorkerConfig_def Cache_GetMaster_def
        IsMasterValid_def GetSlave_def proxy_cfg_def proxy_gs_def GroupStatusCache_init_def Let_def)
  have "usable_addr ''10.0.0.3''" by code_simp
  moreover have "\<not> pc_only_proxy (pe_cfg slave_env)" by (simp add: slave_env_def run_env_def proxy_cfg_def)
  ultimately have "Router_ConnectDest slave_env 100 proxy_gs 4 ?c ?t ?rt = Some (-87, fd_close 4 (SetNonBlock 4 (fd_open 4 ?t)), ?rt)"
    by (simp add: Router_ConnectDest_def d fd_open_def SetNonBlock_def IsNonBlock_def
        RoutineConnectWithTimeout_def no_poll_def Let_def eval_nat_numeral)
  moreover obtain rt t gs where "IORoutine_end slave_env 9 0 proxy_gs (fd_close 4 (SetNonBlock 4 (fd_open 4 ?t))) ?rt = (rt, t, gs)"
    by (metis surj_pair)
  ultimately have "IORoutine_turn slave_env 9 (In_connect 100 4 ?c) proxy_gs () ?t ?rt = Some (rt, t, gs, ())"
    by (simp add: IORoutine_turn_def Let_def)
  from dead_slave_chosen_again [OF this _ _ _ _ _ d] this show ?thesis
    by (auto simp: IORoutine_init_def RoutineConnectWithTimeout_def no_poll_def eval_nat_numeral)
qed

end
