(* ===== verification/Spec2Isabelle.thy ===== *)
theory Spec2Isabelle
  imports Gtid Directories Replicas Recovery Failover Lease Repl Proxy_Header Phxsync Committed Tool Sql_Client Config Routines
begin

text \<open>
  PhxSQL keeps the binlogs of a group of MySQL servers the same. Every machine runs MySQL, a binlog server and a
  proxy. A plugin in MySQL sends the events of every group of transactions to the binlog server before they are
  committed; the binlog servers agree on the order of events and on one master by Paxos and store the events in
  files; the MySQL servers that are not the master fetch their events from the local binlog server, which speaks the
  replication protocol to them; a monitor in the binlog server makes its MySQL a master or a slave; the proxy passes connections
  of clients on to the master, or to a slave for connections that only read. A client library picks proxies.

  \<^bold>\<open>Common.\<close> \<^verbatim>\<open>Phx_Prelude\<close> has machine integers, sorted maps, byte strings, the codecs of messages, the result codes
  and the lemmas shared by all theories; \<^verbatim>\<open>Ordered_Sets\<close> the ordered containers of C++ with a user-defined order, as a
  locale that is interpreted for GTIDs and for file names. Errors \<^verbatim>\<open>-__LINE__\<close> of the source are the negated line numbers. A
  result \<open>None\<close> is a trap, an abort, or behaviour that C++ does not define. \<^verbatim>\<open>Phx_Utils\<close>, \<^verbatim>\<open>Posix_Files\<close> and \<^verbatim>\<open>Directories\<close>
  are \<^verbatim>\<open>phxcomm/utils/phx_utils.cpp\<close> and the part of POSIX the storage uses.

  \<^bold>\<open>Binlog server, storage\<close> (\<^verbatim>\<open>phxbinlogsvr/core/storage\<close>, \<^verbatim>\<open>core/mysql/gtid_handler.cpp\<close>). \<^verbatim>\<open>Gtid\<close> reads binlog events and GTIDs.
  \<^verbatim>\<open>Record_Storage\<close> is \<^verbatim>\<open>storage.cpp\<close>: records in a file, each behind its length. \<^verbatim>\<open>File_Manager\<close> is
  \<^verbatim>\<open>storage_file_manager.cpp\<close> and \<^verbatim>\<open>event_file_manager.cpp\<close>: a sequence of such files. \<^verbatim>\<open>Event_Index\<close> is
  \<^verbatim>\<open>event_index.cpp\<close> and \<^verbatim>\<open>event_uuid_handler.cpp\<close>; \<^verbatim>\<open>Event_Storage\<close>, \<^verbatim>\<open>Checkpoint\<close> and \<^verbatim>\<open>Master_Storage\<close> are the
  files of these names. The lemmas show that stored events are read back, that the storage refines a log, that only
  files behind a checkpoint are deleted, and, in \<^verbatim>\<open>Recovery\<close>, that a restart recovers the storage.

  \<^bold>\<open>Binlog server, agreement\<close> (\<^verbatim>\<open>core/paxos\<close>, \<^verbatim>\<open>core/handler\<close>, \<^verbatim>\<open>core/agent\<close>). \<^verbatim>\<open>Paxos_Node\<close> has the two state machines that
  execute chosen values and the agents that propose them. Paxos itself is the library phxpaxos: a parameter that
  executes a chosen sequence of values on every node. \<^verbatim>\<open>Replicas\<close> shows that nodes with the same sequence have the same state
  and that the storage is the log of accepted events, and that an event whose sender got the answer OK, or that it exists, is
  stored by the master; \<^verbatim>\<open>Lease\<close> that no two nodes are the master at one time.

  \<^bold>\<open>Binlog server, monitor\<close> (\<^verbatim>\<open>core/monitor\<close>, \<^verbatim>\<open>core/mysql\<close>). \<^verbatim>\<open>MySql\<close> has the commands that are sent to MySQL and what the manager
  makes of their results, \<^verbatim>\<open>Monitor\<close> the rounds of the agent monitor. \<^verbatim>\<open>Failover\<close> shows that a node becomes the master only
  when its MySQL has executed all events. What MySQL answers is a parameter.

  \<^bold>\<open>Binlog server, slaves and service\<close>. \<^verbatim>\<open>Net\<close> and \<^verbatim>\<open>Repl\<close> are \<^verbatim>\<open>phxcomm/net\<close> and \<^verbatim>\<open>core/repl\<close>: packages, the login of a slave and the
  rounds that send it events. \<^verbatim>\<open>Rpc\<close> is the service and its client (\<^verbatim>\<open>framework/rpccomm\<close>, \<^verbatim>\<open>framework/phxrpc/client\<close>), \<^verbatim>\<open>Tool\<close> the
  command line tool. The library of remote calls is a parameter.

  \<^bold>\<open>Plugin\<close> (\<^verbatim>\<open>phx_percona\<close>). \<^verbatim>\<open>Phxsync\<close> has the hook that sends the binlog and the one that cuts it before recovery;
  \<^verbatim>\<open>Group_Commit\<close> the stages of the commit of MySQL as a step relation over any number of threads; \<^verbatim>\<open>Committed\<close>
  shows for all interleavings that a committed transaction was sent to, and stored by, a master among the binlog servers before it
  was committed. This needs MySQL to stop on errors of the binlog (\<^verbatim>\<open>binlog_error_action = ABORT_SERVER\<close>); under the default,
  which ignores them, the theory shows a run that commits without sending. The cut before recovery drops events that no
  binlog server has only in the newest file with GTIDs. The files, the reader of events, the caches and the engines of
  MySQL are parameters.

  \<^bold>\<open>Proxy\<close> (\<^verbatim>\<open>phxsqlproxy\<close>). \<^verbatim>\<open>Token_Bucket\<close> and \<^verbatim>\<open>Freq_Control\<close> are the limits of requests, \<^verbatim>\<open>Proxy\<close> the status cache, routing
  and the check of requests, \<^verbatim>\<open>Proxy_Header\<close> the header with the address of a client, and \<^verbatim>\<open>Routines\<close> the accept threads, workers and
  coroutines with their descriptors, as a step relation. The lemmas show that requests that write reach only the
  master, that descriptors have one owner, and that a waiting client is served. The limits hold for requests that a
  process serves one after the other; the buckets have no lock, and threads that share one can exceed its limit.
  The sockets of the heart beat and of the status file are not among the descriptors.

  \<^bold>\<open>Client library and settings.\<close> \<^verbatim>\<open>Sql_Client\<close> is \<^verbatim>\<open>phxsqlclient\<close>, with a locale for strategies that pick an endpoint, interpreted for
  both strategies of the source. \<^verbatim>\<open>Ini\<close> and \<^verbatim>\<open>Config\<close> are \<^verbatim>\<open>phxcomm/configparser\<close> and the readers of settings.

  \<^bold>\<open>Bounds.\<close> Six loops over files of records have fuel, and are \<open>None\<close> without it. \<^verbatim>\<open>SFM_ReadData\<close> moves
  to a later file in every turn and gets one turn more than there are files. So does \<^verbatim>\<open>GetNewestCheckPoint\<close>, which moves back:
  this is enough for every run that ends, and it may not end. \<^verbatim>\<open>EventStorage::GetEvent\<close>,
  \<^verbatim>\<open>InitCheckPointDataFile\<close>, \<^verbatim>\<open>DelCheckPointFile\<close> and \<^verbatim>\<open>LoadFromCheckPointFileList\<close> read a record in every turn, and a record
  takes bytes, so they get one turn more than the files have bytes. The theorems on reading and on recovery state that these calls
  return. Loops that may not end are \<^verbatim>\<open>partial_function (option)\<close>: sending the binlog and asking for the newest GTID
  until a server answers, and waiting for a new master; the lemmas say when they return. Loops of threads are step
  relations. Numbers that can overflow are words of the width of the source.

  \<^bold>\<open>Not modelled.\<close> The rest of the sources of MySQL under \<^verbatim>\<open>phx_percona/percona/sql\<close> and its semi-synchronous plugin are
  the code of MySQL. Setting up sockets, starting threads and coroutines, file locks and logging are I/O around the
  functions that are modelled; the counters of statistics are empty functions. The main programs and the glue to the framework of
  remote calls pass buffers on. The readers of site settings need headers that are not in the repository.
  Build scripts, installers, tests and examples are not part of the running system. \<^verbatim>\<open>FakeClientIPInAuthBuf\<close> of the proxy
  is behind a flag that is never set.
\<close>

end
